(* ===== verification/Prelude.thy ===== *)
theory Prelude
  imports Complex_Main "HOL-Library.AList" "HOL-Library.Product_Lexorder"
begin

text \<open>
  Shared vocabulary of the development: the names of the model's basic types, the facts about
  Python dictionaries (association lists in insertion order), about tables (lists of rows with
  a key), and the generic transition system whose invariants the stateful components inherit.

  Conventions used by every theory:
  \<^item> a UUID, an identity, a backend name is a \<open>string\<close>, compared for equality only
    (\<open>str(uuid)\<close> is the identity);
  \<^item> a Python \<open>float\<close> is a \<open>real\<close>: rounding, NaN and infinities are not modelled;
  \<^item> a Python \<open>dict\<close> is an association list updated by \<open>AList.update\<close> (a new key
    goes last, an old key keeps its place, as in Python) and \<open>AList.delete\<close>;
  \<^item> a database table is the list of its rows in insertion order; \<open>query.first()\<close> is
    \<open>List.find\<close>, and statements about it use keys wherever the code has no ORDER BY.
\<close>

type_synonym uuid = string
type_synonym ('k, 'v) dict = "('k \<times> 'v) list"

named_theorems table_simps
named_theorems frame_simps

section \<open>Dictionaries\<close>

abbreviation dict_get :: "('k, 'v) dict \<Rightarrow> 'k \<Rightarrow> 'v option" where
  "dict_get d k \<equiv> map_of d k"

abbreviation dict_set :: "'k \<Rightarrow> 'v \<Rightarrow> ('k, 'v) dict \<Rightarrow> ('k, 'v) dict" where
  "dict_set k v d \<equiv> AList.update k v d"

abbreviation dict_pop :: "'k \<Rightarrow> ('k, 'v) dict \<Rightarrow> ('k, 'v) dict" where
  "dict_pop k d \<equiv> AList.delete k d"

abbreviation dict_keys :: "('k, 'v) dict \<Rightarrow> 'k list" where
  "dict_keys d \<equiv> map fst d"

definition dict_wf :: "('k, 'v) dict \<Rightarrow> bool" where
  "dict_wf d \<longleftrightarrow> distinct (dict_keys d)"

lemma dict_get_set [simp]: "dict_get (dict_set k v d) k' = (if k' = k then Some v else dict_get d k')"
  by (simp add: update_conv')

lemma dict_get_pop [simp]: "dict_get (dict_pop k d) k' = (if k' = k then None else dict_get d k')"
  by (simp add: delete_conv')

lemma dict_wf_Nil [simp, intro]: "dict_wf []"
  by (simp add: dict_wf_def)

lemma dict_wf_set [intro]: "dict_wf d \<Longrightarrow> dict_wf (dict_set k v d)"
  by (simp add: dict_wf_def distinct_update)

lemma dict_wf_pop [intro]: "dict_wf d \<Longrightarrow> dict_wf (dict_pop k d)"
  by (simp add: dict_wf_def distinct_delete)

lemma dict_keys_set [simp]: "set (dict_keys (dict_set k v d)) = insert k (set (dict_keys d))"
  by (simp add: dom_update)

lemma dict_keys_pop [simp]: "set (dict_keys (dict_pop k d)) = set (dict_keys d) - {k}"
  by (simp add: delete_keys)

lemma dict_set_new: "k \<notin> fst ` set d \<Longrightarrow> dict_set k v d = d @ [(k, v)]"
  by (induction d) auto

lemma dict_mem_keys: "k \<in> set (dict_keys d) \<longleftrightarrow> dict_get d k \<noteq> None"
  by (simp add: map_of_eq_None_iff image_iff)

lemma dict_items_iff: "dict_wf d \<Longrightarrow> (k, v) \<in> set d \<longleftrightarrow> dict_get d k = Some v"
  by (simp add: dict_wf_def)

section \<open>Tables\<close>

definition keyed :: "('r \<Rightarrow> 'k) \<Rightarrow> 'r list \<Rightarrow> bool" where
  "keyed key rows \<longleftrightarrow> distinct (map key rows)"

definition find_row :: "('r \<Rightarrow> 'k) \<Rightarrow> 'k \<Rightarrow> 'r list \<Rightarrow> 'r option" where
  "find_row key k rows = List.find (\<lambda>r. key r = k) rows"

definition update_rows :: "('r \<Rightarrow> bool) \<Rightarrow> ('r \<Rightarrow> 'r) \<Rightarrow> 'r list \<Rightarrow> 'r list" where
  "update_rows p f rows = map (\<lambda>r. if p r then f r else r) rows"

definition delete_rows :: "('r \<Rightarrow> bool) \<Rightarrow> 'r list \<Rightarrow> 'r list" where
  "delete_rows p rows = filter (\<lambda>r. \<not> p r) rows"

lemma keyed_Nil [simp, intro]: "keyed key []"
  by (simp add: keyed_def)

lemma keyed_single [simp]: "keyed key [r]"
  by (simp add: keyed_def)

lemma keyed_snoc [table_simps]: "keyed key (rows @ [r]) \<longleftrightarrow> keyed key rows \<and> key r \<notin> key ` set rows"
  by (auto simp: keyed_def)

lemma keyed_append [table_simps]:
  "keyed key (rows @ new) \<longleftrightarrow>
     keyed key rows \<and> keyed key new \<and> key ` set rows \<inter> key ` set new = {}"
  by (auto simp: keyed_def)

lemma keyed_delete [intro]: "keyed key rows \<Longrightarrow> keyed key (delete_rows p rows)"
  by (simp add: keyed_def delete_rows_def distinct_map_filter)

lemma keyed_filter [intro]: "keyed key rows \<Longrightarrow> keyed key (filter p rows)"
  by (simp add: keyed_def distinct_map_filter)

lemma keyed_update [intro]:
  assumes "keyed key rows" and "\<And>r. key (f r) = key r"
  shows "keyed key (update_rows p f rows)"
proof -
  have "map key (update_rows p f rows) = map key rows"
    using assms(2) by (auto simp: update_rows_def)
  with assms(1) show ?thesis by (simp add: keyed_def)
qed

lemma keyed_inj: "keyed key rows \<Longrightarrow> r \<in> set rows \<Longrightarrow> r' \<in> set rows \<Longrightarrow> key r = key r' \<Longrightarrow> r = r'"
  by (auto simp: keyed_def distinct_map dest: inj_onD)

lemma find_row_Some_in: "find_row key k rows = Some r \<Longrightarrow> r \<in> set rows \<and> key r = k"
  by (auto simp: find_row_def find_Some_iff)

lemma find_row_None_iff [table_simps]: "find_row key k rows = None \<longleftrightarrow> k \<notin> key ` set rows"
  by (auto simp: find_row_def find_None_iff)

lemma find_row_keyed:
  assumes "keyed key rows"
  shows "find_row key k rows = Some r \<longleftrightarrow> r \<in> set rows \<and> key r = k"
proof
  assume "r \<in> set rows \<and> key r = k"
  moreover from this obtain r' where "find_row key k rows = Some r'"
    by (cases "find_row key k rows") (auto simp: find_row_None_iff)
  ultimately show "find_row key k rows = Some r"
    using assms by (auto dest!: find_row_Some_in dest: keyed_inj)
qed (auto dest: find_row_Some_in)

lemma set_delete_rows [simp]: "set (delete_rows p rows) = {r \<in> set rows. \<not> p r}"
  by (simp add: delete_rows_def)

lemma set_update_rows: "set (update_rows p f rows) = (\<lambda>r. if p r then f r else r) ` set rows"
  by (simp add: update_rows_def)

lemma update_rows_Nil [simp]: "update_rows p f [] = []"
  and update_rows_Cons [simp]:
    "update_rows p f (r # rows) = (if p r then f r else r) # update_rows p f rows"
  and delete_rows_Nil [simp]: "delete_rows p [] = []"
  and delete_rows_Cons [simp]:
    "delete_rows p (r # rows) = (if p r then delete_rows p rows else r # delete_rows p rows)"
  by (simp_all add: update_rows_def delete_rows_def)

lemma length_update_rows [simp]: "length (update_rows p f rows) = length rows"
  by (simp add: update_rows_def)

section \<open>Lists\<close>

definition last_opt :: "'a list \<Rightarrow> 'a option" where
  "last_opt xs = (if xs = [] then None else Some (last xs))"

lemma last_opt_Nil [simp]: "last_opt [] = None"
  and last_opt_snoc [simp]: "last_opt (xs @ [x]) = Some x"
  by (simp_all add: last_opt_def)

lemma last_opt_None_iff [simp]: "last_opt xs = None \<longleftrightarrow> xs = []"
  by (simp add: last_opt_def)

lemma last_opt_map: "last_opt (map f xs) = map_option f (last_opt xs)"
  by (simp add: last_opt_def last_map)

lemma find_append: "List.find p (xs @ ys) = (case List.find p xs of None \<Rightarrow> List.find p ys | Some x \<Rightarrow> Some x)"
  by (induction xs) auto

lemma find_Some_in: "List.find p xs = Some x \<Longrightarrow> x \<in> set xs \<and> p x"
  by (auto simp: find_Some_iff)

lemma find_cong_map:
  "(\<And>x. x \<in> set xs \<Longrightarrow> p (f x) = p x) \<Longrightarrow> List.find p (map f xs) = map_option f (List.find p xs)"
  by (induction xs) auto

section \<open>Transition systems\<close>

text \<open>
  A component with state is a step relation and its start states. What every step keeps holds
  in every reachable state; the components interpret this locale on their own relation.
\<close>

inductive reaches :: "('s \<Rightarrow> 's \<Rightarrow> bool) \<Rightarrow> 's \<Rightarrow> 's \<Rightarrow> bool" for step where
  reaches_refl: "reaches step s s"
| reaches_step: "reaches step s t \<Longrightarrow> step t u \<Longrightarrow> reaches step s u"

lemma reaches_trans: "reaches step t u \<Longrightarrow> reaches step s t \<Longrightarrow> reaches step s u"
  by (induction rule: reaches.induct) (auto intro: reaches.intros)

locale invariant_system =
  fixes step :: "'s \<Rightarrow> 's \<Rightarrow> bool"
    and inv :: "'s \<Rightarrow> bool"
  assumes step_inv: "step s t \<Longrightarrow> inv s \<Longrightarrow> inv t"
begin

lemma reaches_inv: "reaches step s t \<Longrightarrow> inv s \<Longrightarrow> inv t"
  by (induction rule: reaches.induct) (auto intro: step_inv)

lemma reaches_never:
  assumes "reaches step s t" and "inv s" and "\<And>u. inv u \<Longrightarrow> \<not> bad u"
  shows "\<not> bad t"
  using assms reaches_inv by blast

end

end
