(* ===== verification/Errors.thy ===== *)
theory Errors
  imports Prelude
begin

text \<open>
  The exceptions of the program as one datatype: \<open>wazo_chatd/exceptions.py\<close>,
  \<open>plugins/connectors/exceptions.py\<close>, \<open>plugins/rooms/exceptions.py\<close>,
  \<open>plugins/presences/validator.py\<close>, and those of the libraries the code catches by class
  (KeyError, ValueError, TypeError, requests, SQLAlchemy, OSError). \<open>api_error\<close> gives what an
  \<open>APIException\<close> carries to the HTTP client: status, error id, details, resource. The human
  readable message is not modelled.
\<close>

datatype exn =
    ConnectorSendError string
  | ConnectorRateLimited string real
  | ConnectorParseError
  | ConnectorTransientError
  | NoCommonConnectorException
  | MessageIdentityRequiredException
  | InvalidIdentityException string
  | InvalidIdentityFormatException string string string
  | UnknownBackendException string
  | NoSuchConnectorException string
  | ConnectorIdentitiesNotSupportedException string
  | ConnectorIdentitiesUnavailableException string
  | BackendNotConfiguredException string string
  | AuthServiceUnavailableException
  | ConnectorAuthException
  | WebhookParseException
  | WebhookTransientException
  | UnreachableParticipantException string string
  | UnknownUserException uuid
  | UnknownTenantException uuid
  | UnknownSessionException uuid
  | UnknownRefreshTokenException string uuid
  | UnknownLineException int
  | UnknownEndpointException string
  | UnknownRoomException uuid
  | UnknownUserIdentityException uuid
  | DuplicateIdentityException string string string
  | DuplicateExternalIdException string string
  | DuplicateUserException
  | NotInitializedException
  | KeyError string
  | ValueError string
  | TypeError string
  | NotImplementedError
  | RuntimeError string
  | HTTPError "int option"
  | ReadTimeout
  | RequestException
  | IntegrityError bool
  | StaleDataError
  | SQLAlchemyError
  | OSError
  | OtherException string

abbreviation ValidationError :: exn where
  "ValidationError \<equiv> OtherException ''ValidationError''"

text \<open>
  The subclass tests of the \<open>except\<close> clauses. \<open>IntegrityError b\<close> is SQLAlchemy's, with
  \<open>b\<close> for \<open>pgcode == '23505'\<close> (unique violation); it and \<open>StaleDataError\<close> are
  \<open>SQLAlchemyError\<close>s; \<open>HTTPError\<close> and \<open>ReadTimeout\<close> are \<open>RequestException\<close>s,
  which are \<open>OSError\<close>s.
\<close>

fun is_sqlalchemy_error :: "exn \<Rightarrow> bool" where
  "is_sqlalchemy_error (IntegrityError _) = True"
| "is_sqlalchemy_error StaleDataError = True"
| "is_sqlalchemy_error SQLAlchemyError = True"
| "is_sqlalchemy_error _ = False"

fun is_request_exception :: "exn \<Rightarrow> bool" where
  "is_request_exception (HTTPError _) = True"
| "is_request_exception ReadTimeout = True"
| "is_request_exception RequestException = True"
| "is_request_exception _ = False"

definition is_os_error :: "exn \<Rightarrow> bool" where
  "is_os_error e \<longleftrightarrow> e = OSError \<or> is_request_exception e"

section \<open>What an API exception carries\<close>

record api_error =
  ae_status :: int
  ae_id :: string
  ae_details :: "(string, string) dict"
  ae_resource :: string

text \<open>\<open>plugins/connectors/exceptions.py\<close>.\<close>

fun connector_api_error :: "exn \<Rightarrow> api_error option" where
  "connector_api_error NoCommonConnectorException =
     Some \<lparr>ae_status = 409, ae_id = ''no-common-connector'', ae_details = [], ae_resource = ''rooms''\<rparr>"
| "connector_api_error MessageIdentityRequiredException =
     Some \<lparr>ae_status = 409, ae_id = ''message-identity-required'', ae_details = [],
           ae_resource = ''messages''\<rparr>"
| "connector_api_error (InvalidIdentityException u) =
     Some \<lparr>ae_status = 400, ae_id = ''invalid-identity'', ae_details = [(''identity_uuid'', u)],
           ae_resource = ''messages''\<rparr>"
| "connector_api_error (InvalidIdentityFormatException i b r) =
     Some \<lparr>ae_status = 400, ae_id = ''invalid-identity-format'',
           ae_details = [(''identity'', i), (''backend'', b), (''reason'', r)],
           ae_resource = ''identities''\<rparr>"
| "connector_api_error (UnknownBackendException b) =
     Some \<lparr>ae_status = 400, ae_id = ''unknown-backend'', ae_details = [(''backend'', b)],
           ae_resource = ''identities''\<rparr>"
| "connector_api_error (NoSuchConnectorException b) =
     Some \<lparr>ae_status = 404, ae_id = ''no-such-connector'', ae_details = [(''backend'', b)],
           ae_resource = ''connectors''\<rparr>"
| "connector_api_error (ConnectorIdentitiesNotSupportedException b) =
     Some \<lparr>ae_status = 501, ae_id = ''connector-identities-not-supported'',
           ae_details = [(''backend'', b)], ae_resource = ''connectors''\<rparr>"
| "connector_api_error (ConnectorIdentitiesUnavailableException b) =
     Some \<lparr>ae_status = 502, ae_id = ''connector-identities-unavailable'',
           ae_details = [(''backend'', b)], ae_resource = ''connectors''\<rparr>"
| "connector_api_error (BackendNotConfiguredException b t) =
     Some \<lparr>ae_status = 400, ae_id = ''backend-not-configured'',
           ae_details = [(''backend'', b), (''tenant_uuid'', t)], ae_resource = ''identities''\<rparr>"
| "connector_api_error AuthServiceUnavailableException =
     Some \<lparr>ae_status = 503, ae_id = ''wazo-auth-unreachable'', ae_details = [],
           ae_resource = ''identities''\<rparr>"
| "connector_api_error ConnectorAuthException =
     Some \<lparr>ae_status = 401, ae_id = ''connector-signature-invalid'', ae_details = [],
           ae_resource = ''connectors''\<rparr>"
| "connector_api_error WebhookParseException =
     Some \<lparr>ae_status = 400, ae_id = ''webhook-parse-error'', ae_details = [],
           ae_resource = ''connectors''\<rparr>"
| "connector_api_error WebhookTransientException =
     Some \<lparr>ae_status = 503, ae_id = ''webhook-transient'', ae_details = [],
           ae_resource = ''connectors''\<rparr>"
| "connector_api_error (UnreachableParticipantException p c) =
     Some \<lparr>ae_status = 409, ae_id = ''unreachable-participant'',
           ae_details = [(''participant'', p), (''connector_type'', c)], ae_resource = ''rooms''\<rparr>"
| "connector_api_error _ = None"

text \<open>
  \<open>wazo_chatd/exceptions.py\<close>. The details of \<open>UnknownLineException\<close> hold the line's
  integer id, which the string dictionary of the model leaves out.
\<close>

fun core_api_error :: "exn \<Rightarrow> api_error option" where
  "core_api_error (UnknownUserException u) =
     Some \<lparr>ae_status = 404, ae_id = ''unknown-user'', ae_details = [(''uuid'', u)],
           ae_resource = ''users''\<rparr>"
| "core_api_error (UnknownTenantException u) =
     Some \<lparr>ae_status = 404, ae_id = ''unknown-tenant'', ae_details = [(''uuid'', u)],
           ae_resource = ''tenants''\<rparr>"
| "core_api_error (UnknownSessionException u) =
     Some \<lparr>ae_status = 404, ae_id = ''unknown-session'', ae_details = [(''uuid'', u)],
           ae_resource = ''sessions''\<rparr>"
| "core_api_error (UnknownRefreshTokenException c u) =
     Some \<lparr>ae_status = 404, ae_id = ''unknown-refresh_token'',
           ae_details = [(''client_id'', c), (''user_uuid'', u)], ae_resource = ''refresh_tokens''\<rparr>"
| "core_api_error (UnknownLineException i) =
     Some \<lparr>ae_status = 404, ae_id = ''unknown-line'', ae_details = [], ae_resource = ''lines''\<rparr>"
| "core_api_error (UnknownEndpointException n) =
     Some \<lparr>ae_status = 404, ae_id = ''unknown-endpoint'', ae_details = [(''name'', n)],
           ae_resource = ''endpoints''\<rparr>"
| "core_api_error (UnknownRoomException u) =
     Some \<lparr>ae_status = 404, ae_id = ''unknown-room'', ae_details = [(''uuid'', u)],
           ae_resource = ''rooms''\<rparr>"
| "core_api_error (UnknownUserIdentityException u) =
     Some \<lparr>ae_status = 404, ae_id = ''unknown-user-identity'', ae_details = [(''uuid'', u)],
           ae_resource = ''identities''\<rparr>"
| "core_api_error (DuplicateIdentityException b i t) =
     Some \<lparr>ae_status = 409, ae_id = ''duplicate-identity'',
           ae_details = [(''backend'', b), (''identity'', i), (''type'', t)],
           ae_resource = ''identities''\<rparr>"
| "core_api_error _ = None"

text \<open>\<open>plugins/rooms/exceptions.py\<close> and \<open>plugins/presences/validator.py\<close>.\<close>

definition duplicate_user_error :: api_error where
  "duplicate_user_error =
     \<lparr>ae_status = 400, ae_id = ''duplicate-user'', ae_details = [], ae_resource = ''rooms''\<rparr>"

definition is_api_exception :: "exn \<Rightarrow> bool" where
  "is_api_exception e \<longleftrightarrow>
     connector_api_error e \<noteq> None \<or> core_api_error e \<noteq> None \<or>
     e = DuplicateUserException \<or> e = NotInitializedException"

end
