(* ===== verification/Hooks.thy ===== *)
theory Hooks
  imports Errors
begin

text \<open>
  \<open>plugin_helpers/hooks.py\<close>: named lists of callbacks. A callback is a state transformer that
  may raise; \<open>dispatch\<close> runs the callbacks in registration order and either swallows an
  exception or, with \<open>allow_raise\<close>, stops at it.
\<close>

type_synonym 's callback = "'s \<Rightarrow> (exn + unit) \<times> 's"

type_synonym 's subscribers = "(string, 's callback list) dict"

definition register_hook :: "string \<Rightarrow> 's callback \<Rightarrow> 's subscribers \<Rightarrow> 's subscribers" where
  "register_hook name callback subs =
     dict_set name ((case dict_get subs name of None \<Rightarrow> [] | Some cs \<Rightarrow> cs) @ [callback]) subs"

definition has_subscribers :: "string \<Rightarrow> 's subscribers \<Rightarrow> bool" where
  "has_subscribers name subs \<longleftrightarrow> dict_get subs name \<noteq> None"

fun run_callbacks :: "bool \<Rightarrow> 's callback list \<Rightarrow> 's \<Rightarrow> (exn + unit) \<times> 's" where
  "run_callbacks allow_raise [] s = (Inr (), s)"
| "run_callbacks allow_raise (c # cs) s =
     (case c s of
        (Inr _, s') \<Rightarrow> run_callbacks allow_raise cs s'
      | (Inl e, s') \<Rightarrow> if allow_raise then (Inl e, s') else run_callbacks allow_raise cs s')"

definition dispatch_hook ::
  "string \<Rightarrow> bool \<Rightarrow> 's subscribers \<Rightarrow> 's \<Rightarrow> (exn + unit) \<times> 's" where
  "dispatch_hook name allow_raise subs s =
     run_callbacks allow_raise (case dict_get subs name of None \<Rightarrow> [] | Some cs \<Rightarrow> cs) s"

lemma dispatch_unregistered [simp]:
  "\<not> has_subscribers name subs \<Longrightarrow> dispatch_hook name allow_raise subs s = (Inr (), s)"
  by (simp add: dispatch_hook_def has_subscribers_def)

lemma has_subscribers_register [simp]:
  "has_subscribers n (register_hook name c subs) \<longleftrightarrow> n = name \<or> has_subscribers n subs"
  by (auto simp: has_subscribers_def register_hook_def)

lemma run_callbacks_append:
  "run_callbacks r (cs @ ds) s =
     (case run_callbacks r cs s of (Inl e, s') \<Rightarrow> (Inl e, s') | (Inr _, s') \<Rightarrow> run_callbacks r ds s')"
  by (induction cs arbitrary: s) (auto split: prod.splits sum.splits)

lemma dispatch_register:
  "dispatch_hook name r (register_hook name c subs) s =
     (case dispatch_hook name r subs s of
        (Inl e, s') \<Rightarrow> (Inl e, s') | (Inr _, s') \<Rightarrow> run_callbacks r [c] s')"
  by (simp add: dispatch_hook_def register_hook_def run_callbacks_append)

lemma run_callbacks_no_raise: "\<exists>s'. run_callbacks False cs s = (Inr (), s')"
proof (induction cs arbitrary: s)
  case (Cons c cs)
  then show ?case by (cases "c s"; cases "fst (c s)") auto
qed simp

lemma run_callbacks_all:
  "\<forall>c \<in> set cs. \<forall>s. \<exists>s'. c s = (Inr (), s') \<Longrightarrow>
     run_callbacks r cs s = (Inr (), fold (\<lambda>c s. snd (c s)) cs s)"
proof (induction cs arbitrary: s)
  case (Cons c cs)
  then obtain s' where "c s = (Inr (), s')" by fastforce
  with Cons show ?case by simp
qed simp

end
