(* ===== verification/Models.thy ===== *)
theory Models
  imports Errors
begin

text \<open>
  The relational schema: \<open>wazo_chatd/database/models.py\<close> (one record per mapped class, CHECK
  constraints as datatypes), \<open>wazo_chatd/database/delivery.py\<close> (the delivery life cycle), and
  the \<open>database\<close> record that holds the tables. Foreign keys are values; their ON DELETE
  behaviour is the cascade functions below; the constraints are the predicates \<open>presence_ok\<close>
  and \<open>chat_ok\<close>, which the queries keep.
\<close>

section \<open>Delivery life cycle (database/delivery.py)\<close>

datatype DeliveryStatus = PENDING | ACCEPTED | SENT | DELIVERED | FAILED | RETRYING | DEAD_LETTER

primrec DeliveryStatus_value :: "DeliveryStatus \<Rightarrow> string" where
  "DeliveryStatus_value PENDING = ''pending''"
| "DeliveryStatus_value ACCEPTED = ''accepted''"
| "DeliveryStatus_value SENT = ''sent''"
| "DeliveryStatus_value DELIVERED = ''delivered''"
| "DeliveryStatus_value FAILED = ''failed''"
| "DeliveryStatus_value RETRYING = ''retrying''"
| "DeliveryStatus_value DEAD_LETTER = ''dead_letter''"

lemma DeliveryStatus_value_inject [simp]:
  "DeliveryStatus_value a = DeliveryStatus_value b \<longleftrightarrow> a = b"
  by (cases a; cases b) simp_all

section \<open>Presence tables\<close>

datatype user_state = UserAvailable | UserUnavailable | UserInvisible | UserAway

datatype endpoint_state = EndpointAvailable | EndpointUnavailable

datatype channel_state = Undefined | Holding | Ringing | Talking | Progressing

datatype line_media = Audio | Video

record Tenant =
  tn_uuid :: uuid

record User =
  us_uuid :: uuid
  us_tenant_uuid :: uuid
  us_state :: user_state
  us_status :: "string option"
  us_do_not_disturb :: bool
  us_last_activity :: "int option"

record Session =
  se_uuid :: uuid
  se_mobile :: bool
  se_user_uuid :: uuid

record RefreshToken =
  rt_client_id :: string
  rt_user_uuid :: uuid
  rt_mobile :: bool

record Line =
  ln_id :: int
  ln_user_uuid :: uuid
  ln_endpoint_name :: "string option"
  ln_media :: "line_media option"

record Endpoint =
  ep_name :: string
  ep_state :: endpoint_state

record Channel =
  ch_name :: string
  ch_state :: channel_state
  ch_line_id :: int

section \<open>Chat tables\<close>

text \<open>
  Message bodies are lists of code points, because the echo signature looks at the characters
  of the body; a \<open>RoomUser\<close> lives in the \<open>users\<close> relationship of its room.
\<close>

type_synonym body = "nat list"

record RoomUser =
  ru_uuid :: uuid
  ru_tenant_uuid :: "uuid option"
  ru_wazo_uuid :: "uuid option"
  ru_identity :: "string option"

record Room =
  ro_uuid :: uuid
  ro_name :: "string option"
  ro_tenant_uuid :: uuid
  ro_users :: "RoomUser list"

record RoomMessage =
  rm_uuid :: uuid
  rm_room_uuid :: uuid
  rm_content :: "body option"
  rm_alias :: "string option"
  rm_user_uuid :: uuid
  rm_tenant_uuid :: uuid
  rm_wazo_uuid :: uuid
  rm_created_at :: int

text \<open>JSON values; a float is the text \<open>str\<close> gives it.\<close>

datatype json =
    JNull
  | JBool bool
  | JInt int
  | JFloat string
  | JStr string
  | JList "json list"
  | JDict "(string \<times> json) list"

record UserIdentity =
  ui_uuid :: uuid
  ui_tenant_uuid :: uuid
  ui_user_uuid :: uuid
  ui_backend :: string
  ui_type :: string
  ui_identity :: string
  ui_extra :: "(string, json) dict"

record MessageMeta =
  mm_message_uuid :: uuid
  mm_sender_identity_uuid :: "uuid option"
  mm_extra :: "(string, string) dict"

record MessageDelivery =
  md_id :: nat
  md_message_uuid :: uuid
  md_recipient_identity :: string
  md_backend :: string
  md_type :: string
  md_external_id :: "string option"
  md_retry_count :: int

record DeliveryRecord =
  dr_id :: nat
  dr_delivery_id :: nat
  dr_status :: DeliveryStatus
  dr_reason :: "string option"
  dr_timestamp :: int

record database =
  tenants :: "Tenant list"
  users :: "User list"
  sessions :: "Session list"
  refresh_tokens :: "RefreshToken list"
  lines :: "Line list"
  endpoints :: "Endpoint list"
  channels :: "Channel list"
  rooms :: "Room list"
  room_messages :: "RoomMessage list"
  message_metas :: "MessageMeta list"
  message_deliveries :: "MessageDelivery list"
  delivery_records :: "DeliveryRecord list"
  user_identities :: "UserIdentity list"
  next_delivery_id :: nat
  next_record_id :: nat

definition empty_db :: database where
  "empty_db = \<lparr>tenants = [], users = [], sessions = [], refresh_tokens = [], lines = [],
     endpoints = [], channels = [], rooms = [], room_messages = [], message_metas = [],
     message_deliveries = [], delivery_records = [], user_identities = [],
     next_delivery_id = 1, next_record_id = 1\<rparr>"

section \<open>Relationships and derived attributes\<close>

text \<open>\<open>MessageDelivery.records\<close> is ordered by (timestamp, id); \<open>status\<close> is the last one's.\<close>

definition record_key :: "DeliveryRecord \<Rightarrow> int \<times> nat" where
  "record_key r = (dr_timestamp r, dr_id r)"

definition delivery_log :: "database \<Rightarrow> nat \<Rightarrow> DeliveryRecord list" where
  "delivery_log db i = filter (\<lambda>r. dr_delivery_id r = i) (delivery_records db)"

definition records_of :: "database \<Rightarrow> nat \<Rightarrow> DeliveryRecord list" where
  "records_of db i = sort_key record_key (delivery_log db i)"

definition status_of :: "database \<Rightarrow> nat \<Rightarrow> DeliveryStatus option" where
  "status_of db i = map_option dr_status (last_opt (records_of db i))"

text \<open>The SQL side of the hybrid property: ORDER BY timestamp DESC, id DESC LIMIT 1.\<close>

definition status_expression :: "database \<Rightarrow> nat \<Rightarrow> DeliveryStatus option" where
  "status_expression db i =
     (case rev (sort_key record_key (delivery_log db i)) of [] \<Rightarrow> None | r # _ \<Rightarrow> Some (dr_status r))"

definition updated_at :: "database \<Rightarrow> nat \<Rightarrow> int option" where
  "updated_at db i = map_option dr_timestamp (last_opt (records_of db i))"

definition meta_deliveries :: "database \<Rightarrow> uuid \<Rightarrow> MessageDelivery list" where
  "meta_deliveries db m =
     sort_key md_id (filter (\<lambda>d. md_message_uuid d = m) (message_deliveries db))"

definition meta_backend :: "database \<Rightarrow> uuid \<Rightarrow> string option" where
  "meta_backend db m = (case meta_deliveries db m of [] \<Rightarrow> None | d # _ \<Rightarrow> Some (md_backend d))"

definition meta_type :: "database \<Rightarrow> uuid \<Rightarrow> string option" where
  "meta_type db m = (case meta_deliveries db m of [] \<Rightarrow> None | d # _ \<Rightarrow> Some (md_type d))"

definition user_lines :: "database \<Rightarrow> uuid \<Rightarrow> Line list" where
  "user_lines db u = filter (\<lambda>l. ln_user_uuid l = u) (lines db)"

definition user_sessions :: "database \<Rightarrow> uuid \<Rightarrow> Session list" where
  "user_sessions db u = filter (\<lambda>s. se_user_uuid s = u) (sessions db)"

definition user_refresh_tokens :: "database \<Rightarrow> uuid \<Rightarrow> RefreshToken list" where
  "user_refresh_tokens db u = filter (\<lambda>t. rt_user_uuid t = u) (refresh_tokens db)"

definition line_channels :: "database \<Rightarrow> int \<Rightarrow> Channel list" where
  "line_channels db l = filter (\<lambda>c. ch_line_id c = l) (channels db)"

text \<open>
  The association proxies: \<open>endpoint_state\<close> is None without an endpoint, \<open>channels_state\<close>
  the states of the line's channels, \<open>tenant_uuid\<close> the user's.
\<close>

definition line_endpoint :: "database \<Rightarrow> Line \<Rightarrow> Endpoint option" where
  "line_endpoint db l = Option.bind (ln_endpoint_name l) (\<lambda>n. find_row ep_name n (endpoints db))"

definition endpoint_state :: "database \<Rightarrow> Line \<Rightarrow> endpoint_state option" where
  "endpoint_state db l = map_option ep_state (line_endpoint db l)"

definition channels_state :: "database \<Rightarrow> Line \<Rightarrow> channel_state list" where
  "channels_state db l = map ch_state (line_channels db (ln_id l))"

definition tenant_of_user :: "database \<Rightarrow> uuid \<Rightarrow> uuid option" where
  "tenant_of_user db u = map_option us_tenant_uuid (find_row us_uuid u (users db))"

definition endpoint_line :: "database \<Rightarrow> string \<Rightarrow> Line option" where
  "endpoint_line db n = List.find (\<lambda>l. ln_endpoint_name l = Some n) (lines db)"

section \<open>ON DELETE behaviour of the foreign keys\<close>

definition cascade_lines :: "(Line \<Rightarrow> bool) \<Rightarrow> database \<Rightarrow> database" where
  "cascade_lines p db =
     (let gone = ln_id ` {l \<in> set (lines db). p l}
      in db\<lparr>lines := delete_rows p (lines db),
            channels := delete_rows (\<lambda>c. ch_line_id c \<in> gone) (channels db)\<rparr>)"

definition cascade_identities :: "(UserIdentity \<Rightarrow> bool) \<Rightarrow> database \<Rightarrow> database" where
  "cascade_identities p db =
     (let gone = ui_uuid ` {i \<in> set (user_identities db). p i};
          hit = (\<lambda>m. \<exists>u \<in> gone. mm_sender_identity_uuid m = Some u)
      in db\<lparr>user_identities := delete_rows p (user_identities db),
            message_metas :=
              update_rows hit (\<lambda>m. m\<lparr>mm_sender_identity_uuid := None\<rparr>) (message_metas db)\<rparr>)"

definition cascade_users :: "(User \<Rightarrow> bool) \<Rightarrow> database \<Rightarrow> database" where
  "cascade_users p db =
     (let gone = us_uuid ` {u \<in> set (users db). p u};
          db1 = cascade_identities (\<lambda>i. ui_user_uuid i \<in> gone) db;
          db2 = cascade_lines (\<lambda>l. ln_user_uuid l \<in> gone) db1
      in db2\<lparr>users := delete_rows p (users db2),
             sessions := delete_rows (\<lambda>s. se_user_uuid s \<in> gone) (sessions db2),
             refresh_tokens := delete_rows (\<lambda>t. rt_user_uuid t \<in> gone) (refresh_tokens db2)\<rparr>)"

definition cascade_messages :: "(RoomMessage \<Rightarrow> bool) \<Rightarrow> database \<Rightarrow> database" where
  "cascade_messages p db =
     (let gone = rm_uuid ` {m \<in> set (room_messages db). p m};
          dgone = md_id ` {d \<in> set (message_deliveries db). md_message_uuid d \<in> gone}
      in db\<lparr>room_messages := delete_rows p (room_messages db),
            message_metas := delete_rows (\<lambda>m. mm_message_uuid m \<in> gone) (message_metas db),
            message_deliveries := delete_rows (\<lambda>d. md_message_uuid d \<in> gone) (message_deliveries db),
            delivery_records := delete_rows (\<lambda>r. dr_delivery_id r \<in> dgone) (delivery_records db)\<rparr>)"

definition cascade_rooms :: "(Room \<Rightarrow> bool) \<Rightarrow> database \<Rightarrow> database" where
  "cascade_rooms p db =
     (let gone = ro_uuid ` {r \<in> set (rooms db). p r};
          db1 = cascade_messages (\<lambda>m. rm_room_uuid m \<in> gone) db
      in db1\<lparr>rooms := delete_rows p (rooms db1)\<rparr>)"

definition cascade_tenants :: "(Tenant \<Rightarrow> bool) \<Rightarrow> database \<Rightarrow> database" where
  "cascade_tenants p db =
     (let gone = tn_uuid ` {t \<in> set (tenants db). p t};
          db1 = cascade_rooms (\<lambda>r. ro_tenant_uuid r \<in> gone) db;
          db2 = cascade_identities (\<lambda>i. ui_tenant_uuid i \<in> gone) db1;
          db3 = cascade_users (\<lambda>u. us_tenant_uuid u \<in> gone) db2
      in db3\<lparr>tenants := delete_rows p (tenants db3)\<rparr>)"

definition cascade_endpoints :: "(Endpoint \<Rightarrow> bool) \<Rightarrow> database \<Rightarrow> database" where
  "cascade_endpoints p db =
     (let gone = ep_name ` {e \<in> set (endpoints db). p e};
          hit = (\<lambda>l. \<exists>n \<in> gone. ln_endpoint_name l = Some n)
      in db\<lparr>endpoints := delete_rows p (endpoints db),
            lines := update_rows hit (\<lambda>l. l\<lparr>ln_endpoint_name := None\<rparr>) (lines db)\<rparr>)"

end
