(* ===== verification/Integrity.thy ===== *)
theory Integrity
  imports Models
begin

text \<open>
  The constraints of the schema as invariants: primary keys, unique constraints and foreign keys
  (\<open>presence_ok\<close> for the presence tables, \<open>chat_ok\<close> for rooms, their participants, messages,
  deliveries and identities), and the order of the delivery log (\<open>log_ok\<close>). Every cascade of \<open>Models\<close>
  keeps them, so a deleted parent never leaves a dangling child.
\<close>

section \<open>The invariants\<close>

definition refs :: "('r \<Rightarrow> 'k) \<Rightarrow> 'r list \<Rightarrow> 'k set \<Rightarrow> bool" where
  "refs f rows keys \<longleftrightarrow> (\<forall>r \<in> set rows. f r \<in> keys)"

definition refs_opt :: "('r \<Rightarrow> 'k option) \<Rightarrow> 'r list \<Rightarrow> 'k set \<Rightarrow> bool" where
  "refs_opt f rows keys \<longleftrightarrow> (\<forall>r \<in> set rows. case f r of None \<Rightarrow> True | Some k \<Rightarrow> k \<in> keys)"

definition token_key :: "RefreshToken \<Rightarrow> string \<times> uuid" where
  "token_key t = (rt_client_id t, rt_user_uuid t)"

definition presence_keys :: "database \<Rightarrow> bool" where
  "presence_keys db \<longleftrightarrow>
     keyed tn_uuid (tenants db) \<and> keyed us_uuid (users db) \<and> keyed se_uuid (sessions db) \<and>
     keyed token_key (refresh_tokens db) \<and> keyed ln_id (lines db) \<and>
     keyed ep_name (endpoints db) \<and> keyed ch_name (channels db)"

definition presence_refs :: "database \<Rightarrow> bool" where
  "presence_refs db \<longleftrightarrow>
     refs us_tenant_uuid (users db) (tn_uuid ` set (tenants db)) \<and>
     refs se_user_uuid (sessions db) (us_uuid ` set (users db)) \<and>
     refs rt_user_uuid (refresh_tokens db) (us_uuid ` set (users db)) \<and>
     refs ln_user_uuid (lines db) (us_uuid ` set (users db)) \<and>
     refs_opt ln_endpoint_name (lines db) (ep_name ` set (endpoints db)) \<and>
     refs ch_line_id (channels db) (ln_id ` set (lines db))"

definition presence_ok :: "database \<Rightarrow> bool" where
  "presence_ok db \<longleftrightarrow> presence_keys db \<and> presence_refs db"

definition identity_key :: "UserIdentity \<Rightarrow> string \<times> string \<times> string" where
  "identity_key i = (ui_backend i, ui_identity i, ui_type i)"

definition recipient_key :: "MessageDelivery \<Rightarrow> uuid \<times> string" where
  "recipient_key d = (md_message_uuid d, md_recipient_identity d)"

definition external_key :: "MessageDelivery \<Rightarrow> string option \<times> string" where
  "external_key d = (md_external_id d, md_backend d)"

definition chat_keys :: "database \<Rightarrow> bool" where
  "chat_keys db \<longleftrightarrow>
     keyed ro_uuid (rooms db) \<and> keyed rm_uuid (room_messages db) \<and>
     keyed mm_message_uuid (message_metas db) \<and> keyed md_id (message_deliveries db) \<and>
     keyed recipient_key (message_deliveries db) \<and>
     keyed external_key (filter (\<lambda>d. md_external_id d \<noteq> None) (message_deliveries db)) \<and>
     keyed dr_id (delivery_records db) \<and> keyed ui_uuid (user_identities db) \<and>
     keyed identity_key (user_identities db)"

definition chat_refs :: "database \<Rightarrow> bool" where
  "chat_refs db \<longleftrightarrow>
     refs ro_tenant_uuid (rooms db) (tn_uuid ` set (tenants db)) \<and>
     refs rm_room_uuid (room_messages db) (ro_uuid ` set (rooms db)) \<and>
     refs mm_message_uuid (message_metas db) (rm_uuid ` set (room_messages db)) \<and>
     refs_opt mm_sender_identity_uuid (message_metas db) (ui_uuid ` set (user_identities db)) \<and>
     refs md_message_uuid (message_deliveries db) (mm_message_uuid ` set (message_metas db)) \<and>
     refs dr_delivery_id (delivery_records db) (md_id ` set (message_deliveries db)) \<and>
     refs ui_tenant_uuid (user_identities db) (tn_uuid ` set (tenants db)) \<and>
     refs ui_user_uuid (user_identities db) (us_uuid ` set (users db))"

definition ids_below :: "database \<Rightarrow> bool" where
  "ids_below db \<longleftrightarrow>
     (\<forall>d \<in> set (message_deliveries db). md_id d < next_delivery_id db) \<and>
     (\<forall>r \<in> set (delivery_records db). dr_id r < next_record_id db)"

text \<open>
  The rows of \<open>chatd_room_user\<close> are the participants of the rooms: within a room they are
  distinct, and neither their tenant nor their wazo uuid is null.
\<close>

definition participant_key :: "RoomUser \<Rightarrow> uuid \<times> uuid option \<times> uuid option" where
  "participant_key u = (ru_uuid u, ru_tenant_uuid u, ru_wazo_uuid u)"

definition room_ok :: "Room \<Rightarrow> bool" where
  "room_ok r \<longleftrightarrow> keyed participant_key (ro_users r) \<and>
     list_all (\<lambda>u. ru_tenant_uuid u \<noteq> None \<and> ru_wazo_uuid u \<noteq> None) (ro_users r)"

definition participants_ok :: "database \<Rightarrow> bool" where
  "participants_ok db \<longleftrightarrow> (\<forall>r \<in> set (rooms db). room_ok r)"

definition chat_ok :: "database \<Rightarrow> bool" where
  "chat_ok db \<longleftrightarrow> chat_keys db \<and> chat_refs db \<and> ids_below db \<and> participants_ok db"

text \<open>The delivery log grows in id order; \<open>log_ok\<close> adds that the clock never went back.\<close>

definition log_ok :: "database \<Rightarrow> bool" where
  "log_ok db \<longleftrightarrow>
     sorted_wrt (\<lambda>r s. dr_id r < dr_id s \<and> dr_timestamp r \<le> dr_timestamp s) (delivery_records db)"

lemma empty_db_ok: "presence_ok empty_db" "chat_ok empty_db" "log_ok empty_db"
  by (simp_all add: presence_ok_def presence_keys_def presence_refs_def chat_ok_def chat_keys_def
      chat_refs_def ids_below_def participants_ok_def log_ok_def refs_def refs_opt_def empty_db_def)

section \<open>Cascades keep the invariants\<close>

lemma refs_delete_rows [intro]: "refs f rows keys \<Longrightarrow> refs f (delete_rows p rows) keys"
  by (simp add: refs_def)

lemma refs_opt_delete_rows [intro]: "refs_opt f rows keys \<Longrightarrow> refs_opt f (delete_rows p rows) keys"
  by (simp add: refs_opt_def)

lemma refs_cascade [intro]:
  "refs f rows (key ` set parents) \<Longrightarrow>
     refs f (delete_rows (\<lambda>r. f r \<in> key ` {x \<in> set parents. p x}) rows)
       (key ` {x \<in> set parents. \<not> p x})"
  by (fastforce simp: refs_def)

lemma refs_restrict [intro]:
  "refs f rows (key ` set parents) \<Longrightarrow>
     refs f (delete_rows (\<lambda>r. f r \<in> gone) rows) (key ` {x \<in> set parents. key x \<notin> gone})"
  by (fastforce simp: refs_def)

lemma refs_update_rows [intro]:
  "refs f rows keys \<Longrightarrow> (\<And>r. f (g r) = f r) \<Longrightarrow> refs f (update_rows p g rows) keys"
  by (auto simp: refs_def set_update_rows)

lemma refs_opt_update_rows [intro]:
  "refs_opt f rows keys \<Longrightarrow> (\<And>r. f (g r) = f r) \<Longrightarrow> refs_opt f (update_rows p g rows) keys"
  by (auto simp: refs_opt_def set_update_rows)

lemma refs_opt_set_null [intro]:
  assumes "refs_opt f rows (key ` set parents)" and "\<And>r. f (g r) = None"
  shows "refs_opt f (update_rows (\<lambda>r. \<exists>x. x \<in> set parents \<and> p x \<and> f r = Some (key x)) g rows)
           (key ` {x \<in> set parents. \<not> p x})"
  using assms by (fastforce simp: refs_opt_def set_update_rows split: option.splits)

lemma refs_append [simp]: "refs f (xs @ ys) K \<longleftrightarrow> refs f xs K \<and> refs f ys K"
  and refs_opt_append [simp]: "refs_opt g (xs @ ys) K' \<longleftrightarrow> refs_opt g xs K' \<and> refs_opt g ys K'"
  by (auto simp: refs_def refs_opt_def)

lemma refs_mono: "refs f xs K \<Longrightarrow> K \<subseteq> K' \<Longrightarrow> refs f xs K'"
  by (auto simp: refs_def)

lemma refs_opt_mono: "refs_opt f xs K \<Longrightarrow> K \<subseteq> K' \<Longrightarrow> refs_opt f xs K'"
  by (auto simp: refs_opt_def split: option.splits)

lemma refs_single [simp]: "refs f [r] K \<longleftrightarrow> f r \<in> K"
  by (simp add: refs_def)

lemma keyed_filter_delete [intro]:
  assumes "keyed key (filter q rows)"
  shows "keyed key (filter q (delete_rows p rows))"
proof -
  have "filter q (delete_rows p rows) = filter (\<lambda>r. \<not> p r) (filter q rows)"
    by (simp add: delete_rows_def conj_commute)
  with keyed_filter [OF assms] show ?thesis by simp
qed

lemma image_update_rows [simp]:
  assumes "\<And>r. key (g r) = key r"
  shows "key ` set (update_rows p g rows) = key ` set rows"
proof -
  have "map key (update_rows p g rows) = map key rows"
    using assms by (simp add: update_rows_def)
  then show ?thesis by (metis list.set_map)
qed

lemmas integrity_defs =
  presence_ok_def presence_keys_def presence_refs_def chat_ok_def chat_keys_def chat_refs_def
  ids_below_def participants_ok_def

lemma cascade_lines_presence: "presence_ok db \<Longrightarrow> presence_ok (cascade_lines p db)"
  unfolding integrity_defs cascade_lines_def Let_def by auto

lemma cascade_lines_chat: "chat_ok db \<Longrightarrow> chat_ok (cascade_lines p db)"
  unfolding integrity_defs cascade_lines_def Let_def by simp

lemma cascade_endpoints_presence: "presence_ok db \<Longrightarrow> presence_ok (cascade_endpoints p db)"
  unfolding integrity_defs cascade_endpoints_def Let_def
  by (auto intro!: keyed_update)

lemma cascade_endpoints_chat: "chat_ok db \<Longrightarrow> chat_ok (cascade_endpoints p db)"
  unfolding integrity_defs cascade_endpoints_def Let_def by simp

lemma cascade_identities_presence: "presence_ok db \<Longrightarrow> presence_ok (cascade_identities p db)"
  unfolding integrity_defs cascade_identities_def Let_def by simp

lemma cascade_identities_chat: "chat_ok db \<Longrightarrow> chat_ok (cascade_identities p db)"
  unfolding integrity_defs cascade_identities_def Let_def
  by (auto intro!: keyed_update)

lemma cascade_messages_presence: "presence_ok db \<Longrightarrow> presence_ok (cascade_messages p db)"
  unfolding integrity_defs cascade_messages_def Let_def by simp

lemma cascade_messages_chat:
  assumes "chat_ok db"
  shows "chat_ok (cascade_messages p db)"
proof -
  define gone where "gone = rm_uuid ` {m \<in> set (room_messages db). p m}"
  have eq: "cascade_messages p db =
      db\<lparr>room_messages := delete_rows p (room_messages db),
         message_metas := delete_rows (\<lambda>m. mm_message_uuid m \<in> gone) (message_metas db),
         message_deliveries := delete_rows (\<lambda>d. md_message_uuid d \<in> gone) (message_deliveries db),
         delivery_records :=
           delete_rows (\<lambda>r. dr_delivery_id r \<in>
               md_id ` {d \<in> set (message_deliveries db). md_message_uuid d \<in> gone})
             (delivery_records db)\<rparr>"
    unfolding cascade_messages_def Let_def gone_def by simp
  have "refs mm_message_uuid (delete_rows (\<lambda>m. mm_message_uuid m \<in> gone) (message_metas db))
          (rm_uuid ` {x \<in> set (room_messages db). \<not> p x})"
    unfolding gone_def using assms by (intro refs_cascade) (simp add: integrity_defs)
  with assms show ?thesis
    unfolding eq by (simp add: integrity_defs) auto
qed

lemmas cascade_simps =
  cascade_lines_def cascade_identities_def cascade_users_def cascade_messages_def
  cascade_rooms_def cascade_tenants_def Let_def

lemma cascade_users_presence: "presence_ok db \<Longrightarrow> presence_ok (cascade_users p db)"
  unfolding integrity_defs by (simp add: cascade_simps) auto

lemma cascade_users_chat: "chat_ok db \<Longrightarrow> chat_ok (cascade_users p db)"
  unfolding integrity_defs by (simp add: cascade_simps) (auto intro!: keyed_update)

lemma cascade_rooms_presence: "presence_ok db \<Longrightarrow> presence_ok (cascade_rooms p db)"
  unfolding integrity_defs by (simp add: cascade_simps)

lemma cascade_rooms_chat:
  assumes "chat_ok db"
  shows "chat_ok (cascade_rooms p db)"
proof -
  define q :: "RoomMessage \<Rightarrow> bool" where "q = (\<lambda>m. rm_room_uuid m \<in> ro_uuid ` {r \<in> set (rooms db). p r})"
  have "chat_ok (cascade_messages q db)"
    using assms by (rule cascade_messages_chat)
  moreover have "refs rm_room_uuid (delete_rows q (room_messages db))
      (ro_uuid ` {x \<in> set (rooms db). \<not> p x})"
    unfolding q_def using assms by (intro refs_cascade) (simp add: integrity_defs)
  moreover have "rooms (cascade_messages q db) = rooms db"
    "room_messages (cascade_messages q db) = delete_rows q (room_messages db)"
    by (simp_all add: cascade_messages_def Let_def)
  moreover have "cascade_rooms p db =
      (cascade_messages q db)\<lparr>rooms := delete_rows p (rooms (cascade_messages q db))\<rparr>"
    by (simp add: cascade_rooms_def Let_def q_def)
  ultimately show ?thesis
    by (simp add: integrity_defs) auto
qed

lemma cascade_identities_fields:
  "users (cascade_identities p db) = users db"
  "tenants (cascade_identities p db) = tenants db"
  "rooms (cascade_identities p db) = rooms db"
  "user_identities (cascade_identities p db) = delete_rows p (user_identities db)"
  by (simp_all add: cascade_identities_def Let_def)

lemma cascade_users_fields:
  "users (cascade_users p db) = delete_rows p (users db)"
  "tenants (cascade_users p db) = tenants db"
  "rooms (cascade_users p db) = rooms db"
  "user_identities (cascade_users p db) =
     delete_rows (\<lambda>i. ui_user_uuid i \<in> us_uuid ` {u \<in> set (users db). p u}) (user_identities db)"
  by (simp_all add: cascade_users_def cascade_lines_def cascade_identities_def Let_def)

lemma cascade_rooms_fields:
  "users (cascade_rooms p db) = users db"
  "tenants (cascade_rooms p db) = tenants db"
  "rooms (cascade_rooms p db) = delete_rows p (rooms db)"
  "user_identities (cascade_rooms p db) = user_identities db"
  by (simp_all add: cascade_rooms_def cascade_messages_def Let_def)

lemmas cascade_fields = cascade_identities_fields cascade_users_fields cascade_rooms_fields

lemma delete_tenants_ok:
  assumes "presence_ok db" and "chat_ok db"
    and "refs us_tenant_uuid (users db) (tn_uuid ` {t \<in> set (tenants db). \<not> p t})"
    and "refs ro_tenant_uuid (rooms db) (tn_uuid ` {t \<in> set (tenants db). \<not> p t})"
    and "refs ui_tenant_uuid (user_identities db) (tn_uuid ` {t \<in> set (tenants db). \<not> p t})"
  shows "presence_ok (db\<lparr>tenants := delete_rows p (tenants db)\<rparr>)"
    and "chat_ok (db\<lparr>tenants := delete_rows p (tenants db)\<rparr>)"
  using assms by (simp add: integrity_defs keyed_delete)+

lemma cascade_tenants_ok:
  assumes "presence_ok db" and "chat_ok db"
  shows "presence_ok (cascade_tenants p db)" and "chat_ok (cascade_tenants p db)"
proof -
  define gone where "gone = tn_uuid ` {t \<in> set (tenants db). p t}"
  define db1 where "db1 = cascade_rooms (\<lambda>r. ro_tenant_uuid r \<in> gone) db"
  define db2 where "db2 = cascade_identities (\<lambda>i. ui_tenant_uuid i \<in> gone) db1"
  define db3 where "db3 = cascade_users (\<lambda>u. us_tenant_uuid u \<in> gone) db2"
  have eq: "cascade_tenants p db = db3\<lparr>tenants := delete_rows p (tenants db3)\<rparr>"
    by (simp add: cascade_tenants_def Let_def db3_def db2_def db1_def gone_def)
  have ok: "presence_ok db3" "chat_ok db3"
    using assms unfolding db3_def db2_def db1_def
    by (auto intro: cascade_users_presence cascade_users_chat cascade_identities_presence
        cascade_identities_chat cascade_rooms_presence cascade_rooms_chat)
  have t: "tenants db3 = tenants db"
    by (simp add: db3_def db2_def db1_def cascade_fields)
  have "refs ui_tenant_uuid (delete_rows (\<lambda>i. ui_tenant_uuid i \<in> gone) (user_identities db))
      (tn_uuid ` {t \<in> set (tenants db3). \<not> p t})"
    using assms unfolding t gone_def by (intro refs_cascade) (simp add: integrity_defs)
  then have "refs ui_tenant_uuid (user_identities db3) (tn_uuid ` {t \<in> set (tenants db3). \<not> p t})"
    by (simp add: db3_def db2_def db1_def cascade_fields refs_delete_rows)
  moreover have "refs us_tenant_uuid (users db3) (tn_uuid ` {t \<in> set (tenants db3). \<not> p t})"
    "refs ro_tenant_uuid (rooms db3) (tn_uuid ` {t \<in> set (tenants db3). \<not> p t})"
    using assms unfolding t gone_def db3_def db2_def db1_def
    by (auto simp: integrity_defs cascade_fields intro!: refs_cascade)
  ultimately show "presence_ok (cascade_tenants p db)" "chat_ok (cascade_tenants p db)"
    using ok eq delete_tenants_ok by auto
qed

section \<open>The latest record of a delivery\<close>

text \<open>
  The code reads the current status of a delivery in three ways: the last of the relationship
  ordered by (timestamp, id), the first of the SQL expression's descending order, and, in the
  recovery and polling queries, the record with the greatest id. The first two agree always, the
  third only while the clock does not go back.
\<close>

definition latest_by_id :: "database \<Rightarrow> nat \<Rightarrow> DeliveryRecord option" where
  "latest_by_id db i = last_opt (sort_key dr_id (delivery_log db i))"

lemma status_expression_eq: "status_expression db i = status_of db i"
proof -
  have "(case rev xs of [] \<Rightarrow> None | r # _ \<Rightarrow> Some (dr_status r)) = map_option dr_status (last_opt xs)"
    for xs :: "DeliveryRecord list"
    by (cases xs rule: rev_cases) (auto simp: last_opt_def)
  then show ?thesis by (simp add: status_expression_def status_of_def records_of_def)
qed

lemma log_ok_delivery_log:
  "log_ok db \<Longrightarrow>
     sorted_wrt (\<lambda>r s. dr_id r < dr_id s \<and> dr_timestamp r \<le> dr_timestamp s) (delivery_log db i)"
  by (simp add: log_ok_def delivery_log_def sorted_wrt_filter)

lemma log_ok_sorted:
  assumes "log_ok db"
  shows "records_of db i = delivery_log db i" and "latest_by_id db i = last_opt (delivery_log db i)"
proof -
  have s: "sorted_wrt (\<lambda>r s. dr_id r < dr_id s \<and> dr_timestamp r \<le> dr_timestamp s) (delivery_log db i)"
    using assms by (rule log_ok_delivery_log)
  have "sorted (map record_key (delivery_log db i))"
    unfolding sorted_map
    by (rule sorted_wrt_mono_rel [OF _ s]) (auto simp: record_key_def less_eq_prod_def)
  then show "records_of db i = delivery_log db i"
    by (simp add: records_of_def sort_key_id_if_sorted)
  have "sorted (map dr_id (delivery_log db i))"
    unfolding sorted_map by (rule sorted_wrt_mono_rel [OF _ s]) auto
  then show "latest_by_id db i = last_opt (delivery_log db i)"
    by (simp add: latest_by_id_def sort_key_id_if_sorted)
qed

lemma status_of_log_ok:
  "log_ok db \<Longrightarrow> status_of db i = map_option dr_status (last_opt (delivery_log db i))"
  by (simp add: status_of_def log_ok_sorted)

end
