(* ===== verification/PresenceQueries.thy ===== *)
theory PresenceQueries
  imports Integrity
begin

text \<open>
  The presence queries: the bulk helpers of \<open>database/helpers.py\<close>, and the tenant, user,
  session, refresh token, line, endpoint and channel DAOs of \<open>database/queries\<close>. A flush that
  breaks a constraint is an \<open>IntegrityError\<close>; its flag says whether a unique key was violated.
\<close>

section \<open>Sessions and bulk statements (database/helpers.py)\<close>

text \<open>\<open>session_scope\<close> of the synchronous code: all or nothing.\<close>

definition sync_scope :: "(database \<Rightarrow> exn + 'a \<times> database) \<Rightarrow> database \<Rightarrow> (exn + 'a) \<times> database" where
  "sync_scope body db = (case body db of Inl e \<Rightarrow> (Inl e, db) | Inr (r, db') \<Rightarrow> (Inr r, db'))"

definition BULK_BATCH_SIZE :: nat where
  "BULK_BATCH_SIZE = 1000"

function chunked :: "nat \<Rightarrow> 'a list \<Rightarrow> 'a list list" where
  "chunked n items =
     (if items = [] \<or> n = 0 then [] else take n items # chunked n (drop n items))"
  by pat_completeness auto
termination by (relation "measure (\<lambda>(_, items). length items)") auto

declare chunked.simps [simp del]

text \<open>
  An insert fails on a key that is taken, in the table or among the new rows, or on a foreign key
  without its parent (\<open>fk\<close>); an update sets the columns of the first source row with the key.
\<close>

definition insert_rows :: "('r \<Rightarrow> 'k) \<Rightarrow> ('r \<Rightarrow> bool) \<Rightarrow> 'r list \<Rightarrow> 'r list \<Rightarrow> exn + 'r list" where
  "insert_rows key fk new rows =
     (if \<not> keyed key (rows @ new) then Inl (IntegrityError True)
      else if list_all fk new then Inr (rows @ new) else Inl (IntegrityError False))"

fun bulk_insert_chunks :: "('r \<Rightarrow> 'k) \<Rightarrow> ('r \<Rightarrow> bool) \<Rightarrow> 'r list list \<Rightarrow> 'r list \<Rightarrow> exn + 'r list" where
  "bulk_insert_chunks key fk [] rows = Inr rows"
| "bulk_insert_chunks key fk (chunk # chunks) rows =
     (case insert_rows key fk chunk rows of
        Inl e \<Rightarrow> Inl e | Inr rows' \<Rightarrow> bulk_insert_chunks key fk chunks rows')"

definition bulk_insert :: "('r \<Rightarrow> 'k) \<Rightarrow> ('r \<Rightarrow> bool) \<Rightarrow> 'r list \<Rightarrow> 'r list \<Rightarrow> exn + 'r list" where
  "bulk_insert key fk new rows = bulk_insert_chunks key fk (chunked BULK_BATCH_SIZE new) rows"

definition update_from_values :: "('r \<Rightarrow> 'k) \<Rightarrow> ('v \<Rightarrow> 'r \<Rightarrow> 'r) \<Rightarrow> ('k \<times> 'v) list \<Rightarrow> 'r list \<Rightarrow> 'r list" where
  "update_from_values key set_columns new rows =
     map (\<lambda>r. case map_of new (key r) of None \<Rightarrow> r | Some v \<Rightarrow> set_columns v r) rows"

definition bulk_update :: "('r \<Rightarrow> 'k) \<Rightarrow> ('v \<Rightarrow> 'r \<Rightarrow> 'r) \<Rightarrow> ('k \<times> 'v) list \<Rightarrow> 'r list \<Rightarrow> 'r list" where
  "bulk_update key set_columns new rows =
     fold (update_from_values key set_columns) (chunked BULK_BATCH_SIZE new) rows"

text \<open>\<open>del\<close> deletes the rows that satisfy a predicate, with what depends on them.\<close>

definition bulk_delete :: "(('r \<Rightarrow> bool) \<Rightarrow> database \<Rightarrow> database) \<Rightarrow> ('r \<Rightarrow> 'k) \<Rightarrow> 'k list \<Rightarrow> database \<Rightarrow> database" where
  "bulk_delete del target items db =
     fold (\<lambda>chunk. del (\<lambda>r. target r \<in> set chunk)) (chunked BULK_BATCH_SIZE items) db"

section \<open>TenantDAO\<close>

definition tenant_get :: "uuid \<Rightarrow> database \<Rightarrow> exn + Tenant" where
  "tenant_get tenant_uuid db =
     (case find_row tn_uuid tenant_uuid (tenants db) of
        None \<Rightarrow> Inl (UnknownTenantException tenant_uuid) | Some t \<Rightarrow> Inr t)"

definition tenant_list_uuids :: "database \<Rightarrow> uuid list" where
  "tenant_list_uuids db = map tn_uuid (tenants db)"

definition tenant_create_all :: "Tenant list \<Rightarrow> database \<Rightarrow> exn + database" where
  "tenant_create_all new db =
     map_sum id (\<lambda>rows. db\<lparr>tenants := rows\<rparr>) (bulk_insert tn_uuid (\<lambda>_. True) new (tenants db))"

definition tenant_create :: "Tenant \<Rightarrow> database \<Rightarrow> exn + database" where
  "tenant_create t db =
     map_sum id (\<lambda>rows. db\<lparr>tenants := rows\<rparr>) (insert_rows tn_uuid (\<lambda>_. True) [t] (tenants db))"

definition tenant_delete_by_uuids :: "uuid list \<Rightarrow> database \<Rightarrow> database" where
  "tenant_delete_by_uuids uuids db = bulk_delete cascade_tenants tn_uuid uuids db"

definition tenant_find_or_create :: "uuid \<Rightarrow> database \<Rightarrow> exn + Tenant \<times> database" where
  "tenant_find_or_create tenant_uuid db =
     (case find_row tn_uuid tenant_uuid (tenants db) of
        Some t \<Rightarrow> Inr (t, db)
      | None \<Rightarrow> map_sum id (Pair \<lparr>tn_uuid = tenant_uuid\<rparr>) (tenant_create \<lparr>tn_uuid = tenant_uuid\<rparr> db))"

definition tenant_delete :: "Tenant \<Rightarrow> database \<Rightarrow> database" where
  "tenant_delete t db = cascade_tenants (\<lambda>u. tn_uuid u = tn_uuid t) db"

section \<open>UserDAO\<close>

definition tenant_exists :: "database \<Rightarrow> User \<Rightarrow> bool" where
  "tenant_exists db u \<longleftrightarrow> us_tenant_uuid u \<in> set (tenant_list_uuids db)"

definition user_create :: "User \<Rightarrow> database \<Rightarrow> exn + database" where
  "user_create u db =
     map_sum id (\<lambda>rows. db\<lparr>users := rows\<rparr>) (insert_rows us_uuid (tenant_exists db) [u] (users db))"

definition user_create_all :: "User list \<Rightarrow> database \<Rightarrow> exn + database" where
  "user_create_all new db =
     map_sum id (\<lambda>rows. db\<lparr>users := rows\<rparr>) (bulk_insert us_uuid (tenant_exists db) new (users db))"

text \<open>\<open>update\<close> flushes the row \<open>u\<close> as the caller changed it.\<close>

definition user_update :: "User \<Rightarrow> database \<Rightarrow> database" where
  "user_update u db = db\<lparr>users := update_rows (\<lambda>v. us_uuid v = us_uuid u) (\<lambda>_. u) (users db)\<rparr>"

definition user_get :: "uuid list \<Rightarrow> uuid \<Rightarrow> database \<Rightarrow> exn + User" where
  "user_get tenant_uuids user_uuid db =
     (case List.find (\<lambda>u. us_tenant_uuid u \<in> set tenant_uuids \<and> us_uuid u = user_uuid) (users db) of
        None \<Rightarrow> Inl (UnknownUserException user_uuid) | Some u \<Rightarrow> Inr u)"

text \<open>\<open>_get_users_query\<close>: no uuids is no filter on them, no tenants is no rows.\<close>

definition users_query :: "uuid list option \<Rightarrow> uuid list \<Rightarrow> database \<Rightarrow> User list" where
  "users_query tenant_uuids uuids db =
     (let rows = (if uuids = [] then users db else filter (\<lambda>u. us_uuid u \<in> set uuids) (users db))
      in case tenant_uuids of
           None \<Rightarrow> rows
         | Some [] \<Rightarrow> []
         | Some ts \<Rightarrow> filter (\<lambda>u. us_tenant_uuid u \<in> set ts) rows)"

definition user_list :: "uuid list option \<Rightarrow> uuid list \<Rightarrow> database \<Rightarrow> User list" where
  "user_list tenant_uuids uuids db = users_query tenant_uuids uuids db"

definition user_count :: "uuid list option \<Rightarrow> uuid list \<Rightarrow> database \<Rightarrow> nat" where
  "user_count tenant_uuids uuids db = length (users_query tenant_uuids uuids db)"

definition user_list_uuids :: "database \<Rightarrow> uuid list" where
  "user_list_uuids db = map us_uuid (users db)"

definition user_list_uuids_with_tenant_uuids :: "database \<Rightarrow> (uuid \<times> uuid) list" where
  "user_list_uuids_with_tenant_uuids db = map (\<lambda>u. (us_uuid u, us_tenant_uuid u)) (users db)"

definition user_list_dnd :: "database \<Rightarrow> (uuid, bool) dict" where
  "user_list_dnd db = map (\<lambda>u. (us_uuid u, us_do_not_disturb u)) (users db)"

definition user_delete :: "User \<Rightarrow> database \<Rightarrow> database" where
  "user_delete u db = cascade_users (\<lambda>v. us_uuid v = us_uuid u) db"

definition user_delete_by_uuids :: "uuid list \<Rightarrow> database \<Rightarrow> database" where
  "user_delete_by_uuids uuids db = bulk_delete cascade_users us_uuid uuids db"

definition user_update_dnd :: "(uuid \<times> bool) list \<Rightarrow> database \<Rightarrow> database" where
  "user_update_dnd dnd_by_uuid db = db\<lparr>users :=
     bulk_update us_uuid (\<lambda>dnd u. u\<lparr>us_do_not_disturb := dnd\<rparr>) dnd_by_uuid (users db)\<rparr>"

text \<open>
  The collections of a user. A new session replaces the user's session with its uuid; a uuid that
  another user's session has violates the primary key. A line keeps its row when it moves.
\<close>

definition add_session :: "User \<Rightarrow> Session \<Rightarrow> database \<Rightarrow> exn + database" where
  "add_session u s db =
     map_sum id (\<lambda>rows. db\<lparr>sessions := rows\<rparr>)
       (insert_rows se_uuid (\<lambda>_. us_uuid u \<in> set (user_list_uuids db)) [s\<lparr>se_user_uuid := us_uuid u\<rparr>]
         (delete_rows (\<lambda>x. se_user_uuid x = us_uuid u \<and> se_uuid x = se_uuid s) (sessions db)))"

definition remove_session :: "User \<Rightarrow> Session \<Rightarrow> database \<Rightarrow> database" where
  "remove_session u s db =
     db\<lparr>sessions := delete_rows (\<lambda>x. se_user_uuid x = us_uuid u \<and> se_uuid x = se_uuid s) (sessions db)\<rparr>"

definition add_line :: "User \<Rightarrow> Line \<Rightarrow> database \<Rightarrow> database" where
  "add_line u l db =
     (if ln_id l \<in> ln_id ` set (lines db)
      then db\<lparr>lines := update_rows (\<lambda>x. ln_id x = ln_id l) (\<lambda>x. x\<lparr>ln_user_uuid := us_uuid u\<rparr>) (lines db)\<rparr>
      else db\<lparr>lines := lines db @ [l\<lparr>ln_user_uuid := us_uuid u\<rparr>]\<rparr>)"

definition remove_line :: "User \<Rightarrow> Line \<Rightarrow> database \<Rightarrow> database" where
  "remove_line u l db = cascade_lines (\<lambda>x. ln_user_uuid x = us_uuid u \<and> ln_id x = ln_id l) db"

definition add_refresh_token :: "User \<Rightarrow> RefreshToken \<Rightarrow> database \<Rightarrow> exn + database" where
  "add_refresh_token u t db =
     map_sum id (\<lambda>rows. db\<lparr>refresh_tokens := rows\<rparr>)
       (insert_rows token_key (\<lambda>_. us_uuid u \<in> set (user_list_uuids db)) [t\<lparr>rt_user_uuid := us_uuid u\<rparr>]
         (delete_rows (\<lambda>x. rt_user_uuid x = us_uuid u \<and> rt_client_id x = rt_client_id t) (refresh_tokens db)))"

definition remove_refresh_token :: "User \<Rightarrow> RefreshToken \<Rightarrow> database \<Rightarrow> database" where
  "remove_refresh_token u t db =
     db\<lparr>refresh_tokens := delete_rows (\<lambda>x. rt_user_uuid x = us_uuid u \<and> token_key x = token_key t) (refresh_tokens db)\<rparr>"

section \<open>SessionDAO and RefreshTokenDAO\<close>

definition session_find :: "uuid \<Rightarrow> database \<Rightarrow> Session option" where
  "session_find session_uuid db = find_row se_uuid session_uuid (sessions db)"

definition session_get :: "uuid \<Rightarrow> database \<Rightarrow> exn + Session" where
  "session_get session_uuid db =
     (case session_find session_uuid db of
        None \<Rightarrow> Inl (UnknownSessionException session_uuid) | Some s \<Rightarrow> Inr s)"

definition session_create_all :: "Session list \<Rightarrow> database \<Rightarrow> exn + database" where
  "session_create_all new db =
     map_sum id (\<lambda>rows. db\<lparr>sessions := rows\<rparr>)
       (bulk_insert se_uuid (\<lambda>s. se_user_uuid s \<in> set (user_list_uuids db)) new (sessions db))"

definition delete_sessions :: "(Session \<Rightarrow> bool) \<Rightarrow> database \<Rightarrow> database" where
  "delete_sessions p db = db\<lparr>sessions := delete_rows p (sessions db)\<rparr>"

definition session_delete_by_uuids :: "uuid list \<Rightarrow> database \<Rightarrow> database" where
  "session_delete_by_uuids uuids db = bulk_delete delete_sessions se_uuid uuids db"

definition session_update_all :: "(uuid \<times> bool) list \<Rightarrow> database \<Rightarrow> database" where
  "session_update_all new db = db\<lparr>sessions :=
     bulk_update se_uuid (\<lambda>m s. s\<lparr>se_mobile := m\<rparr>) new (sessions db)\<rparr>"

definition refresh_token_get :: "uuid \<Rightarrow> string \<Rightarrow> database \<Rightarrow> exn + RefreshToken" where
  "refresh_token_get user_uuid client_id db =
     (case find_row token_key (client_id, user_uuid) (refresh_tokens db) of
        None \<Rightarrow> Inl (UnknownRefreshTokenException client_id user_uuid) | Some t \<Rightarrow> Inr t)"

definition refresh_token_find :: "uuid \<Rightarrow> string \<Rightarrow> database \<Rightarrow> RefreshToken option" where
  "refresh_token_find user_uuid client_id db =
     List.find (\<lambda>t. rt_user_uuid t = user_uuid \<and> rt_client_id t = client_id) (refresh_tokens db)"

definition refresh_token_create_all :: "RefreshToken list \<Rightarrow> database \<Rightarrow> exn + database" where
  "refresh_token_create_all new db =
     map_sum id (\<lambda>rows. db\<lparr>refresh_tokens := rows\<rparr>)
       (bulk_insert token_key (\<lambda>t. rt_user_uuid t \<in> set (user_list_uuids db)) new (refresh_tokens db))"

definition delete_tokens :: "(RefreshToken \<Rightarrow> bool) \<Rightarrow> database \<Rightarrow> database" where
  "delete_tokens p db = db\<lparr>refresh_tokens := delete_rows p (refresh_tokens db)\<rparr>"

definition refresh_token_delete_by_keys :: "(string \<times> uuid) list \<Rightarrow> database \<Rightarrow> database" where
  "refresh_token_delete_by_keys keys db = bulk_delete delete_tokens token_key keys db"

definition refresh_token_update_all :: "((string \<times> uuid) \<times> bool) list \<Rightarrow> database \<Rightarrow> database" where
  "refresh_token_update_all new db = db\<lparr>refresh_tokens :=
     bulk_update token_key (\<lambda>m t. t\<lparr>rt_mobile := m\<rparr>) new (refresh_tokens db)\<rparr>"

section \<open>LineDAO, EndpointDAO and ChannelDAO\<close>

definition line_find :: "int \<Rightarrow> database \<Rightarrow> Line option" where
  "line_find line_id db = find_row ln_id line_id (lines db)"

definition line_get :: "int \<Rightarrow> database \<Rightarrow> exn + Line" where
  "line_get line_id db =
     (case line_find line_id db of None \<Rightarrow> Inl (UnknownLineException line_id) | Some l \<Rightarrow> Inr l)"

text \<open>\<open>find_by(endpoint_name=None)\<close> compares with NULL: the first line without an endpoint.\<close>

definition line_find_by_endpoint :: "string option \<Rightarrow> database \<Rightarrow> Line option" where
  "line_find_by_endpoint endpoint_name db = List.find (\<lambda>l. ln_endpoint_name l = endpoint_name) (lines db)"

definition endpoint_list_names :: "database \<Rightarrow> string list" where
  "endpoint_list_names db = map ep_name (endpoints db)"

definition line_create_all :: "Line list \<Rightarrow> database \<Rightarrow> exn + database" where
  "line_create_all new db =
     map_sum id (\<lambda>rows. db\<lparr>lines := rows\<rparr>)
       (bulk_insert ln_id (\<lambda>l. ln_user_uuid l \<in> set (user_list_uuids db) \<and>
            (case ln_endpoint_name l of None \<Rightarrow> True | Some n \<Rightarrow> n \<in> set (endpoint_list_names db)))
          new (lines db))"

definition line_delete_by_ids :: "int list \<Rightarrow> database \<Rightarrow> database" where
  "line_delete_by_ids ids db = bulk_delete cascade_lines ln_id ids db"

definition associate_endpoint :: "Line \<Rightarrow> Endpoint \<Rightarrow> database \<Rightarrow> database" where
  "associate_endpoint l e db =
     db\<lparr>lines := update_rows (\<lambda>x. ln_id x = ln_id l) (\<lambda>x. x\<lparr>ln_endpoint_name := Some (ep_name e)\<rparr>) (lines db)\<rparr>"

definition associate_endpoints :: "(int \<times> string) list \<Rightarrow> database \<Rightarrow> exn + database" where
  "associate_endpoints associations db =
     (let rows = bulk_update ln_id (\<lambda>n l. l\<lparr>ln_endpoint_name := Some n\<rparr>) associations (lines db)
      in if list_all (\<lambda>l. case ln_endpoint_name l of None \<Rightarrow> True | Some n \<Rightarrow> n \<in> set (endpoint_list_names db)) rows
         then Inr (db\<lparr>lines := rows\<rparr>) else Inl (IntegrityError False))"

definition dissociate_endpoint :: "Line \<Rightarrow> database \<Rightarrow> database" where
  "dissociate_endpoint l db =
     db\<lparr>lines := update_rows (\<lambda>x. ln_id x = ln_id l) (\<lambda>x. x\<lparr>ln_endpoint_name := None\<rparr>) (lines db)\<rparr>"

definition add_channel :: "Line \<Rightarrow> Channel \<Rightarrow> database \<Rightarrow> exn + database" where
  "add_channel l c db =
     map_sum id (\<lambda>rows. db\<lparr>channels := rows\<rparr>)
       (insert_rows ch_name (\<lambda>_. ln_id l \<in> ln_id ` set (lines db)) [c\<lparr>ch_line_id := ln_id l\<rparr>] (channels db))"

definition remove_channel :: "Line \<Rightarrow> Channel \<Rightarrow> database \<Rightarrow> database" where
  "remove_channel l c db =
     db\<lparr>channels := delete_rows (\<lambda>x. ch_line_id x = ln_id l \<and> ch_name x = ch_name c) (channels db)\<rparr>"

definition endpoint_find :: "string \<Rightarrow> database \<Rightarrow> Endpoint option" where
  "endpoint_find name db = find_row ep_name name (endpoints db)"

definition endpoint_get_by :: "string \<Rightarrow> database \<Rightarrow> exn + Endpoint" where
  "endpoint_get_by name db =
     (case endpoint_find name db of None \<Rightarrow> Inl (UnknownEndpointException name) | Some e \<Rightarrow> Inr e)"

definition endpoint_create_all :: "Endpoint list \<Rightarrow> database \<Rightarrow> exn + database" where
  "endpoint_create_all new db =
     map_sum id (\<lambda>rows. db\<lparr>endpoints := rows\<rparr>) (bulk_insert ep_name (\<lambda>_. True) new (endpoints db))"

definition new_endpoint :: "string \<Rightarrow> Endpoint" where
  "new_endpoint name = \<lparr>ep_name = name, ep_state = EndpointUnavailable\<rparr>"

definition endpoint_find_or_create :: "string \<Rightarrow> database \<Rightarrow> exn + Endpoint \<times> database" where
  "endpoint_find_or_create name db =
     (case endpoint_find name db of
        Some e \<Rightarrow> Inr (e, db)
      | None \<Rightarrow> map_sum id (\<lambda>rows. (new_endpoint name, db\<lparr>endpoints := rows\<rparr>))
                  (insert_rows ep_name (\<lambda>_. True) [new_endpoint name] (endpoints db)))"

definition endpoint_update :: "Endpoint \<Rightarrow> database \<Rightarrow> database" where
  "endpoint_update e db =
     db\<lparr>endpoints := update_rows (\<lambda>x. ep_name x = ep_name e) (\<lambda>_. e) (endpoints db)\<rparr>"

definition endpoint_delete_all :: "database \<Rightarrow> database" where
  "endpoint_delete_all db = cascade_endpoints (\<lambda>_. True) db"

definition channel_find :: "string \<Rightarrow> database \<Rightarrow> Channel option" where
  "channel_find name db = find_row ch_name name (channels db)"

definition channel_update :: "Channel \<Rightarrow> database \<Rightarrow> database" where
  "channel_update c db =
     db\<lparr>channels := update_rows (\<lambda>x. ch_name x = ch_name c) (\<lambda>_. c) (channels db)\<rparr>"

definition channel_create_all :: "Channel list \<Rightarrow> database \<Rightarrow> exn + database" where
  "channel_create_all new db =
     map_sum id (\<lambda>rows. db\<lparr>channels := rows\<rparr>)
       (bulk_insert ch_name (\<lambda>c. ch_line_id c \<in> ln_id ` set (lines db)) new (channels db))"

definition channel_delete_all :: "database \<Rightarrow> database" where
  "channel_delete_all db = db\<lparr>channels := []\<rparr>"

section \<open>Batches change nothing\<close>

lemma concat_chunked: "0 < n \<Longrightarrow> concat (chunked n xs) = xs"
proof (induction n xs rule: chunked.induct)
  case (1 n xs)
  then show ?case by (subst chunked.simps) (simp add: append_take_drop_id)
qed

lemma insert_rows_ok:
  "insert_rows key fk new rows = Inr rows' \<longleftrightarrow>
     rows' = rows @ new \<and> keyed key (rows @ new) \<and> list_all fk new"
  by (auto simp: insert_rows_def)

lemma bulk_insert_chunks_ok:
  assumes "keyed key rows"
  shows "bulk_insert_chunks key fk chunks rows = Inr rows' \<longleftrightarrow>
     rows' = rows @ concat chunks \<and> keyed key (rows @ concat chunks) \<and> list_all fk (concat chunks)"
  using assms
proof (induction chunks arbitrary: rows)
  case (Cons c chunks)
  show ?case
  proof (cases "keyed key (rows @ c) \<and> list_all fk c")
    case True
    then have "insert_rows key fk c rows = Inr (rows @ c)" by (simp add: insert_rows_def)
    with True Cons.IH [of "rows @ c"] show ?thesis by simp
  next
    case False
    then obtain e where "insert_rows key fk c rows = Inl e"
      by (cases "insert_rows key fk c rows") (auto simp: insert_rows_ok)
    with False show ?thesis by (auto simp: keyed_append)
  qed
qed auto

lemma bulk_insert_ok:
  assumes "keyed key rows"
  shows "bulk_insert key fk new rows = Inr rows' \<longleftrightarrow>
     rows' = rows @ new \<and> keyed key (rows @ new) \<and> list_all fk new"
  unfolding bulk_insert_def bulk_insert_chunks_ok [OF assms]
  by (simp add: concat_chunked BULK_BATCH_SIZE_def)

lemma bulk_insert_fails:
  assumes "keyed key rows" and "\<not> (keyed key (rows @ new) \<and> list_all fk new)"
  shows "\<exists>b. bulk_insert key fk new rows = Inl (IntegrityError b)"
proof -
  have "bulk_insert_chunks key fk chunks rows = Inl e \<Longrightarrow> \<exists>b. e = IntegrityError b" for chunks rows e
    by (induction chunks arbitrary: rows)
      (auto simp: insert_rows_def split: if_splits)
  then show ?thesis
    using bulk_insert_ok [OF assms(1), of fk new] assms(2)
    by (cases "bulk_insert key fk new rows") (auto simp: bulk_insert_def)
qed

lemma fold_update_from_values:
  assumes "\<And>v r. key (f v r) = key r" and "distinct (map fst (concat chunks))"
  shows "fold (update_from_values key f) chunks rows = update_from_values key f (concat chunks) rows"
  using assms(2)
proof (induction chunks arbitrary: rows)
  case Nil
  then show ?case by (simp add: update_from_values_def)
next
  case (Cons c chunks)
  have "map_of c k = Some v \<Longrightarrow> map_of (concat chunks) k = None" for k v
    using Cons.prems by (force simp: map_of_eq_None_iff dest!: map_of_SomeD)
  then have "update_from_values key f (concat chunks) (update_from_values key f c rows) =
      update_from_values key f (c @ concat chunks) rows"
    by (auto simp: update_from_values_def assms(1) map_add_def split: option.split)
  with Cons show ?case by simp
qed

lemma bulk_update_eq:
  assumes "\<And>v r. key (f v r) = key r" and "distinct (map fst new)"
  shows "bulk_update key f new rows = update_from_values key f new rows"
  unfolding bulk_update_def
  using fold_update_from_values [of key f "chunked BULK_BATCH_SIZE new"] assms
  by (simp add: concat_chunked BULK_BATCH_SIZE_def)

lemma fold_delete_rows:
  "fold (\<lambda>chunk. delete_rows (\<lambda>r. target r \<in> set chunk)) chunks rows =
     delete_rows (\<lambda>r. target r \<in> set (concat chunks)) rows"
proof (induction chunks arbitrary: rows)
  case (Cons c chunks)
  have "delete_rows p (delete_rows q rows) = delete_rows (\<lambda>r. q r \<or> p r) rows" for p q
    by (simp add: delete_rows_def)
  with Cons show ?case by (simp add: disj_commute)
qed (simp add: delete_rows_def)

end
