(* ===== verification/PresenceIntegrity.thy ===== *)
theory PresenceIntegrity
  imports PresenceQueries
begin

text \<open>
  The presence queries keep the constraints of the schema, and what a bulk delete leaves: the
  surviving parents with exactly their own children (\<open>pruned\<close>).
\<close>

section \<open>Deleting parents\<close>

definition user_uuids :: "database \<Rightarrow> uuid set" where
  "user_uuids db = us_uuid ` set (users db)"

definition tenant_uuids_of :: "database \<Rightarrow> uuid set" where
  "tenant_uuids_of db = tn_uuid ` set (tenants db)"

definition pruned :: "database \<Rightarrow> database \<Rightarrow> bool" where
  "pruned db db' \<longleftrightarrow> set (users db') \<subseteq> set (users db) \<and>
     sessions db' = filter (\<lambda>s. se_user_uuid s \<in> user_uuids db') (sessions db) \<and>
     refresh_tokens db' = filter (\<lambda>t. rt_user_uuid t \<in> user_uuids db') (refresh_tokens db) \<and>
     lines db' = filter (\<lambda>l. ln_user_uuid l \<in> user_uuids db') (lines db) \<and>
     endpoints db' = endpoints db"

lemma pruned_refl: "presence_ok db \<Longrightarrow> pruned db db"
  by (auto simp: pruned_def user_uuids_def integrity_defs refs_def intro!: filter_True [symmetric])

lemma pruned_trans:
  assumes "pruned a b" and "pruned b c"
  shows "pruned a c"
proof -
  have "user_uuids c \<subseteq> user_uuids b"
    using assms(2) by (auto simp: pruned_def user_uuids_def)
  then have "u \<in> user_uuids b \<and> u \<in> user_uuids c \<longleftrightarrow> u \<in> user_uuids c" for u
    by blast
  with assms show ?thesis by (simp add: pruned_def) blast
qed

lemma survivors:
  assumes "keyed key parents" and "refs f rows (key ` set parents)"
  shows "delete_rows (\<lambda>r. f r \<in> key ` {x \<in> set parents. p x}) rows =
     filter (\<lambda>r. f r \<in> key ` {x \<in> set parents. \<not> p x}) rows"
proof -
  have "f r \<notin> key ` {x \<in> set parents. p x} \<longleftrightarrow> f r \<in> key ` {x \<in> set parents. \<not> p x}"
    if "r \<in> set rows" for r
  proof -
    have "f r \<in> key ` set parents"
      using assms(2) that unfolding refs_def by blast
    then obtain x where "x \<in> set parents" "f r = key x" by blast
    with assms(1) show ?thesis by (auto dest: keyed_inj)
  qed
  then show ?thesis unfolding delete_rows_def by (intro filter_cong) auto
qed

lemma cascade_users_presence_fields:
  "sessions (cascade_users p db) = delete_rows (\<lambda>s. se_user_uuid s \<in> us_uuid ` {u \<in> set (users db). p u}) (sessions db)"
  "refresh_tokens (cascade_users p db) =
     delete_rows (\<lambda>t. rt_user_uuid t \<in> us_uuid ` {u \<in> set (users db). p u}) (refresh_tokens db)"
  "lines (cascade_users p db) = delete_rows (\<lambda>l. ln_user_uuid l \<in> us_uuid ` {u \<in> set (users db). p u}) (lines db)"
  "endpoints (cascade_users p db) = endpoints db"
  by (simp_all add: cascade_users_def cascade_lines_def cascade_identities_def Let_def)

lemma pruned_cascade_users:
  assumes "presence_ok db"
  shows "pruned db (cascade_users p db)"
proof -
  have k: "keyed us_uuid (users db)"
    and "refs se_user_uuid (sessions db) (us_uuid ` set (users db))"
    and "refs rt_user_uuid (refresh_tokens db) (us_uuid ` set (users db))"
    and "refs ln_user_uuid (lines db) (us_uuid ` set (users db))"
    using assms by (simp_all add: integrity_defs)
  then show ?thesis
    by (simp add: pruned_def user_uuids_def cascade_users_presence_fields cascade_users_fields survivors)
qed

lemma cascade_rooms_presence_fields:
  "sessions (cascade_rooms p db) = sessions db" "refresh_tokens (cascade_rooms p db) = refresh_tokens db"
  "lines (cascade_rooms p db) = lines db" "endpoints (cascade_rooms p db) = endpoints db"
  "sessions (cascade_identities q db) = sessions db" "refresh_tokens (cascade_identities q db) = refresh_tokens db"
  "lines (cascade_identities q db) = lines db" "endpoints (cascade_identities q db) = endpoints db"
  by (simp_all add: cascade_rooms_def cascade_messages_def cascade_identities_def Let_def)

lemma pruned_cong:
  assumes "users db = users db0" "sessions db = sessions db0" "refresh_tokens db = refresh_tokens db0"
    "lines db = lines db0" "endpoints db = endpoints db0"
    "users db' = users db0'" "sessions db' = sessions db0'" "refresh_tokens db' = refresh_tokens db0'"
    "lines db' = lines db0'" "endpoints db' = endpoints db0'"
  shows "pruned db db' \<longleftrightarrow> pruned db0 db0'"
  using assms by (simp add: pruned_def user_uuids_def)

lemma cascade_tenants_pruned:
  assumes "presence_ok db" and "chat_ok db"
  shows "pruned db (cascade_tenants p db)"
    and "tenants (cascade_tenants p db) = delete_rows p (tenants db)"
    and "users (cascade_tenants p db) =
      filter (\<lambda>u. us_tenant_uuid u \<in> tn_uuid ` {t \<in> set (tenants db). \<not> p t}) (users db)"
proof -
  define gone where "gone = tn_uuid ` {t \<in> set (tenants db). p t}"
  define db2 where "db2 = cascade_identities (\<lambda>i. ui_tenant_uuid i \<in> gone)
    (cascade_rooms (\<lambda>r. ro_tenant_uuid r \<in> gone) db)"
  have eq: "cascade_tenants p db = (cascade_users (\<lambda>u. us_tenant_uuid u \<in> gone) db2)
      \<lparr>tenants := delete_rows p (tenants db)\<rparr>"
    by (simp add: cascade_tenants_def Let_def db2_def gone_def cascade_fields)
  have "presence_ok db2"
    using assms(1) by (simp add: db2_def cascade_rooms_presence cascade_identities_presence)
  then have "pruned db2 (cascade_users (\<lambda>u. us_tenant_uuid u \<in> gone) db2)"
    by (rule pruned_cascade_users)
  moreover have "users db2 = users db" "sessions db2 = sessions db" "refresh_tokens db2 = refresh_tokens db"
    "lines db2 = lines db" "endpoints db2 = endpoints db"
    by (simp_all add: db2_def cascade_fields cascade_rooms_presence_fields)
  ultimately show "pruned db (cascade_tenants p db)"
    by (simp add: eq pruned_def user_uuids_def)
  show "tenants (cascade_tenants p db) = delete_rows p (tenants db)" by (simp add: eq)
  have "users (cascade_tenants p db) = delete_rows (\<lambda>u. us_tenant_uuid u \<in> gone) (users db)"
    using \<open>users db2 = users db\<close> by (simp add: eq cascade_users_fields)
  then show "users (cascade_tenants p db) =
      filter (\<lambda>u. us_tenant_uuid u \<in> tn_uuid ` {t \<in> set (tenants db). \<not> p t}) (users db)"
    using assms(1) by (simp add: gone_def survivors integrity_defs)
qed

lemma tenant_delete_by_uuids_ok:
  fixes uuids :: "uuid list"
  assumes "presence_ok db" and "chat_ok db"
  defines "db' \<equiv> tenant_delete_by_uuids uuids db"
  shows "presence_ok db' \<and> chat_ok db' \<and> pruned db db' \<and>
     tenants db' = delete_rows (\<lambda>t. tn_uuid t \<in> set uuids) (tenants db) \<and>
     users db' = filter (\<lambda>u. us_tenant_uuid u \<in> tenant_uuids_of db') (users db)"
proof -
  let ?f = "\<lambda>chunk. cascade_tenants (\<lambda>t. tn_uuid t \<in> set chunk)"
  have "presence_ok (fold ?f chunks db) \<and> chat_ok (fold ?f chunks db) \<and> pruned db (fold ?f chunks db) \<and>
     tenants (fold ?f chunks db) = delete_rows (\<lambda>t. tn_uuid t \<in> set (concat chunks)) (tenants db) \<and>
     users (fold ?f chunks db) = filter (\<lambda>u. us_tenant_uuid u \<in> tenant_uuids_of (fold ?f chunks db)) (users db)"
    for chunks
    using assms(1,2)
  proof (induction chunks arbitrary: db)
    case Nil
    then have "filter (\<lambda>u. us_tenant_uuid u \<in> tenant_uuids_of db) (users db) = users db"
      by (auto simp: tenant_uuids_of_def integrity_defs refs_def intro!: filter_True)
    with Nil show ?case by (simp add: pruned_refl delete_rows_def)
  next
    case (Cons c chunks)
    let ?db1 = "?f c db" let ?db2 = "fold ?f chunks ?db1"
    have ok: "presence_ok ?db1" "chat_ok ?db1"
      using Cons.prems by (simp_all add: cascade_tenants_ok)
    note IH = Cons.IH [OF ok]
    note one = cascade_tenants_pruned [OF Cons.prems, of "\<lambda>t. tn_uuid t \<in> set c"]
    have t: "tenants ?db2 = delete_rows (\<lambda>t. tn_uuid t \<in> set (concat (c # chunks))) (tenants db)"
      using IH one(2) by (simp add: delete_rows_def conj_commute)
    have "us_tenant_uuid u \<in> tenant_uuids_of ?db2 \<Longrightarrow>
        us_tenant_uuid u \<in> tn_uuid ` {t \<in> set (tenants db). tn_uuid t \<notin> set c}" for u
      by (auto simp: tenant_uuids_of_def t)
    then have "users ?db2 = filter (\<lambda>u. us_tenant_uuid u \<in> tenant_uuids_of ?db2) (users db)"
      using IH one(3) by (auto intro!: filter_cong)
    with IH t show ?case using pruned_trans [OF one(1)] by simp
  qed
  from this [of "chunked BULK_BATCH_SIZE uuids"] show ?thesis
    by (simp add: db'_def tenant_delete_by_uuids_def bulk_delete_def concat_chunked BULK_BATCH_SIZE_def)
qed

lemma user_delete_by_uuids_ok:
  fixes uuids :: "uuid list"
  assumes "presence_ok db" and "chat_ok db"
  defines "db' \<equiv> user_delete_by_uuids uuids db"
  shows "presence_ok db' \<and> chat_ok db' \<and> pruned db db' \<and> tenants db' = tenants db \<and>
     users db' = delete_rows (\<lambda>u. us_uuid u \<in> set uuids) (users db)"
proof -
  let ?f = "\<lambda>chunk. cascade_users (\<lambda>u. us_uuid u \<in> set chunk)"
  have "presence_ok (fold ?f chunks db) \<and> chat_ok (fold ?f chunks db) \<and> pruned db (fold ?f chunks db) \<and>
     tenants (fold ?f chunks db) = tenants db \<and>
     users (fold ?f chunks db) = delete_rows (\<lambda>u. us_uuid u \<in> set (concat chunks)) (users db)" for chunks
    using assms(1,2)
  proof (induction chunks arbitrary: db)
    case (Cons c chunks)
    have ok: "presence_ok (?f c db)" "chat_ok (?f c db)"
      using Cons.prems by (simp_all add: cascade_users_presence cascade_users_chat)
    show ?case
      using Cons.IH [OF ok]
        pruned_trans [OF pruned_cascade_users [OF Cons.prems(1)], of "\<lambda>u. us_uuid u \<in> set c" "fold ?f chunks (?f c db)"]
      by (simp add: cascade_users_fields delete_rows_def conj_commute)
  qed (simp add: pruned_refl delete_rows_def)
  from this [of "chunked BULK_BATCH_SIZE uuids"] show ?thesis
    by (simp add: db'_def user_delete_by_uuids_def bulk_delete_def concat_chunked BULK_BATCH_SIZE_def)
qed

end
