(* ===== verification/Helpers.thy ===== *)
theory Helpers
  imports Models "HOL-Library.Stream"
begin

text \<open>
  \<open>plugins/connectors/helpers.py\<close>: jitter, the reconnection back-off, the echo signature of an
  outbound message; and the decimal ids of the \<open>connector_delivery\<close> notifications, which
  \<open>database/queries/room.py\<close> prints and \<open>plugins/connectors/runner.py\<close> splits.
\<close>

section \<open>Jitter and back-off\<close>

text \<open>\<open>sample\<close> is what \<open>random.uniform(-ratio, ratio)\<close> returned.\<close>

definition apply_jitter :: "real \<Rightarrow> real \<Rightarrow> real \<Rightarrow> real" where
  "apply_jitter sample ratio value =
     (if \<not> (0 < ratio \<and> ratio < 1) then value else value * (1 + sample))"

definition exponential_backoff :: "int stream" where
  "exponential_backoff = [1, 2, 4, 8, 16, 32] @- sconst 32"

lemma apply_jitter_bounds:
  assumes "0 \<le> value" and "\<bar>sample\<bar> \<le> ratio"
  shows "value - value * \<bar>ratio\<bar> \<le> apply_jitter sample ratio value"
    and "apply_jitter sample ratio value \<le> value + value * \<bar>ratio\<bar>"
proof -
  have "value * \<bar>sample\<bar> \<le> value * \<bar>ratio\<bar>"
    using assms by (intro mult_left_mono) auto
  moreover have "\<bar>value * sample\<bar> = value * \<bar>sample\<bar>"
    using assms(1) by (simp add: abs_mult)
  moreover have "0 \<le> value * \<bar>ratio\<bar>"
    using assms(1) by simp
  ultimately show "value - value * \<bar>ratio\<bar> \<le> apply_jitter sample ratio value"
    and "apply_jitter sample ratio value \<le> value + value * \<bar>ratio\<bar>"
    by (auto simp: apply_jitter_def algebra_simps abs_le_iff)
qed

lemma sconst_nth: "sconst x !! n = x"
  using sset_range [of "sconst x"] by (auto simp: image_def)

lemma exponential_backoff_nth: "exponential_backoff !! n = (if n < 6 then 2 ^ n else 32)"
proof (cases "n < 6")
  case True
  then have "n = 0 \<or> n = 1 \<or> n = 2 \<or> n = 3 \<or> n = 4 \<or> n = 5"
    by linarith
  with True show ?thesis by (auto simp: exponential_backoff_def eval_nat_numeral)
next
  case False
  then have "exponential_backoff !! n = sconst 32 !! (n - 6)"
    unfolding exponential_backoff_def by (subst shift_snth) simp
  with False show ?thesis by (simp add: sconst_nth)
qed

section \<open>Echo signature\<close>

text \<open>
  A body is a list of code points. \<open>isascii\<close> is \<open>< 128\<close>; the ASCII characters with
  \<open>str.isspace\<close> are 9 to 13, 28 to 31 and 32; \<open>str.lower\<close> moves A..Z. The SHA-256 hex
  digest of the standard library is the parameter \<open>sha256_hex\<close>.
\<close>

definition is_ascii :: "nat \<Rightarrow> bool" where
  "is_ascii c \<longleftrightarrow> c < 128"

definition is_space :: "nat \<Rightarrow> bool" where
  "is_space c \<longleftrightarrow> (9 \<le> c \<and> c \<le> 13) \<or> (28 \<le> c \<and> c \<le> 32)"

definition lower :: "nat \<Rightarrow> nat" where
  "lower c = (if 65 \<le> c \<and> c \<le> 90 then c + 32 else c)"

definition normalize_body :: "body \<Rightarrow> body" where
  "normalize_body b = map lower (filter (\<lambda>c. is_ascii c \<and> \<not> is_space c) b)"

definition generate_message_signature :: "(string \<Rightarrow> string) \<Rightarrow> string \<Rightarrow> body \<Rightarrow> string" where
  "generate_message_signature sha256_hex sender_identity b =
     (let normalized = normalize_body b;
          payload = sender_identity @ '':'' @ map char_of (take 160 normalized)
      in take 16 (sha256_hex payload))"

lemma normalize_body_idem [simp]: "normalize_body (normalize_body b) = normalize_body b"
  by (induction b) (auto simp: normalize_body_def lower_def is_ascii_def is_space_def)

lemma normalize_body_append: "normalize_body (a @ b) = normalize_body a @ normalize_body b"
  by (simp add: normalize_body_def)

lemma normalize_body_noise:
  "\<forall>c \<in> set noise. \<not> is_ascii c \<or> is_space c \<Longrightarrow> normalize_body noise = []"
  by (auto simp: normalize_body_def filter_empty_conv)

lemma signature_cong:
  "take 160 (normalize_body a) = take 160 (normalize_body b) \<Longrightarrow>
     generate_message_signature h s a = generate_message_signature h s b"
  by (simp add: generate_message_signature_def)

text \<open>
  The echo signature survives what carriers do to a body: text that
  differs only in the case of its ASCII letters, in white space, in non-ASCII characters, or
  after the first 160 significant characters gets the same signature, so a re-encoded or
  re-assembled copy of an outbound message is recognised.
\<close>

theorem signature_insensitive:
  assumes "\<forall>c \<in> set noise. \<not> is_ascii c \<or> is_space c"
    and "160 \<le> length (normalize_body (a @ b)) \<or> tail = tail'"
  shows "generate_message_signature sha256_hex sender (a @ noise @ b @ tail) =
         generate_message_signature sha256_hex sender (map lower (a @ b) @ tail')"
proof (rule signature_cong)
  have low: "normalize_body (map lower xs) = normalize_body xs" for xs
    by (induction xs) (auto simp: normalize_body_def lower_def is_ascii_def is_space_def)
  have "normalize_body (a @ noise @ b @ tail) = normalize_body (a @ b) @ normalize_body tail"
    using assms(1) by (simp add: normalize_body_append normalize_body_noise)
  moreover have "normalize_body (map lower (a @ b) @ tail') =
      normalize_body (a @ b) @ normalize_body tail'"
    by (simp only: normalize_body_append low)
  ultimately show "take 160 (normalize_body (a @ noise @ b @ tail)) =
      take 160 (normalize_body (map lower (a @ b) @ tail'))"
    using assms(2) by auto
qed

theorem signature_insensitive_witness:
  "generate_message_signature id ''+1555'' ([72, 105] @ [32, 9731] @ [66, 111, 66] @ []) =
   generate_message_signature id ''+1555'' (map lower ([72, 105] @ [66, 111, 66]) @ [])"
  by (rule signature_insensitive) (auto simp: is_ascii_def is_space_def)

section \<open>Notification payloads\<close>

text \<open>
  \<open>str(d.id)\<close> of a non-negative id, \<open>','.join(...)\<close>, \<open>payload.split(',')\<close> and
  \<open>int(...)\<close> of a decimal string.
\<close>

fun str_of_nat :: "nat \<Rightarrow> string" where
  "str_of_nat n = (if n < 10 then [char_of (48 + n)] else str_of_nat (n div 10) @ [char_of (48 + n mod 10)])"

declare str_of_nat.simps [simp del]

definition digit_value :: "char \<Rightarrow> nat option" where
  "digit_value c = (let v = of_char c :: nat in if 48 \<le> v \<and> v \<le> 57 then Some (v - 48) else None)"

fun nat_of_digits :: "nat \<Rightarrow> string \<Rightarrow> nat option" where
  "nat_of_digits acc [] = Some acc"
| "nat_of_digits acc (c # cs) =
     (case digit_value c of None \<Rightarrow> None | Some v \<Rightarrow> nat_of_digits (10 * acc + v) cs)"

definition nat_of_str :: "string \<Rightarrow> nat option" where
  "nat_of_str s = (if s = [] then None else nat_of_digits 0 s)"

fun join_commas :: "string list \<Rightarrow> string" where
  "join_commas [] = []"
| "join_commas [x] = x"
| "join_commas (x # y # ys) = x @ '','' @ join_commas (y # ys)"

fun split_commas_acc :: "string \<Rightarrow> string \<Rightarrow> string list" where
  "split_commas_acc acc [] = [rev acc]"
| "split_commas_acc acc (c # cs) =
     (if c = CHR '','' then rev acc # split_commas_acc [] cs else split_commas_acc (c # acc) cs)"

definition split_commas :: "string \<Rightarrow> string list" where
  "split_commas s = split_commas_acc [] s"

lemma nat_of_digits_append:
  "nat_of_digits acc (a @ b) = (case nat_of_digits acc a of None \<Rightarrow> None | Some v \<Rightarrow> nat_of_digits v b)"
  by (induction a arbitrary: acc) (auto split: option.splits)

lemma digit_value_digit [simp]: "d < 10 \<Longrightarrow> digit_value (char_of (48 + d)) = Some d"
  by (simp add: digit_value_def Let_def)

lemma nat_of_digits_str: "nat_of_digits 0 (str_of_nat n) = Some n"
proof (induction n rule: str_of_nat.induct)
  case (1 n)
  show ?case
  proof (cases "n < 10")
    case True
    then show ?thesis by (simp add: str_of_nat.simps [of n])
  next
    case False
    have "digit_value (char_of (48 + n mod 10)) = Some (n mod 10)"
      by (rule digit_value_digit) simp
    with False 1 show ?thesis
      by (simp add: str_of_nat.simps [of n] nat_of_digits_append)
  qed
qed

lemma str_of_nat_nonempty [simp]: "str_of_nat n \<noteq> []"
  by (subst str_of_nat.simps) simp

lemma nat_of_str_of_nat [simp]: "nat_of_str (str_of_nat n) = Some n"
  by (simp add: nat_of_str_def nat_of_digits_str)

lemma str_of_nat_no_comma: "CHR '','' \<notin> set (str_of_nat n)"
proof (induction n rule: str_of_nat.induct)
  case (1 n)
  have d: "char_of (48 + d) \<noteq> CHR '',''" if "d < 10" for d :: nat
  proof
    assume "char_of (48 + d) = CHR '',''"
    then have "digit_value (CHR '','') = Some d" using that digit_value_digit [of d] by simp
    then show False by (simp add: digit_value_def)
  qed
  show ?case
    using 1 d [of n] d [of "n mod 10"] by (cases "n < 10") (auto simp: str_of_nat.simps [of n])
qed

lemma split_commas_acc_plain:
  "CHR '','' \<notin> set x \<Longrightarrow> split_commas_acc acc x = [rev acc @ x]"
  by (induction x arbitrary: acc) auto

lemma split_commas_acc_sep:
  "CHR '','' \<notin> set x \<Longrightarrow>
     split_commas_acc acc (x @ CHR '','' # rest) = (rev acc @ x) # split_commas_acc [] rest"
  by (induction x arbitrary: acc) auto

lemma split_join_commas:
  "xs \<noteq> [] \<Longrightarrow> \<forall>x \<in> set xs. CHR '','' \<notin> set x \<Longrightarrow> split_commas (join_commas xs) = xs"
  by (induction xs rule: join_commas.induct)
    (auto simp: split_commas_def split_commas_acc_plain split_commas_acc_sep)

end
