(* ===== verification/Presence.thy ===== *)
theory Presence
  imports PresenceIntegrity Helpers
begin

text \<open>
  Reading and updating presences: \<open>plugins/presences/schemas.py\<close> (the dumped payload with its
  merged line state), \<open>notifier.py\<close>, \<open>services.py\<close>, \<open>validator.py\<close> and \<open>http.py\<close>. The tenants
  a token sees, its ACL and the clock are arguments; UUID and date formats are left to marshmallow.
\<close>

section \<open>Payloads (schemas.py)\<close>

datatype line_state = LineRinging | LineProgressing | LineHolding | LineTalking | LineAvailable | LineUnavailable

primrec endpoint_line_state :: "endpoint_state \<Rightarrow> line_state" where
  "endpoint_line_state EndpointAvailable = LineAvailable"
| "endpoint_line_state EndpointUnavailable = LineUnavailable"

definition merge_channel_states :: "channel_state list \<Rightarrow> endpoint_state option \<Rightarrow> line_state" where
  "merge_channel_states cs endpoint =
     (if Ringing \<in> set cs then LineRinging
      else if Progressing \<in> set cs then LineProgressing
      else if Holding \<in> set cs then LineHolding
      else if Talking \<in> set cs then LineTalking
      else case endpoint of None \<Rightarrow> LineUnavailable | Some e \<Rightarrow> endpoint_line_state e)"

definition merge_line_states :: "line_state list \<Rightarrow> line_state" where
  "merge_line_states ls =
     (if LineRinging \<in> set ls then LineRinging
      else if LineProgressing \<in> set ls then LineProgressing
      else if LineHolding \<in> set ls then LineHolding
      else if LineTalking \<in> set ls then LineTalking
      else if LineAvailable \<in> set ls then LineAvailable
      else LineUnavailable)"

record line_dict =
  ld_id :: int
  ld_state :: line_state

definition dump_line :: "database \<Rightarrow> Line \<Rightarrow> line_dict" where
  "dump_line db l =
     \<lparr>ld_id = ln_id l, ld_state = merge_channel_states (channels_state db l) (endpoint_state db l)\<rparr>"

record presence_dict =
  pd_uuid :: uuid
  pd_tenant_uuid :: uuid
  pd_state :: user_state
  pd_status :: "string option"
  pd_last_activity :: "int option"
  pd_line_state :: line_state
  pd_mobile :: bool
  pd_do_not_disturb :: bool
  pd_connected :: bool
  pd_lines :: "line_dict list"

definition is_mobile :: "database \<Rightarrow> User \<Rightarrow> bool" where
  "is_mobile db u \<longleftrightarrow>
     (if list_ex rt_mobile (user_refresh_tokens db (us_uuid u)) then True
      else list_ex se_mobile (user_sessions db (us_uuid u)))"

definition is_connected :: "database \<Rightarrow> User \<Rightarrow> bool" where
  "is_connected db u \<longleftrightarrow> user_sessions db (us_uuid u) \<noteq> []"

definition dump_user :: "database \<Rightarrow> User \<Rightarrow> presence_dict" where
  "dump_user db u =
     (let ls = map (dump_line db) (user_lines db (us_uuid u))
      in \<lparr>pd_uuid = us_uuid u, pd_tenant_uuid = us_tenant_uuid u, pd_state = us_state u,
          pd_status = us_status u, pd_last_activity = us_last_activity u,
          pd_line_state = merge_line_states (map ld_state ls),
          pd_mobile = is_mobile db u, pd_do_not_disturb = us_do_not_disturb u,
          pd_connected = is_connected db u, pd_lines = ls\<rparr>)"

text \<open>A presence in a request: \<open>state\<close> is required, \<open>status\<close> may be absent or null.\<close>

record presence_body =
  pb_state :: "string option"
  pb_status :: "string option option"

definition parse_user_state :: "string \<Rightarrow> user_state option" where
  "parse_user_state s =
     (if s = ''available'' then Some UserAvailable
      else if s = ''unavailable'' then Some UserUnavailable
      else if s = ''invisible'' then Some UserInvisible
      else if s = ''away'' then Some UserAway
      else None)"

definition load_presence :: "presence_body \<Rightarrow> exn + user_state \<times> string option option" where
  "load_presence body =
     (case Option.bind (pb_state body) parse_user_state of
        None \<Rightarrow> Inl ValidationError | Some s \<Rightarrow> Inr (s, pb_status body))"

text \<open>\<open>?user_uuid=a,b\<close>: an empty or absent parameter is no filter; the set has no order.\<close>

definition convert_user_uuid_to_list :: "(string \<Rightarrow> bool) \<Rightarrow> string option \<Rightarrow> exn + uuid list" where
  "convert_user_uuid_to_list is_uuid arg =
     (case arg of
        None \<Rightarrow> Inr []
      | Some s \<Rightarrow>
          if s = [] then Inl ValidationError
          else let parts = remdups (split_commas s)
               in if list_all is_uuid parts then Inr parts else Inl ValidationError)"

section \<open>Notifier, service and validator\<close>

datatype presence_event = PresenceUpdated presence_dict uuid

definition presence_updated :: "database \<Rightarrow> User \<Rightarrow> presence_event" where
  "presence_updated db u = PresenceUpdated (dump_user db u) (us_tenant_uuid u)"

definition presence_update :: "int \<Rightarrow> User \<Rightarrow> database \<Rightarrow> presence_event list \<times> database" where
  "presence_update now u db =
     (let u' = u\<lparr>us_last_activity := Some now\<rparr>;
          db' = user_update u' db
      in ([presence_updated db' u'], db'))"

text \<open>
  \<open>status_validator\<close>: None before \<open>set_config\<close>, else whether initialisation is enabled; the
  status aggregator answers what \<open>Initiator.provide_status\<close> says.
\<close>

definition presence_initialization :: "bool option \<Rightarrow> bool \<Rightarrow> exn + unit" where
  "presence_initialization config initialized =
     (case config of
        None \<Rightarrow> Inl (OtherException ''StatusValidator not configured'')
      | Some enabled \<Rightarrow> if enabled \<and> \<not> initialized then Inl NotInitializedException else Inr ())"

section \<open>HTTP resources\<close>

definition presence_list_get ::
  "bool option \<Rightarrow> bool \<Rightarrow> uuid list \<Rightarrow> uuid list \<Rightarrow> database \<Rightarrow> exn + presence_dict list \<times> nat \<times> nat" where
  "presence_list_get config initialized tenant_uuids uuids db =
     map_sum id (\<lambda>_. (map (dump_user db) (user_list (Some tenant_uuids) uuids db),
                       user_count (Some tenant_uuids) uuids db, user_count (Some tenant_uuids) [] db))
       (presence_initialization config initialized)"

definition presence_item_get ::
  "bool option \<Rightarrow> bool \<Rightarrow> uuid list \<Rightarrow> uuid \<Rightarrow> database \<Rightarrow> exn + presence_dict" where
  "presence_item_get config initialized tenant_uuids user_uuid db =
     (case presence_initialization config initialized of
        Inl e \<Rightarrow> Inl e
      | Inr _ \<Rightarrow> map_sum id (dump_user db) (user_get tenant_uuids user_uuid db))"

definition presence_item_put ::
  "bool option \<Rightarrow> bool \<Rightarrow> uuid list \<Rightarrow> uuid \<Rightarrow> presence_body \<Rightarrow> int \<Rightarrow> database \<Rightarrow>
     exn + presence_event list \<times> database" where
  "presence_item_put config initialized tenant_uuids user_uuid body now db =
     (case presence_initialization config initialized of
        Inl e \<Rightarrow> Inl e
      | Inr _ \<Rightarrow>
          (case user_get tenant_uuids user_uuid db of
             Inl e \<Rightarrow> Inl e
           | Inr u \<Rightarrow>
               (case load_presence body of
                  Inl e \<Rightarrow> Inl e
                | Inr (s, st) \<Rightarrow>
                    Inr (presence_update now
                      (u\<lparr>us_state := s, us_status := (case st of None \<Rightarrow> us_status u | Some v \<Rightarrow> v)\<rparr>) db))))"

section \<open>The merged state is a maximum\<close>

text \<open>
  The reference: every channel and every endpoint of a line is a signal, and what is shown is the
  signal with the highest rank.
\<close>

primrec line_rank :: "line_state \<Rightarrow> nat" where
  "line_rank LineRinging = 5"
| "line_rank LineProgressing = 4"
| "line_rank LineHolding = 3"
| "line_rank LineTalking = 2"
| "line_rank LineAvailable = 1"
| "line_rank LineUnavailable = 0"

lemma line_rank_inject [simp]: "line_rank a = line_rank b \<longleftrightarrow> a = b"
  by (cases a; cases b) simp_all

primrec channel_signal :: "channel_state \<Rightarrow> line_state option" where
  "channel_signal Undefined = None"
| "channel_signal Holding = Some LineHolding"
| "channel_signal Ringing = Some LineRinging"
| "channel_signal Talking = Some LineTalking"
| "channel_signal Progressing = Some LineProgressing"

definition line_signals :: "database \<Rightarrow> Line \<Rightarrow> line_state set" where
  "line_signals db l =
     {s. \<exists>c \<in> set (channels_state db l). channel_signal c = Some s} \<union>
     (case endpoint_state db l of None \<Rightarrow> {} | Some e \<Rightarrow> {endpoint_line_state e})"

definition highest_rank :: "line_state set \<Rightarrow> nat" where
  "highest_rank S = Max (insert 0 (line_rank ` S))"

lemma finite_line_states: "finite (S :: line_state set)"
proof -
  have "S \<subseteq> {LineRinging, LineProgressing, LineHolding, LineTalking, LineAvailable, LineUnavailable}"
    using line_state.exhaust by auto
  then show ?thesis using finite_subset by blast
qed

lemma highest_rankI:
  assumes "s \<in> S \<or> s = LineUnavailable" and "\<And>t. t \<in> S \<Longrightarrow> line_rank t \<le> line_rank s"
  shows "highest_rank S = line_rank s"
  unfolding highest_rank_def using assms finite_line_states [of S]
  by (intro Max_eqI) auto

lemma merge_line_states_rank: "line_rank (merge_line_states ls) = highest_rank (set ls)"
proof -
  have "line_rank t \<le> line_rank (merge_line_states ls)" if "t \<in> set ls" for t
    by (cases t) (use that in \<open>auto simp: merge_line_states_def\<close>)
  then show ?thesis
    by (intro highest_rankI [symmetric]) (auto simp: merge_line_states_def)
qed

lemma merge_channel_states_rank:
  "line_rank (merge_channel_states (channels_state db l) (endpoint_state db l)) = highest_rank (line_signals db l)"
proof (rule highest_rankI [symmetric])
  let ?s = "merge_channel_states (channels_state db l) (endpoint_state db l)"
  have c: "c \<in> set (channels_state db l) \<Longrightarrow> channel_signal c = Some s \<Longrightarrow> s \<in> line_signals db l" for c s
    by (auto simp: line_signals_def)
  show "?s \<in> line_signals db l \<or> ?s = LineUnavailable"
    using c [of Ringing] c [of Progressing] c [of Holding] c [of Talking]
    by (auto simp: merge_channel_states_def line_signals_def split: option.split)
  fix t assume "t \<in> line_signals db l"
  then consider (channel) c where "c \<in> set (channels_state db l)" "channel_signal c = Some t"
    | (endpoint) e where "endpoint_state db l = Some e" "t = endpoint_line_state e"
    by (auto simp: line_signals_def split: option.splits)
  then show "line_rank t \<le> line_rank ?s"
  proof cases
    case channel
    show ?thesis by (cases c) (use channel in \<open>auto simp: merge_channel_states_def\<close>)
  next
    case endpoint
    show ?thesis by (cases e) (use endpoint in \<open>auto simp: merge_channel_states_def\<close>)
  qed
qed

lemma highest_rank_Union:
  "highest_rank (\<Union>l \<in> A. f l) = highest_rank {s. \<exists>l \<in> A. line_rank s = highest_rank (f l)}"
proof -
  have top: "\<exists>s. (s \<in> S \<or> s = LineUnavailable) \<and> line_rank s = highest_rank S \<and> (\<forall>t \<in> S. line_rank t \<le> line_rank s)"
    for S :: "line_state set"
  proof -
    have "Max (insert 0 (line_rank ` S)) \<in> insert 0 (line_rank ` S)"
      by (rule Max_in) (simp_all add: finite_line_states)
    then obtain s where s: "s \<in> S \<or> s = LineUnavailable" "line_rank s = highest_rank S"
      unfolding highest_rank_def by (metis imageE insertE line_rank.simps(6))
    moreover have "line_rank t \<le> highest_rank S" if "t \<in> S" for t
      unfolding highest_rank_def using that finite_line_states by (intro Max_ge) auto
    ultimately show ?thesis by auto
  qed
  obtain s where s: "s \<in> {s. \<exists>l \<in> A. line_rank s = highest_rank (f l)} \<or> s = LineUnavailable"
    "line_rank s = highest_rank {s. \<exists>l \<in> A. line_rank s = highest_rank (f l)}"
    "\<forall>t \<in> {s. \<exists>l \<in> A. line_rank s = highest_rank (f l)}. line_rank t \<le> line_rank s"
    using top by blast
  have "highest_rank (\<Union>l \<in> A. f l) = line_rank s"
  proof (rule highest_rankI)
    show "s \<in> (\<Union>l \<in> A. f l) \<or> s = LineUnavailable"
    proof (cases "s = LineUnavailable")
      case False
      with s(1) obtain l where l: "l \<in> A" "line_rank s = highest_rank (f l)" by auto
      with top [of "f l"] obtain s' where s': "s' \<in> f l \<or> s' = LineUnavailable" "line_rank s' = line_rank s" by auto
      then have "s' = s" by simp
      with False l s'(1) show ?thesis by auto
    qed simp
    fix t assume "t \<in> (\<Union>l \<in> A. f l)"
    then obtain l where l: "l \<in> A" "t \<in> f l" by auto
    with top [of "f l"] obtain s' where "line_rank s' = highest_rank (f l)" "line_rank t \<le> line_rank s'" by auto
    with s(3) l(1) show "line_rank t \<le> line_rank s" by (metis (mono_tags, lifting) le_trans mem_Collect_eq)
  qed
  with s(2) show ?thesis by simp
qed

text \<open>
  C24: The state shown for a line is the highest ranked signal among its channels and its endpoint
  (ringing over progressing over holding over talking over available over unavailable), and the
  state shown for a user is the highest ranked signal of all their lines: the two nested if-chains
  compute one maximum, whatever the order of lines and channels.
\<close>

theorem line_state_is_highest_signal:
  "line_rank (pd_line_state (dump_user db u)) =
     highest_rank (\<Union>l \<in> set (user_lines db (us_uuid u)). line_signals db l) \<and>
   map (line_rank \<circ> ld_state) (pd_lines (dump_user db u)) =
     map (highest_rank \<circ> line_signals db) (user_lines db (us_uuid u))"
proof -
  have line: "line_rank (ld_state (dump_line db l)) = highest_rank (line_signals db l)" for l
    by (simp add: dump_line_def merge_channel_states_rank)
  have "{s. \<exists>l \<in> set (user_lines db (us_uuid u)). line_rank s = highest_rank (line_signals db l)} =
      ld_state ` dump_line db ` set (user_lines db (us_uuid u))"
    by (auto simp: line [symmetric] image_iff)
  then show ?thesis
    by (simp add: dump_user_def Let_def merge_line_states_rank highest_rank_Union line comp_def image_image)
qed

section \<open>Updates\<close>

lemma user_get_Inr:
  assumes "presence_ok db"
  shows "user_get ts uuid db = Inr u \<longleftrightarrow> u \<in> set (users db) \<and> us_uuid u = uuid \<and> us_tenant_uuid u \<in> set ts"
proof -
  have k: "keyed us_uuid (users db)" using assms by (simp add: integrity_defs)
  show ?thesis
  proof (cases "List.find (\<lambda>u. us_tenant_uuid u \<in> set ts \<and> us_uuid u = uuid) (users db)")
    case None
    then have "user_get ts uuid db = Inl (UnknownUserException uuid)" by (simp add: user_get_def)
    moreover have "\<not> (u \<in> set (users db) \<and> us_uuid u = uuid \<and> us_tenant_uuid u \<in> set ts)"
      using None by (auto simp: find_None_iff)
    ultimately show ?thesis by simp
  next
    case (Some v)
    then have "v \<in> set (users db)" "us_tenant_uuid v \<in> set ts" "us_uuid v = uuid" by (auto dest: find_Some_in)
    with Some k show ?thesis by (auto simp: user_get_def dest: keyed_inj)
  qed
qed

lemma user_update_ok:
  assumes "presence_ok db" and "chat_ok db" and "u \<in> set (users db)"
    and "us_uuid u' = us_uuid u" and "us_tenant_uuid u' = us_tenant_uuid u"
  shows "presence_ok (user_update u' db)" and "chat_ok (user_update u' db)" and "u' \<in> set (users (user_update u' db))"
proof -
  have k: "keyed us_uuid (users db)" using assms by (simp add: integrity_defs)
  have m: "map us_uuid (users (user_update u' db)) = map us_uuid (users db)"
    by (auto simp: user_update_def update_rows_def)
  have t: "refs us_tenant_uuid (users (user_update u' db)) (tn_uuid ` set (tenants db))"
    using assms keyed_inj [OF k] by (auto simp: user_update_def refs_def set_update_rows integrity_defs)
  have "us_uuid ` set (users (user_update u' db)) = us_uuid ` set (users db)"
    using arg_cong [OF m, of set] by simp
  with m t assms show "presence_ok (user_update u' db)" "chat_ok (user_update u' db)"
    unfolding integrity_defs keyed_def by (simp_all add: user_update_def)
  show "u' \<in> set (users (user_update u' db))"
    using assms(3,4) by (auto simp: user_update_def set_update_rows image_iff)
qed

lemma user_update_tables:
  "user_lines (user_update u db) = user_lines db" "user_sessions (user_update u db) = user_sessions db"
  "user_refresh_tokens (user_update u db) = user_refresh_tokens db" "dump_line (user_update u db) = dump_line db"
  by (auto simp: user_update_def user_lines_def user_sessions_def user_refresh_tokens_def dump_line_def
      channels_state_def line_channels_def endpoint_state_def line_endpoint_def fun_eq_iff)

lemma user_update_others:
  "delete_rows (\<lambda>v. us_uuid v = us_uuid u) (users (user_update u db)) = delete_rows (\<lambda>v. us_uuid v = us_uuid u) (users db)"
proof -
  have "delete_rows (\<lambda>v. us_uuid v = us_uuid u) (update_rows (\<lambda>v. us_uuid v = us_uuid u) (\<lambda>_. u) rows) =
      delete_rows (\<lambda>v. us_uuid v = us_uuid u) rows" for rows
    by (induction rows) auto
  then show ?thesis by (simp add: user_update_def)
qed

lemma dump_updated_user:
  assumes "u' = u\<lparr>us_state := s, us_status := st, us_last_activity := Some now\<rparr>"
  shows "dump_user (user_update u' db) u' =
     (dump_user db u)\<lparr>pd_state := s, pd_status := st, pd_last_activity := Some now\<rparr>"
  by (simp add: assms dump_user_def Let_def is_mobile_def is_connected_def user_update_tables)

text \<open>
  C25: A presence that is put is read back: a request with a valid state for a visible user succeeds,
  keeps the schema and every other user, publishes one event for the user's tenant, and a read
  returns the published payload, with the given state, the given status (the old one when none is
  given) and the time of the update. Any other request changes nothing.
\<close>

theorem presence_put_read_back:
  assumes "presence_ok db" and "chat_ok db"
  shows "case presence_item_put config initialized ts uuid body now db of
      Inl e \<Rightarrow> presence_item_get config initialized ts uuid db = Inl e \<or> e = ValidationError \<and> load_presence body = Inl e
    | Inr (events, db') \<Rightarrow>
        presence_ok db' \<and> chat_ok db' \<and>
        delete_rows (\<lambda>u. us_uuid u = uuid) (users db') = delete_rows (\<lambda>u. us_uuid u = uuid) (users db) \<and>
        (\<exists>d. presence_item_get config initialized ts uuid db' = Inr d \<and>
           events = [PresenceUpdated d (pd_tenant_uuid d)] \<and>
           parse_user_state (the (pb_state body)) = Some (pd_state d) \<and>
           pd_last_activity d = Some now \<and>
           (\<exists>d0. presence_item_get config initialized ts uuid db = Inr d0 \<and> pd_tenant_uuid d = pd_tenant_uuid d0 \<and>
              pd_status d = (case pb_status body of None \<Rightarrow> pd_status d0 | Some v \<Rightarrow> v) \<and>
              d = d0\<lparr>pd_state := pd_state d, pd_status := pd_status d, pd_last_activity := Some now\<rparr>))"
proof (cases "presence_initialization config initialized")
  case (Inl e)
  then show ?thesis by (simp add: presence_item_put_def presence_item_get_def)
next
  case init: (Inr a)
  show ?thesis
  proof (cases "user_get ts uuid db")
    case (Inl e)
    then show ?thesis using init by (simp add: presence_item_put_def presence_item_get_def)
  next
    case user: (Inr u)
    then have u: "u \<in> set (users db)" "us_uuid u = uuid" "us_tenant_uuid u \<in> set ts"
      using user_get_Inr [OF assms(1)] by auto
    show ?thesis
    proof (cases "load_presence body")
      case (Inl e)
      then have "e = ValidationError" by (auto simp: load_presence_def split: option.splits)
      with Inl show ?thesis using init user by (simp add: presence_item_put_def)
    next
      case (Inr ss)
      obtain s st where ss: "ss = (s, st)" by (cases ss)
      then have s: "parse_user_state (the (pb_state body)) = Some s" "st = pb_status body"
        using Inr by (auto simp: load_presence_def split: option.splits bind_splits)
      define u' where "u' = u\<lparr>us_state := s, us_status := (case st of None \<Rightarrow> us_status u | Some v \<Rightarrow> v),
        us_last_activity := Some now\<rparr>"
      have u': "us_uuid u' = us_uuid u" "us_tenant_uuid u' = us_tenant_uuid u" by (simp_all add: u'_def)
      note ok = user_update_ok [OF assms u(1) u']
      define db' where "db' = user_update u' db"
      have put: "presence_item_put config initialized ts uuid body now db = Inr ([presence_updated db' u'], db')"
        using init user Inr ss
        by (simp add: presence_item_put_def presence_update_def Let_def u'_def db'_def)
      have get': "user_get ts uuid db' = Inr u'"
        using user_get_Inr [OF ok(1)] ok(3) u u' by (simp add: db'_def)
      have dump: "dump_user db' u' = (dump_user db u)\<lparr>pd_state := s, pd_status := us_status u', pd_last_activity := Some now\<rparr>"
        unfolding db'_def by (rule dump_updated_user) (simp add: u'_def)
      have "delete_rows (\<lambda>v. us_uuid v = uuid) (users db') = delete_rows (\<lambda>v. us_uuid v = uuid) (users db)"
        using user_update_others [of u' db] u(2) u' by (simp add: db'_def)
      moreover have "presence_item_get config initialized ts uuid db' = Inr (dump_user db' u')"
        "presence_item_get config initialized ts uuid db = Inr (dump_user db u)"
        using init user get' by (simp_all add: presence_item_get_def)
      moreover have "pd_tenant_uuid (dump_user db' u') = us_tenant_uuid u'" "pd_status (dump_user db' u') = us_status u'"
        "us_status u' = (case pb_status body of None \<Rightarrow> pd_status (dump_user db u) | Some v \<Rightarrow> v)"
        by (simp_all add: dump_user_def Let_def u'_def s(2) split: option.split)
      ultimately show ?thesis
        using ok s(1) by (simp add: put presence_updated_def dump db'_def [symmetric])
    qed
  qed
qed

section \<open>Witness\<close>

definition presence_db :: database where
  "presence_db = empty_db\<lparr>
     tenants := [\<lparr>tn_uuid = ''t1''\<rparr>],
     users := [\<lparr>us_uuid = ''u1'', us_tenant_uuid = ''t1'', us_state = UserAvailable, us_status = Some ''lunch'',
                us_do_not_disturb = False, us_last_activity = Some 7\<rparr>],
     sessions := [\<lparr>se_uuid = ''s1'', se_mobile = True, se_user_uuid = ''u1''\<rparr>],
     lines := [\<lparr>ln_id = 1, ln_user_uuid = ''u1'', ln_endpoint_name = Some ''PJSIP/a'', ln_media = None\<rparr>],
     endpoints := [\<lparr>ep_name = ''PJSIP/a'', ep_state = EndpointAvailable\<rparr>],
     channels := [\<lparr>ch_name = ''PJSIP/a-1'', ch_state = Talking, ch_line_id = 1\<rparr>]\<rparr>"

lemma presence_db_ok: "presence_ok presence_db" "chat_ok presence_db"
  by (simp_all add: presence_db_def empty_db_def integrity_defs keyed_def refs_def refs_opt_def)

theorem presence_put_read_back_witness:
  "\<exists>events db' d. presence_item_put (Some True) True [''t1''] ''u1'' \<lparr>pb_state = Some ''away'', pb_status = None\<rparr> 9 presence_db
       = Inr (events, db') \<and> presence_ok db' \<and>
     presence_item_get (Some True) True [''t1''] ''u1'' db' = Inr d \<and> events = [PresenceUpdated d ''t1''] \<and>
     pd_state d = UserAway \<and> pd_status d = Some ''lunch'' \<and> pd_line_state d = LineTalking"
proof -
  have put: "\<exists>events db'. presence_item_put (Some True) True [''t1''] ''u1''
      \<lparr>pb_state = Some ''away'', pb_status = None\<rparr> 9 presence_db = Inr (events, db')"
    by (simp add: presence_item_put_def presence_initialization_def user_get_def presence_db_def load_presence_def
        parse_user_state_def)
  have get: "\<exists>d0. presence_item_get (Some True) True [''t1''] ''u1'' presence_db = Inr d0 \<and>
      pd_status d0 = Some ''lunch'' \<and> pd_line_state d0 = LineTalking \<and> pd_tenant_uuid d0 = ''t1''"
    by (simp add: presence_item_get_def presence_initialization_def user_get_def presence_db_def dump_user_def Let_def
        user_lines_def empty_db_def dump_line_def merge_channel_states_def channels_state_def line_channels_def
        merge_line_states_def)
  from put presence_put_read_back [OF presence_db_ok, of "Some True" True "[''t1'']" "''u1''"
      "\<lparr>pb_state = Some ''away'', pb_status = None\<rparr>" 9] get
  show ?thesis by (fastforce simp: parse_user_state_def)
qed

end
