(* ===== verification/Initiator.thy ===== *)
theory Initiator
  imports PresenceIntegrity Helpers
begin

text \<open>
  \<open>plugins/presences/initiator.py\<close>: the initial synchronisation of the presence tables with
  what wazo-auth, wazo-confd and wazo-amid answer. A remote answer is a record with the fields the
  code reads; a paginated request is a function of the offset. A Python set is a list without
  duplicates; where the order in which it is read can matter, the order is a parameter. Each
  method of the \<open>initiate_*\<close> family is the body of one \<open>session_scope\<close>, a function
  \<open>database \<Rightarrow> exn + database\<close>.
\<close>

section \<open>Vocabulary\<close>

text \<open>The loops that fill a dictionary: an element that is skipped, or the item it sets.\<close>

definition dict_of :: "('a \<Rightarrow> ('k \<times> 'v) option) \<Rightarrow> 'a list \<Rightarrow> ('k, 'v) dict" where
  "dict_of item xs =
     fold (\<lambda>x d. case item x of None \<Rightarrow> d | Some (k, v) \<Rightarrow> dict_set k v d) xs []"

definition DEVICE_STATE_MAP :: "(string, endpoint_state) dict" where
  "DEVICE_STATE_MAP =
     [(''INUSE'', EndpointAvailable), (''UNAVAILABLE'', EndpointUnavailable),
      (''NOT_INUSE'', EndpointAvailable), (''RINGING'', EndpointAvailable),
      (''ONHOLD'', EndpointAvailable), (''RINGINUSE'', EndpointAvailable),
      (''UNKNOWN'', EndpointUnavailable), (''BUSY'', EndpointUnavailable),
      (''INVALID'', EndpointUnavailable)]"

definition CHANNEL_STATE_MAP :: "(string, channel_state) dict" where
  "CHANNEL_STATE_MAP =
     [(''Down'', Undefined), (''Rsrvd'', Undefined), (''OffHook'', Undefined), (''Dialing'', Undefined),
      (''Ring'', Progressing), (''Ringing'', Ringing), (''Up'', Talking), (''Busy'', Talking),
      (''Dialing Offhook'', Undefined), (''Pre-ring'', Undefined), (''Unknown'', Undefined)]"

definition device_state :: "string \<Rightarrow> endpoint_state" where
  "device_state s = (case dict_get DEVICE_STATE_MAP s of None \<Rightarrow> EndpointUnavailable | Some v \<Rightarrow> v)"

definition channel_state_of :: "string \<Rightarrow> channel_state" where
  "channel_state_of s = (case dict_get CHANNEL_STATE_MAP s of None \<Rightarrow> Undefined | Some v \<Rightarrow> v)"

datatype Resource = CHANNEL | DEVICE | REFRESH_TOKEN | SESSION | TENANT | USER

datatype Stage = FETCHED

type_synonym milestones = "(Resource \<times> Stage) list"

definition mark :: "Resource \<Rightarrow> Stage \<Rightarrow> milestones \<Rightarrow> milestones" where
  "mark r s ms = List.insert (r, s) ms"

definition has_passed :: "Resource \<Rightarrow> Stage \<Rightarrow> milestones \<Rightarrow> bool" where
  "has_passed r s ms \<longleftrightarrow> (r, s) \<in> set ms"

text \<open>\<open>name.split('-')\<close> and \<open>'-'.join(parts)\<close>.\<close>

fun split_dash :: "string \<Rightarrow> string list" where
  "split_dash [] = [[]]"
| "split_dash (c # cs) =
     (if c = CHR ''-'' then [] # split_dash cs
      else (case split_dash cs of [] \<Rightarrow> [[c]] | p # ps \<Rightarrow> (c # p) # ps))"

fun join_dash :: "string list \<Rightarrow> string" where
  "join_dash [] = []"
| "join_dash [p] = p"
| "join_dash (p # q # ps) = p @ CHR ''-'' # join_dash (q # ps)"

definition extract_endpoint_from_channel :: "string \<Rightarrow> string option" where
  "extract_endpoint_from_channel channel_name =
     (let endpoint_name = join_dash (butlast (split_dash channel_name))
      in if endpoint_name = [] then None else Some endpoint_name)"

definition endpoint_name_for_protocol :: "string option \<Rightarrow> string \<Rightarrow> string option" where
  "endpoint_name_for_protocol protocol line_name =
     (if protocol = Some ''sip'' then Some (''PJSIP/'' @ line_name)
      else if protocol = Some ''sccp'' then Some (''SCCP/'' @ line_name)
      else if protocol = Some ''custom'' then Some line_name
      else None)"

text \<open>A line of the \<open>line_presence\<close> view of wazo-confd, and a line in a bus event.\<close>

record confd_line =
  cl_id :: int
  cl_name :: "string option"
  cl_protocol :: "string option"

record event_line =
  el_id :: int
  el_name :: "string option"
  el_endpoint_sip :: bool
  el_endpoint_sccp :: bool
  el_endpoint_custom :: bool

definition extract_endpoint_from_line_presence_view :: "confd_line \<Rightarrow> string option" where
  "extract_endpoint_from_line_presence_view line =
     (case cl_name line of
        None \<Rightarrow> None
      | Some n \<Rightarrow> if n = [] then None else endpoint_name_for_protocol (cl_protocol line) n)"

definition extract_endpoint_from_line :: "event_line \<Rightarrow> string option" where
  "extract_endpoint_from_line line =
     (case el_name line of
        None \<Rightarrow> None
      | Some n \<Rightarrow>
          if n = [] then None
          else if el_endpoint_sip line then endpoint_name_for_protocol (Some ''sip'') n
          else if el_endpoint_sccp line then endpoint_name_for_protocol (Some ''sccp'') n
          else if el_endpoint_custom line then endpoint_name_for_protocol (Some ''custom'') n
          else None)"

lemma dict_of_wf: "dict_wf (dict_of item xs)"
proof -
  have "dict_wf d \<Longrightarrow> dict_wf (fold (\<lambda>x d. case item x of None \<Rightarrow> d | Some (k, v) \<Rightarrow> dict_set k v d) xs d)" for d
    by (induction xs arbitrary: d) (auto split: option.split)
  then show ?thesis by (simp add: dict_of_def)
qed

lemma dict_of_item:
  assumes "(k, v) \<in> set (dict_of item xs)"
  shows "\<exists>x \<in> set xs. item x = Some (k, v)"
proof -
  have "(k, v) \<in> set (fold (\<lambda>x d. case item x of None \<Rightarrow> d | Some (k, v) \<Rightarrow> dict_set k v d) xs d) \<Longrightarrow>
      (k, v) \<in> set d \<or> (\<exists>x \<in> set xs. item x = Some (k, v))" for d
  proof (induction xs arbitrary: d)
    case (Cons x xs)
    have "(k, v) \<in> set (dict_set k' v' d) \<Longrightarrow> (k, v) \<in> set d \<or> (k, v) = (k', v')" for k' v'
      by (induction d) (auto split: if_splits)
    with Cons show ?case by (cases "item x") fastforce+
  qed simp
  from this [of "[]"] assms show ?thesis by (simp add: dict_of_def)
qed

lemma dict_of_distinct:
  assumes "distinct (map fst (List.map_filter item xs))"
  shows "dict_of item xs = List.map_filter item xs"
proof -
  have "distinct (map fst (d @ List.map_filter item xs)) \<Longrightarrow>
      fold (\<lambda>x d. case item x of None \<Rightarrow> d | Some (k, v) \<Rightarrow> dict_set k v d) xs d = d @ List.map_filter item xs" for d
  proof (induction xs arbitrary: d)
    case (Cons x xs)
    show ?case
    proof (cases "item x")
      case (Some kv)
      then show ?thesis
        using Cons.prems Cons.IH [of "d @ [kv]"]
        by (cases kv) (simp add: List.map_filter_def dict_set_new)
    qed (use Cons in \<open>simp add: List.map_filter_def\<close>)
  qed (simp add: List.map_filter_def)
  from this [of "[]"] assms show ?thesis by (simp add: dict_of_def)
qed

section \<open>Pagination\<close>

text \<open>
  A page is the items and the total of one answer. The offset grows with every answer that brings
  items, so a request is determined by its offset.
\<close>

type_synonym 'a request = "nat \<Rightarrow> exn + 'a list \<times> nat"

function paginate_loop :: "'a request \<Rightarrow> nat \<Rightarrow> 'a list \<Rightarrow> exn + 'a list" where
  "paginate_loop callback count items =
     (if length items < count then
        (case callback (length items) of
           Inl e \<Rightarrow> Inl e
         | Inr (new_items, _) \<Rightarrow>
             if new_items = [] then Inr items else paginate_loop callback count (items @ new_items))
      else Inr items)"
  by pat_completeness auto
termination
  by (relation "measure (\<lambda>(_, count, items). count - length items)") (auto intro!: diff_less_mono2)

declare paginate_loop.simps [simp del]

definition paginate_proxy :: "'a request \<Rightarrow> exn + 'a list \<times> nat" where
  "paginate_proxy callback =
     (case callback 0 of
        Inl e \<Rightarrow> Inl e
      | Inr (items, count) \<Rightarrow> map_sum id (\<lambda>all. (all, count)) (paginate_loop callback count items))"

section \<open>What is fetched\<close>

record confd_user =
  cu_uuid :: uuid
  cu_tenant_uuid :: uuid
  cu_lines :: "confd_line list"
  cu_dnd :: bool

record auth_session =
  as_uuid :: uuid
  as_user_uuid :: uuid
  as_tenant_uuid :: uuid
  as_mobile :: bool

record auth_token =
  at_client_id :: string
  at_user_uuid :: uuid
  at_tenant_uuid :: uuid
  at_mobile :: bool

text \<open>\<open>event.get('Event')\<close> may be missing; \<open>XIVO_ON_HOLD\<close> may be unset.\<close>

record device_event =
  dv_event :: "string option"
  dv_device :: string
  dv_state :: string

record channel_event =
  ce_event :: "string option"
  ce_channel :: string
  ce_state_desc :: string
  ce_on_hold :: "string option"

record snapshot =
  sn_tenants :: "uuid list"
  sn_users :: "confd_user list"
  sn_sessions :: "auth_session list"
  sn_tokens :: "auth_token list"
  sn_devices :: "device_event list"
  sn_channels :: "channel_event list"

section \<open>Endpoints and tenants\<close>

definition device_endpoint :: "device_event \<Rightarrow> (string \<times> Endpoint) option" where
  "device_endpoint event =
     (if dv_event event \<noteq> Some ''DeviceStateChange'' then None
      else if take 7 (dv_device event) = ''Custom:'' then None
      else Some (dv_device event,
             \<lparr>ep_name = dv_device event, ep_state = device_state (dv_state event)\<rparr>))"

definition initiate_endpoints :: "device_event list \<Rightarrow> database \<Rightarrow> exn + database" where
  "initiate_endpoints events db =
     endpoint_create_all (map snd (dict_of device_endpoint events)) (endpoint_delete_all db)"

definition initiate_tenants :: "uuid list \<Rightarrow> database \<Rightarrow> exn + database" where
  "initiate_tenants remote_tenants db =
     (let cached = tenant_list_uuids db;
          missing = filter (\<lambda>t. t \<notin> set cached) (remdups remote_tenants);
          expired = filter (\<lambda>t. t \<notin> set remote_tenants) cached
      in map_sum id (tenant_delete_by_uuids expired)
           (tenant_create_all (map (\<lambda>t. \<lparr>tn_uuid = t\<rparr>) missing) db))"

section \<open>Users and lines\<close>

definition new_user :: "uuid \<times> uuid \<Rightarrow> User" where
  "new_user k = \<lparr>us_uuid = fst k, us_tenant_uuid = snd k, us_state = UserUnavailable,
     us_status = None, us_do_not_disturb = False, us_last_activity = None\<rparr>"

definition add_and_remove_users :: "confd_user list \<Rightarrow> database \<Rightarrow> exn + database" where
  "add_and_remove_users remote_users db =
     (let wanted = remdups (map (\<lambda>u. (cu_uuid u, cu_tenant_uuid u)) remote_users);
          cached = user_list_uuids_with_tenant_uuids db;
          users_missing = filter (\<lambda>k. k \<notin> set cached) wanted;
          users_expired = filter (\<lambda>k. k \<notin> set wanted) cached;
          missing_tenants =
            filter (\<lambda>t. t \<notin> set (tenant_list_uuids db)) (remdups (map snd users_missing))
      in case tenant_create_all (map (\<lambda>t. \<lparr>tn_uuid = t\<rparr>) missing_tenants) db of
           Inl e \<Rightarrow> Inl e
         | Inr db1 \<Rightarrow>
             map_sum id (user_delete_by_uuids (map fst users_expired))
               (user_create_all (map new_user users_missing) db1))"

type_synonym line_key = "int \<times> uuid \<times> uuid"

definition wanted_lines :: "confd_user list \<Rightarrow> line_key list" where
  "wanted_lines remote_users = remdups (concat (map (\<lambda>u.
     map (\<lambda>l. (cl_id l, cu_uuid u, cu_tenant_uuid u)) (cu_lines u)) remote_users))"

text \<open>\<open>str(None)\<close> for a line whose user is gone; the foreign key excludes it.\<close>

definition cached_lines :: "database \<Rightarrow> line_key list" where
  "cached_lines db = map (\<lambda>l. (ln_id l, ln_user_uuid l,
     case tenant_of_user db (ln_user_uuid l) of None \<Rightarrow> ''None'' | Some t \<Rightarrow> t)) (lines db)"

definition new_line :: "int \<Rightarrow> uuid \<Rightarrow> Line" where
  "new_line i u = \<lparr>ln_id = i, ln_user_uuid = u, ln_endpoint_name = None, ln_media = None\<rparr>"

fun collect_new_lines :: "uuid list \<Rightarrow> int set \<Rightarrow> line_key list \<Rightarrow> Line list \<Rightarrow> Line list" where
  "collect_new_lines known surviving_ids [] new_lines = new_lines"
| "collect_new_lines known surviving_ids ((i, u, t) # missing) new_lines =
     (if u \<notin> set known then collect_new_lines known surviving_ids missing new_lines
      else if i \<in> surviving_ids \<or> i \<in> ln_id ` set new_lines
      then collect_new_lines known surviving_ids missing new_lines
      else collect_new_lines known surviving_ids missing (new_lines @ [new_line i u]))"

text \<open>\<open>order\<close> is the order in which the set of missing lines is read.\<close>

definition add_and_remove_lines ::
  "(line_key list \<Rightarrow> line_key list) \<Rightarrow> confd_user list \<Rightarrow> database \<Rightarrow> exn + database" where
  "add_and_remove_lines order remote_users db =
     (let wanted = wanted_lines remote_users;
          cached = cached_lines db;
          lines_missing = filter (\<lambda>k. k \<notin> set cached) wanted;
          lines_expired = filter (\<lambda>k. k \<notin> set wanted) cached;
          expired_ids = remdups (map fst lines_expired);
          surviving_ids = set (map fst cached) - set expired_ids;
          known = user_list_uuids db;
          db1 = line_delete_by_ids expired_ids db
      in line_create_all (collect_new_lines known surviving_ids (order lines_missing) []) db1)"

definition line_endpoints :: "confd_user list \<Rightarrow> (int \<times> string) list" where
  "line_endpoints remote_users = concat (map (\<lambda>u. concat (map (\<lambda>l.
     case extract_endpoint_from_line_presence_view l of None \<Rightarrow> [] | Some n \<Rightarrow> [(cl_id l, n)])
       (cu_lines u))) remote_users)"

definition add_missing_endpoints :: "confd_user list \<Rightarrow> database \<Rightarrow> exn + database" where
  "add_missing_endpoints remote_users db =
     endpoint_create_all
       (map new_endpoint
         (filter (\<lambda>n. n \<notin> set (endpoint_list_names db)) (remdups (map snd (line_endpoints remote_users))))) db"

definition associate_line_endpoint :: "confd_user list \<Rightarrow> database \<Rightarrow> exn + database" where
  "associate_line_endpoint remote_users db =
     associate_endpoints
       (filter (\<lambda>(i, n). Option.bind (line_find i db) ln_endpoint_name \<noteq> Some n)
         (dict_of Some (line_endpoints remote_users))) db"

definition update_services_users :: "confd_user list \<Rightarrow> database \<Rightarrow> exn + database" where
  "update_services_users remote_users db =
     (let desired = dict_of (\<lambda>u. Some (cu_uuid u, cu_dnd u)) remote_users;
          cached = user_list_dnd db
      in Inr (user_update_dnd (filter (\<lambda>(u, dnd). dict_get cached u \<noteq> Some dnd) desired) db))"

section \<open>Sessions and refresh tokens\<close>

definition cached_tenant :: "database \<Rightarrow> uuid \<Rightarrow> uuid" where
  "cached_tenant db u = (case tenant_of_user db u of None \<Rightarrow> ''None'' | Some t \<Rightarrow> t)"

definition add_and_remove_sessions :: "auth_session list \<Rightarrow> database \<Rightarrow> exn + database" where
  "add_and_remove_sessions remote_sessions db =
     (let wanted = remdups (map (\<lambda>s. (as_uuid s, as_user_uuid s, as_tenant_uuid s)) remote_sessions);
          cached = map (\<lambda>s. (se_uuid s, se_user_uuid s, cached_tenant db (se_user_uuid s))) (sessions db);
          sessions_missing = filter (\<lambda>k. k \<notin> set cached) wanted;
          sessions_expired = filter (\<lambda>k. k \<notin> set wanted) cached;
          new_sessions = map (\<lambda>(s, u, _). \<lparr>se_uuid = s, se_mobile = False, se_user_uuid = u\<rparr>)
            (filter (\<lambda>(_, u, _). u \<in> set (user_list_uuids db)) sessions_missing)
      in map_sum id (session_delete_by_uuids (map fst sessions_expired))
           (session_create_all new_sessions db))"

definition update_sessions :: "auth_session list \<Rightarrow> database \<Rightarrow> exn + database" where
  "update_sessions remote_sessions db =
     (let sessions_by_uuid = dict_of (\<lambda>s. Some (as_uuid s, s)) remote_sessions;
          updates = concat (map (\<lambda>c.
            case dict_get sessions_by_uuid (se_uuid c) of
              None \<Rightarrow> []
            | Some s \<Rightarrow> if as_mobile s \<noteq> se_mobile c then [(se_uuid c, as_mobile s)] else []) (sessions db))
      in Inr (session_update_all updates db))"

definition add_and_remove_refresh_tokens :: "auth_token list \<Rightarrow> database \<Rightarrow> exn + database" where
  "add_and_remove_refresh_tokens tokens db =
     (let wanted = remdups (map (\<lambda>t. (at_client_id t, at_user_uuid t, at_tenant_uuid t)) tokens);
          cached = map (\<lambda>t. (rt_client_id t, rt_user_uuid t, cached_tenant db (rt_user_uuid t)))
            (refresh_tokens db);
          tokens_missing = filter (\<lambda>k. k \<notin> set cached) wanted;
          tokens_expired = filter (\<lambda>k. k \<notin> set wanted) cached;
          new_tokens = map (\<lambda>(c, u, _). \<lparr>rt_client_id = c, rt_user_uuid = u, rt_mobile = False\<rparr>)
            (filter (\<lambda>(_, u, _). u \<in> set (user_list_uuids db)) tokens_missing)
      in map_sum id (refresh_token_delete_by_keys (map (\<lambda>(c, u, _). (c, u)) tokens_expired))
           (refresh_token_create_all new_tokens db))"

definition update_refresh_tokens :: "auth_token list \<Rightarrow> database \<Rightarrow> exn + database" where
  "update_refresh_tokens tokens db =
     (let tokens_by_key = dict_of (\<lambda>t. Some ((at_user_uuid t, at_client_id t), t)) tokens;
          updates = concat (map (\<lambda>c.
            case dict_get tokens_by_key (rt_user_uuid c, rt_client_id c) of
              None \<Rightarrow> []
            | Some t \<Rightarrow>
                if at_mobile t \<noteq> rt_mobile c then [((rt_client_id c, rt_user_uuid c), at_mobile t)]
                else []) (refresh_tokens db))
      in Inr (refresh_token_update_all updates db))"

section \<open>Channels\<close>

text \<open>\<open>if line.endpoint_name\<close> skips an absent and an empty name.\<close>

definition line_id_by_endpoint :: "database \<Rightarrow> (string, int) dict" where
  "line_id_by_endpoint db = dict_of
     (\<lambda>l. case ln_endpoint_name l of
           None \<Rightarrow> None | Some n \<Rightarrow> if n = [] then None else Some (n, ln_id l)) (lines db)"

definition event_channel :: "(string, int) dict \<Rightarrow> channel_event \<Rightarrow> (string \<times> Channel) option" where
  "event_channel line_ids event =
     (if ce_event event \<noteq> Some ''CoreShowChannel'' then None
      else case Option.bind (extract_endpoint_from_channel (ce_channel event)) (dict_get line_ids) of
             None \<Rightarrow> None
           | Some line_id \<Rightarrow>
               Some (ce_channel event,
                 \<lparr>ch_name = ce_channel event,
                  ch_state = (if ce_on_hold event = Some ''1'' then Holding
                              else channel_state_of (ce_state_desc event)),
                  ch_line_id = line_id\<rparr>))"

definition initiate_channels :: "channel_event list \<Rightarrow> database \<Rightarrow> exn + database" where
  "initiate_channels events db =
     (let db1 = channel_delete_all db
      in channel_create_all (map snd (dict_of (event_channel (line_id_by_endpoint db1)) events)) db1)"

section \<open>The whole initialisation\<close>

text \<open>Each body is a session scope of its own: what committed before a failure stays.\<close>

type_synonym scope = "database \<Rightarrow> exn + database"

fun run_scopes :: "scope list \<Rightarrow> database \<Rightarrow> (exn + unit) \<times> database" where
  "run_scopes [] db = (Inr (), db)"
| "run_scopes (body # bodies) db =
     (case sync_scope (\<lambda>d. map_sum id (Pair ()) (body d)) db of
        (Inl e, db') \<Rightarrow> (Inl e, db')
      | (Inr _, db') \<Rightarrow> run_scopes bodies db')"

definition initiate_users :: "(line_key list \<Rightarrow> line_key list) \<Rightarrow> confd_user list \<Rightarrow> scope list" where
  "initiate_users order remote_users =
     [add_and_remove_users remote_users, add_and_remove_lines order remote_users,
      add_missing_endpoints remote_users, associate_line_endpoint remote_users,
      update_services_users remote_users]"

definition initiate_sessions :: "auth_session list \<Rightarrow> scope list" where
  "initiate_sessions remote_sessions = [add_and_remove_sessions remote_sessions, update_sessions remote_sessions]"

definition initiate_refresh_tokens :: "auth_token list \<Rightarrow> scope list" where
  "initiate_refresh_tokens tokens = [add_and_remove_refresh_tokens tokens, update_refresh_tokens tokens]"

definition initiate_scopes :: "(line_key list \<Rightarrow> line_key list) \<Rightarrow> snapshot \<Rightarrow> scope list" where
  "initiate_scopes order sn =
     [initiate_endpoints (sn_devices sn), initiate_tenants (sn_tenants sn)] @
     initiate_users order (sn_users sn) @ initiate_sessions (sn_sessions sn) @
     initiate_refresh_tokens (sn_tokens sn) @ [initiate_channels (sn_channels sn)]"

text \<open>
  The remote side: \<open>auth.token.new\<close>, the four paginated resources and the two AMI actions.
\<close>

record remote =
  rq_token :: "exn + string"
  rq_tenants :: "uuid request"
  rq_users :: "confd_user request"
  rq_sessions :: "auth_session request"
  rq_tokens :: "auth_token request"
  rq_devices :: "exn + device_event list"
  rq_channels :: "exn + channel_event list"

record initiator =
  is_initialized :: bool
  in_progress :: bool
  milestones :: milestones

definition has_fetched :: "Resource \<Rightarrow> initiator \<Rightarrow> bool" where
  "has_fetched r i = has_passed r FETCHED (milestones i)"

definition reset_initialized :: "initiator \<Rightarrow> initiator" where
  "reset_initialized i = i\<lparr>is_initialized := False\<rparr>"

definition provide_status :: "initiator \<Rightarrow> bool" where
  "provide_status i = is_initialized i"

text \<open>The fetching phase: each answer marks its milestone; an error ends it.\<close>

definition fetched :: "Resource \<Rightarrow> initiator \<Rightarrow> initiator" where
  "fetched r i = i\<lparr>milestones := mark r FETCHED (milestones i)\<rparr>"

definition fetch_all :: "remote \<Rightarrow> initiator \<Rightarrow> (exn + snapshot) \<times> initiator" where
  "fetch_all rq i0 =
     (case rq_token rq of Inl e \<Rightarrow> (Inl e, i0) | Inr _ \<Rightarrow>
      case paginate_proxy (rq_tenants rq) of Inl e \<Rightarrow> (Inl e, i0) | Inr (ts, _) \<Rightarrow>
      (let i1 = fetched TENANT i0 in
      case paginate_proxy (rq_users rq) of Inl e \<Rightarrow> (Inl e, i1) | Inr (us, _) \<Rightarrow>
      (let i2 = fetched USER i1 in
      case paginate_proxy (rq_sessions rq) of Inl e \<Rightarrow> (Inl e, i2) | Inr (ss, _) \<Rightarrow>
      (let i3 = fetched SESSION i2 in
      case paginate_proxy (rq_tokens rq) of Inl e \<Rightarrow> (Inl e, i3) | Inr (rs, _) \<Rightarrow>
      (let i4 = fetched REFRESH_TOKEN i3 in
      case rq_devices rq of Inl e \<Rightarrow> (Inl e, i4) | Inr ds \<Rightarrow>
      (let i5 = fetched DEVICE i4 in
      case rq_channels rq of Inl e \<Rightarrow> (Inl e, i5) | Inr cs \<Rightarrow>
        (Inr \<lparr>sn_tenants = ts, sn_users = us, sn_sessions = ss, sn_tokens = rs, sn_devices = ds,
              sn_channels = cs\<rparr>, fetched CHANNEL i5)))))))"

text \<open>Post hooks run in order; an exception is logged and the next one runs.\<close>

type_synonym hook = "database \<Rightarrow> (exn + unit) \<times> database"

definition execute_post_hooks :: "hook list \<Rightarrow> database \<Rightarrow> database" where
  "execute_post_hooks hooks db = fold (\<lambda>hook d. snd (hook d)) hooks db"

definition initiate ::
  "(line_key list \<Rightarrow> line_key list) \<Rightarrow> remote \<Rightarrow> hook list \<Rightarrow> initiator \<times> database \<Rightarrow>
     (exn + unit) \<times> initiator \<times> database" where
  "initiate order rq hooks s =
     (case s of (i, db) \<Rightarrow>
        (case fetch_all rq (i\<lparr>milestones := [], in_progress := True\<rparr>) of
           (Inl e, i1) \<Rightarrow> (Inl e, i1, db)
         | (Inr sn, i1) \<Rightarrow>
             (case run_scopes (initiate_scopes order sn) db of
                (Inl e, db1) \<Rightarrow> (Inl e, i1, db1)
              | (Inr _, db1) \<Rightarrow>
                  (Inr (), i1\<lparr>in_progress := False, is_initialized := True\<rparr>,
                   execute_post_hooks hooks db1))))"

end
