(* ===== verification/InitiatorSpec.thy ===== *)
theory InitiatorSpec
  imports Initiator
begin

text \<open>
  What the presence initialisation promises, and that \<open>Initiator\<close> keeps it: when the answers
  of the other services agree with each other, every scope succeeds and leaves the presence tables
  equal to the snapshot, whatever they held before.
\<close>

section \<open>The abstract state\<close>

record presence =
  p_tenants :: "uuid set"
  p_users :: "(uuid \<times> uuid \<times> bool) set"
  p_lines :: "(int \<times> uuid \<times> string option) set"
  p_endpoints :: "(string \<times> endpoint_state) set"
  p_sessions :: "(uuid \<times> uuid \<times> bool) set"
  p_tokens :: "(string \<times> uuid \<times> bool) set"
  p_channels :: "(string \<times> channel_state \<times> int) set"

definition presence_of :: "database \<Rightarrow> presence" where
  "presence_of db =
     \<lparr>p_tenants = tn_uuid ` set (tenants db),
      p_users = (\<lambda>u. (us_uuid u, us_tenant_uuid u, us_do_not_disturb u)) ` set (users db),
      p_lines = (\<lambda>l. (ln_id l, ln_user_uuid l, ln_endpoint_name l)) ` set (lines db),
      p_endpoints = (\<lambda>e. (ep_name e, ep_state e)) ` set (endpoints db),
      p_sessions = (\<lambda>s. (se_uuid s, se_user_uuid s, se_mobile s)) ` set (sessions db),
      p_tokens = (\<lambda>t. (rt_client_id t, rt_user_uuid t, rt_mobile t)) ` set (refresh_tokens db),
      p_channels = (\<lambda>c. (ch_name c, ch_state c, ch_line_id c)) ` set (channels db)\<rparr>"

definition device_listed :: "device_event \<Rightarrow> bool" where
  "device_listed e \<longleftrightarrow> dv_event e = Some ''DeviceStateChange'' \<and> take 7 (dv_device e) \<noteq> ''Custom:''"

definition channel_listed :: "channel_event \<Rightarrow> bool" where
  "channel_listed e \<longleftrightarrow> ce_event e = Some ''CoreShowChannel''"

definition line_pairs :: "confd_user list \<Rightarrow> (confd_user \<times> confd_line) list" where
  "line_pairs us = concat (map (\<lambda>u. map (Pair u) (cu_lines u)) us)"

text \<open>The tables the snapshot describes.\<close>

definition presence_spec :: "snapshot \<Rightarrow> presence" where
  "presence_spec sn =
     (let listed = {e \<in> set (sn_devices sn). device_listed e};
          named = snd ` set (line_endpoints (sn_users sn))
      in \<lparr>p_tenants = set (sn_tenants sn) \<union> cu_tenant_uuid ` set (sn_users sn),
          p_users = (\<lambda>u. (cu_uuid u, cu_tenant_uuid u, cu_dnd u)) ` set (sn_users sn),
          p_lines = (\<lambda>(u, l). (cl_id l, cu_uuid u, extract_endpoint_from_line_presence_view l)) `
            set (line_pairs (sn_users sn)),
          p_endpoints = (\<lambda>e. (dv_device e, device_state (dv_state e))) ` listed \<union>
            (\<lambda>n. (n, EndpointUnavailable)) ` (named - dv_device ` listed),
          p_sessions = (\<lambda>s. (as_uuid s, as_user_uuid s, as_mobile s)) `
            {s \<in> set (sn_sessions sn). as_user_uuid s \<in> cu_uuid ` set (sn_users sn)},
          p_tokens = (\<lambda>t. (at_client_id t, at_user_uuid t, at_mobile t)) `
            {t \<in> set (sn_tokens sn). at_user_uuid t \<in> cu_uuid ` set (sn_users sn)},
          p_channels = (\<lambda>(e, i, n). (ce_channel e,
              if ce_on_hold e = Some ''1'' then Holding else channel_state_of (ce_state_desc e), i)) `
            {(e, i, n) \<in> set (sn_channels sn) \<times> set (line_endpoints (sn_users sn)).
               channel_listed e \<and> extract_endpoint_from_channel (ce_channel e) = Some n}\<rparr>)"

text \<open>
  The answers agree with each other: every key occurs once, and a session or token names the
  tenant its user has.
\<close>

definition snapshot_consistent :: "snapshot \<Rightarrow> bool" where
  "snapshot_consistent sn \<longleftrightarrow>
     keyed cu_uuid (sn_users sn) \<and> keyed (cl_id \<circ> snd) (line_pairs (sn_users sn)) \<and>
     keyed snd (line_endpoints (sn_users sn)) \<and>
     keyed as_uuid (sn_sessions sn) \<and> keyed (\<lambda>t. (at_client_id t, at_user_uuid t)) (sn_tokens sn) \<and>
     keyed dv_device (filter device_listed (sn_devices sn)) \<and>
     keyed ce_channel (filter channel_listed (sn_channels sn)) \<and>
     (\<forall>u \<in> set (sn_users sn).
        (\<forall>s \<in> set (sn_sessions sn). as_user_uuid s = cu_uuid u \<longrightarrow> as_tenant_uuid s = cu_tenant_uuid u) \<and>
        (\<forall>t \<in> set (sn_tokens sn). at_user_uuid t = cu_uuid u \<longrightarrow> at_tenant_uuid t = cu_tenant_uuid u))"

text \<open>No stored user changes tenant and no stored session changes user.\<close>

definition no_move :: "snapshot \<Rightarrow> database \<Rightarrow> bool" where
  "no_move sn db \<longleftrightarrow>
     (\<forall>u \<in> set (users db). \<forall>r \<in> set (sn_users sn).
        cu_uuid r = us_uuid u \<longrightarrow> cu_tenant_uuid r = us_tenant_uuid u) \<and>
     (\<forall>s \<in> set (sessions db). \<forall>r \<in> set (sn_sessions sn).
        as_uuid r = se_uuid s \<longrightarrow> as_user_uuid r = se_user_uuid s)"

definition db_ok :: "database \<Rightarrow> bool" where
  "db_ok db \<longleftrightarrow> presence_ok db \<and> chat_ok db"

section \<open>Bulk inserts that succeed\<close>

lemma bulk_insert_Inr:
  "keyed key (rows @ new) \<Longrightarrow> list_all fk new \<Longrightarrow> bulk_insert key fk new rows = Inr (rows @ new)"
  by (simp add: bulk_insert_ok keyed_append)

lemma image_delete_key: "key ` set (delete_rows (\<lambda>r. key r \<in> S) rows) = key ` set rows - S"
  by auto

section \<open>Endpoints and tenants\<close>

lemma endpoint_delete_all_eq:
  assumes "presence_ok db"
  shows "endpoint_delete_all db =
     db\<lparr>endpoints := [], lines := map (\<lambda>l. l\<lparr>ln_endpoint_name := None\<rparr>) (lines db)\<rparr>"
proof -
  have r: "refs_opt ln_endpoint_name (lines db) (ep_name ` set (endpoints db))"
    using assms by (simp add: integrity_defs)
  have "update_rows (\<lambda>l. \<exists>n \<in> ep_name ` set (endpoints db). ln_endpoint_name l = Some n)
      (\<lambda>l. l\<lparr>ln_endpoint_name := None\<rparr>) (lines db) = map (\<lambda>l. l\<lparr>ln_endpoint_name := None\<rparr>) (lines db)"
    unfolding update_rows_def
  proof (rule map_cong [OF refl])
    fix l assume "l \<in> set (lines db)"
    with r show "(if \<exists>n \<in> ep_name ` set (endpoints db). ln_endpoint_name l = Some n
        then l\<lparr>ln_endpoint_name := None\<rparr> else l) = l\<lparr>ln_endpoint_name := None\<rparr>"
      by (cases "ln_endpoint_name l") (auto simp: refs_opt_def)
  qed
  then show ?thesis
    by (simp add: endpoint_delete_all_def cascade_endpoints_def Let_def delete_rows_def)
qed

lemma device_endpoints_keyed: "keyed ep_name (map snd (dict_of device_endpoint events))"
proof -
  have "map (ep_name \<circ> snd) (dict_of device_endpoint events) = map fst (dict_of device_endpoint events)"
    by (rule map_cong [OF refl])
      (auto dest!: dict_of_item simp: device_endpoint_def split: if_splits)
  then show ?thesis
    using dict_of_wf [of device_endpoint events] by (simp only: keyed_def dict_wf_def map_map)
qed

lemma initiate_endpoints_ok:
  fixes events :: "device_event list"
  assumes "db_ok db"
  defines "db' \<equiv> db\<lparr>endpoints := map snd (dict_of device_endpoint events),
                    lines := map (\<lambda>l. l\<lparr>ln_endpoint_name := None\<rparr>) (lines db)\<rparr>"
  shows "initiate_endpoints events db = Inr db' \<and> db_ok db'"
proof
  have ok: "presence_ok db" "chat_ok db"
    using assms(1) by (simp_all add: db_ok_def)
  show "initiate_endpoints events db = Inr db'"
    using ok(1) device_endpoints_keyed [of events]
    by (simp add: initiate_endpoints_def endpoint_create_all_def endpoint_delete_all_eq bulk_insert_Inr
        db'_def list_all_iff)
  have "presence_ok (endpoint_delete_all db)"
    using ok(1) by (simp add: endpoint_delete_all_def cascade_endpoints_presence)
  then have "presence_ok db'"
    using device_endpoints_keyed [of events]
    by (simp add: endpoint_delete_all_eq [OF ok(1)] db'_def integrity_defs refs_opt_def)
  moreover have "chat_ok db'" using ok(2) by (simp add: db'_def integrity_defs)
  ultimately show "db_ok db'" by (simp add: db_ok_def)
qed

lemma initiate_tenants_ok:
  assumes "db_ok db"
  obtains db' where "initiate_tenants ts db = Inr db'" "db_ok db'" "pruned db db'"
    "tn_uuid ` set (tenants db') = set ts"
    "users db' = filter (\<lambda>u. us_tenant_uuid u \<in> set ts) (users db)"
proof -
  define new where "new = map (\<lambda>t. \<lparr>tn_uuid = t\<rparr>) (filter (\<lambda>t. t \<notin> set (tenant_list_uuids db)) (remdups ts))"
  define db1 where "db1 = db\<lparr>tenants := tenants db @ new\<rparr>"
  define expired where "expired = filter (\<lambda>t. t \<notin> set ts) (tenant_list_uuids db)"
  have k: "keyed tn_uuid (tenants db @ new)"
    using assms by (auto simp: keyed_append new_def db_ok_def integrity_defs keyed_def tenant_list_uuids_def comp_def)
  have i: "initiate_tenants ts db = Inr (tenant_delete_by_uuids expired db1)"
    using k by (simp add: initiate_tenants_def Let_def tenant_create_all_def bulk_insert_Inr new_def
        db1_def expired_def list_all_iff)
  have ok: "presence_ok db1" "chat_ok db1"
    using assms k unfolding db1_def db_ok_def integrity_defs by (auto intro: refs_mono)
  note d = tenant_delete_by_uuids_ok [OF ok, of expired]
  define db' where "db' = tenant_delete_by_uuids expired db1"
  have "tenants db' = delete_rows (\<lambda>t. tn_uuid t \<in> set expired) (tenants db1)"
    using d by (simp add: db'_def)
  then have e1: "tn_uuid ` set (tenants db') = tn_uuid ` set (tenants db1) - set expired"
    by (simp only: image_delete_key)
  have "map tn_uuid (tenants db1) =
      tenant_list_uuids db @ filter (\<lambda>t. t \<notin> set (tenant_list_uuids db)) (remdups ts)"
    by (simp add: db1_def new_def tenant_list_uuids_def comp_def)
  from arg_cong [OF this, of set]
  have e2: "tn_uuid ` set (tenants db1) =
      set (tenant_list_uuids db) \<union> {t \<in> set ts. t \<notin> set (tenant_list_uuids db)}"
    by simp
  have e3: "set expired = {t \<in> set (tenant_list_uuids db). t \<notin> set ts}"
    by (simp add: expired_def)
  have t: "tn_uuid ` set (tenants db') = set ts"
    unfolding e1 e2 e3 by blast
  show thesis
  proof (rule that)
    show "initiate_tenants ts db = Inr db'" using i by (simp add: db'_def)
    show "db_ok db'" using d by (simp add: db'_def db_ok_def)
    show "pruned db db'" using d by (simp add: db'_def db1_def pruned_def user_uuids_def)
    show "tn_uuid ` set (tenants db') = set ts" by (rule t)
    show "users db' = filter (\<lambda>u. us_tenant_uuid u \<in> set ts) (users db)"
      using d t by (simp add: db'_def tenant_uuids_of_def) (simp add: db1_def)
  qed
qed

section \<open>Users\<close>

definition user_pairs :: "confd_user list \<Rightarrow> (uuid \<times> uuid) list" where
  "user_pairs us = map (\<lambda>u. (cu_uuid u, cu_tenant_uuid u)) us"

lemma keyed_new_users:
  assumes "distinct (map fst ks)"
  shows "keyed us_uuid (map new_user (filter p ks))"
  using assms by (simp add: keyed_def comp_def new_user_def distinct_map_filter)

lemma add_and_remove_users_ok:
  assumes ok: "db_ok db" and k: "keyed cu_uuid us"
    and move: "\<And>u r. u \<in> set (users db) \<Longrightarrow> r \<in> set us \<Longrightarrow> cu_uuid r = us_uuid u \<Longrightarrow>
      cu_tenant_uuid r = us_tenant_uuid u"
  obtains db' where "add_and_remove_users us db = Inr db'" "db_ok db'"
    "tn_uuid ` set (tenants db') = tn_uuid ` set (tenants db) \<union> cu_tenant_uuid ` set us"
    "(\<lambda>u. (us_uuid u, us_tenant_uuid u)) ` set (users db') = set (user_pairs us)"
    "{u \<in> set (users db). (us_uuid u, us_tenant_uuid u) \<in> set (user_pairs us)} \<subseteq> set (users db')"
    "set (sessions db') \<subseteq> set (sessions db)" "set (refresh_tokens db') \<subseteq> set (refresh_tokens db)"
    "set (lines db') \<subseteq> set (lines db)" "endpoints db' = endpoints db"
proof -
  let ?pair = "\<lambda>u. (us_uuid u, us_tenant_uuid u)"
  define K where "K = user_pairs us"
  have d: "distinct (map fst K)"
    using k by (simp add: K_def user_pairs_def keyed_def comp_def)
  then have dK: "distinct K" by (simp add: distinct_map)
  then have rK: "remdups K = K" by (rule distinct_remdups_id)
  define missing where "missing = filter (\<lambda>k. k \<notin> ?pair ` set (users db)) K"
  define mt where "mt = filter (\<lambda>t. t \<notin> tn_uuid ` set (tenants db)) (remdups (map snd missing))"
  define expired where "expired = map us_uuid (filter (\<lambda>u. ?pair u \<notin> set K) (users db))"
  define db1 where "db1 = db\<lparr>tenants := tenants db @ map (\<lambda>t. \<lparr>tn_uuid = t\<rparr>) mt\<rparr>"
  define db2 where "db2 = db1\<lparr>users := users db @ map new_user missing\<rparr>"
  have cached: "user_list_uuids_with_tenant_uuids db = map ?pair (users db)"
    by (simp add: user_list_uuids_with_tenant_uuids_def)
  have tk: "keyed tn_uuid (tenants db @ map (\<lambda>t. \<lparr>tn_uuid = t\<rparr>) mt)"
    using ok by (auto simp: keyed_append mt_def db_ok_def integrity_defs keyed_def comp_def)
  have new: "us_uuid u \<notin> fst ` set missing" if "u \<in> set (users db)" for u
  proof
    assume "us_uuid u \<in> fst ` set missing"
    then obtain r where r: "r \<in> set us" "cu_uuid r = us_uuid u"
        "(cu_uuid r, cu_tenant_uuid r) \<notin> ?pair ` set (users db)"
      by (auto simp: missing_def K_def user_pairs_def)
    have "?pair u \<in> ?pair ` set (users db)" using that by (rule imageI)
    with r(3) have "?pair u \<noteq> (cu_uuid r, cu_tenant_uuid r)" by auto
    with r move [OF that r(1)] show False by simp
  qed
  have uk: "keyed us_uuid (users db @ map new_user missing)"
  proof -
    have "us_uuid ` set (map new_user missing) = fst ` set missing"
      by (simp add: image_image new_user_def)
    then have "us_uuid ` set (users db) \<inter> us_uuid ` set (map new_user missing) = {}"
      using new by blast
    with ok show ?thesis
      unfolding keyed_append missing_def by (simp add: keyed_new_users [OF d] db_ok_def integrity_defs)
  qed
  have ex: "tenant_exists db1 u" if "u \<in> set (map new_user missing)" for u
    using that by (force simp: tenant_exists_def tenant_list_uuids_def db1_def mt_def new_user_def image_iff)
  have run: "add_and_remove_users us db = Inr (user_delete_by_uuids expired db2)"
    using tk uk ex
    by (simp add: add_and_remove_users_def Let_def cached tenant_create_all_def user_create_all_def
        bulk_insert_Inr list_all_iff db1_def db2_def K_def [symmetric] user_pairs_def [symmetric] rK
        missing_def [symmetric] mt_def [symmetric] tenant_list_uuids_def expired_def filter_map comp_def)
  have ok2: "presence_ok db2" "chat_ok db2"
  proof -
    have "refs us_tenant_uuid (users db) (tn_uuid ` set (tenants db))"
      using ok by (simp add: db_ok_def integrity_defs)
    then have "refs us_tenant_uuid (users db) (tn_uuid ` set (tenants db1))"
      by (rule refs_mono) (auto simp: db1_def)
    moreover have "refs us_tenant_uuid (map new_user missing) (tn_uuid ` set (tenants db1))"
      unfolding refs_def using ex by (simp only: tenant_exists_def tenant_list_uuids_def set_map) blast
    ultimately have "refs us_tenant_uuid (users db2) (tn_uuid ` set (tenants db2))"
      by (simp add: db2_def)
    then show "presence_ok db2" "chat_ok db2"
      using ok tk uk unfolding db1_def db2_def db_ok_def integrity_defs by (auto intro: refs_mono)
  qed
  note del = user_delete_by_uuids_ok [OF ok2, of expired]
  define db' where "db' = user_delete_by_uuids expired db2"
  have keep: "us_uuid u \<in> set expired \<longleftrightarrow> ?pair u \<notin> set K" if "u \<in> set (users db2)" for u
  proof (cases "u \<in> set (users db)")
    case True
    then show ?thesis
      using ok by (auto simp: expired_def db_ok_def integrity_defs dest: keyed_inj)
  next
    case False
    with that have "u \<in> new_user ` set missing" by (simp add: db2_def)
    then obtain k where k: "k \<in> set missing" "u = new_user k" by blast
    then have u: "us_uuid u \<in> fst ` set missing" and "?pair u \<in> set K"
      by (simp_all add: new_user_def missing_def)
    moreover have "us_uuid u \<notin> set expired"
    proof
      assume "us_uuid u \<in> set expired"
      then obtain x where "x \<in> set (users db)" "us_uuid x = us_uuid u" by (auto simp: expired_def)
      with new [of x] u show False by simp
    qed
    ultimately show ?thesis by blast
  qed
  have us': "set (users db') = {u \<in> set (users db2). ?pair u \<in> set K}"
    using del keep by (auto simp: db'_def)
  show thesis
  proof (rule that [of db'])
    show "add_and_remove_users us db = Inr db'" using run by (simp add: db'_def)
    show "db_ok db'" using del by (simp add: db'_def db_ok_def)
    have "tenants db' = tenants db2" using del by (simp add: db'_def)
    moreover have "cu_tenant_uuid ` set us \<subseteq> tn_uuid ` set (tenants db2)"
    proof
      fix t assume "t \<in> cu_tenant_uuid ` set us"
      then obtain r where r: "r \<in> set us" "t = cu_tenant_uuid r" by blast
      then have "(cu_uuid r, t) \<in> set K" by (simp add: K_def user_pairs_def)
      then have "(cu_uuid r, t) \<in> ?pair ` set (users db2)"
        by (cases "(cu_uuid r, t) \<in> ?pair ` set (users db)")
          (force simp: db2_def missing_def new_user_def)+
      then show "t \<in> tn_uuid ` set (tenants db2)"
        using ok2 by (auto simp: integrity_defs refs_def)
    qed
    moreover have "snd ` set missing \<subseteq> cu_tenant_uuid ` set us"
      by (auto simp: missing_def K_def user_pairs_def)
    ultimately show "tn_uuid ` set (tenants db') = tn_uuid ` set (tenants db) \<union> cu_tenant_uuid ` set us"
      by (auto simp: db2_def db1_def mt_def)
    show "?pair ` set (users db') = set (user_pairs us)"
    proof
      show "set (user_pairs us) \<subseteq> ?pair ` set (users db')"
      proof
        fix k assume k: "k \<in> set (user_pairs us)"
        then have "k \<in> ?pair ` set (users db2)"
          by (cases "k \<in> ?pair ` set (users db)")
            (force simp: db2_def missing_def new_user_def K_def [symmetric])+
        with k show "k \<in> ?pair ` set (users db')" by (auto simp: us' K_def)
      qed
    qed (auto simp: us' K_def)
    show "{u \<in> set (users db). ?pair u \<in> set (user_pairs us)} \<subseteq> set (users db')"
      by (auto simp: us' db2_def K_def)
    show "set (sessions db') \<subseteq> set (sessions db)" "set (refresh_tokens db') \<subseteq> set (refresh_tokens db)"
      "set (lines db') \<subseteq> set (lines db)" "endpoints db' = endpoints db"
      using del by (auto simp: db'_def pruned_def db2_def db1_def)
  qed
qed

section \<open>Lines\<close>

lemma line_delete_by_ids_ok:
  assumes "db_ok db"
  obtains cs where
    "line_delete_by_ids ids db = db\<lparr>lines := delete_rows (\<lambda>l. ln_id l \<in> set ids) (lines db), channels := cs\<rparr>"
    "db_ok (line_delete_by_ids ids db)"
proof -
  let ?f = "\<lambda>chunk. cascade_lines (\<lambda>l. ln_id l \<in> set chunk)"
  have "db_ok (fold ?f chunks db) \<and> (\<exists>cs. fold ?f chunks db =
      db\<lparr>lines := delete_rows (\<lambda>l. ln_id l \<in> set (concat chunks)) (lines db), channels := cs\<rparr>)" for chunks
    using assms
  proof (induction chunks arbitrary: db)
    case (Cons c chunks)
    define db1 where "db1 = ?f c db"
    have e1: "db1 = db\<lparr>lines := delete_rows (\<lambda>l. ln_id l \<in> set c) (lines db), channels := channels db1\<rparr>"
      by (simp add: db1_def cascade_lines_def Let_def)
    have "db_ok db1"
      using Cons.prems by (simp add: db1_def db_ok_def cascade_lines_presence cascade_lines_chat)
    then obtain cs where okc: "db_ok (fold ?f chunks db1)" and e2: "fold ?f chunks db1 = db1
        \<lparr>lines := delete_rows (\<lambda>l. ln_id l \<in> set (concat chunks)) (lines db1), channels := cs\<rparr>"
      using Cons.IH by blast
    have "db1\<lparr>lines := X, channels := cs\<rparr> = db\<lparr>lines := X, channels := cs\<rparr>" for X
      by (subst e1) simp
    moreover have "lines db1 = delete_rows (\<lambda>l. ln_id l \<in> set c) (lines db)"
      by (subst e1) simp
    moreover have "delete_rows (\<lambda>l. ln_id l \<in> set (concat chunks)) (delete_rows (\<lambda>l. ln_id l \<in> set c) (lines db)) =
        delete_rows (\<lambda>l. ln_id l \<in> set (concat (c # chunks))) (lines db)"
      by (simp add: delete_rows_def conj_commute)
    ultimately have "fold ?f (c # chunks) db = db\<lparr>lines :=
        delete_rows (\<lambda>l. ln_id l \<in> set (concat (c # chunks))) (lines db), channels := cs\<rparr>"
      using e2 by (simp add: db1_def)
    with okc show ?case by (auto simp: db1_def)
  next
    case Nil
    show ?case
      using Nil by (simp add: delete_rows_def) (rule exI [of _ "channels db"], simp)
  qed
  moreover have "line_delete_by_ids ids db = fold ?f (chunked BULK_BATCH_SIZE ids) db"
    by (simp add: line_delete_by_ids_def bulk_delete_def)
  moreover have "concat (chunked BULK_BATCH_SIZE ids) = ids"
    by (simp add: concat_chunked BULK_BATCH_SIZE_def)
  ultimately show thesis using that by metis
qed

lemma collect_new_lines_sound:
  assumes "keyed ln_id acc"
    and "\<And>l. l \<in> set acc \<Longrightarrow> ln_id l \<notin> S \<and> ln_user_uuid l \<in> set known \<and> (\<exists>(i, u, t) \<in> M. l = new_line i u)"
    and "set missing \<subseteq> M"
  shows "keyed ln_id (collect_new_lines known S missing acc) \<and>
    (\<forall>l \<in> set (collect_new_lines known S missing acc).
       ln_id l \<notin> S \<and> ln_user_uuid l \<in> set known \<and> (\<exists>(i, u, t) \<in> M. l = new_line i u))"
  using assms
proof (induction known S missing acc rule: collect_new_lines.induct)
  case (2 known S i u t missing acc)
  show ?case
  proof (cases "u \<notin> set known \<or> i \<in> S \<or> i \<in> ln_id ` set acc")
    case True
    with 2 show ?thesis by auto
  next
    case False
    have "keyed ln_id (acc @ [new_line i u])"
      using 2(4) False by (simp add: keyed_snoc new_line_def)
    moreover have "ln_id l \<notin> S \<and> ln_user_uuid l \<in> set known \<and> (\<exists>(i, u, t) \<in> M. l = new_line i u)"
      if "l \<in> set (acc @ [new_line i u])" for l
      using that False 2(5,6) by (auto simp: new_line_def)
    ultimately show ?thesis using 2(3) 2(6) False by auto
  qed
qed simp

lemma collect_new_lines_complete:
  "(i, u, t) \<in> set missing \<and> u \<in> set known \<and> i \<notin> S \<or> i \<in> ln_id ` set acc \<Longrightarrow>
     i \<in> ln_id ` set (collect_new_lines known S missing acc)"
proof (induction known S missing acc rule: collect_new_lines.induct)
  case (2 known S i' u' t' missing acc)
  then show ?case by (auto simp: new_line_def)
qed simp

lemma set_wanted_lines:
  "set (wanted_lines us) = (\<lambda>(u, l). (cl_id l, cu_uuid u, cu_tenant_uuid u)) ` set (line_pairs us)"
proof -
  have "concat (map (\<lambda>u. map (\<lambda>l. (cl_id l, cu_uuid u, cu_tenant_uuid u)) (cu_lines u)) us) =
      map (\<lambda>(u, l). (cl_id l, cu_uuid u, cu_tenant_uuid u)) (line_pairs us)"
    by (simp add: line_pairs_def map_concat comp_def)
  then show ?thesis by (simp add: wanted_lines_def)
qed

lemma wanted_lines_functional:
  assumes "keyed (cl_id \<circ> snd) (line_pairs us)"
    and "(i, u, t) \<in> set (wanted_lines us)" and "(i, u', t') \<in> set (wanted_lines us)"
  shows "u = u' \<and> t = t'"
proof -
  obtain x l where x: "(x, l) \<in> set (line_pairs us)" "i = cl_id l" "u = cu_uuid x" "t = cu_tenant_uuid x"
    using assms(2) by (auto simp: set_wanted_lines)
  obtain x' l' where x': "(x', l') \<in> set (line_pairs us)" "i = cl_id l'" "u' = cu_uuid x'" "t' = cu_tenant_uuid x'"
    using assms(3) by (auto simp: set_wanted_lines)
  have "(x, l) = (x', l')"
    using keyed_inj [OF assms(1) x(1) x'(1)] x(2) x'(2) by simp
  with x x' show ?thesis by simp
qed

lemma tenant_of_user_eq:
  "presence_ok db \<Longrightarrow> u \<in> set (users db) \<Longrightarrow> tenant_of_user db (us_uuid u) = Some (us_tenant_uuid u)"
  using find_row_keyed [of us_uuid "users db" "us_uuid u" u]
  by (simp add: tenant_of_user_def integrity_defs)

lemma cached_lines_eq:
  assumes "presence_ok db"
  shows "k \<in> set (cached_lines db) \<longleftrightarrow> (\<exists>l u. l \<in> set (lines db) \<and> u \<in> set (users db) \<and>
     us_uuid u = ln_user_uuid l \<and> k = (ln_id l, us_uuid u, us_tenant_uuid u))"
proof -
  have r: "refs ln_user_uuid (lines db) (us_uuid ` set (users db))"
    using assms by (simp add: integrity_defs)
  show ?thesis
  proof
    assume "k \<in> set (cached_lines db)"
    then obtain l where l: "l \<in> set (lines db)" and k: "k = (ln_id l, ln_user_uuid l,
        case tenant_of_user db (ln_user_uuid l) of None \<Rightarrow> ''None'' | Some t \<Rightarrow> t)"
      by (auto simp: cached_lines_def)
    from l r obtain u where u: "u \<in> set (users db)" "us_uuid u = ln_user_uuid l"
      by (force simp: refs_def)
    with k l tenant_of_user_eq [OF assms u(1)] show "\<exists>l u. l \<in> set (lines db) \<and> u \<in> set (users db) \<and>
        us_uuid u = ln_user_uuid l \<and> k = (ln_id l, us_uuid u, us_tenant_uuid u)"
      by (intro exI [of _ l] exI [of _ u]) simp
  next
    assume "\<exists>l u. l \<in> set (lines db) \<and> u \<in> set (users db) \<and>
      us_uuid u = ln_user_uuid l \<and> k = (ln_id l, us_uuid u, us_tenant_uuid u)"
    then obtain l u where l: "l \<in> set (lines db)" "u \<in> set (users db)" "us_uuid u = ln_user_uuid l"
      "k = (ln_id l, us_uuid u, us_tenant_uuid u)" by blast
    with tenant_of_user_eq [OF assms l(2)] show "k \<in> set (cached_lines db)"
      by (auto simp: cached_lines_def image_iff)
  qed
qed

lemma add_and_remove_lines_ok:
  fixes order :: "line_key list \<Rightarrow> line_key list"
  assumes ok: "db_ok db" and k: "keyed (cl_id \<circ> snd) (line_pairs us)"
    and order: "\<And>xs. set (order xs) = set xs"
    and pairs: "(\<lambda>u. (us_uuid u, us_tenant_uuid u)) ` set (users db) = set (user_pairs us)"
  obtains ls cs where "add_and_remove_lines order us db = Inr (db\<lparr>lines := ls, channels := cs\<rparr>)"
    "db_ok (db\<lparr>lines := ls, channels := cs\<rparr>)"
    "set ls \<subseteq> set (lines db) \<union> {l. ln_endpoint_name l = None}"
    "(\<lambda>l. (ln_id l, ln_user_uuid l)) ` set ls = (\<lambda>(u, l). (cl_id l, cu_uuid u)) ` set (line_pairs us)"
proof -
  define W where "W = set (wanted_lines us)"
  define C where "C = set (cached_lines db)"
  define missing where "missing = filter (\<lambda>k. k \<notin> set (cached_lines db)) (wanted_lines us)"
  define gone where "gone = remdups (map fst (filter (\<lambda>k. k \<notin> set (wanted_lines us)) (cached_lines db)))"
  define S where "S = set (map fst (cached_lines db)) - set gone"
  define new where "new = collect_new_lines (user_list_uuids db) S (order missing) []"
  define kept where "kept = delete_rows (\<lambda>l. ln_id l \<in> set gone) (lines db)"
  have pok: "presence_ok db" using ok by (simp add: db_ok_def)
  obtain cs where del: "line_delete_by_ids gone db = db\<lparr>lines := kept, channels := cs\<rparr>"
    and del_ok: "db_ok (db\<lparr>lines := kept, channels := cs\<rparr>)"
    by (rule line_delete_by_ids_ok [OF ok, of gone]) (simp add: kept_def)
  have Cfun: "fst c = fst c' \<Longrightarrow> c = c'" if c: "c \<in> C" and c': "c' \<in> C" for c c'
  proof -
    obtain l u where l: "l \<in> set (lines db)" "u \<in> set (users db)" "us_uuid u = ln_user_uuid l"
      "c = (ln_id l, us_uuid u, us_tenant_uuid u)"
      using c unfolding C_def cached_lines_eq [OF pok] by blast
    obtain l' u' where l': "l' \<in> set (lines db)" "u' \<in> set (users db)" "us_uuid u' = ln_user_uuid l'"
      "c' = (ln_id l', us_uuid u', us_tenant_uuid u')"
      using c' unfolding C_def cached_lines_eq [OF pok] by blast
    have "keyed ln_id (lines db)" "keyed us_uuid (users db)" using pok by (simp_all add: integrity_defs)
    moreover assume "fst c = fst c'"
    ultimately have "l = l'" using l l' by (auto dest: keyed_inj)
    with \<open>keyed us_uuid (users db)\<close> l l' have "u = u'" by (auto dest: keyed_inj)
    with l l' \<open>l = l'\<close> show "c = c'" by simp
  qed
  have gone: "i \<in> set gone \<longleftrightarrow> (\<exists>c \<in> C - W. i = fst c)" for i
    unfolding gone_def C_def W_def by force
  have sound: "keyed ln_id new \<and> (\<forall>l \<in> set new. ln_id l \<notin> S \<and>
      ln_user_uuid l \<in> set (user_list_uuids db) \<and> (\<exists>(i, u, t) \<in> set missing. l = new_line i u))"
    unfolding new_def by (rule collect_new_lines_sound) (simp_all add: order)
  have kept_ids: "ln_id ` set kept \<subseteq> S"
  proof
    fix i assume "i \<in> ln_id ` set kept"
    then obtain l where l: "l \<in> set (lines db)" "ln_id l \<notin> set gone" "i = ln_id l"
      by (auto simp: kept_def)
    then have "ln_id l \<in> set (map fst (cached_lines db))" by (force simp: cached_lines_def)
    with l show "i \<in> S" by (simp add: S_def)
  qed
  have new_none: "ln_endpoint_name l = None" if "l \<in> set new" for l
    using sound that by (auto simp: new_line_def)
  have keyed_all: "keyed ln_id (kept @ new)"
    using sound kept_ids ok unfolding keyed_append kept_def
    by (auto simp: db_ok_def integrity_defs)
  have fk: "list_all (\<lambda>l. ln_user_uuid l \<in> set (user_list_uuids (db\<lparr>lines := kept, channels := cs\<rparr>)) \<and>
      (case ln_endpoint_name l of None \<Rightarrow> True
       | Some n \<Rightarrow> n \<in> set (endpoint_list_names (db\<lparr>lines := kept, channels := cs\<rparr>)))) new"
    using sound new_none by (auto simp: list_all_iff user_list_uuids_def)
  have run: "add_and_remove_lines order us db = Inr (db\<lparr>lines := kept @ new, channels := cs\<rparr>)"
  proof -
    have "add_and_remove_lines order us db = line_create_all new (line_delete_by_ids gone db)"
      by (simp only: add_and_remove_lines_def Let_def gone_def S_def missing_def new_def)
    with keyed_all fk show ?thesis by (simp add: del line_create_all_def bulk_insert_Inr)
  qed
  have kept_W: "\<exists>t. (ln_id l, ln_user_uuid l, t) \<in> W" if "l \<in> set kept" for l
  proof -
    have l: "l \<in> set (lines db)" "ln_id l \<notin> set gone" using that by (auto simp: kept_def)
    then obtain u where "u \<in> set (users db)" "us_uuid u = ln_user_uuid l"
      using pok by (force simp: integrity_defs refs_def)
    with l(1) have "(ln_id l, us_uuid u, us_tenant_uuid u) \<in> C"
      unfolding C_def cached_lines_eq [OF pok] by blast
    moreover have "\<not> (\<exists>c \<in> C - W. ln_id l = fst c)" using l(2) gone by blast
    ultimately have "(ln_id l, us_uuid u, us_tenant_uuid u) \<in> W" by force
    with \<open>us_uuid u = ln_user_uuid l\<close> show ?thesis by auto
  qed
  have new_W: "\<exists>t. (ln_id l, ln_user_uuid l, t) \<in> W" if "l \<in> set new" for l
    using sound that by (fastforce simp: missing_def W_def new_line_def)
  have all_W: "\<exists>l \<in> set (kept @ new). (ln_id l, ln_user_uuid l) = (i, u)" if "(i, u, t) \<in> W" for i u t
  proof (cases "(i, u, t) \<in> C")
    case True
    then obtain l v where l: "l \<in> set (lines db)" "v \<in> set (users db)" "us_uuid v = ln_user_uuid l"
      "(i, u, t) = (ln_id l, us_uuid v, us_tenant_uuid v)"
      unfolding C_def cached_lines_eq [OF pok] by blast
    have "i \<notin> set gone"
      unfolding gone using True that Cfun [OF _ True] by force
    with l show ?thesis by (force simp: kept_def)
  next
    case False
    then have m: "(i, u, t) \<in> set missing" using that by (simp add: missing_def W_def C_def)
    have "(u, t) \<in> set (user_pairs us)"
      using that by (auto simp: W_def set_wanted_lines line_pairs_def user_pairs_def)
    then have known: "u \<in> set (user_list_uuids db)"
      using pairs by (force simp: user_list_uuids_def)
    have "i \<notin> S"
    proof
      assume "i \<in> S"
      then obtain c where c: "c \<in> C" "i = fst c" "i \<notin> set gone" by (auto simp: S_def C_def)
      then have "c \<in> W" using gone by blast
      with that c(2) wanted_lines_functional [OF k, of i u t "fst (snd c)" "snd (snd c)"]
      have "c = (i, u, t)" by (cases c) (auto simp: W_def)
      with c(1) False show False by simp
    qed
    with m known have "i \<in> ln_id ` set new"
      unfolding new_def by (intro collect_new_lines_complete [of i u t]) (simp add: order)
    then obtain l where l: "l \<in> set new" "ln_id l = i" by blast
    with new_W obtain t' where "(i, ln_user_uuid l, t') \<in> W" by blast
    with that wanted_lines_functional [OF k] have "ln_user_uuid l = u" by (auto simp: W_def)
    with l show ?thesis by auto
  qed
  show thesis
  proof (rule that [OF run])
    show "db_ok (db\<lparr>lines := kept @ new, channels := cs\<rparr>)"
    proof -
      have "refs ln_user_uuid new (us_uuid ` set (users db))"
        using sound by (auto simp: refs_def user_list_uuids_def)
      moreover have "refs_opt ln_endpoint_name new (ep_name ` set (endpoints db))"
        using new_none by (auto simp: refs_opt_def)
      ultimately show ?thesis
        using del_ok keyed_all by (simp add: db_ok_def integrity_defs) (auto intro: refs_mono)
    qed
    show "set (kept @ new) \<subseteq> set (lines db) \<union> {l. ln_endpoint_name l = None}"
      using new_none by (auto simp: kept_def)
    have "(\<lambda>l. (ln_id l, ln_user_uuid l)) ` set (kept @ new) = (\<lambda>(i, u, t). (i, u)) ` W"
    proof (intro subset_antisym subsetI)
      fix x assume "x \<in> (\<lambda>l. (ln_id l, ln_user_uuid l)) ` set (kept @ new)"
      then obtain l where l: "l \<in> set kept \<or> l \<in> set new" "x = (ln_id l, ln_user_uuid l)" by auto
      then obtain t where "(ln_id l, ln_user_uuid l, t) \<in> W" using kept_W new_W by blast
      with l(2) show "x \<in> (\<lambda>(i, u, t). (i, u)) ` W" by (force intro: image_eqI)
    next
      fix x assume "x \<in> (\<lambda>(i, u, t). (i, u)) ` W"
      then obtain i u t where w: "(i, u, t) \<in> W" "x = (i, u)" by auto
      with all_W [OF w(1)] show "x \<in> (\<lambda>l. (ln_id l, ln_user_uuid l)) ` set (kept @ new)"
        by (metis (no_types, lifting) image_eqI)
    qed
    then show "(\<lambda>l. (ln_id l, ln_user_uuid l)) ` set (kept @ new) =
        (\<lambda>(u, l). (cl_id l, cu_uuid u)) ` set (line_pairs us)"
      by (simp add: W_def set_wanted_lines image_image case_prod_beta)
  qed
qed

section \<open>Endpoints of lines, services\<close>

lemma map_filter_append: "List.map_filter f (xs @ ys) = List.map_filter f xs @ List.map_filter f ys"
  by (simp add: List.map_filter_def)

lemma line_endpoints_eq:
  "line_endpoints us = List.map_filter
     (\<lambda>(u, l). map_option (Pair (cl_id l)) (extract_endpoint_from_line_presence_view l)) (line_pairs us)"
proof -
  have f: "concat (map (\<lambda>l. case extract_endpoint_from_line_presence_view l of
        None \<Rightarrow> [] | Some n \<Rightarrow> [(cl_id l, n)]) ls) =
      List.map_filter (\<lambda>(u, l). map_option (Pair (cl_id l)) (extract_endpoint_from_line_presence_view l))
        (map (Pair u) ls)" for u :: confd_user and ls
    by (induction ls) (auto simp: List.map_filter_def split: option.split)
  show ?thesis
    unfolding line_endpoints_def line_pairs_def
    by (induction us) (simp_all add: f [symmetric] map_filter_append List.map_filter_simps)
qed

lemma line_endpoints_keys:
  assumes "keyed (cl_id \<circ> snd) (line_pairs us)"
  shows "distinct (map fst (line_endpoints us))"
    and "(u, l) \<in> set (line_pairs us) \<Longrightarrow>
      dict_get (line_endpoints us) (cl_id l) = extract_endpoint_from_line_presence_view l"
proof -
  let ?h = "\<lambda>(u, l). map_option (Pair (cl_id l)) (extract_endpoint_from_line_presence_view l)"
  have "distinct (map fst (List.map_filter ?h ps)) \<and>
      (\<forall>(u, l) \<in> set ps. dict_get (List.map_filter ?h ps) (cl_id l) = extract_endpoint_from_line_presence_view l) \<and>
      fst ` set (List.map_filter ?h ps) \<subseteq> (cl_id \<circ> snd) ` set ps"
    if "keyed (cl_id \<circ> snd) ps" for ps :: "(confd_user \<times> confd_line) list"
    using that
  proof (induction ps)
    case (Cons p ps)
    obtain u l where p: "p = (u, l)" by (cases p)
    have k: "keyed (cl_id \<circ> snd) ps" "cl_id l \<notin> (cl_id \<circ> snd) ` set ps"
      using Cons.prems by (simp_all add: p keyed_def comp_def)
    note IH = Cons.IH [OF k(1)]
    have fresh: "cl_id l' \<noteq> cl_id l" if "(u', l') \<in> set ps" for u' l'
      using k(2) that by force
    show ?case
    proof (cases "extract_endpoint_from_line_presence_view l")
      case None
      have "cl_id l \<notin> fst ` set (List.map_filter ?h ps)" using IH k(2) by blast
      then have "dict_get (List.map_filter ?h ps) (cl_id l) = None" by (simp add: map_of_eq_None_iff)
      with IH None show ?thesis by (auto simp: p List.map_filter_simps)
    next
      case (Some n)
      have new: "cl_id l \<notin> fst ` set (List.map_filter ?h ps)" using IH k(2) by blast
      have eq: "List.map_filter ?h (p # ps) = (cl_id l, n) # List.map_filter ?h ps"
        using Some by (simp add: p List.map_filter_simps)
      have get: "dict_get (List.map_filter ?h (p # ps)) (cl_id l') = extract_endpoint_from_line_presence_view l'"
        if "(u', l') \<in> set (p # ps)" for u' l'
      proof (cases "(u', l') = (u, l)")
        case False
        with that have "(u', l') \<in> set ps" by (auto simp: p)
        with IH fresh [OF this] show ?thesis unfolding eq by fastforce
      next
        case True
        with Some show ?thesis unfolding eq by simp
      qed
      show ?thesis
      proof (intro conjI)
        show "distinct (map fst (List.map_filter ?h (p # ps)))" unfolding eq using IH new by simp
        show "\<forall>(u, l) \<in> set (p # ps). dict_get (List.map_filter ?h (p # ps)) (cl_id l) =
            extract_endpoint_from_line_presence_view l"
          by (rule ballI, clarify) (rule get)
        show "fst ` set (List.map_filter ?h (p # ps)) \<subseteq> (cl_id \<circ> snd) ` set (p # ps)"
          unfolding eq using IH by (auto simp: p)
      qed
    qed
  qed (simp add: List.map_filter_simps)
  from this [OF assms] show "distinct (map fst (line_endpoints us))"
    and "(u, l) \<in> set (line_pairs us) \<Longrightarrow>
      dict_get (line_endpoints us) (cl_id l) = extract_endpoint_from_line_presence_view l"
    unfolding line_endpoints_eq by auto
qed

lemma add_missing_endpoints_ok:
  fixes us :: "confd_user list"
  assumes "db_ok db"
  defines "names \<equiv> filter (\<lambda>n. n \<notin> set (endpoint_list_names db)) (remdups (map snd (line_endpoints us)))"
  shows "add_missing_endpoints us db = Inr (db\<lparr>endpoints := endpoints db @ map new_endpoint names\<rparr>)"
    and "db_ok (db\<lparr>endpoints := endpoints db @ map new_endpoint names\<rparr>)"
proof -
  have "keyed ep_name (map new_endpoint names)"
    by (simp add: keyed_def comp_def new_endpoint_def names_def)
  moreover have "ep_name ` set (map new_endpoint names) = set names"
    by (simp add: image_image new_endpoint_def)
  then have "ep_name ` set (endpoints db) \<inter> ep_name ` set (map new_endpoint names) = {}"
    by (auto simp: names_def endpoint_list_names_def)
  ultimately have k: "keyed ep_name (endpoints db @ map new_endpoint names)"
    using assms(1) by (simp add: keyed_append db_ok_def integrity_defs)
  then show "add_missing_endpoints us db = Inr (db\<lparr>endpoints := endpoints db @ map new_endpoint names\<rparr>)"
    by (simp add: add_missing_endpoints_def endpoint_create_all_def bulk_insert_Inr list_all_iff names_def)
  show "db_ok (db\<lparr>endpoints := endpoints db @ map new_endpoint names\<rparr>)"
    using assms(1) k by (simp add: db_ok_def integrity_defs) (auto intro: refs_opt_mono)
qed

lemma associate_line_endpoint_ok:
  fixes us :: "confd_user list"
  assumes ok: "db_ok db" and k: "keyed (cl_id \<circ> snd) (line_pairs us)"
    and none: "\<And>l. l \<in> set (lines db) \<Longrightarrow> ln_endpoint_name l = None"
    and names: "snd ` set (line_endpoints us) \<subseteq> ep_name ` set (endpoints db)"
  defines "db' \<equiv> db\<lparr>lines := map (\<lambda>l. l\<lparr>ln_endpoint_name := dict_get (line_endpoints us) (ln_id l)\<rparr>) (lines db)\<rparr>"
  shows "associate_line_endpoint us db = Inr db'" and "db_ok db'"
proof -
  note d = line_endpoints_keys(1) [OF k]
  have "dict_of Some (line_endpoints us) = line_endpoints us"
    using dict_of_distinct [of Some "line_endpoints us"] d by (simp add: List.map_filter_def comp_def)
  moreover have "Option.bind (line_find i db) ln_endpoint_name = None" for i
    using none by (cases "line_find i db") (auto simp: line_find_def dest: find_row_Some_in)
  ultimately have all: "filter (\<lambda>(i, n). Option.bind (line_find i db) ln_endpoint_name \<noteq> Some n)
      (dict_of Some (line_endpoints us)) = line_endpoints us"
    by (simp add: filter_True case_prod_beta)
  have rows: "bulk_update ln_id (\<lambda>n l. l\<lparr>ln_endpoint_name := Some n\<rparr>) (line_endpoints us) (lines db) = lines db'"
    using d none by (simp add: bulk_update_eq update_from_values_def db'_def split: option.split)
  have dn: "n \<in> ep_name ` set (endpoints db)" if "dict_get (line_endpoints us) i = Some n" for i n
    using names that by (force dest: map_of_SomeD)
  then have "list_all (\<lambda>l. case ln_endpoint_name l of None \<Rightarrow> True | Some n \<Rightarrow> n \<in> set (endpoint_list_names db)) (lines db')"
    by (auto simp: db'_def list_all_iff endpoint_list_names_def split: option.split)
  then show "associate_line_endpoint us db = Inr db'"
    unfolding associate_line_endpoint_def all associate_endpoints_def Let_def rows
    by (simp add: db'_def)
  have "keyed ln_id (lines db')" using ok by (simp add: db'_def keyed_def comp_def db_ok_def integrity_defs)
  moreover have "refs_opt ln_endpoint_name (lines db') (ep_name ` set (endpoints db))"
    using dn by (auto simp: refs_opt_def db'_def split: option.split)
  moreover have "refs ln_user_uuid (lines db') (us_uuid ` set (users db))"
    "refs ch_line_id (channels db) (ln_id ` set (lines db'))"
    using ok by (auto simp: refs_def db'_def db_ok_def integrity_defs image_image)
  ultimately show "db_ok db'" using ok by (simp add: db'_def db_ok_def integrity_defs)
qed

lemma update_services_users_ok:
  assumes ok: "db_ok db" and k: "keyed cu_uuid us"
    and pairs: "(\<lambda>u. (us_uuid u, us_tenant_uuid u)) ` set (users db) = set (user_pairs us)"
  obtains rows where "update_services_users us db = Inr (db\<lparr>users := rows\<rparr>)" "db_ok (db\<lparr>users := rows\<rparr>)"
    "rows = map (\<lambda>u. u\<lparr>us_do_not_disturb := the (dict_get (map (\<lambda>r. (cu_uuid r, cu_dnd r)) us) (us_uuid u))\<rparr>) (users db)"
proof -
  define desired where "desired = map (\<lambda>r. (cu_uuid r, cu_dnd r)) us"
  have d: "distinct (map fst desired)"
    using k by (simp add: desired_def comp_def keyed_def)
  have "dict_of (\<lambda>u. Some (cu_uuid u, cu_dnd u)) us = desired"
    using d dict_of_distinct [of "\<lambda>u. Some (cu_uuid u, cu_dnd u)" us]
    by (simp add: desired_def List.map_filter_def comp_def)
  moreover define changed where
    "changed = filter (\<lambda>(u, dnd). dict_get (user_list_dnd db) u \<noteq> Some dnd) desired"
  define rows where "rows = map (\<lambda>u. u\<lparr>us_do_not_disturb := the (dict_get desired (us_uuid u))\<rparr>) (users db)"
  have dnd: "dict_get (user_list_dnd db) (us_uuid u) = Some (us_do_not_disturb u)" if "u \<in> set (users db)" for u
    using that ok by (auto simp: user_list_dnd_def db_ok_def integrity_defs keyed_def comp_def intro!: map_of_is_SomeI)
  have want: "\<exists>b. dict_get desired (us_uuid u) = Some b" if "u \<in> set (users db)" for u
  proof -
    have "(us_uuid u, us_tenant_uuid u) \<in> set (user_pairs us)" using pairs that by blast
    then have "us_uuid u \<in> fst ` set desired" by (force simp: user_pairs_def desired_def)
    then show ?thesis by (metis map_of_eq_None_iff not_None_eq)
  qed
  have dc: "distinct (map fst changed)" using d by (simp add: changed_def distinct_map_filter)
  have "(case dict_get changed (us_uuid u) of None \<Rightarrow> u | Some b \<Rightarrow> u\<lparr>us_do_not_disturb := b\<rparr>) =
      u\<lparr>us_do_not_disturb := the (dict_get desired (us_uuid u))\<rparr>" if u: "u \<in> set (users db)" for u
  proof -
    obtain b where b: "dict_get desired (us_uuid u) = Some b" using want [OF u] by blast
    show ?thesis
    proof (cases "us_do_not_disturb u = b")
      case True
      then have "dict_get changed (us_uuid u) = None"
        using b dnd [OF u] by (auto simp: changed_def map_of_eq_None_iff dest: map_of_is_SomeI [OF d])
      with b True show ?thesis by simp
    next
      case False
      then have "(us_uuid u, b) \<in> set changed"
        using b dnd [OF u] by (auto simp: changed_def dest: map_of_SomeD)
      with dc b show ?thesis by simp
    qed
  qed
  then have "user_update_dnd changed db = db\<lparr>users := rows\<rparr>"
    by (simp add: user_update_dnd_def bulk_update_eq dc update_from_values_def rows_def cong: map_cong)
  ultimately have "update_services_users us db = Inr (db\<lparr>users := rows\<rparr>)"
    by (simp add: update_services_users_def Let_def changed_def)
  moreover have "us_uuid ` set rows = us_uuid ` set (users db)" "keyed us_uuid rows = keyed us_uuid (users db)"
    "refs us_tenant_uuid rows K = refs us_tenant_uuid (users db) K" for K
    by (simp_all add: rows_def image_image keyed_def comp_def refs_def)
  then have "db_ok (db\<lparr>users := rows\<rparr>)"
    using ok by (simp add: db_ok_def integrity_defs)
  ultimately show thesis using that by (simp add: rows_def desired_def)
qed

section \<open>Sessions and refresh tokens\<close>

text \<open>
  Both tables are synchronised the same way: create what is missing and has a user, delete by key
  what is not wanted, then copy one column.
\<close>

lemma sync_rows:
  fixes rk :: "'r \<Rightarrow> 'k" and xk :: "'x \<Rightarrow> 'k" and mk :: "'x \<Rightarrow> 'r" and ru :: "'r \<Rightarrow> uuid" and K :: "uuid set"
  assumes "keyed rk rows" and "keyed xk xs" and "\<And>r. r \<in> set rows \<Longrightarrow> ru r \<in> K"
    and same: "\<And>r x. r \<in> set rows \<Longrightarrow> x \<in> set xs \<Longrightarrow> rk r = xk x \<Longrightarrow> ru r = xu x"
    and mk: "\<And>x. rk (mk x) = xk x" "\<And>x. ru (mk x) = xu x"
  defines "new \<equiv> map mk (filter (\<lambda>x. xu x \<in> K \<and> (xk x, xu x) \<notin> (\<lambda>r. (rk r, ru r)) ` set rows) xs)"
    and "gone \<equiv> rk ` {r \<in> set rows. (rk r, ru r) \<notin> (\<lambda>x. (xk x, xu x)) ` set xs}"
  shows "keyed rk (rows @ new)"
    and "(\<lambda>r. (rk r, ru r)) ` set (delete_rows (\<lambda>r. rk r \<in> gone) (rows @ new)) =
      (\<lambda>x. (xk x, xu x)) ` {x \<in> set xs. xu x \<in> K}"
proof -
  have new_in: "\<exists>x \<in> set xs. r = mk x \<and> xu x \<in> K" if "r \<in> set new" for r
    using that by (auto simp: new_def)
  have new_fresh: "rk r \<notin> rk ` set rows" if r: "r \<in> set new" for r
  proof
    assume "rk r \<in> rk ` set rows"
    then obtain r0 where r0: "r0 \<in> set rows" "rk r = rk r0" by blast
    obtain x where x: "x \<in> set xs" "r = mk x" "(xk x, xu x) \<notin> (\<lambda>r. (rk r, ru r)) ` set rows"
      using r by (auto simp: new_def)
    have "(xk x, xu x) = (rk r0, ru r0)" using same [OF r0(1) x(1)] r0(2) x(2) mk by simp
    with r0(1) x(3) show False by blast
  qed
  have "keyed rk new"
    using assms(2) by (simp add: new_def keyed_def comp_def mk distinct_map_filter)
  then show "keyed rk (rows @ new)"
  proof -
    have "rk ` set rows \<inter> rk ` set new = {}"
    proof (rule ccontr)
      assume "rk ` set rows \<inter> rk ` set new \<noteq> {}"
      then obtain x where x: "x \<in> rk ` set rows" "x \<in> rk ` set new" by (meson disjoint_iff)
      from x(2) obtain r where "r \<in> set new" "x = rk r" by (rule imageE)
      with x(1) new_fresh [of r] show False by simp
    qed
    with \<open>keyed rk new\<close> assms(1) show ?thesis by (simp add: keyed_append)
  qed
  have row_gone: "rk r \<notin> gone \<longleftrightarrow> (rk r, ru r) \<in> (\<lambda>x. (xk x, xu x)) ` set xs" if "r \<in> set rows" for r
    using that assms(1) by (auto simp: gone_def dest: keyed_inj)
  have new_gone: "rk r \<notin> gone" if "r \<in> set new" for r
    using new_fresh [OF that] by (auto simp: gone_def)
  show "(\<lambda>r. (rk r, ru r)) ` set (delete_rows (\<lambda>r. rk r \<in> gone) (rows @ new)) =
      (\<lambda>x. (xk x, xu x)) ` {x \<in> set xs. xu x \<in> K}" (is "?L = ?R")
  proof (intro subset_antisym subsetI)
    fix p assume "p \<in> ?L"
    then obtain r where r: "r \<in> set rows \<or> r \<in> set new" "rk r \<notin> gone" "p = (rk r, ru r)" by auto
    from r(1) show "p \<in> ?R"
    proof
      assume row: "r \<in> set rows"
      with r row_gone obtain x where x: "x \<in> set xs" "p = (xk x, xu x)" by auto
      have "xu x \<in> K" using assms(3) [OF row] x(2) r(3) by simp
      with x show ?thesis by (intro image_eqI [of _ _ x]) auto
    next
      assume "r \<in> set new"
      with new_in obtain x where x: "x \<in> set xs" "r = mk x" "xu x \<in> K" by blast
      with r mk show ?thesis by (intro image_eqI [of _ _ x]) auto
    qed
  next
    fix p assume "p \<in> ?R"
    then obtain x where x: "x \<in> set xs" "xu x \<in> K" "p = (xk x, xu x)" by auto
    show "p \<in> ?L"
    proof (cases "p \<in> (\<lambda>r. (rk r, ru r)) ` set rows")
      case True
      then obtain r where r: "r \<in> set rows" "p = (rk r, ru r)" by auto
      have "(rk r, ru r) \<in> (\<lambda>x. (xk x, xu x)) ` set xs"
        using x r(2) by (intro image_eqI [of _ _ x]) auto
      with row_gone [OF r(1)] have "rk r \<notin> gone" by simp
      with r show ?thesis by auto
    next
      case False
      with x have "mk x \<in> set new" by (simp add: new_def)
      with new_gone [of "mk x"] mk x(3) show ?thesis by (intro image_eqI [of _ _ "mk x"]) auto
    qed
  qed
qed

text \<open>The same with the tenant, which the code carries along: a function of the user on both sides.\<close>

lemma sync_triples:
  fixes rk :: "'r \<Rightarrow> 'k" and xk :: "'x \<Rightarrow> 'k" and mk :: "'x \<Rightarrow> 'r" and ru :: "'r \<Rightarrow> uuid" and K :: "uuid set"
    and T :: "uuid \<Rightarrow> uuid"
  assumes rows: "keyed rk rows" "\<And>r. r \<in> set rows \<Longrightarrow> ru r \<in> K" and xs: "keyed xk xs"
    and same: "\<And>r x. r \<in> set rows \<Longrightarrow> x \<in> set xs \<Longrightarrow> rk r = xk x \<Longrightarrow> ru r = xu x"
    and mk: "\<And>x. rk (mk x) = xk x" "\<And>x. ru (mk x) = xu x"
    and ten: "\<And>x. x \<in> set xs \<Longrightarrow> xu x \<in> K \<Longrightarrow> T (xu x) = xt x"
  defines "new \<equiv> map mk (filter (\<lambda>x. xu x \<in> K)
      (filter (\<lambda>x. (xk x, xu x, xt x) \<notin> (\<lambda>r. (rk r, ru r, T (ru r))) ` set rows) xs))"
    and "gone \<equiv> map rk (filter (\<lambda>r. (rk r, ru r, T (ru r)) \<notin> (\<lambda>x. (xk x, xu x, xt x)) ` set xs) rows)"
  shows "keyed rk (rows @ new)"
    and "(\<lambda>r. (rk r, ru r)) ` set (delete_rows (\<lambda>r. rk r \<in> set gone) (rows @ new)) =
      (\<lambda>x. (xk x, xu x)) ` {x \<in> set xs. xu x \<in> K}"
proof -
  have WC: "(xk x, xu x, xt x) \<in> (\<lambda>r. (rk r, ru r, T (ru r))) ` set rows \<longleftrightarrow>
      (xk x, xu x) \<in> (\<lambda>r. (rk r, ru r)) ` set rows" if "x \<in> set xs" "xu x \<in> K" for x
    using ten [OF that] by (auto simp: image_iff)
  have CW: "(rk r, ru r, T (ru r)) \<in> (\<lambda>x. (xk x, xu x, xt x)) ` set xs \<longleftrightarrow>
      (rk r, ru r) \<in> (\<lambda>x. (xk x, xu x)) ` set xs" if "r \<in> set rows" for r
    using ten rows(2) [OF that] by (force simp: image_iff)
  have "filter (\<lambda>x. xu x \<in> K) (filter (\<lambda>x. (xk x, xu x, xt x) \<notin> (\<lambda>r. (rk r, ru r, T (ru r))) ` set rows) xs) =
      filter (\<lambda>x. xu x \<in> K \<and> (xk x, xu x) \<notin> (\<lambda>r. (rk r, ru r)) ` set rows) xs"
    unfolding filter_filter using WC by (intro filter_cong) auto
  then have new: "new = map mk (filter (\<lambda>x. xu x \<in> K \<and> (xk x, xu x) \<notin> (\<lambda>r. (rk r, ru r)) ` set rows) xs)"
    by (simp add: new_def)
  have "filter (\<lambda>r. (rk r, ru r, T (ru r)) \<notin> (\<lambda>x. (xk x, xu x, xt x)) ` set xs) rows =
      filter (\<lambda>r. (rk r, ru r) \<notin> (\<lambda>x. (xk x, xu x)) ` set xs) rows"
    using CW by (intro filter_cong) auto
  then have gone: "set gone = rk ` {r \<in> set rows. (rk r, ru r) \<notin> (\<lambda>x. (xk x, xu x)) ` set xs}"
    by (simp add: gone_def)
  show "keyed rk (rows @ new)"
    unfolding new by (rule sync_rows(1) [where rk = rk and rows = rows and ru = ru and K = K and xk = xk and xs = xs and xu = xu and mk = mk]) (use rows xs same mk in auto)
  show "(\<lambda>r. (rk r, ru r)) ` set (delete_rows (\<lambda>r. rk r \<in> set gone) (rows @ new)) =
      (\<lambda>x. (xk x, xu x)) ` {x \<in> set xs. xu x \<in> K}"
    unfolding new gone by (rule sync_rows(2) [where rk = rk and rows = rows and ru = ru and K = K and xk = xk and xs = xs and xu = xu and mk = mk]) (use rows xs same mk in auto)
qed

lemma sync_column:
  fixes want :: "'r \<Rightarrow> 'x option" and xcol :: "'x \<Rightarrow> 'v" and rk :: "'r \<Rightarrow> 'k"
  assumes "keyed rk rows" and "\<And>v r. rk (put v r) = rk r" and "\<And>r. put (col r) r = r"
  defines "updates \<equiv> concat (map (\<lambda>c. case want c of
      None \<Rightarrow> [] | Some x \<Rightarrow> if xcol x \<noteq> col c then [(rk c, xcol x)] else []) rows)"
  shows "bulk_update rk put updates rows = map (\<lambda>r. case want r of None \<Rightarrow> r | Some x \<Rightarrow> put (xcol x) r) rows"
proof -
  let ?u = "\<lambda>c. case want c of None \<Rightarrow> [] | Some x \<Rightarrow> if xcol x \<noteq> col c then [(rk c, xcol x)] else []"
  have sub: "fst ` set (concat (map ?u cs)) \<subseteq> rk ` set cs" for cs
    by (auto split: option.splits if_splits)
  have d: "distinct (map fst (concat (map ?u cs)))" if "keyed rk cs" for cs
    using that
  proof (induction cs)
    case (Cons c cs)
    then have "keyed rk cs" "rk c \<notin> fst ` set (concat (map ?u cs))"
      using sub [of cs] by (auto simp: keyed_def)
    with Cons.IH show ?case by (auto split: option.split)
  qed simp
  have get: "dict_get updates (rk r) = (case want r of None \<Rightarrow> None
      | Some x \<Rightarrow> if xcol x \<noteq> col r then Some (xcol x) else None)" if "r \<in> set rows" for r
  proof -
    have only: "(rk r, v) \<in> set (?u r)" if v: "(rk r, v) \<in> set updates" for v
    proof -
      obtain c where "c \<in> set rows" "(rk r, v) \<in> set (?u c)"
        using v unfolding updates_def set_concat set_map by blast
      moreover from this have "rk c = rk r" by (auto split: option.splits if_splits)
      with keyed_inj [OF assms(1) \<open>c \<in> set rows\<close> \<open>r \<in> set rows\<close>] have "c = r" by simp
      ultimately show ?thesis by simp
    qed
    have all: "set (?u r) \<subseteq> set updates" using that by (auto simp: updates_def)
    show ?thesis
    proof (cases "dict_get updates (rk r)")
      case None
      then have "rk r \<notin> fst ` set (?u r)" using all by (auto simp: map_of_eq_None_iff)
      with None show ?thesis by (auto split: option.splits if_splits)
    next
      case (Some v)
      with only [of v] have "(rk r, v) \<in> set (?u r)" by (simp add: map_of_SomeD)
      with Some show ?thesis by (cases "want r") (auto split: if_splits)
    qed
  qed
  show ?thesis
    using d [OF assms(1)] assms(2,3) get
    by (simp add: bulk_update_eq updates_def [symmetric] update_from_values_def)
      (auto split: option.splits)
qed

lemma sync_column_image:
  assumes image: "pk ` set rows = xk ` S" and want: "\<And>r x. x \<in> S \<Longrightarrow> pk r = xk x \<Longrightarrow> want r = Some x"
    and put: "\<And>v r. pk (put v r) = pk r" "\<And>v r. col (put v r) = v"
  shows "(\<lambda>r. (pk r, col r)) ` set (map (\<lambda>r. case want r of None \<Rightarrow> r | Some x \<Rightarrow> put (xcol x) r) rows) =
     (\<lambda>x. (xk x, xcol x)) ` S" (is "?L = ?R")
proof (intro subset_antisym subsetI)
  fix p assume "p \<in> ?L"
  then obtain r where r: "r \<in> set rows" "p = (\<lambda>r. (pk r, col r)) (case want r of None \<Rightarrow> r | Some x \<Rightarrow> put (xcol x) r)"
    by auto
  then have "pk r \<in> xk ` S" using image by blast
  then obtain x where x: "x \<in> S" "pk r = xk x" by blast
  with want [OF x] r(2) put show "p \<in> ?R" by auto
next
  fix p assume "p \<in> ?R"
  then obtain x where x: "x \<in> S" "p = (xk x, xcol x)" by auto
  then have "xk x \<in> pk ` set rows" using image by blast
  then obtain r where r: "r \<in> set rows" "xk x = pk r" by blast
  with want [OF x(1)] x(2) put show "p \<in> ?L"
    by (intro image_eqI [of _ _ "put (xcol x) r"]) (auto simp: image_iff intro!: bexI [of _ r])
qed

lemma refs_image: "refs f rows K \<longleftrightarrow> f ` set rows \<subseteq> K"
  by (auto simp: refs_def)

lemma cached_tenant_eq:
  assumes "presence_ok db" and "(\<lambda>u. (us_uuid u, us_tenant_uuid u)) ` set (users db) = set (user_pairs us)"
    and "r \<in> set us"
  shows "cached_tenant db (cu_uuid r) = cu_tenant_uuid r"
proof -
  have "(cu_uuid r, cu_tenant_uuid r) \<in> (\<lambda>u. (us_uuid u, us_tenant_uuid u)) ` set (users db)"
    using assms(2,3) by (simp add: user_pairs_def)
  then obtain v where "v \<in> set (users db)" "cu_uuid r = us_uuid v" "cu_tenant_uuid r = us_tenant_uuid v" by auto
  with tenant_of_user_eq [OF assms(1)] show ?thesis by (simp add: cached_tenant_def)
qed

lemma known_users:
  "(\<lambda>u. (us_uuid u, us_tenant_uuid u)) ` set (users db) = set (user_pairs us) \<Longrightarrow>
     us_uuid ` set (users db) = cu_uuid ` set us"
  using arg_cong [of _ _ "(`) fst"] by (fastforce simp: user_pairs_def image_image)

lemma session_delete_by_uuids_eq:
  "session_delete_by_uuids ids db = db\<lparr>sessions := delete_rows (\<lambda>s. se_uuid s \<in> set ids) (sessions db)\<rparr>"
proof -
  have "fold (\<lambda>chunk. delete_sessions (\<lambda>s. se_uuid s \<in> set chunk)) chunks db =
      db\<lparr>sessions := fold (\<lambda>chunk. delete_rows (\<lambda>s. se_uuid s \<in> set chunk)) chunks (sessions db)\<rparr>" for chunks
    by (induction chunks arbitrary: db) (simp_all add: delete_sessions_def)
  then show ?thesis
    by (simp add: session_delete_by_uuids_def bulk_delete_def fold_delete_rows concat_chunked BULK_BATCH_SIZE_def
        del: set_concat)
qed

lemma refresh_token_delete_by_keys_eq:
  "refresh_token_delete_by_keys ks db = db\<lparr>refresh_tokens := delete_rows (\<lambda>t. token_key t \<in> set ks) (refresh_tokens db)\<rparr>"
proof -
  have "fold (\<lambda>chunk. delete_tokens (\<lambda>t. token_key t \<in> set chunk)) chunks db =
      db\<lparr>refresh_tokens := fold (\<lambda>chunk. delete_rows (\<lambda>t. token_key t \<in> set chunk)) chunks (refresh_tokens db)\<rparr>" for chunks
    by (induction chunks arbitrary: db) (simp_all add: delete_tokens_def)
  then show ?thesis
    by (simp add: refresh_token_delete_by_keys_def bulk_delete_def fold_delete_rows concat_chunked BULK_BATCH_SIZE_def
        del: set_concat)
qed

lemma add_and_remove_sessions_ok:
  assumes ok: "db_ok db" and k: "keyed as_uuid ss"
    and pairs: "(\<lambda>u. (us_uuid u, us_tenant_uuid u)) ` set (users db) = set (user_pairs us)"
    and tenant: "\<And>s u. s \<in> set ss \<Longrightarrow> u \<in> set us \<Longrightarrow> as_user_uuid s = cu_uuid u \<Longrightarrow> as_tenant_uuid s = cu_tenant_uuid u"
    and move: "\<And>s r. s \<in> set (sessions db) \<Longrightarrow> r \<in> set ss \<Longrightarrow> as_uuid r = se_uuid s \<Longrightarrow> as_user_uuid r = se_user_uuid s"
  obtains rows where "add_and_remove_sessions ss db = Inr (db\<lparr>sessions := rows\<rparr>)" "db_ok (db\<lparr>sessions := rows\<rparr>)"
    "(\<lambda>s. (se_uuid s, se_user_uuid s)) ` set rows =
       (\<lambda>s. (as_uuid s, as_user_uuid s)) ` {s \<in> set ss. as_user_uuid s \<in> cu_uuid ` set us}"
proof -
  define K where "K = us_uuid ` set (users db)"
  define mk where "mk = (\<lambda>s :: auth_session. \<lparr>se_uuid = as_uuid s, se_mobile = False, se_user_uuid = as_user_uuid s\<rparr>)"
  have pok: "presence_ok db" using ok by (simp add: db_ok_def)
  note K = known_users [OF pairs, folded K_def]
  have prem: "keyed se_uuid (sessions db)" "\<And>s. s \<in> set (sessions db) \<Longrightarrow> se_user_uuid s \<in> K"
    using pok by (auto simp: integrity_defs refs_def K_def)
  have ten: "cached_tenant db (as_user_uuid x) = as_tenant_uuid x" if "x \<in> set ss" "as_user_uuid x \<in> K" for x
    using that cached_tenant_eq [OF pok pairs] tenant by (auto simp: K)
  note sync = sync_triples [where rk = se_uuid and rows = "sessions db" and ru = se_user_uuid and K = K and xk = as_uuid
      and xs = ss and xu = as_user_uuid and mk = mk and T = "cached_tenant db" and xt = as_tenant_uuid,
      OF prem k move [symmetric] _ _ ten]
  define new where "new = map mk (filter (\<lambda>x. as_user_uuid x \<in> K) (filter (\<lambda>x. (as_uuid x, as_user_uuid x, as_tenant_uuid x)
      \<notin> (\<lambda>r. (se_uuid r, se_user_uuid r, cached_tenant db (se_user_uuid r))) ` set (sessions db)) ss))"
  define gone where "gone = map se_uuid (filter (\<lambda>r. (se_uuid r, se_user_uuid r, cached_tenant db (se_user_uuid r))
      \<notin> (\<lambda>x. (as_uuid x, as_user_uuid x, as_tenant_uuid x)) ` set ss) (sessions db))"
  have keyed_new: "keyed se_uuid (sessions db @ new)" and image_new:
    "(\<lambda>s. (se_uuid s, se_user_uuid s)) ` set (delete_rows (\<lambda>s. se_uuid s \<in> set gone) (sessions db @ new)) =
      (\<lambda>s. (as_uuid s, as_user_uuid s)) ` {s \<in> set ss. as_user_uuid s \<in> K}"
    using sync unfolding new_def gone_def by (simp_all add: mk_def)
  have new_users: "list_all (\<lambda>s. se_user_uuid s \<in> set (user_list_uuids db)) new"
    by (auto simp: new_def mk_def list_all_iff user_list_uuids_def K_def)
  define rows where "rows = delete_rows (\<lambda>s. se_uuid s \<in> set gone) (sessions db @ new)"
  have "distinct (map (\<lambda>s. (as_uuid s, as_user_uuid s, as_tenant_uuid s)) ss)"
    using k by (auto simp: keyed_def distinct_map inj_on_def)
  then have "add_and_remove_sessions ss db = map_sum id (session_delete_by_uuids gone) (session_create_all new db)"
    by (simp add: add_and_remove_sessions_def Let_def distinct_remdups_id filter_map comp_def new_def gone_def
        mk_def user_list_uuids_def K_def)
  then have "add_and_remove_sessions ss db = Inr (db\<lparr>sessions := rows\<rparr>)"
    using keyed_new new_users
    by (simp add: session_create_all_def bulk_insert_Inr session_delete_by_uuids_eq rows_def)
  moreover have "db_ok (db\<lparr>sessions := rows\<rparr>)"
    using ok keyed_new new_users
    by (auto simp: rows_def db_ok_def integrity_defs refs_def list_all_iff user_list_uuids_def)
  ultimately show thesis using that image_new by (simp add: rows_def K)
qed

lemma add_and_remove_refresh_tokens_ok:
  assumes ok: "db_ok db" and k: "keyed (\<lambda>t. (at_client_id t, at_user_uuid t)) ts"
    and pairs: "(\<lambda>u. (us_uuid u, us_tenant_uuid u)) ` set (users db) = set (user_pairs us)"
    and tenant: "\<And>s u. s \<in> set ts \<Longrightarrow> u \<in> set us \<Longrightarrow> at_user_uuid s = cu_uuid u \<Longrightarrow> at_tenant_uuid s = cu_tenant_uuid u"
  obtains rows where "add_and_remove_refresh_tokens ts db = Inr (db\<lparr>refresh_tokens := rows\<rparr>)"
    "db_ok (db\<lparr>refresh_tokens := rows\<rparr>)"
    "token_key ` set rows =
       (\<lambda>t. (at_client_id t, at_user_uuid t)) ` {t \<in> set ts. at_user_uuid t \<in> cu_uuid ` set us}"
proof -
  define K where "K = us_uuid ` set (users db)"
  define mk where "mk = (\<lambda>t :: auth_token. \<lparr>rt_client_id = at_client_id t, rt_user_uuid = at_user_uuid t, rt_mobile = False\<rparr>)"
  define xk where "xk = (\<lambda>t :: auth_token. (at_client_id t, at_user_uuid t))"
  have pok: "presence_ok db" using ok by (simp add: db_ok_def)
  note K = known_users [OF pairs, folded K_def]
  have prem: "keyed token_key (refresh_tokens db)" "\<And>t. t \<in> set (refresh_tokens db) \<Longrightarrow> rt_user_uuid t \<in> K"
    using pok by (auto simp: integrity_defs refs_def K_def)
  have ten: "cached_tenant db (at_user_uuid x) = at_tenant_uuid x" if "x \<in> set ts" "at_user_uuid x \<in> K" for x
    using that cached_tenant_eq [OF pok pairs] tenant by (auto simp: K)
  define new where "new = map mk (filter (\<lambda>x. at_user_uuid x \<in> K) (filter (\<lambda>x. (xk x, at_user_uuid x, at_tenant_uuid x)
      \<notin> (\<lambda>r. (token_key r, rt_user_uuid r, cached_tenant db (rt_user_uuid r))) ` set (refresh_tokens db)) ts))"
  define gone where "gone = map token_key (filter (\<lambda>r. (token_key r, rt_user_uuid r, cached_tenant db (rt_user_uuid r))
      \<notin> (\<lambda>x. (xk x, at_user_uuid x, at_tenant_uuid x)) ` set ts) (refresh_tokens db))"
  have same: "\<And>r x. token_key r = xk x \<Longrightarrow> rt_user_uuid r = at_user_uuid x"
    by (simp add: token_key_def xk_def)
  note sync = sync_triples [where rk = token_key and rows = "refresh_tokens db" and ru = rt_user_uuid and K = K and xk = xk
      and xs = ts and xu = at_user_uuid and mk = mk and T = "cached_tenant db" and xt = at_tenant_uuid,
      OF prem k [folded xk_def] same _ _ ten]
  have keyed_new: "keyed token_key (refresh_tokens db @ new)" and image_new:
    "(\<lambda>t. (token_key t, rt_user_uuid t)) ` set (delete_rows (\<lambda>t. token_key t \<in> set gone) (refresh_tokens db @ new)) =
      (\<lambda>t. (xk t, at_user_uuid t)) ` {t \<in> set ts. at_user_uuid t \<in> K}"
    using sync unfolding new_def gone_def by (simp_all add: mk_def token_key_def xk_def)
  have new_users: "list_all (\<lambda>t. rt_user_uuid t \<in> set (user_list_uuids db)) new"
    by (auto simp: new_def mk_def list_all_iff user_list_uuids_def K_def)
  define rows where "rows = delete_rows (\<lambda>t. token_key t \<in> set gone) (refresh_tokens db @ new)"
  have image_keys: "token_key ` set rows = xk ` {t \<in> set ts. at_user_uuid t \<in> K}"
    using arg_cong [OF image_new, of "(`) fst"] by (simp add: rows_def image_image)
  have "distinct (map (\<lambda>t. (at_client_id t, at_user_uuid t, at_tenant_uuid t)) ts)"
    using k by (auto simp: keyed_def distinct_map inj_on_def)
  moreover have "(xk x, at_user_uuid x, at_tenant_uuid x) \<in> (\<lambda>r. (token_key r, rt_user_uuid r, cached_tenant db (rt_user_uuid r))) ` set rs
      \<longleftrightarrow> (at_client_id x, at_user_uuid x, at_tenant_uuid x) \<in> (\<lambda>r. (rt_client_id r, rt_user_uuid r, cached_tenant db (rt_user_uuid r))) ` set rs" for x rs
    by (auto simp: xk_def token_key_def image_iff)
  moreover have "(token_key r, rt_user_uuid r, cached_tenant db (rt_user_uuid r)) \<in> (\<lambda>x. (xk x, at_user_uuid x, at_tenant_uuid x)) ` set ts
      \<longleftrightarrow> (rt_client_id r, rt_user_uuid r, cached_tenant db (rt_user_uuid r)) \<in> (\<lambda>x. (at_client_id x, at_user_uuid x, at_tenant_uuid x)) ` set ts" for r
    by (auto simp: xk_def token_key_def image_iff)
  ultimately have "add_and_remove_refresh_tokens ts db =
      map_sum id (refresh_token_delete_by_keys gone) (refresh_token_create_all new db)"
    by (simp add: add_and_remove_refresh_tokens_def Let_def distinct_remdups_id filter_map comp_def new_def gone_def
        mk_def user_list_uuids_def K_def token_key_def [abs_def])
  then have "add_and_remove_refresh_tokens ts db = Inr (db\<lparr>refresh_tokens := rows\<rparr>)"
    using keyed_new new_users
    by (simp add: refresh_token_create_all_def bulk_insert_Inr refresh_token_delete_by_keys_eq rows_def)
  moreover have "db_ok (db\<lparr>refresh_tokens := rows\<rparr>)"
    using ok keyed_new new_users
    by (auto simp: rows_def db_ok_def integrity_defs refs_def list_all_iff user_list_uuids_def)
  ultimately show thesis using that image_keys by (simp add: xk_def K)
qed

lemma update_sessions_ok:
  assumes ok: "db_ok db" and k: "keyed as_uuid ss"
    and image: "(\<lambda>s. (se_uuid s, se_user_uuid s)) ` set (sessions db) = (\<lambda>s. (as_uuid s, as_user_uuid s)) ` S"
    and sub: "S \<subseteq> set ss"
  obtains rows where "update_sessions ss db = Inr (db\<lparr>sessions := rows\<rparr>)" "db_ok (db\<lparr>sessions := rows\<rparr>)"
    "(\<lambda>s. (se_uuid s, se_user_uuid s, se_mobile s)) ` set rows = (\<lambda>s. (as_uuid s, as_user_uuid s, as_mobile s)) ` S"
proof -
  define D where "D = map (\<lambda>s. (as_uuid s, s)) ss"
  have dD: "distinct (map fst D)" using k by (simp add: D_def comp_def keyed_def)
  have "dict_of (\<lambda>s. Some (as_uuid s, s)) ss = D"
    using dict_of_distinct [of "\<lambda>s. Some (as_uuid s, s)" ss] dD by (simp add: D_def List.map_filter_def comp_def)
  moreover define rows where "rows = map (\<lambda>r. case dict_get D (se_uuid r) of None \<Rightarrow> r
      | Some x \<Rightarrow> r\<lparr>se_mobile := as_mobile x\<rparr>) (sessions db)"
  have "keyed se_uuid (sessions db)" using ok by (simp add: db_ok_def integrity_defs)
  note sync_column [where rk = se_uuid and put = "\<lambda>m s. s\<lparr>se_mobile := m\<rparr>" and col = se_mobile
      and want = "\<lambda>r. dict_get D (se_uuid r)" and xcol = as_mobile, OF this]
  ultimately have run: "update_sessions ss db = Inr (db\<lparr>sessions := rows\<rparr>)"
    by (simp add: update_sessions_def Let_def session_update_all_def rows_def)
  have get: "dict_get D (as_uuid x) = Some x" if "x \<in> S" for x
    using dD that sub by (auto simp: D_def)
  have keys: "map se_uuid rows = map se_uuid (sessions db)" "map se_user_uuid rows = map se_user_uuid (sessions db)"
    by (auto simp: rows_def split: option.split)
  have "db_ok (db\<lparr>sessions := rows\<rparr>)"
    using ok keys(1) arg_cong [OF keys(2), of set] by (simp add: db_ok_def integrity_defs keyed_def refs_image)
  moreover have "(\<lambda>s. ((se_uuid s, se_user_uuid s), se_mobile s)) ` set rows =
      (\<lambda>s. ((as_uuid s, as_user_uuid s), as_mobile s)) ` S"
    unfolding rows_def using get by (intro sync_column_image [OF image]) auto
  from arg_cong [OF this, of "(`) (\<lambda>((a, b), c). (a, b, c))"]
  have "(\<lambda>s. (se_uuid s, se_user_uuid s, se_mobile s)) ` set rows =
      (\<lambda>s. (as_uuid s, as_user_uuid s, as_mobile s)) ` S"
    by (simp add: image_image)
  ultimately show thesis using that run by blast
qed

lemma update_refresh_tokens_ok:
  assumes ok: "db_ok db" and k: "keyed (\<lambda>t. (at_client_id t, at_user_uuid t)) ts"
    and image: "token_key ` set (refresh_tokens db) = (\<lambda>t. (at_client_id t, at_user_uuid t)) ` S"
    and sub: "S \<subseteq> set ts"
  obtains rows where "update_refresh_tokens ts db = Inr (db\<lparr>refresh_tokens := rows\<rparr>)"
    "db_ok (db\<lparr>refresh_tokens := rows\<rparr>)"
    "(\<lambda>t. (rt_client_id t, rt_user_uuid t, rt_mobile t)) ` set rows =
       (\<lambda>t. (at_client_id t, at_user_uuid t, at_mobile t)) ` S"
proof -
  define D where "D = map (\<lambda>t. ((at_user_uuid t, at_client_id t), t)) ts"
  have dD: "distinct (map fst D)"
    using k by (auto simp: D_def keyed_def distinct_map inj_on_def)
  have "dict_of (\<lambda>t. Some ((at_user_uuid t, at_client_id t), t)) ts = D"
    using dict_of_distinct [of "\<lambda>t. Some ((at_user_uuid t, at_client_id t), t)" ts] dD
    by (simp add: D_def List.map_filter_def comp_def)
  moreover define rows where "rows = map (\<lambda>r. case dict_get D (rt_user_uuid r, rt_client_id r) of None \<Rightarrow> r
      | Some x \<Rightarrow> r\<lparr>rt_mobile := at_mobile x\<rparr>) (refresh_tokens db)"
  have "keyed token_key (refresh_tokens db)" using ok by (simp add: db_ok_def integrity_defs)
  note col = sync_column [where rk = token_key and put = "\<lambda>m t. t\<lparr>rt_mobile := m\<rparr>" and col = rt_mobile
      and want = "\<lambda>r. dict_get D (rt_user_uuid r, rt_client_id r)" and xcol = at_mobile, OF this]
  ultimately have "update_refresh_tokens ts db = Inr (refresh_token_update_all (concat (map (\<lambda>c.
      case dict_get D (rt_user_uuid c, rt_client_id c) of None \<Rightarrow> []
      | Some x \<Rightarrow> if at_mobile x \<noteq> rt_mobile c then [(token_key c, at_mobile x)] else []) (refresh_tokens db))) db)"
    unfolding update_refresh_tokens_def Let_def token_key_def by simp
  moreover have "token_key (r\<lparr>rt_mobile := m\<rparr>) = token_key r" for r m by (simp add: token_key_def)
  ultimately have run: "update_refresh_tokens ts db = Inr (db\<lparr>refresh_tokens := rows\<rparr>)"
    using col by (simp add: refresh_token_update_all_def rows_def)
  have get: "dict_get D (at_user_uuid x, at_client_id x) = Some x" if "x \<in> S" for x
    using dD that sub by (auto simp: D_def)
  have keys: "map token_key rows = map token_key (refresh_tokens db)"
    "map rt_user_uuid rows = map rt_user_uuid (refresh_tokens db)"
    by (auto simp: rows_def token_key_def split: option.split)
  have "db_ok (db\<lparr>refresh_tokens := rows\<rparr>)"
    using ok keys(1) arg_cong [OF keys(2), of set] by (simp add: db_ok_def integrity_defs keyed_def refs_image)
  moreover have "(\<lambda>t. (token_key t, rt_mobile t)) ` set rows =
      (\<lambda>t. ((at_client_id t, at_user_uuid t), at_mobile t)) ` S"
    unfolding rows_def using get by (intro sync_column_image [OF image]) (auto simp: token_key_def)
  from arg_cong [OF this, of "(`) (\<lambda>((a, b), c). (a, b, c))"]
  have "(\<lambda>t. (rt_client_id t, rt_user_uuid t, rt_mobile t)) ` set rows =
      (\<lambda>t. (at_client_id t, at_user_uuid t, at_mobile t)) ` S"
    by (simp add: image_image token_key_def)
  ultimately show thesis using that run by blast
qed

section \<open>Channels\<close>

lemma dict_of_mem:
  assumes functional: "\<And>x y k v w. x \<in> set xs \<Longrightarrow> y \<in> set xs \<Longrightarrow> item x = Some (k, v) \<Longrightarrow> item y = Some (k, w) \<Longrightarrow> v = w"
  shows "(k, v) \<in> set (dict_of item xs) \<longleftrightarrow> (\<exists>x \<in> set xs. item x = Some (k, v))"
proof
  assume "\<exists>x \<in> set xs. item x = Some (k, v)"
  then obtain x where x: "x \<in> set xs" "item x = Some (k, v)" by blast
  have "k \<in> fst ` set (fold (\<lambda>x d. case item x of None \<Rightarrow> d | Some (k, v) \<Rightarrow> dict_set k v d) ys d)"
    if "k \<in> fst ` set d \<or> x \<in> set ys" for ys d
    using that x(2)
  proof (induction ys arbitrary: d)
    case (Cons y ys)
    have "k \<in> fst ` set (case item y of None \<Rightarrow> d | Some (k, v) \<Rightarrow> dict_set k v d) \<or> x \<in> set ys"
    proof (cases "item y")
      case (Some kv)
      then show ?thesis
        using Cons.prems by (cases kv) (auto simp: dom_update)
    qed (use Cons.prems in auto)
    with Cons show ?case by simp
  qed simp
  from this [of "[]" xs] x(1) obtain w where w: "(k, w) \<in> set (dict_of item xs)"
    by (auto simp: dict_of_def)
  with dict_of_item [OF w] functional x have "w = v" by blast
  with w show "(k, v) \<in> set (dict_of item xs)" by simp
qed (auto dest: dict_of_item)

lemma device_endpoints_set:
  assumes "keyed dv_device (filter device_listed events)"
  shows "(\<lambda>e. (ep_name e, ep_state e)) ` set (map snd (dict_of device_endpoint events)) =
    (\<lambda>e. (dv_device e, device_state (dv_state e))) ` {e \<in> set events. device_listed e}"
proof -
  have item: "device_endpoint e = Some (k, v) \<longleftrightarrow> device_listed e \<and> k = dv_device e \<and>
      v = \<lparr>ep_name = dv_device e, ep_state = device_state (dv_state e)\<rparr>" for e k v
    by (auto simp: device_endpoint_def device_listed_def)
  have mem: "(k, v) \<in> set (dict_of device_endpoint events) \<longleftrightarrow> (\<exists>e \<in> set events. device_endpoint e = Some (k, v))" for k v
    using keyed_inj [OF assms] by (intro dict_of_mem) (auto simp: item)
  show ?thesis
  proof (intro subset_antisym subsetI)
    fix p assume "p \<in> (\<lambda>e. (ep_name e, ep_state e)) ` set (map snd (dict_of device_endpoint events))"
    then obtain k v where "(k, v) \<in> set (dict_of device_endpoint events)" "p = (ep_name v, ep_state v)" by auto
    then show "p \<in> (\<lambda>e. (dv_device e, device_state (dv_state e))) ` {e \<in> set events. device_listed e}"
      unfolding mem item by auto
  next
    fix p assume "p \<in> (\<lambda>e. (dv_device e, device_state (dv_state e))) ` {e \<in> set events. device_listed e}"
    then obtain e where e: "e \<in> set events" "device_listed e" "p = (dv_device e, device_state (dv_state e))" by auto
    then have "(dv_device e, \<lparr>ep_name = dv_device e, ep_state = device_state (dv_state e)\<rparr>) \<in> set (dict_of device_endpoint events)"
      unfolding mem item by auto
    with e(3) show "p \<in> (\<lambda>e. (ep_name e, ep_state e)) ` set (map snd (dict_of device_endpoint events))"
      by (force simp: image_image)
  qed
qed

lemma line_id_by_endpoint_item:
  assumes "dict_get (line_id_by_endpoint db) n = Some i"
  shows "n \<noteq> [] \<and> (\<exists>l \<in> set (lines db). ln_id l = i \<and> ln_endpoint_name l = Some n)"
  using dict_of_item [OF map_of_SomeD [OF assms [unfolded line_id_by_endpoint_def]]]
  by (auto split: option.splits if_splits)

definition channel_row :: "channel_event \<Rightarrow> int \<Rightarrow> Channel" where
  "channel_row e i = \<lparr>ch_name = ce_channel e, ch_state = (if ce_on_hold e = Some ''1'' then Holding
     else channel_state_of (ce_state_desc e)), ch_line_id = i\<rparr>"

lemma event_channel_item:
  "event_channel ids e = Some (k, c) \<longleftrightarrow> channel_listed e \<and> k = ce_channel e \<and>
     (\<exists>n i. extract_endpoint_from_channel (ce_channel e) = Some n \<and> dict_get ids n = Some i \<and> c = channel_row e i)"
proof (cases "extract_endpoint_from_channel (ce_channel e)")
  case (Some n)
  then show ?thesis
    by (cases "dict_get ids n") (auto simp: event_channel_def channel_listed_def channel_row_def)
qed (auto simp: event_channel_def)

lemma initiate_channels_ok:
  fixes events :: "channel_event list"
  assumes "db_ok db"
  defines "db' \<equiv> db\<lparr>channels := map snd (dict_of (event_channel (line_id_by_endpoint db)) events)\<rparr>"
  shows "initiate_channels events db = Inr db'" and "db_ok db'"
proof -
  let ?d = "dict_of (event_channel (line_id_by_endpoint db)) events"
  have item: "ch_name c = k \<and> (\<exists>l \<in> set (lines db). ln_id l = ch_line_id c)" if kc: "(k, c) \<in> set ?d" for k c
  proof -
    obtain e n i where "k = ce_channel e" "dict_get (line_id_by_endpoint db) n = Some i" "c = channel_row e i"
      using dict_of_item [OF kc] unfolding event_channel_item by blast
    with line_id_by_endpoint_item [of db n i] show ?thesis by (auto simp: channel_row_def)
  qed
  have "map (ch_name \<circ> snd) ?d = map fst ?d"
    by (rule map_cong [OF refl]) (use item in auto)
  then have k: "keyed ch_name (map snd ?d)"
    using dict_of_wf [of "event_channel (line_id_by_endpoint db)" events]
    by (simp only: keyed_def dict_wf_def map_map)
  have l: "line_id_by_endpoint (channel_delete_all db) = line_id_by_endpoint db"
    by (simp add: line_id_by_endpoint_def channel_delete_all_def)
  have fk: "list_all (\<lambda>c. ch_line_id c \<in> ln_id ` set (lines db)) (map snd ?d)"
  proof -
    have "ch_line_id c \<in> ln_id ` set (lines db)" if "(k, c) \<in> set ?d" for k c
      using item [OF that] by (metis imageI)
    then show ?thesis by (auto simp: list_all_iff)
  qed
  show "initiate_channels events db = Inr db'"
    using k fk by (simp add: initiate_channels_def Let_def l db'_def channel_create_all_def bulk_insert_Inr)
      (simp add: channel_delete_all_def bulk_insert_Inr)
  show "db_ok db'"
    using assms(1) k fk by (simp add: db'_def db_ok_def integrity_defs refs_def list_all_iff)
qed

lemma event_channels_set:
  assumes keys: "keyed ce_channel (filter channel_listed events)" and names: "keyed snd le"
    and nonempty: "\<And>i n. (i, n) \<in> set le \<Longrightarrow> n \<noteq> []"
    and lines: "\<And>i n. (i, n) \<in> set le \<longleftrightarrow> (\<exists>l \<in> set (lines db). ln_id l = i \<and> ln_endpoint_name l = Some n)"
  shows "(\<lambda>c. (ch_name c, ch_state c, ch_line_id c)) ` set (map snd (dict_of (event_channel (line_id_by_endpoint db)) events)) =
    (\<lambda>(e, i, n). (ce_channel e, if ce_on_hold e = Some ''1'' then Holding else channel_state_of (ce_state_desc e), i)) `
      {(e, i, n) \<in> set events \<times> set le. channel_listed e \<and> extract_endpoint_from_channel (ce_channel e) = Some n}"
    (is "?L = ?R")
proof -
  have get: "dict_get (line_id_by_endpoint db) n = Some i \<longleftrightarrow> (i, n) \<in> set le" for i n
  proof -
    have item: "(case ln_endpoint_name l of None \<Rightarrow> None | Some n \<Rightarrow> if n = [] then None else Some (n, ln_id l)) = Some (k, v)
        \<longleftrightarrow> ln_endpoint_name l = Some k \<and> k \<noteq> [] \<and> v = ln_id l" for l k v
      by (auto split: option.splits)
    have "dict_get (line_id_by_endpoint db) n = Some i \<longleftrightarrow> (n, i) \<in> set (line_id_by_endpoint db)"
      by (rule dict_items_iff [symmetric]) (simp add: line_id_by_endpoint_def dict_of_wf)
    also have "\<dots> \<longleftrightarrow> (\<exists>l \<in> set (lines db). ln_endpoint_name l = Some n \<and> n \<noteq> [] \<and> i = ln_id l)"
      unfolding line_id_by_endpoint_def
    proof (subst dict_of_mem, goal_cases)
      case (1 x y k v w)
      then have "(v, k) \<in> set le" "(w, k) \<in> set le" unfolding item lines by auto
      with keyed_inj [OF names] show ?case by fastforce
    qed (simp add: item)
    also have "\<dots> \<longleftrightarrow> (i, n) \<in> set le"
      using lines [of i n] nonempty [of i n] by (cases "(i, n) \<in> set le") auto
    finally show ?thesis .
  qed
  have item: "event_channel (line_id_by_endpoint db) e = Some (k, c) \<longleftrightarrow> channel_listed e \<and> k = ce_channel e \<and>
      (\<exists>i n. (i, n) \<in> set le \<and> extract_endpoint_from_channel (ce_channel e) = Some n \<and> c = channel_row e i)" for e k c
    unfolding event_channel_item get by blast
  have mem: "(k, c) \<in> set (dict_of (event_channel (line_id_by_endpoint db)) events) \<longleftrightarrow>
      (\<exists>e \<in> set events. event_channel (line_id_by_endpoint db) e = Some (k, c))" for k c
  proof (rule dict_of_mem)
    fix x y k v w
    assume xy: "x \<in> set events" "y \<in> set events" "event_channel (line_id_by_endpoint db) x = Some (k, v)"
      "event_channel (line_id_by_endpoint db) y = Some (k, w)"
    then have "channel_listed x" "channel_listed y" "ce_channel x = ce_channel y" by (simp_all add: item)
    with xy(1,2) have "x = y" using keyed_inj [OF keys] by simp
    with xy show "v = w" by simp
  qed
  show ?thesis
  proof (intro subset_antisym subsetI)
    fix p assume "p \<in> ?L"
    then obtain k c where "(k, c) \<in> set (dict_of (event_channel (line_id_by_endpoint db)) events)"
      "p = (ch_name c, ch_state c, ch_line_id c)" by auto
    then obtain e i n where "e \<in> set events" "channel_listed e" "(i, n) \<in> set le"
      "extract_endpoint_from_channel (ce_channel e) = Some n" "p = (ch_name (channel_row e i), ch_state (channel_row e i), ch_line_id (channel_row e i))"
      unfolding mem item by blast
    then show "p \<in> ?R" by (intro image_eqI [of _ _ "(e, i, n)"]) (auto simp: channel_row_def)
  next
    fix p assume "p \<in> ?R"
    then obtain e i n where e: "e \<in> set events" "(i, n) \<in> set le" "channel_listed e"
      "extract_endpoint_from_channel (ce_channel e) = Some n"
      "p = (ce_channel e, if ce_on_hold e = Some ''1'' then Holding else channel_state_of (ce_state_desc e), i)"
      by auto
    then have "(ce_channel e, channel_row e i) \<in> set (dict_of (event_channel (line_id_by_endpoint db)) events)"
      unfolding mem item by blast
    from imageI [OF this, of snd]
    have "channel_row e i \<in> set (map snd (dict_of (event_channel (line_id_by_endpoint db)) events))" by simp
    moreover have "p = (ch_name (channel_row e i), ch_state (channel_row e i), ch_line_id (channel_row e i))"
      using e(5) by (simp add: channel_row_def)
    ultimately show "p \<in> ?L" by (rule image_eqI [rotated])
  qed
qed

section \<open>The whole initialisation\<close>

lemma run_scopes_Inr: "body db = Inr db' \<Longrightarrow> run_scopes (body # bodies) db = run_scopes bodies db'"
  by (simp add: sync_scope_def)

lemma line_endpoints_mem:
  "(i, n) \<in> set (line_endpoints us) \<longleftrightarrow>
     (\<exists>(u, l) \<in> set (line_pairs us). i = cl_id l \<and> extract_endpoint_from_line_presence_view l = Some n)"
  unfolding line_endpoints_eq by (auto simp: List.map_filter_def image_iff) force+

lemma extract_endpoint_nonempty: "extract_endpoint_from_line_presence_view l = Some n \<Longrightarrow> n \<noteq> []"
  by (auto simp: extract_endpoint_from_line_presence_view_def endpoint_name_for_protocol_def
      split: option.splits if_splits)

lemma initiate_users_ok:
  fixes order :: "line_key list \<Rightarrow> line_key list"
  assumes ok: "db_ok db" and order: "\<And>xs. set (order xs) = set xs"
    and keys: "keyed cu_uuid us" "keyed (cl_id \<circ> snd) (line_pairs us)"
    and none: "\<And>l. l \<in> set (lines db) \<Longrightarrow> ln_endpoint_name l = None"
    and move: "\<And>u r. u \<in> set (users db) \<Longrightarrow> r \<in> set us \<Longrightarrow> cu_uuid r = us_uuid u \<Longrightarrow>
      cu_tenant_uuid r = us_tenant_uuid u"
  obtains db' where "\<forall>rest. run_scopes (initiate_users order us @ rest) db = run_scopes rest db'" "db_ok db'"
    "tn_uuid ` set (tenants db') = tn_uuid ` set (tenants db) \<union> cu_tenant_uuid ` set us"
    "(\<lambda>u. (us_uuid u, us_tenant_uuid u, us_do_not_disturb u)) ` set (users db') =
       (\<lambda>u. (cu_uuid u, cu_tenant_uuid u, cu_dnd u)) ` set us"
    "\<forall>u \<in> set (users db). \<forall>r \<in> set us. cu_uuid r = us_uuid u \<longrightarrow>
       u\<lparr>us_do_not_disturb := cu_dnd r\<rparr> \<in> set (users db')"
    "(\<lambda>l. (ln_id l, ln_user_uuid l, ln_endpoint_name l)) ` set (lines db') =
       (\<lambda>(u, l). (cl_id l, cu_uuid u, extract_endpoint_from_line_presence_view l)) ` set (line_pairs us)"
    "set (endpoints db') = set (endpoints db) \<union> new_endpoint ` (snd ` set (line_endpoints us) - ep_name ` set (endpoints db))"
    "set (sessions db') \<subseteq> set (sessions db)"
proof -
  obtain db1 where 1: "add_and_remove_users us db = Inr db1" "db_ok db1"
    "tn_uuid ` set (tenants db1) = tn_uuid ` set (tenants db) \<union> cu_tenant_uuid ` set us"
    "(\<lambda>u. (us_uuid u, us_tenant_uuid u)) ` set (users db1) = set (user_pairs us)"
    "{u \<in> set (users db). (us_uuid u, us_tenant_uuid u) \<in> set (user_pairs us)} \<subseteq> set (users db1)"
    "set (sessions db1) \<subseteq> set (sessions db)" "set (refresh_tokens db1) \<subseteq> set (refresh_tokens db)"
    "set (lines db1) \<subseteq> set (lines db)" "endpoints db1 = endpoints db"
    by (rule add_and_remove_users_ok [OF ok keys(1) move])
  obtain ls cs where 2: "add_and_remove_lines order us db1 = Inr (db1\<lparr>lines := ls, channels := cs\<rparr>)"
    "db_ok (db1\<lparr>lines := ls, channels := cs\<rparr>)"
    "set ls \<subseteq> set (lines db1) \<union> {l. ln_endpoint_name l = None}"
    "(\<lambda>l. (ln_id l, ln_user_uuid l)) ` set ls = (\<lambda>(u, l). (cl_id l, cu_uuid u)) ` set (line_pairs us)"
    by (rule add_and_remove_lines_ok [OF 1(2) keys(2) order 1(4)])
  define db2 where "db2 = db1\<lparr>lines := ls, channels := cs\<rparr>"
  define names where "names = filter (\<lambda>n. n \<notin> set (endpoint_list_names db2)) (remdups (map snd (line_endpoints us)))"
  define db3 where "db3 = db2\<lparr>endpoints := endpoints db2 @ map new_endpoint names\<rparr>"
  have 3: "add_missing_endpoints us db2 = Inr db3" "db_ok db3"
    using add_missing_endpoints_ok [OF 2(2), of us] by (simp_all add: db2_def db3_def names_def)
  define db4 where "db4 = db3\<lparr>lines := map (\<lambda>l. l\<lparr>ln_endpoint_name := dict_get (line_endpoints us) (ln_id l)\<rparr>) (lines db3)\<rparr>"
  have none3: "ln_endpoint_name l = None" if "l \<in> set (lines db3)" for l
    using that none 2(3) 1(8) by (auto simp: db3_def db2_def)
  have names3: "snd ` set (line_endpoints us) \<subseteq> ep_name ` set (endpoints db3)"
  proof -
    have "ep_name ` set (endpoints db3) = ep_name ` set (endpoints db2) \<union> set names"
      by (simp add: db3_def image_Un image_image new_endpoint_def)
    then show ?thesis by (auto simp: names_def endpoint_list_names_def)
  qed
  have 4: "associate_line_endpoint us db3 = Inr db4" "db_ok db4"
    using associate_line_endpoint_ok [OF 3(2) keys(2) none3 names3] by (simp_all add: db4_def)
  have users4: "users db4 = users db1" by (simp add: db4_def db3_def db2_def)
  define dnd where "dnd = (\<lambda>u. the (dict_get (map (\<lambda>r. (cu_uuid r, cu_dnd r)) us) u))"
  have dnd: "dnd (cu_uuid r) = cu_dnd r" if "r \<in> set us" for r
  proof -
    have "dict_get (map (\<lambda>r. (cu_uuid r, cu_dnd r)) us) (cu_uuid r) = Some (cu_dnd r)"
      using that keys(1) by (intro map_of_is_SomeI) (auto simp: keyed_def comp_def)
    then show ?thesis by (simp add: dnd_def)
  qed
  obtain rows where 5: "update_services_users us db4 = Inr (db4\<lparr>users := rows\<rparr>)" "db_ok (db4\<lparr>users := rows\<rparr>)"
    and rows: "rows = map (\<lambda>u. u\<lparr>us_do_not_disturb := dnd (us_uuid u)\<rparr>) (users db1)"
    by (rule update_services_users_ok [OF 4(2) keys(1)]) (use 1(4) users4 in \<open>simp_all add: dnd_def\<close>)
  show thesis
  proof (rule that [of "db4\<lparr>users := rows\<rparr>"])
    show "\<forall>rest. run_scopes (initiate_users order us @ rest) db = run_scopes rest (db4\<lparr>users := rows\<rparr>)"
      using 1(1) 2(1) 3(1) 4(1) 5(1)
      by (simp add: initiate_users_def run_scopes_Inr db2_def [symmetric] del: run_scopes.simps)
    show "db_ok (db4\<lparr>users := rows\<rparr>)" by (rule 5(2))
    show "tn_uuid ` set (tenants (db4\<lparr>users := rows\<rparr>)) = tn_uuid ` set (tenants db) \<union> cu_tenant_uuid ` set us"
      using 1(3) by (simp add: db4_def db3_def db2_def)
    have "(\<lambda>u. (us_uuid u, us_tenant_uuid u, us_do_not_disturb u)) ` set rows =
        (\<lambda>(u, t). (u, t, dnd u)) ` (\<lambda>u. (us_uuid u, us_tenant_uuid u)) ` set (users db1)"
      by (simp add: rows image_image)
    also have "\<dots> = (\<lambda>u. (cu_uuid u, cu_tenant_uuid u, cu_dnd u)) ` set us"
      unfolding 1(4) user_pairs_def set_map image_image using dnd by (intro image_cong) auto
    finally show "(\<lambda>u. (us_uuid u, us_tenant_uuid u, us_do_not_disturb u)) ` set (users (db4\<lparr>users := rows\<rparr>)) =
       (\<lambda>u. (cu_uuid u, cu_tenant_uuid u, cu_dnd u)) ` set us" by simp
    show "\<forall>u \<in> set (users db). \<forall>r \<in> set us. cu_uuid r = us_uuid u \<longrightarrow>
        u\<lparr>us_do_not_disturb := cu_dnd r\<rparr> \<in> set (users (db4\<lparr>users := rows\<rparr>))"
    proof (intro ballI impI)
      fix u r assume u: "u \<in> set (users db)" "r \<in> set us" "cu_uuid r = us_uuid u"
      then have "(us_uuid u, us_tenant_uuid u) = (cu_uuid r, cu_tenant_uuid r)" using move by simp
      with u(2) have "(us_uuid u, us_tenant_uuid u) \<in> set (user_pairs us)" by (simp add: user_pairs_def)
      with u(1) 1(5) have "u \<in> set (users db1)" by blast
      then have "u\<lparr>us_do_not_disturb := dnd (us_uuid u)\<rparr> \<in> set rows" by (simp add: rows)
      with dnd [OF u(2)] u(3) show "u\<lparr>us_do_not_disturb := cu_dnd r\<rparr> \<in> set (users (db4\<lparr>users := rows\<rparr>))"
        by simp
    qed
    have "(\<lambda>l. (ln_id l, ln_user_uuid l, ln_endpoint_name l)) ` set (lines db4) =
        (\<lambda>(i, u). (i, u, dict_get (line_endpoints us) i)) ` (\<lambda>l. (ln_id l, ln_user_uuid l)) ` set ls"
      by (simp add: db4_def db3_def db2_def image_image)
    also have "\<dots> = (\<lambda>(u, l). (cl_id l, cu_uuid u, extract_endpoint_from_line_presence_view l)) ` set (line_pairs us)"
      unfolding 2(4) image_image using line_endpoints_keys(2) [OF keys(2)] by (intro image_cong) auto
    finally show "(\<lambda>l. (ln_id l, ln_user_uuid l, ln_endpoint_name l)) ` set (lines (db4\<lparr>users := rows\<rparr>)) =
       (\<lambda>(u, l). (cl_id l, cu_uuid u, extract_endpoint_from_line_presence_view l)) ` set (line_pairs us)" by simp
    have "set names = snd ` set (line_endpoints us) - ep_name ` set (endpoints db)"
      by (auto simp: names_def endpoint_list_names_def db2_def 1(9))
    then show "set (endpoints (db4\<lparr>users := rows\<rparr>)) =
        set (endpoints db) \<union> new_endpoint ` (snd ` set (line_endpoints us) - ep_name ` set (endpoints db))"
      by (simp add: db4_def db3_def db2_def 1(9))
    show "set (sessions (db4\<lparr>users := rows\<rparr>)) \<subseteq> set (sessions db)"
      using 1(6) by (simp add: db4_def db3_def db2_def)
  qed
qed

lemma initiate_refines:
  fixes order :: "line_key list \<Rightarrow> line_key list"
  assumes ok: "db_ok db" and c: "snapshot_consistent sn" and move: "no_move sn db"
    and order: "\<And>xs. set (order xs) = set xs"
  obtains db' where "run_scopes (initiate_scopes order sn) db = (Inr (), db')" "db_ok db'"
    "presence_of db' = presence_spec sn"
    "\<forall>u \<in> set (users db). \<forall>r \<in> set (sn_users sn). us_tenant_uuid u \<in> set (sn_tenants sn) \<and>
       cu_uuid r = us_uuid u \<longrightarrow> u\<lparr>us_do_not_disturb := cu_dnd r\<rparr> \<in> set (users db')"
proof -
  define us where "us = sn_users sn"
  define ss where "ss = sn_sessions sn"
  define ts where "ts = sn_tokens sn"
  have k: "keyed cu_uuid us" "keyed (cl_id \<circ> snd) (line_pairs us)" "keyed snd (line_endpoints us)"
    "keyed as_uuid ss" "keyed (\<lambda>t. (at_client_id t, at_user_uuid t)) ts"
    "keyed dv_device (filter device_listed (sn_devices sn))" "keyed ce_channel (filter channel_listed (sn_channels sn))"
    and s_ten: "\<And>s u. s \<in> set ss \<Longrightarrow> u \<in> set us \<Longrightarrow> as_user_uuid s = cu_uuid u \<Longrightarrow> as_tenant_uuid s = cu_tenant_uuid u"
    and t_ten: "\<And>s u. s \<in> set ts \<Longrightarrow> u \<in> set us \<Longrightarrow> at_user_uuid s = cu_uuid u \<Longrightarrow> at_tenant_uuid s = cu_tenant_uuid u"
    using c by (simp_all add: snapshot_consistent_def us_def ss_def ts_def)
  define db1 where "db1 = db\<lparr>endpoints := map snd (dict_of device_endpoint (sn_devices sn)),
    lines := map (\<lambda>l. l\<lparr>ln_endpoint_name := None\<rparr>) (lines db)\<rparr>"
  have 1: "initiate_endpoints (sn_devices sn) db = Inr db1" "db_ok db1"
    using initiate_endpoints_ok [OF ok, of "sn_devices sn"] by (simp_all add: db1_def)
  obtain db2 where 2: "initiate_tenants (sn_tenants sn) db1 = Inr db2" "db_ok db2" "pruned db1 db2"
    "tn_uuid ` set (tenants db2) = set (sn_tenants sn)"
    "users db2 = filter (\<lambda>u. us_tenant_uuid u \<in> set (sn_tenants sn)) (users db1)"
    by (rule initiate_tenants_ok [OF 1(2)])
  have none2: "ln_endpoint_name l = None" if "l \<in> set (lines db2)" for l
    using that 2(3) by (auto simp: pruned_def db1_def)
  have move2: "cu_tenant_uuid r = us_tenant_uuid u" if "u \<in> set (users db2)" "r \<in> set us" "cu_uuid r = us_uuid u" for u r
    using that move by (auto simp: 2(5) db1_def no_move_def us_def)
  obtain db3 where 3: "\<forall>rest. run_scopes (initiate_users order us @ rest) db2 = run_scopes rest db3" "db_ok db3"
    "tn_uuid ` set (tenants db3) = tn_uuid ` set (tenants db2) \<union> cu_tenant_uuid ` set us"
    "(\<lambda>u. (us_uuid u, us_tenant_uuid u, us_do_not_disturb u)) ` set (users db3) =
       (\<lambda>u. (cu_uuid u, cu_tenant_uuid u, cu_dnd u)) ` set us"
    "\<forall>u \<in> set (users db2). \<forall>r \<in> set us. cu_uuid r = us_uuid u \<longrightarrow>
       u\<lparr>us_do_not_disturb := cu_dnd r\<rparr> \<in> set (users db3)"
    "(\<lambda>l. (ln_id l, ln_user_uuid l, ln_endpoint_name l)) ` set (lines db3) =
       (\<lambda>(u, l). (cl_id l, cu_uuid u, extract_endpoint_from_line_presence_view l)) ` set (line_pairs us)"
    "set (endpoints db3) = set (endpoints db2) \<union> new_endpoint ` (snd ` set (line_endpoints us) - ep_name ` set (endpoints db2))"
    "set (sessions db3) \<subseteq> set (sessions db2)"
    by (rule initiate_users_ok [OF 2(2) order k(1,2) none2 move2])
  have pairs3: "(\<lambda>u. (us_uuid u, us_tenant_uuid u)) ` set (users db3) = set (user_pairs us)"
    using arg_cong [OF 3(4), of "(`) (\<lambda>(u, t, d). (u, t))"] by (simp add: user_pairs_def image_image)
  have move3: "as_user_uuid r = se_user_uuid s" if s: "s \<in> set (sessions db3)" and r: "r \<in> set ss" "as_uuid r = se_uuid s" for s r
  proof -
    have "s \<in> set (sessions db)" using s 3(8) 2(3) by (auto simp: pruned_def db1_def)
    with move r show ?thesis by (auto simp: no_move_def ss_def)
  qed
  obtain r4 where 4: "add_and_remove_sessions ss db3 = Inr (db3\<lparr>sessions := r4\<rparr>)" "db_ok (db3\<lparr>sessions := r4\<rparr>)"
    "(\<lambda>s. (se_uuid s, se_user_uuid s)) ` set r4 =
       (\<lambda>s. (as_uuid s, as_user_uuid s)) ` {s \<in> set ss. as_user_uuid s \<in> cu_uuid ` set us}"
    by (rule add_and_remove_sessions_ok [OF 3(2) k(4) pairs3 s_ten move3])
  define db4 where "db4 = db3\<lparr>sessions := r4\<rparr>"
  obtain r5 where 5: "update_sessions ss db4 = Inr (db4\<lparr>sessions := r5\<rparr>)" "db_ok (db4\<lparr>sessions := r5\<rparr>)"
    "(\<lambda>s. (se_uuid s, se_user_uuid s, se_mobile s)) ` set r5 =
       (\<lambda>s. (as_uuid s, as_user_uuid s, as_mobile s)) ` {s \<in> set ss. as_user_uuid s \<in> cu_uuid ` set us}"
    by (rule update_sessions_ok [of db4 ss "{s \<in> set ss. as_user_uuid s \<in> cu_uuid ` set us}"])
      (use 4 k(4) in \<open>auto simp: db4_def\<close>)
  define db5 where "db5 = db4\<lparr>sessions := r5\<rparr>"
  have pairs5: "(\<lambda>u. (us_uuid u, us_tenant_uuid u)) ` set (users db5) = set (user_pairs us)"
    using pairs3 by (simp add: db5_def db4_def)
  have ok5: "db_ok db5" using 5(2) by (simp add: db5_def)
  obtain r6 where 6: "add_and_remove_refresh_tokens ts db5 = Inr (db5\<lparr>refresh_tokens := r6\<rparr>)"
    "db_ok (db5\<lparr>refresh_tokens := r6\<rparr>)"
    "token_key ` set r6 = (\<lambda>t. (at_client_id t, at_user_uuid t)) ` {t \<in> set ts. at_user_uuid t \<in> cu_uuid ` set us}"
    by (rule add_and_remove_refresh_tokens_ok [OF ok5 k(5) pairs5 t_ten])
  define db6 where "db6 = db5\<lparr>refresh_tokens := r6\<rparr>"
  obtain r7 where 7: "update_refresh_tokens ts db6 = Inr (db6\<lparr>refresh_tokens := r7\<rparr>)"
    "db_ok (db6\<lparr>refresh_tokens := r7\<rparr>)"
    "(\<lambda>t. (rt_client_id t, rt_user_uuid t, rt_mobile t)) ` set r7 =
       (\<lambda>t. (at_client_id t, at_user_uuid t, at_mobile t)) ` {t \<in> set ts. at_user_uuid t \<in> cu_uuid ` set us}"
    by (rule update_refresh_tokens_ok [of db6 ts "{t \<in> set ts. at_user_uuid t \<in> cu_uuid ` set us}"])
      (use 6 k(5) in \<open>auto simp: db6_def\<close>)
  define db7 where "db7 = db6\<lparr>refresh_tokens := r7\<rparr>"
  have ok7: "db_ok db7" using 7(2) by (simp add: db7_def)
  note fields = db7_def db6_def db5_def db4_def
  define db8 where "db8 = db7\<lparr>channels := map snd (dict_of (event_channel (line_id_by_endpoint db7)) (sn_channels sn))\<rparr>"
  have 8: "initiate_channels (sn_channels sn) db7 = Inr db8" "db_ok db8"
    using initiate_channels_ok [OF ok7, of "sn_channels sn"] by (simp_all add: db8_def)
  have run: "run_scopes (initiate_scopes order sn) db = (Inr (), db8)"
    using 1(1) 2(1) 3(1) 4(1) 5(1) 6(1) 7(1) 8(1)
    by (simp add: initiate_scopes_def initiate_sessions_def initiate_refresh_tokens_def us_def [symmetric] ss_def [symmetric]
        ts_def [symmetric] db4_def [symmetric] db5_def [symmetric] db6_def [symmetric] db7_def [symmetric] run_scopes_Inr
        del: run_scopes.simps(2))
  have le: "(i, n) \<in> set (line_endpoints us) \<longleftrightarrow> (\<exists>l \<in> set (lines db7). ln_id l = i \<and> ln_endpoint_name l = Some n)" for i n
  proof -
    have "(\<exists>l \<in> set (lines db7). ln_id l = i \<and> ln_endpoint_name l = Some n) \<longleftrightarrow>
        (i, Some n) \<in> (\<lambda>(i, u, e). (i, e)) ` (\<lambda>l. (ln_id l, ln_user_uuid l, ln_endpoint_name l)) ` set (lines db3)"
      by (auto simp: fields image_iff)
    also have "\<dots> \<longleftrightarrow> (i, n) \<in> set (line_endpoints us)"
      unfolding 3(6) line_endpoints_mem image_image by (force simp: image_iff case_prod_beta)
    finally show ?thesis by blast
  qed
  have ch: "(\<lambda>c. (ch_name c, ch_state c, ch_line_id c)) ` set (channels db8) =
      (\<lambda>(e, i, n). (ce_channel e, if ce_on_hold e = Some ''1'' then Holding else channel_state_of (ce_state_desc e), i)) `
      {(e, i, n) \<in> set (sn_channels sn) \<times> set (line_endpoints us).
         channel_listed e \<and> extract_endpoint_from_channel (ce_channel e) = Some n}"
  proof -
    have "n \<noteq> []" if "(i, n) \<in> set (line_endpoints us)" for i n
      using that extract_endpoint_nonempty by (auto simp: line_endpoints_mem)
    from event_channels_set [OF k(7) k(3) this le] show ?thesis by (simp add: db8_def)
  qed
  have ep: "(\<lambda>e. (ep_name e, ep_state e)) ` set (endpoints db8) =
      (\<lambda>e. (dv_device e, device_state (dv_state e))) ` {e \<in> set (sn_devices sn). device_listed e} \<union>
      (\<lambda>n. (n, EndpointUnavailable)) ` (snd ` set (line_endpoints us) - dv_device ` {e \<in> set (sn_devices sn). device_listed e})"
  proof -
    have e2: "endpoints db2 = map snd (dict_of device_endpoint (sn_devices sn))"
      using 2(3) by (simp add: pruned_def db1_def)
    note dev = device_endpoints_set [OF k(6), folded e2]
    have "ep_name ` set (endpoints db2) = dv_device ` {e \<in> set (sn_devices sn). device_listed e}"
      using arg_cong [OF dev, of "(`) fst"] by (simp add: image_image)
    then show ?thesis
      using 3(7) dev by (simp add: db8_def fields image_Un image_image new_endpoint_def)
  qed
  show thesis
  proof (rule that [OF run 8(2)])
    show "presence_of db8 = presence_spec sn"
      using 2(4) 3(3,4,6) 5(3) 7(3) ch ep
      by (simp add: presence_of_def presence_spec_def Let_def us_def [symmetric] ss_def [symmetric] ts_def [symmetric])
        (simp add: db8_def fields)
    show "\<forall>u \<in> set (users db). \<forall>r \<in> set (sn_users sn). us_tenant_uuid u \<in> set (sn_tenants sn) \<and>
        cu_uuid r = us_uuid u \<longrightarrow> u\<lparr>us_do_not_disturb := cu_dnd r\<rparr> \<in> set (users db8)"
      using 3(5) by (simp add: 2(5) db1_def us_def db8_def fields)
  qed
qed

section \<open>Complete answers\<close>

text \<open>
  A service serves a list when every page is the next items of it, at least one while some are
  left, with the length of the list as the total.
\<close>

definition serves :: "'a request \<Rightarrow> 'a list \<Rightarrow> bool" where
  "serves callback xs \<longleftrightarrow> (\<forall>offset. \<exists>page. callback offset = Inr (page, length xs) \<and>
     (\<exists>rest. drop offset xs = page @ rest) \<and> (offset < length xs \<longrightarrow> page \<noteq> []))"

lemma serves_pages: "serves (\<lambda>offset. Inr (take (Suc n) (drop offset xs), length xs)) xs"
  unfolding serves_def by (metis append_take_drop_id drop_eq_Nil linorder_not_less take_eq_Nil2 nat.discI)

lemma paginate_loop_serves:
  assumes "serves callback xs" and "items @ rest = xs"
  shows "paginate_loop callback (length xs) items = Inr xs"
  using assms(2)
proof (induction "length rest" arbitrary: items rest rule: less_induct)
  case less
  show ?case
  proof (cases "rest = []")
    case True
    with less.prems show ?thesis by (simp add: paginate_loop.simps)
  next
    case False
    with less.prems have lt: "length items < length xs" by auto
    obtain page rest' where page: "callback (length items) = Inr (page, length xs)"
      "drop (length items) xs = page @ rest'" "page \<noteq> []"
      using assms(1) lt unfolding serves_def by blast
    then have "rest = page @ rest'" using less.prems by auto
    with page(3) less.hyps [of rest' "items @ page"] less.prems
    have "paginate_loop callback (length xs) (items @ page) = Inr xs" by simp
    with lt page(1,3) show ?thesis by (subst paginate_loop.simps) simp
  qed
qed

lemma paginate_proxy_serves:
  assumes "serves callback xs"
  shows "paginate_proxy callback = Inr (xs, length xs)"
proof -
  obtain page rest where "callback 0 = Inr (page, length xs)" "page @ rest = xs"
    using assms unfolding serves_def by (metis drop0)
  with paginate_loop_serves [OF assms] show ?thesis by (simp add: paginate_proxy_def)
qed

definition answers :: "remote \<Rightarrow> snapshot \<Rightarrow> bool" where
  "answers rq sn \<longleftrightarrow> (\<exists>token. rq_token rq = Inr token) \<and>
     serves (rq_tenants rq) (sn_tenants sn) \<and> serves (rq_users rq) (sn_users sn) \<and>
     serves (rq_sessions rq) (sn_sessions sn) \<and> serves (rq_tokens rq) (sn_tokens sn) \<and>
     rq_devices rq = Inr (sn_devices sn) \<and> rq_channels rq = Inr (sn_channels sn)"

definition all_fetched :: milestones where
  "all_fetched = fold (\<lambda>r. mark r FETCHED) [TENANT, USER, SESSION, REFRESH_TOKEN, DEVICE, CHANNEL] []"

lemma all_fetched_mem: "(r, FETCHED) \<in> set all_fetched"
  by (cases r) (simp_all add: all_fetched_def mark_def)

lemma fetch_all_answers:
  "answers rq sn \<Longrightarrow> fetch_all rq (i\<lparr>milestones := [], in_progress := True\<rparr>) =
     (Inr sn, i\<lparr>milestones := all_fetched, in_progress := True\<rparr>)"
  unfolding answers_def fetch_all_def
  by (auto simp: paginate_proxy_serves Let_def fetched_def all_fetched_def)

text \<open>
  C7: The initialisation refines its specification: with complete and consistent answers, and no
  stored user or session that changed owner, it succeeds from any state of the presence tables that satisfies the
  schema, whatever the order the missing lines are read in; the presence tables become exactly the
  snapshot, the schema holds, users of a known tenant keep their state, status and last activity,
  and the service is marked initialised. The post hooks run on that state.
\<close>

theorem presence_initialisation_exact:
  fixes order :: "line_key list \<Rightarrow> line_key list"
  assumes "presence_ok db" and "chat_ok db" and "answers rq sn" and "snapshot_consistent sn"
    and "no_move sn db" and "\<And>xs. set (order xs) = set xs"
  shows "\<exists>i' db'. initiate order rq hooks (i, db) = (Inr (), i', execute_post_hooks hooks db') \<and>
     is_initialized i' \<and> \<not> in_progress i' \<and> (\<forall>r. has_fetched r i') \<and>
     presence_of db' = presence_spec sn \<and> presence_ok db' \<and> chat_ok db' \<and>
     (\<forall>u \<in> set (users db). \<forall>r \<in> set (sn_users sn).
        us_tenant_uuid u \<in> set (sn_tenants sn) \<and> cu_uuid r = us_uuid u \<longrightarrow>
        u\<lparr>us_do_not_disturb := cu_dnd r\<rparr> \<in> set (users db'))"
proof -
  note f = fetch_all_answers [OF assms(3), of i]
  have ok: "db_ok db" using assms by (simp add: db_ok_def)
  show ?thesis
    by (rule initiate_refines [OF ok assms(4,5,6)])
      (use f in \<open>auto simp: initiate_def db_ok_def has_fetched_def has_passed_def all_fetched_mem\<close>)
qed

section \<open>A user that changed tenant\<close>

lemma move_fails:
  assumes ok: "db_ok db" and u: "u \<in> set (users db)" and r: "r \<in> set us"
    and moved: "cu_uuid r = us_uuid u" "cu_tenant_uuid r \<noteq> us_tenant_uuid u"
  shows "\<exists>b. add_and_remove_users us db = Inl (IntegrityError b)"
proof -
  let ?cached = "user_list_uuids_with_tenant_uuids db"
  define missing where "missing = filter (\<lambda>k. k \<notin> set ?cached) (remdups (map (\<lambda>u. (cu_uuid u, cu_tenant_uuid u)) us))"
  define mt where "mt = filter (\<lambda>t. t \<notin> set (tenant_list_uuids db)) (remdups (map snd missing))"
  have k: "keyed us_uuid (users db)" "keyed tn_uuid (tenants db)"
    using ok by (simp_all add: db_ok_def integrity_defs)
  have "keyed tn_uuid (tenants db @ map (\<lambda>t. \<lparr>tn_uuid = t\<rparr>) mt)"
    using k(2) by (auto simp: keyed_append mt_def keyed_def comp_def tenant_list_uuids_def)
  then have t: "tenant_create_all (map (\<lambda>t. \<lparr>tn_uuid = t\<rparr>) mt) db =
      Inr (db\<lparr>tenants := tenants db @ map (\<lambda>t. \<lparr>tn_uuid = t\<rparr>) mt\<rparr>)" (is "_ = Inr ?db1")
    by (simp add: tenant_create_all_def bulk_insert_Inr list_all_iff)
  have "(cu_uuid r, cu_tenant_uuid r) \<notin> set ?cached"
    using keyed_inj [OF k(1) u] moved by (auto simp: user_list_uuids_with_tenant_uuids_def)
  with r have "(cu_uuid r, cu_tenant_uuid r) \<in> set missing" by (auto simp: missing_def)
  then have "new_user (cu_uuid r, cu_tenant_uuid r) \<in> set (map new_user missing)" by simp
  from imageI [OF this, of us_uuid] have "us_uuid u \<in> us_uuid ` set (map new_user missing)"
    using moved(1) by (simp add: new_user_def)
  then have "\<not> keyed us_uuid (users db @ map new_user missing)"
    using u by (auto simp: keyed_append)
  then have "\<exists>b. bulk_insert us_uuid (tenant_exists ?db1) (map new_user missing) (users db) = Inl (IntegrityError b)"
    by (intro bulk_insert_fails k(1)) blast
  then show ?thesis
    using t by (auto simp: add_and_remove_users_def Let_def missing_def [symmetric] mt_def [symmetric] user_create_all_def)
qed

lemma move_blocks_run:
  assumes ok: "db_ok db" and u: "u \<in> set (users db)" "us_tenant_uuid u \<in> set (sn_tenants sn)"
    and r: "r \<in> set (sn_users sn)" "cu_uuid r = us_uuid u" "cu_tenant_uuid r \<noteq> us_tenant_uuid u"
  shows "\<exists>b db'. run_scopes (initiate_scopes order sn) db = (Inl (IntegrityError b), db') \<and> db_ok db' \<and> u \<in> set (users db')"
proof -
  define db1 where "db1 = db\<lparr>endpoints := map snd (dict_of device_endpoint (sn_devices sn)),
    lines := map (\<lambda>l. l\<lparr>ln_endpoint_name := None\<rparr>) (lines db)\<rparr>"
  have 1: "initiate_endpoints (sn_devices sn) db = Inr db1" "db_ok db1"
    using initiate_endpoints_ok [OF ok, of "sn_devices sn"] by (simp_all add: db1_def)
  obtain db2 where 2: "initiate_tenants (sn_tenants sn) db1 = Inr db2" "db_ok db2" "pruned db1 db2"
    "tn_uuid ` set (tenants db2) = set (sn_tenants sn)"
    "users db2 = filter (\<lambda>u. us_tenant_uuid u \<in> set (sn_tenants sn)) (users db1)"
    by (rule initiate_tenants_ok [OF 1(2)])
  have u2: "u \<in> set (users db2)" using u by (simp add: 2(5) db1_def)
  obtain b where "add_and_remove_users (sn_users sn) db2 = Inl (IntegrityError b)"
    using move_fails [OF 2(2) u2 r] by blast
  with 1(1) 2(1) have "run_scopes (initiate_scopes order sn) db = (Inl (IntegrityError b), db2)"
    by (simp add: initiate_scopes_def initiate_users_def run_scopes_Inr del: run_scopes.simps(2))
      (simp add: sync_scope_def)
  with 2(2) u2 show ?thesis by blast
qed

definition after_attempts ::
  "(line_key list \<Rightarrow> line_key list) \<Rightarrow> remote \<Rightarrow> hook list \<Rightarrow> nat \<Rightarrow> initiator \<times> database \<Rightarrow> initiator \<times> database" where
  "after_attempts order rq hooks n s = ((\<lambda>s. snd (initiate order rq hooks s)) ^^ n) s"

text \<open>
  C26: A stored user whose tenant changed in wazo-confd blocks the initialisation for good: the new
  row is created before the old one is deleted, so every attempt fails with the same database error
  and leaves the old row, however often it is retried and however complete the answers are.
\<close>

theorem moved_user_blocks_initialisation:
  assumes "presence_ok db" and "chat_ok db" and "u \<in> set (users db)" and "us_tenant_uuid u \<in> set (sn_tenants sn)"
    and "r \<in> set (sn_users sn)" and "cu_uuid r = us_uuid u" and "cu_tenant_uuid r \<noteq> us_tenant_uuid u"
    and "answers rq sn"
  shows "\<exists>b. fst (initiate order rq hooks (after_attempts order rq hooks n (i, db))) = Inl (IntegrityError b) \<and>
     u \<in> set (users (snd (after_attempts order rq hooks n (i, db))))"
proof -
  define attempts where "attempts = (\<lambda>n. after_attempts order rq hooks n (i, db))"
  have ok: "db_ok (snd (attempts n)) \<and> u \<in> set (users (snd (attempts n)))"
  proof (induction n)
    case 0
    then show ?case using assms by (simp add: attempts_def after_attempts_def db_ok_def)
  next
    case (Suc n)
    obtain i' d where s: "attempts n = (i', d)" by (cases "attempts n")
    note f = fetch_all_answers [OF assms(8), of i']
    obtain b d' where "run_scopes (initiate_scopes order sn) d = (Inl (IntegrityError b), d')" "db_ok d'" "u \<in> set (users d')"
      using move_blocks_run [of d u sn r order] Suc s assms(4-7) by auto
    then have "db_ok (snd (snd (initiate order rq hooks (attempts n)))) \<and>
        u \<in> set (users (snd (snd (initiate order rq hooks (attempts n)))))"
      using s f by (simp add: initiate_def)
    then show ?case by (simp add: attempts_def after_attempts_def)
  qed
  obtain i' d where s: "attempts n = (i', d)" by (cases "attempts n")
  note f = fetch_all_answers [OF assms(8), of i']
  obtain b d' where "run_scopes (initiate_scopes order sn) d = (Inl (IntegrityError b), d')"
    using move_blocks_run [of d u sn r order] ok s assms(4-7) by auto
  moreover have "after_attempts order rq hooks n (i, db) = (i', d)" using s by (simp add: attempts_def)
  ultimately show ?thesis using ok s f by (simp add: initiate_def)
qed

section \<open>Witnesses\<close>

definition stale_db :: database where
  "stale_db = empty_db\<lparr>
     tenants := [\<lparr>tn_uuid = ''t1''\<rparr>, \<lparr>tn_uuid = ''t9''\<rparr>],
     users := [\<lparr>us_uuid = ''u1'', us_tenant_uuid = ''t1'', us_state = UserAway, us_status = Some ''lunch'',
                us_do_not_disturb = False, us_last_activity = Some 7\<rparr>,
               \<lparr>us_uuid = ''u9'', us_tenant_uuid = ''t9'', us_state = UserAvailable, us_status = None,
                us_do_not_disturb = False, us_last_activity = None\<rparr>],
     sessions := [\<lparr>se_uuid = ''s9'', se_mobile = True, se_user_uuid = ''u9''\<rparr>],
     lines := [\<lparr>ln_id = 1, ln_user_uuid = ''u9'', ln_endpoint_name = Some ''PJSIP/a'', ln_media = None\<rparr>],
     endpoints := [\<lparr>ep_name = ''PJSIP/a'', ep_state = EndpointAvailable\<rparr>]\<rparr>"

definition sample_snapshot :: snapshot where
  "sample_snapshot = \<lparr>sn_tenants = [''t1'', ''t2''],
     sn_users = [\<lparr>cu_uuid = ''u1'', cu_tenant_uuid = ''t1'',
                   cu_lines = [\<lparr>cl_id = 1, cl_name = Some ''a'', cl_protocol = Some ''sip''\<rparr>,
                               \<lparr>cl_id = 2, cl_name = Some ''b'', cl_protocol = Some ''sccp''\<rparr>],
                   cu_dnd = True\<rparr>],
     sn_sessions = [\<lparr>as_uuid = ''s1'', as_user_uuid = ''u1'', as_tenant_uuid = ''t1'', as_mobile = True\<rparr>],
     sn_tokens = [\<lparr>at_client_id = ''c'', at_user_uuid = ''u1'', at_tenant_uuid = ''t1'', at_mobile = True\<rparr>],
     sn_devices = [\<lparr>dv_event = Some ''DeviceStateChange'', dv_device = ''PJSIP/a'', dv_state = ''INUSE''\<rparr>],
     sn_channels = [\<lparr>ce_event = Some ''CoreShowChannel'', ce_channel = ''PJSIP/a-01'', ce_state_desc = ''Up'',
                      ce_on_hold = None\<rparr>]\<rparr>"

definition paged_remote :: "nat \<Rightarrow> snapshot \<Rightarrow> remote" where
  "paged_remote n sn = \<lparr>rq_token = Inr ''token'',
     rq_tenants = (\<lambda>off. Inr (take (Suc n) (drop off (sn_tenants sn)), length (sn_tenants sn))),
     rq_users = (\<lambda>off. Inr (take (Suc n) (drop off (sn_users sn)), length (sn_users sn))),
     rq_sessions = (\<lambda>off. Inr (take (Suc n) (drop off (sn_sessions sn)), length (sn_sessions sn))),
     rq_tokens = (\<lambda>off. Inr (take (Suc n) (drop off (sn_tokens sn)), length (sn_tokens sn))),
     rq_devices = Inr (sn_devices sn), rq_channels = Inr (sn_channels sn)\<rparr>"

lemma paged_remote_answers: "answers (paged_remote n sn) sn"
  by (simp add: answers_def paged_remote_def serves_pages)

definition fresh_initiator :: initiator where
  "fresh_initiator = \<lparr>is_initialized = False, in_progress = False, milestones = []\<rparr>"

lemma stale_db_ok: "presence_ok stale_db" "chat_ok stale_db"
  by (simp_all add: stale_db_def empty_db_def integrity_defs keyed_def refs_def refs_opt_def)

lemma sample_snapshot_consistent: "snapshot_consistent sample_snapshot"
  by (simp add: snapshot_consistent_def sample_snapshot_def keyed_def line_pairs_def line_endpoints_def
      extract_endpoint_from_line_presence_view_def endpoint_name_for_protocol_def device_listed_def channel_listed_def)

theorem presence_initialisation_exact_witness:
  "\<exists>i' db'. initiate rev (paged_remote 0 sample_snapshot) [] (fresh_initiator, stale_db) = (Inr (), i', db') \<and>
     is_initialized i' \<and> presence_of db' = presence_spec sample_snapshot"
proof -
  have "no_move sample_snapshot stale_db"
    by (simp add: no_move_def sample_snapshot_def stale_db_def empty_db_def)
  from presence_initialisation_exact [OF stale_db_ok paged_remote_answers sample_snapshot_consistent this, of rev 0 "[]" fresh_initiator]
  show ?thesis by (auto simp: execute_post_hooks_def)
qed

definition moved_snapshot :: snapshot where
  "moved_snapshot = sample_snapshot\<lparr>sn_users := [\<lparr>cu_uuid = ''u1'', cu_tenant_uuid = ''t2'', cu_lines = [], cu_dnd = False\<rparr>]\<rparr>"

theorem moved_user_blocks_initialisation_witness:
  "\<exists>b. fst (initiate id (paged_remote 4 moved_snapshot) []
     (after_attempts id (paged_remote 4 moved_snapshot) [] 10 (fresh_initiator, stale_db))) = Inl (IntegrityError b)"
  using moved_user_blocks_initialisation [OF stale_db_ok, of "hd (users stale_db)" moved_snapshot
      "hd (sn_users moved_snapshot)" "paged_remote 4 moved_snapshot" id "[]" 10 fresh_initiator]
  by (simp add: paged_remote_answers moved_snapshot_def sample_snapshot_def stale_db_def)

end
