(* ===== verification/PresenceBus.thy ===== *)
theory PresenceBus
  imports Presence InitiatorSpec "HOL-Library.Sublist"
begin

text \<open>
  \<open>plugins/presences/bus_consume.py\<close>: one definition per handler of \<open>BusEventHandler\<close>, each the
  body of a session scope that returns what it publishes; \<open>BusInitiatorHandler\<close>, which drops or
  delays messages while an initialisation runs; and the thread of \<open>initiator_thread.py\<close>. A
  message is its name with the fields its handler reads.
\<close>

section \<open>Messages\<close>

datatype presence_message =
    auth_tenant_added uuid
  | auth_tenant_deleted uuid
  | user_created uuid uuid
  | user_deleted uuid uuid
  | auth_session_created uuid uuid uuid bool
  | auth_session_deleted uuid uuid uuid
  | auth_refresh_token_created string uuid uuid bool
  | auth_refresh_token_deleted string uuid uuid
  | user_line_associated event_line uuid uuid
  | user_line_dissociated int uuid uuid
  | users_services_dnd_updated uuid uuid bool
  | DeviceStateChange string string
  | Hangup string
  | Newchannel string string
  | Newstate string string
  | Hold string
  | Unhold string string
  | FullyBooted

text \<open>\<open>unlock_after_fetched\<close>; \<open>_asterisk_fullybooted\<close> is not decorated.\<close>

fun init_fetched_resource :: "presence_message \<Rightarrow> Resource option" where
  "init_fetched_resource (auth_tenant_added _) = Some TENANT"
| "init_fetched_resource (auth_tenant_deleted _) = Some TENANT"
| "init_fetched_resource (user_created _ _) = Some USER"
| "init_fetched_resource (user_deleted _ _) = Some USER"
| "init_fetched_resource (auth_session_created _ _ _ _) = Some SESSION"
| "init_fetched_resource (auth_session_deleted _ _ _) = Some SESSION"
| "init_fetched_resource (auth_refresh_token_created _ _ _ _) = Some REFRESH_TOKEN"
| "init_fetched_resource (auth_refresh_token_deleted _ _ _) = Some REFRESH_TOKEN"
| "init_fetched_resource (user_line_associated _ _ _) = Some USER"
| "init_fetched_resource (user_line_dissociated _ _ _) = Some USER"
| "init_fetched_resource (users_services_dnd_updated _ _ _) = Some USER"
| "init_fetched_resource (DeviceStateChange _ _) = Some DEVICE"
| "init_fetched_resource (Hangup _) = Some CHANNEL"
| "init_fetched_resource (Newchannel _ _) = Some CHANNEL"
| "init_fetched_resource (Newstate _ _) = Some CHANNEL"
| "init_fetched_resource (Hold _) = Some CHANNEL"
| "init_fetched_resource (Unhold _ _) = Some CHANNEL"
| "init_fetched_resource FullyBooted = None"

section \<open>Handlers\<close>

type_synonym handled = "exn + presence_event list \<times> database"

definition handle_user_created :: "uuid \<Rightarrow> uuid \<Rightarrow> database \<Rightarrow> handled" where
  "handle_user_created user_uuid tenant_uuid db =
     (case tenant_find_or_create tenant_uuid db of
        Inl e \<Rightarrow> Inl e
      | Inr (t, db1) \<Rightarrow> map_sum id (Pair []) (user_create (new_user (user_uuid, tn_uuid t)) db1))"

definition handle_user_deleted :: "uuid \<Rightarrow> uuid \<Rightarrow> database \<Rightarrow> handled" where
  "handle_user_deleted user_uuid tenant_uuid db =
     map_sum id (\<lambda>u. ([], user_delete u db)) (user_get [tenant_uuid] user_uuid db)"

definition handle_tenant_created :: "uuid \<Rightarrow> database \<Rightarrow> handled" where
  "handle_tenant_created tenant_uuid db = map_sum id (Pair []) (tenant_create \<lparr>tn_uuid = tenant_uuid\<rparr> db)"

definition handle_tenant_deleted :: "uuid \<Rightarrow> database \<Rightarrow> handled" where
  "handle_tenant_deleted tenant_uuid db = map_sum id (\<lambda>t. ([], tenant_delete t db)) (tenant_get tenant_uuid db)"

text \<open>\<open>self._notifier.updated(user)\<close> dumps the user in the state the handler left.\<close>

definition updated :: "User \<Rightarrow> database \<Rightarrow> presence_event list \<times> database" where
  "updated u db = ([presence_updated db u], db)"

definition handle_session_created :: "uuid \<Rightarrow> uuid \<Rightarrow> uuid \<Rightarrow> bool \<Rightarrow> database \<Rightarrow> handled" where
  "handle_session_created session_uuid tenant_uuid user_uuid mobile db =
     (case user_get [tenant_uuid] user_uuid db of
        Inl _ \<Rightarrow> Inr ([], db)
      | Inr u \<Rightarrow> map_sum id (updated u)
          (add_session u \<lparr>se_uuid = session_uuid, se_mobile = mobile, se_user_uuid = user_uuid\<rparr> db))"

definition handle_session_deleted :: "uuid \<Rightarrow> uuid \<Rightarrow> uuid \<Rightarrow> database \<Rightarrow> handled" where
  "handle_session_deleted session_uuid tenant_uuid user_uuid db =
     (case user_get [tenant_uuid] user_uuid db of
        Inl _ \<Rightarrow> Inr ([], db)
      | Inr u \<Rightarrow> map_sum id (\<lambda>s. updated u (remove_session u s db)) (session_get session_uuid db))"

definition handle_refresh_token_created :: "string \<Rightarrow> uuid \<Rightarrow> uuid \<Rightarrow> bool \<Rightarrow> database \<Rightarrow> handled" where
  "handle_refresh_token_created client_id tenant_uuid user_uuid mobile db =
     (case user_get [tenant_uuid] user_uuid db of
        Inl _ \<Rightarrow> Inr ([], db)
      | Inr u \<Rightarrow> map_sum id (updated u)
          (add_refresh_token u \<lparr>rt_client_id = client_id, rt_user_uuid = user_uuid, rt_mobile = mobile\<rparr> db))"

definition handle_refresh_token_deleted :: "string \<Rightarrow> uuid \<Rightarrow> uuid \<Rightarrow> database \<Rightarrow> handled" where
  "handle_refresh_token_deleted client_id tenant_uuid user_uuid db =
     (case user_get [tenant_uuid] user_uuid db of
        Inl _ \<Rightarrow> Inr ([], db)
      | Inr u \<Rightarrow> map_sum id (\<lambda>t. updated u (remove_refresh_token u t db)) (refresh_token_get user_uuid client_id db))"

definition handle_user_line_associated :: "event_line \<Rightarrow> uuid \<Rightarrow> uuid \<Rightarrow> database \<Rightarrow> handled" where
  "handle_user_line_associated event_line user_uuid tenant_uuid db =
     (case user_get [tenant_uuid] user_uuid db of
        Inl e \<Rightarrow> Inl e
      | Inr u \<Rightarrow>
          (let l = (case line_find (el_id event_line) db of
                      Some l \<Rightarrow> l | None \<Rightarrow> new_line (el_id event_line) user_uuid);
               db1 = add_line u l db
           in case extract_endpoint_from_line event_line of
                None \<Rightarrow> Inr (updated u db1)
              | Some n \<Rightarrow>
                  map_sum id (\<lambda>(ep, db2). updated u (associate_endpoint l ep db2)) (endpoint_find_or_create n db1)))"

definition handle_user_line_dissociated :: "int \<Rightarrow> uuid \<Rightarrow> uuid \<Rightarrow> database \<Rightarrow> handled" where
  "handle_user_line_dissociated line_id user_uuid tenant_uuid db =
     (case user_get [tenant_uuid] user_uuid db of
        Inl e \<Rightarrow> Inl e
      | Inr u \<Rightarrow> map_sum id (\<lambda>l. updated u (remove_line u l db)) (line_get line_id db))"

definition handle_user_dnd_updated :: "uuid \<Rightarrow> uuid \<Rightarrow> bool \<Rightarrow> database \<Rightarrow> handled" where
  "handle_user_dnd_updated user_uuid tenant_uuid enabled db =
     (case user_get [tenant_uuid] user_uuid db of
        Inl e \<Rightarrow> Inl e
      | Inr u \<Rightarrow> (let u' = u\<lparr>us_do_not_disturb := enabled\<rparr> in Inr (updated u' (user_update u' db))))"

text \<open>\<open>line.user\<close>; the foreign key says there is one.\<close>

definition updated_line_user :: "Line option \<Rightarrow> database \<Rightarrow> presence_event list \<times> database" where
  "updated_line_user line db =
     (case Option.bind line (\<lambda>l. find_row us_uuid (ln_user_uuid l) (users db)) of
        None \<Rightarrow> ([], db) | Some u \<Rightarrow> updated u db)"

definition handle_device_state_change :: "string \<Rightarrow> string \<Rightarrow> database \<Rightarrow> handled" where
  "handle_device_state_change endpoint_name event_state db =
     (if \<not> (take 5 endpoint_name = ''PJSIP'' \<or> take 4 endpoint_name = ''SCCP'') then Inr ([], db)
      else case endpoint_find_or_create endpoint_name db of
             Inl e \<Rightarrow> Inl e
           | Inr (ep, db1) \<Rightarrow>
               (let state = device_state event_state
                in if ep_state ep = state then Inr ([], db1)
                   else let db2 = endpoint_update (ep\<lparr>ep_state := state\<rparr>) db1
                        in Inr (updated_line_user (endpoint_line db2 endpoint_name) db2)))"

definition channel_line :: "Channel \<Rightarrow> database \<Rightarrow> Line option" where
  "channel_line c db = line_find (ch_line_id c) db"

definition handle_channel_created :: "string \<Rightarrow> string \<Rightarrow> database \<Rightarrow> handled" where
  "handle_channel_created channel_name state_desc db =
     (case line_find_by_endpoint (extract_endpoint_from_channel channel_name) db of
        None \<Rightarrow> Inr ([], db)
      | Some l \<Rightarrow>
          map_sum id (updated_line_user (Some l))
            (add_channel l \<lparr>ch_name = channel_name, ch_state = channel_state_of state_desc, ch_line_id = ln_id l\<rparr> db))"

definition handle_channel_deleted :: "string \<Rightarrow> database \<Rightarrow> handled" where
  "handle_channel_deleted channel_name db =
     (case channel_find channel_name db of
        None \<Rightarrow> Inr ([], db)
      | Some c \<Rightarrow>
          (case channel_line c db of
             None \<Rightarrow> Inr ([], db)
           | Some l \<Rightarrow> Inr (updated_line_user (Some l) (remove_channel l c db))))"

text \<open>The three handlers that set the state of a channel differ in the state only.\<close>

definition set_channel_state :: "string \<Rightarrow> channel_state \<Rightarrow> database \<Rightarrow> handled" where
  "set_channel_state channel_name state db =
     (case channel_find channel_name db of
        None \<Rightarrow> Inr ([], db)
      | Some c \<Rightarrow> Inr (updated_line_user (channel_line c db) (channel_update (c\<lparr>ch_state := state\<rparr>) db)))"

definition handle_channel_updated :: "string \<Rightarrow> string \<Rightarrow> database \<Rightarrow> handled" where
  "handle_channel_updated channel_name state_desc db =
     set_channel_state channel_name (channel_state_of state_desc) db"

definition handle_channel_hold :: "string \<Rightarrow> database \<Rightarrow> handled" where
  "handle_channel_hold channel_name db = set_channel_state channel_name Holding db"

definition handle_channel_unhold :: "string \<Rightarrow> string \<Rightarrow> database \<Rightarrow> handled" where
  "handle_channel_unhold channel_name state_desc db =
     set_channel_state channel_name (channel_state_of state_desc) db"

text \<open>\<open>subscribe\<close>: which handler a message goes to; \<open>FullyBooted\<close> only touches the thread.\<close>

fun handle_message :: "presence_message \<Rightarrow> database \<Rightarrow> handled" where
  "handle_message (auth_tenant_added t) db = handle_tenant_created t db"
| "handle_message (auth_tenant_deleted t) db = handle_tenant_deleted t db"
| "handle_message (user_created u t) db = handle_user_created u t db"
| "handle_message (user_deleted u t) db = handle_user_deleted u t db"
| "handle_message (auth_session_created s t u m) db = handle_session_created s t u m db"
| "handle_message (auth_session_deleted s t u) db = handle_session_deleted s t u db"
| "handle_message (auth_refresh_token_created c t u m) db = handle_refresh_token_created c t u m db"
| "handle_message (auth_refresh_token_deleted c t u) db = handle_refresh_token_deleted c t u db"
| "handle_message (user_line_associated l u t) db = handle_user_line_associated l u t db"
| "handle_message (user_line_dissociated l u t) db = handle_user_line_dissociated l u t db"
| "handle_message (users_services_dnd_updated u t b) db = handle_user_dnd_updated u t b db"
| "handle_message (DeviceStateChange d s) db = handle_device_state_change d s db"
| "handle_message (Hangup c) db = handle_channel_deleted c db"
| "handle_message (Newchannel c s) db = handle_channel_created c s db"
| "handle_message (Newstate c s) db = handle_channel_updated c s db"
| "handle_message (Hold c) db = handle_channel_hold c db"
| "handle_message (Unhold c s) db = handle_channel_unhold c s db"
| "handle_message FullyBooted db = Inr ([], db)"

definition consume :: "presence_message \<Rightarrow> database \<Rightarrow> (exn + presence_event list) \<times> database" where
  "consume m db = sync_scope (handle_message m) db"

section \<open>Delaying messages\<close>

record bus_state =
  bs_initiator :: initiator
  bs_delayed :: "presence_message list"
  bs_db :: database
  bs_published :: "presence_event list"

definition run_handler :: "presence_message \<Rightarrow> bus_state \<Rightarrow> bus_state" where
  "run_handler m st =
     (case consume m (bs_db st) of
        (Inl _, db) \<Rightarrow> st\<lparr>bs_db := db\<rparr>
      | (Inr evs, db) \<Rightarrow> st\<lparr>bs_db := db, bs_published := bs_published st @ evs\<rparr>)"

text \<open>\<open>handle_init_process\<close>: the decorator of every subscription.\<close>

definition receive :: "presence_message \<Rightarrow> bus_state \<Rightarrow> bus_state" where
  "receive m st =
     (case (in_progress (bs_initiator st), init_fetched_resource m) of
        (True, Some r) \<Rightarrow>
          if has_fetched r (bs_initiator st) then st\<lparr>bs_delayed := bs_delayed st @ [m]\<rparr> else st
      | _ \<Rightarrow> run_handler m st)"

text \<open>\<open>on_init_complete\<close> runs the callbacks; nothing removes them from the list.\<close>

definition on_init_complete :: "bus_state \<Rightarrow> bus_state" where
  "on_init_complete st = fold run_handler (bs_delayed st) st"

text \<open>
  An initialisation as the bus sees it: it begins, marks what it has fetched, commits its scopes,
  runs the hook, ends. Messages come at any time.
\<close>

inductive bus_step :: "bus_state \<Rightarrow> bus_state \<Rightarrow> bool" where
  begin_init: "bus_step st (st\<lparr>bs_initiator := (bs_initiator st)\<lparr>milestones := [], in_progress := True\<rparr>\<rparr>)"
| fetch: "in_progress (bs_initiator st) \<Longrightarrow> bus_step st (st\<lparr>bs_initiator := fetched r (bs_initiator st)\<rparr>)"
| scope: "in_progress (bs_initiator st) \<Longrightarrow> body \<in> set (initiate_scopes order sn) \<Longrightarrow> body (bs_db st) = Inr db' \<Longrightarrow>
    bus_step st (st\<lparr>bs_db := db'\<rparr>)"
| hooks: "in_progress (bs_initiator st) \<Longrightarrow> bus_step st (on_init_complete st)"
| end_init: "in_progress (bs_initiator st) \<Longrightarrow>
    bus_step st (st\<lparr>bs_initiator := (bs_initiator st)\<lparr>in_progress := False, is_initialized := True\<rparr>\<rparr>)"
| message: "bus_step st (receive m st)"

section \<open>The initialisation thread (initiator_thread.py)\<close>

definition retry_time_failed :: "nat \<Rightarrow> int" where
  "retry_time_failed n = (if n < 5 then 2 ^ n else 32)"

record initiator_thread =
  it_started :: bool
  it_stopped :: bool
  it_retry_time :: int
  it_failures :: nat
  it_timeouts :: "int list"
  it_sigterm :: bool
  it_dead :: bool

definition new_initiator_thread :: initiator_thread where
  "new_initiator_thread = \<lparr>it_started = False, it_stopped = False, it_retry_time = 0, it_failures = 0,
     it_timeouts = [30, 60, 120, 240, 480], it_sigterm = False, it_dead = False\<rparr>"

text \<open>\<open>_initiate\<close>; an exception of another class ends the thread.\<close>

definition thread_initiate :: "exn + unit \<Rightarrow> initiator_thread \<Rightarrow> initiator_thread" where
  "thread_initiate outcome t =
     (case outcome of
        Inr _ \<Rightarrow> t\<lparr>it_stopped := True\<rparr>
      | Inl e \<Rightarrow>
          if e = ReadTimeout then
            (case it_timeouts t of
               [] \<Rightarrow> t\<lparr>it_stopped := True, it_sigterm := True\<rparr>
             | w # ws \<Rightarrow> t\<lparr>it_retry_time := w, it_timeouts := ws\<rparr>)
          else if is_request_exception e \<or> is_sqlalchemy_error e then
            t\<lparr>it_retry_time := retry_time_failed (it_failures t), it_failures := it_failures t + 1\<rparr>
          else t\<lparr>it_dead := True\<rparr>)"

text \<open>\<open>_run\<close> against the outcomes of the attempts; the result lists the waits.\<close>

fun thread_run :: "(exn + unit) list \<Rightarrow> initiator_thread \<Rightarrow> int list \<times> initiator_thread" where
  "thread_run [] t = ([], t)"
| "thread_run (outcome # outcomes) t =
     (let t1 = thread_initiate outcome t
      in if it_dead t1 then ([], t1)
         else if it_stopped t1 then ([], t1\<lparr>it_stopped := False, it_started := False\<rparr>)
         else let (ws, t2) = thread_run outcomes t1 in (it_retry_time t1 # ws, t2))"

definition thread_start :: "initiator_thread \<Rightarrow> exn + initiator_thread" where
  "thread_start t =
     (if it_started t then Inl (OtherException ''Initialization already started'')
      else Inr (t\<lparr>it_started := True\<rparr>))"

definition thread_restart :: "initiator_thread \<times> initiator \<Rightarrow> initiator_thread \<times> initiator" where
  "thread_restart s =
     (case s of (t, i) \<Rightarrow> if it_started t then (t, i) else (t\<lparr>it_started := True\<rparr>, reset_initialized i))"

section \<open>Handlers keep the schema\<close>

definition handled_ok :: "handled \<Rightarrow> bool" where
  "handled_ok r \<longleftrightarrow> (\<forall>evs db'. r = Inr (evs, db') \<longrightarrow> db_ok db' \<and> length evs \<le> 1 \<and>
     (\<forall>ev \<in> set evs. \<exists>u \<in> set (users db'). ev = presence_updated db' u))"

lemma handled_ok_Inl [intro]: "handled_ok (Inl e)"
  and handled_ok_silent [intro]: "db_ok db \<Longrightarrow> handled_ok (Inr ([], db))"
  and handled_ok_updated [intro]: "db_ok db \<Longrightarrow> u \<in> set (users db) \<Longrightarrow> handled_ok (Inr (updated u db))"
  by (auto simp: handled_ok_def updated_def)

lemma handled_ok_line_user [intro]: "db_ok db \<Longrightarrow> handled_ok (Inr (updated_line_user l db))"
  by (auto simp: updated_line_user_def dest!: find_row_Some_in split: option.split bind_splits)

lemma handled_ok_map [intro]: "(\<And>x. r = Inr x \<Longrightarrow> handled_ok (Inr (f x))) \<Longrightarrow> handled_ok (map_sum id f r)"
  by (cases r) auto

lemma map_sum_InrD: "map_sum id f r = Inr y \<Longrightarrow> \<exists>x. r = Inr x \<and> y = f x"
  by (cases r) auto

lemma tenant_create_ok:
  assumes "db_ok db" and "tenant_create t db = Inr db'"
  shows "db_ok db'" and "users db' = users db" and "tn_uuid t \<in> tn_uuid ` set (tenants db')"
proof -
  have "db' = db\<lparr>tenants := tenants db @ [t]\<rparr>" "keyed tn_uuid (tenants db @ [t])"
    using assms(2) by (auto simp: tenant_create_def insert_rows_ok dest!: map_sum_InrD)
  with assms(1) show "db_ok db'" "users db' = users db" "tn_uuid t \<in> tn_uuid ` set (tenants db')"
    unfolding db_ok_def integrity_defs by (auto intro: refs_mono)
qed

lemma tenant_find_or_create_ok:
  assumes "db_ok db" and "tenant_find_or_create t db = Inr (tn, db')"
  shows "db_ok db'" and "users db' = users db" and "tn_uuid tn = t"
  using assms tenant_create_ok [of db "\<lparr>tn_uuid = t\<rparr>" db']
  by (auto simp: tenant_find_or_create_def split: option.splits dest!: map_sum_InrD find_row_Some_in)

lemma user_create_ok:
  assumes "db_ok db" and "user_create u db = Inr db'"
  shows "db_ok db'" and "users db' = users db @ [u]"
proof -
  have "db' = db\<lparr>users := users db @ [u]\<rparr>" "keyed us_uuid (users db @ [u])" "tenant_exists db u"
    using assms(2) by (auto simp: user_create_def insert_rows_ok dest!: map_sum_InrD)
  with assms(1) show "db_ok db'" "users db' = users db @ [u]"
    unfolding db_ok_def integrity_defs by (auto simp: tenant_exists_def tenant_list_uuids_def intro: refs_mono)
qed

lemma sessions_ok:
  assumes "db_ok db" and "keyed se_uuid rows" and "refs se_user_uuid rows (us_uuid ` set (users db))"
  shows "db_ok (db\<lparr>sessions := rows\<rparr>)"
  using assms by (simp add: db_ok_def integrity_defs)

lemma tokens_ok:
  assumes "db_ok db" and "keyed token_key rows" and "refs rt_user_uuid rows (us_uuid ` set (users db))"
  shows "db_ok (db\<lparr>refresh_tokens := rows\<rparr>)"
  using assms by (simp add: db_ok_def integrity_defs)

lemma channels_ok:
  assumes "db_ok db" and "keyed ch_name rows" and "refs ch_line_id rows (ln_id ` set (lines db))"
  shows "db_ok (db\<lparr>channels := rows\<rparr>)"
  using assms by (simp add: db_ok_def integrity_defs)

lemma add_session_ok:
  assumes "db_ok db" and "u \<in> set (users db)" and "add_session u s db = Inr db'"
  shows "db_ok db'" and "users db' = users db"
    and "sessions db' = delete_rows (\<lambda>x. se_user_uuid x = us_uuid u \<and> se_uuid x = se_uuid s) (sessions db) @
      [s\<lparr>se_user_uuid := us_uuid u\<rparr>]"
proof -
  let ?rows = "delete_rows (\<lambda>x. se_user_uuid x = us_uuid u \<and> se_uuid x = se_uuid s) (sessions db) @ [s\<lparr>se_user_uuid := us_uuid u\<rparr>]"
  have r: "db' = db\<lparr>sessions := ?rows\<rparr>" "keyed se_uuid ?rows"
    using assms(3) by (auto simp: add_session_def insert_rows_ok dest!: map_sum_InrD)
  have "refs se_user_uuid ?rows (us_uuid ` set (users db))"
    using assms(1,2) by (auto simp: db_ok_def integrity_defs)
  with r assms(1) show "db_ok db'" "users db' = users db" "sessions db' = ?rows" by (simp_all add: sessions_ok)
qed

lemma add_refresh_token_ok:
  assumes "db_ok db" and "u \<in> set (users db)" and "add_refresh_token u t db = Inr db'"
  shows "db_ok db'" and "users db' = users db"
proof -
  let ?rows = "delete_rows (\<lambda>x. rt_user_uuid x = us_uuid u \<and> rt_client_id x = rt_client_id t) (refresh_tokens db) @
    [t\<lparr>rt_user_uuid := us_uuid u\<rparr>]"
  have r: "db' = db\<lparr>refresh_tokens := ?rows\<rparr>" "keyed token_key ?rows"
    using assms(3) by (auto simp: add_refresh_token_def insert_rows_ok dest!: map_sum_InrD)
  have "refs rt_user_uuid ?rows (us_uuid ` set (users db))"
    using assms(1,2) by (auto simp: db_ok_def integrity_defs)
  with r assms(1) show "db_ok db'" "users db' = users db" by (simp_all add: tokens_ok)
qed

lemma remove_ok:
  assumes "db_ok db"
  shows "db_ok (remove_session u s db)" "users (remove_session u s db) = users db"
    and "db_ok (remove_refresh_token u t db)" "users (remove_refresh_token u t db) = users db"
    and "db_ok (remove_channel l c db)" "users (remove_channel l c db) = users db"
    and "db_ok (remove_line u l db)" "users (remove_line u l db) = users db"
proof -
  show "db_ok (remove_session u s db)" "db_ok (remove_refresh_token u t db)" "db_ok (remove_channel l c db)"
    unfolding remove_session_def remove_refresh_token_def remove_channel_def using assms
    by (auto intro!: sessions_ok tokens_ok channels_ok simp: db_ok_def integrity_defs)
  show "db_ok (remove_line u l db)"
    using assms by (simp add: remove_line_def db_ok_def cascade_lines_presence cascade_lines_chat)
qed (simp_all add: remove_session_def remove_refresh_token_def remove_channel_def remove_line_def cascade_lines_def Let_def)

lemma lines_ok:
  assumes "db_ok db" and "keyed ln_id rows" and "refs ln_user_uuid rows (us_uuid ` set (users db))"
    and "refs_opt ln_endpoint_name rows (ep_name ` set (endpoints db))" and "ln_id ` set (lines db) \<subseteq> ln_id ` set rows"
  shows "db_ok (db\<lparr>lines := rows\<rparr>)"
  using assms by (auto simp: db_ok_def integrity_defs intro: refs_mono)

lemma add_line_ok:
  assumes "db_ok db" and "u \<in> set (users db)"
    and "ln_id l \<notin> ln_id ` set (lines db) \<Longrightarrow> ln_endpoint_name l = None"
  shows "db_ok (add_line u l db)" and "users (add_line u l db) = users db"
    and "endpoints (add_line u l db) = endpoints db"
proof -
  have k: "keyed ln_id (lines db)" "refs ln_user_uuid (lines db) (us_uuid ` set (users db))"
    "refs_opt ln_endpoint_name (lines db) (ep_name ` set (endpoints db))"
    using assms(1) by (simp_all add: db_ok_def integrity_defs)
  show "db_ok (add_line u l db)"
  proof (cases "ln_id l \<in> ln_id ` set (lines db)")
    case True
    have "keyed ln_id (update_rows (\<lambda>x. ln_id x = ln_id l) (\<lambda>x. x\<lparr>ln_user_uuid := us_uuid u\<rparr>) (lines db))"
      using k(1) by (auto intro!: keyed_update)
    moreover have "refs ln_user_uuid (update_rows (\<lambda>x. ln_id x = ln_id l) (\<lambda>x. x\<lparr>ln_user_uuid := us_uuid u\<rparr>) (lines db))
        (us_uuid ` set (users db))"
      using k(2) assms(2) by (auto simp: refs_def set_update_rows)
    ultimately show ?thesis
      using True k(3) assms(1) by (auto simp: add_line_def intro!: lines_ok refs_opt_update_rows)
  next
    case False
    then have "keyed ln_id (lines db @ [l\<lparr>ln_user_uuid := us_uuid u\<rparr>])"
      using k(1) by (simp add: keyed_snoc)
    with False k assms show ?thesis
      by (auto simp: add_line_def refs_opt_def intro!: lines_ok)
  qed
qed (simp_all add: add_line_def)

lemma endpoint_find_or_create_ok:
  assumes "db_ok db" and "endpoint_find_or_create n db = Inr (ep, db')"
  shows "db_ok db'" and "users db' = users db" and "ep_name ep = n" and "ep_name ep \<in> ep_name ` set (endpoints db')"
    and "lines db' = lines db"
proof -
  have "(ep \<in> set (endpoints db) \<and> ep_name ep = n \<and> db' = db) \<or>
      (ep = new_endpoint n \<and> db' = db\<lparr>endpoints := endpoints db @ [ep]\<rparr> \<and> keyed ep_name (endpoints db @ [ep]))"
    using assms(2) by (auto simp: endpoint_find_or_create_def endpoint_find_def insert_rows_ok
        split: option.splits dest!: map_sum_InrD find_row_Some_in)
  with assms(1) show "db_ok db'" "users db' = users db" "ep_name ep = n" "ep_name ep \<in> ep_name ` set (endpoints db')"
    "lines db' = lines db"
    unfolding db_ok_def integrity_defs by (auto simp: new_endpoint_def intro: refs_opt_mono)
qed

lemma associate_endpoint_ok:
  assumes "db_ok db" and "ep_name ep \<in> ep_name ` set (endpoints db)"
  shows "db_ok (associate_endpoint l ep db)" and "users (associate_endpoint l ep db) = users db"
proof -
  have "keyed ln_id (update_rows (\<lambda>x. ln_id x = ln_id l) (\<lambda>x. x\<lparr>ln_endpoint_name := Some (ep_name ep)\<rparr>) (lines db))"
    "refs_opt ln_endpoint_name (update_rows (\<lambda>x. ln_id x = ln_id l) (\<lambda>x. x\<lparr>ln_endpoint_name := Some (ep_name ep)\<rparr>) (lines db))
       (ep_name ` set (endpoints db))"
    using assms by (auto simp: db_ok_def integrity_defs refs_opt_def set_update_rows intro!: keyed_update)
  with assms(1) show "db_ok (associate_endpoint l ep db)"
    unfolding associate_endpoint_def by (intro lines_ok) (auto simp: db_ok_def integrity_defs)
qed (simp add: associate_endpoint_def)

lemma endpoint_update_ok:
  assumes "db_ok db"
  shows "db_ok (endpoint_update ep db)"
proof -
  let ?rows = "update_rows (\<lambda>x. ep_name x = ep_name ep) (\<lambda>_. ep) (endpoints db)"
  have m: "map ep_name ?rows = map ep_name (endpoints db)"
    by (auto simp: update_rows_def)
  from arg_cong [OF this, of set] have "ep_name ` set ?rows = ep_name ` set (endpoints db)"
    by (simp only: set_map)
  moreover have "keyed ep_name ?rows = keyed ep_name (endpoints db)" using m by (simp add: keyed_def)
  ultimately show ?thesis
    using assms by (simp add: endpoint_update_def db_ok_def integrity_defs)
qed

lemma channel_update_ok:
  assumes "db_ok db" and "c \<in> set (channels db)"
  shows "db_ok (channel_update (c\<lparr>ch_state := s\<rparr>) db)"
proof -
  let ?rows = "update_rows (\<lambda>x. ch_name x = ch_name c) (\<lambda>_. c\<lparr>ch_state := s\<rparr>) (channels db)"
  have "map ch_name ?rows = map ch_name (channels db)" by (auto simp: update_rows_def)
  then have "keyed ch_name ?rows" using assms(1) by (simp add: keyed_def db_ok_def integrity_defs)
  moreover have "refs ch_line_id ?rows (ln_id ` set (lines db))"
    using assms by (auto simp: refs_def set_update_rows db_ok_def integrity_defs)
  ultimately show ?thesis using assms(1) by (simp add: channel_update_def channels_ok)
qed

lemma add_channel_ok:
  assumes "db_ok db" and "l \<in> set (lines db)" and "add_channel l c db = Inr db'"
  shows "db_ok db'"
proof -
  have "db' = db\<lparr>channels := channels db @ [c\<lparr>ch_line_id := ln_id l\<rparr>]\<rparr>"
    "keyed ch_name (channels db @ [c\<lparr>ch_line_id := ln_id l\<rparr>])"
    using assms(3) by (auto simp: add_channel_def insert_rows_ok dest!: map_sum_InrD)
  with assms(1,2) show ?thesis by (auto intro!: channels_ok simp: db_ok_def integrity_defs)
qed

lemma db_ok_get: "user_get ts uuid db = Inr u \<Longrightarrow> db_ok db \<Longrightarrow> u \<in> set (users db) \<and> us_uuid u = uuid"
  by (auto simp: db_ok_def user_get_Inr)

lemma handled_ok_user:
  assumes "db_ok db" and "\<And>v. v \<in> set (users db) \<Longrightarrow> handled_ok (f v)" and "\<And>e. handled_ok (g e)"
  shows "handled_ok (case user_get ts u db of Inl e \<Rightarrow> g e | Inr v \<Rightarrow> f v)"
  using assms db_ok_get [of ts u db] by (cases "user_get ts u db") auto

lemma handle_session_ok:
  assumes "db_ok db"
  shows "handled_ok (handle_session_created s t u m db)" and "handled_ok (handle_session_deleted s t u db)"
    and "handled_ok (handle_refresh_token_created c t u m db)" and "handled_ok (handle_refresh_token_deleted c t u db)"
proof -
  have "handled_ok (map_sum id (updated v) (add_session v x db))" if "v \<in> set (users db)" for v x
    using that add_session_ok [OF assms that] by (intro handled_ok_map handled_ok_updated) auto
  with assms show "handled_ok (handle_session_created s t u m db)"
    unfolding handle_session_created_def by (intro handled_ok_user handled_ok_silent) auto
  have "handled_ok (map_sum id (updated v) (add_refresh_token v x db))" if "v \<in> set (users db)" for v x
    using that add_refresh_token_ok [OF assms that] by (intro handled_ok_map handled_ok_updated) auto
  with assms show "handled_ok (handle_refresh_token_created c t u m db)"
    unfolding handle_refresh_token_created_def by (intro handled_ok_user handled_ok_silent) auto
  show "handled_ok (handle_session_deleted s t u db)" "handled_ok (handle_refresh_token_deleted c t u db)"
    unfolding handle_session_deleted_def handle_refresh_token_deleted_def using assms
    by (intro handled_ok_user handled_ok_map handled_ok_updated handled_ok_silent; simp add: remove_ok)+
qed

lemma handle_tenant_user_ok:
  assumes "db_ok db"
  shows "handled_ok (handle_tenant_created t db)" "handled_ok (handle_tenant_deleted t db)"
    and "handled_ok (handle_user_created u t db)" "handled_ok (handle_user_deleted u t db)"
proof -
  have "db_ok (tenant_delete x db)" "db_ok (user_delete v db)" for x v
    using assms by (simp_all add: tenant_delete_def user_delete_def db_ok_def cascade_tenants_ok
        cascade_users_presence cascade_users_chat)
  then show "handled_ok (handle_tenant_deleted t db)" "handled_ok (handle_user_deleted u t db)"
    unfolding handle_tenant_deleted_def handle_user_deleted_def by (auto intro!: handled_ok_map handled_ok_silent)
  show "handled_ok (handle_tenant_created t db)"
    unfolding handle_tenant_created_def
    by (rule handled_ok_map, rule handled_ok_silent, rule tenant_create_ok(1) [OF assms])
  show "handled_ok (handle_user_created u t db)"
  proof (cases "tenant_find_or_create t db")
    case (Inr r)
    obtain tn db1 where r: "r = (tn, db1)" by (cases r)
    have "db_ok db1" by (rule tenant_find_or_create_ok(1) [OF assms Inr [unfolded r]])
    then have "handled_ok (map_sum id (Pair []) (user_create v db1))" for v
      by (intro handled_ok_map handled_ok_silent) (rule user_create_ok(1))
    with Inr r show ?thesis by (simp add: handle_user_created_def)
  qed (auto simp: handle_user_created_def)
qed

lemma handle_line_ok:
  assumes "db_ok db"
  shows "handled_ok (handle_user_line_associated l u t db)" and "handled_ok (handle_user_line_dissociated i u t db)"
    and "handled_ok (handle_user_dnd_updated u t b db)"
proof -
  show "handled_ok (handle_user_line_associated l u t db)"
  proof (cases "user_get [t] u db")
    case (Inr v)
    then have v: "v \<in> set (users db)" using assms db_ok_get by blast
    define line where "line = (case line_find (el_id l) db of Some l \<Rightarrow> l | None \<Rightarrow> new_line (el_id l) u)"
    have "ln_endpoint_name line = None" if "ln_id line \<notin> ln_id ` set (lines db)"
      using that by (auto simp: line_def line_find_def new_line_def split: option.splits dest: find_row_Some_in)
    note add = add_line_ok [OF assms v this]
    have "handled_ok (map_sum id (\<lambda>(ep, db2). updated v (associate_endpoint line ep db2)) (endpoint_find_or_create n (add_line v line db)))" for n
      using add(1,2) v endpoint_find_or_create_ok associate_endpoint_ok
      by (auto intro!: handled_ok_map handled_ok_updated)
    then show ?thesis
      using Inr add v by (auto simp: handle_user_line_associated_def Let_def line_def [symmetric] split: option.split)
  qed (auto simp: handle_user_line_associated_def)
  show "handled_ok (handle_user_line_dissociated i u t db)"
    unfolding handle_user_line_dissociated_def using assms
    by (intro handled_ok_user handled_ok_map handled_ok_updated handled_ok_Inl; simp add: remove_ok)
  show "handled_ok (handle_user_dnd_updated u t b db)"
    unfolding handle_user_dnd_updated_def Let_def using assms
    by (intro handled_ok_user handled_ok_updated handled_ok_Inl) (auto simp: db_ok_def user_update_ok)
qed

lemma handle_channel_ok:
  assumes "db_ok db"
  shows "handled_ok (handle_device_state_change d s db)" and "handled_ok (handle_channel_created c s db)"
    and "handled_ok (handle_channel_deleted c db)" and "handled_ok (set_channel_state c cs db)"
proof -
  show "handled_ok (handle_device_state_change d s db)"
    unfolding handle_device_state_change_def Let_def using assms
    by (auto split: sum.split dest: endpoint_find_or_create_ok(1) intro!: handled_ok_line_user endpoint_update_ok)
  show "handled_ok (handle_channel_created c s db)"
  proof (cases "line_find_by_endpoint (extract_endpoint_from_channel c) db")
    case (Some l)
    then have l: "l \<in> set (lines db)" by (auto simp: line_find_by_endpoint_def dest: find_Some_in)
    have "handled_ok (map_sum id (updated_line_user (Some l)) (add_channel l x db))" for x
      by (intro handled_ok_map handled_ok_line_user) (rule add_channel_ok [OF assms l])
    with Some show ?thesis by (simp add: handle_channel_created_def)
  qed (use assms in \<open>auto simp: handle_channel_created_def\<close>)
  show "handled_ok (handle_channel_deleted c db)" "handled_ok (set_channel_state c cs db)"
    unfolding handle_channel_deleted_def set_channel_state_def channel_find_def using assms
    by (auto split: option.split dest!: find_row_Some_in intro!: handled_ok_line_user channel_update_ok simp: remove_ok)
qed

lemma handle_message_ok: "db_ok db \<Longrightarrow> handled_ok (handle_message m db)"
  by (cases m) (auto simp: handle_session_ok handle_tenant_user_ok handle_line_ok handle_channel_ok
      handle_channel_updated_def handle_channel_hold_def handle_channel_unhold_def)

section \<open>Every scope of the initialisation keeps the schema\<close>

lemma bulk_update_map:
  assumes "\<And>v r. k (f v r) = k r"
  shows "map k (bulk_update key f new rows) = map k rows"
proof -
  have "map k (update_from_values key f c rows) = map k rows" for c rows
    using assms by (auto simp: update_from_values_def split: option.split)
  then have "map k (fold (update_from_values key f) chunks rows) = map k rows" for chunks
    by (induction chunks arbitrary: rows) auto
  then show ?thesis by (simp add: bulk_update_def)
qed

lemma bulk_update_keeps:
  assumes "\<And>v r. k (f v r) = k r"
  shows "keyed k (bulk_update key f new rows) = keyed k rows"
    and "refs k (bulk_update key f new rows) K = refs k rows K"
    and "k ` set (bulk_update key f new rows) = k ` set rows"
proof -
  have m: "map k (bulk_update key f new rows) = map k rows"
    by (rule bulk_update_map) (rule assms)
  show "keyed k (bulk_update key f new rows) = keyed k rows" using m by (simp add: keyed_def)
  show i: "k ` set (bulk_update key f new rows) = k ` set rows" using arg_cong [OF m, of set] by (simp only: set_map)
  show "refs k (bulk_update key f new rows) K = refs k rows K" unfolding refs_image i ..
qed

lemma add_and_remove_users_keeps:
  assumes "db_ok db" and "add_and_remove_users us db = Inr db'"
  shows "db_ok db'"
proof -
  obtain mt mu ex db1 db2 where 1: "tenant_create_all mt db = Inr db1" and 2: "user_create_all mu db1 = Inr db2"
    and 3: "db' = user_delete_by_uuids ex db2"
    using assms(2) unfolding add_and_remove_users_def Let_def by (auto split: sum.splits dest!: map_sum_InrD)
  have k: "keyed tn_uuid (tenants db)" using assms(1) by (simp add: db_ok_def integrity_defs)
  have d1: "db1 = db\<lparr>tenants := tenants db @ mt\<rparr>" "keyed tn_uuid (tenants db @ mt)"
    using 1 by (auto simp: tenant_create_all_def bulk_insert_ok [OF k] dest!: map_sum_InrD)
  have ok1: "db_ok db1"
    using assms(1) d1 unfolding db_ok_def integrity_defs by (auto intro: refs_mono)
  then have k1: "keyed us_uuid (users db1)" by (simp add: db_ok_def integrity_defs)
  have d2: "db2 = db1\<lparr>users := users db1 @ mu\<rparr>" "keyed us_uuid (users db1 @ mu)" "list_all (tenant_exists db1) mu"
    using 2 by (auto simp: user_create_all_def bulk_insert_ok [OF k1] dest!: map_sum_InrD)
  have "refs us_tenant_uuid mu (tn_uuid ` set (tenants db1))"
    using d2(3) by (auto simp: refs_def list_all_iff tenant_exists_def tenant_list_uuids_def)
  then have "db_ok db2"
    using ok1 d2 unfolding db_ok_def integrity_defs by (auto intro: refs_mono)
  then show ?thesis using user_delete_by_uuids_ok [of db2 ex] by (simp add: 3 db_ok_def)
qed

lemma set_endpoint_list_names: "set (endpoint_list_names db) = ep_name ` set (endpoints db)"
  by (simp add: endpoint_list_names_def)

lemma line_create_all_keeps:
  assumes "db_ok db" and "line_create_all new db = Inr db'"
  shows "db_ok db'"
proof -
  have k: "keyed ln_id (lines db)" using assms(1) by (simp add: db_ok_def integrity_defs)
  have d: "db' = db\<lparr>lines := lines db @ new\<rparr>" "keyed ln_id (lines db @ new)"
    "list_all (\<lambda>l. ln_user_uuid l \<in> set (user_list_uuids db) \<and>
       (case ln_endpoint_name l of None \<Rightarrow> True | Some n \<Rightarrow> n \<in> set (endpoint_list_names db))) new"
    using assms(2) by (auto simp: line_create_all_def bulk_insert_ok [OF k] dest!: map_sum_InrD)
  then have "refs ln_user_uuid new (us_uuid ` set (users db))" "refs_opt ln_endpoint_name new (ep_name ` set (endpoints db))"
    unfolding set_endpoint_list_names by (auto simp: refs_def refs_opt_def list_all_iff user_list_uuids_def)
  moreover have "refs ln_user_uuid (lines db) (us_uuid ` set (users db))"
    "refs_opt ln_endpoint_name (lines db) (ep_name ` set (endpoints db))"
    using assms(1) by (simp_all add: db_ok_def integrity_defs)
  ultimately show ?thesis unfolding d(1) by (intro lines_ok [OF assms(1) d(2)]) auto
qed

lemma add_and_remove_lines_keeps:
  assumes "db_ok db" and "add_and_remove_lines order us db = Inr db'"
  shows "db_ok db'"
proof -
  obtain new ids where "line_create_all new (line_delete_by_ids ids db) = Inr db'"
    using assms(2) unfolding add_and_remove_lines_def Let_def by blast
  moreover have "db_ok (line_delete_by_ids ids db)" by (rule line_delete_by_ids_ok [OF assms(1)])
  ultimately show ?thesis using line_create_all_keeps by blast
qed

lemma associate_line_endpoint_keeps:
  assumes "db_ok db" and "associate_line_endpoint us db = Inr db'"
  shows "db_ok db'"
proof -
  obtain new where d: "db' = db\<lparr>lines := bulk_update ln_id (\<lambda>n l. l\<lparr>ln_endpoint_name := Some n\<rparr>) new (lines db)\<rparr>"
    and "list_all (\<lambda>l. case ln_endpoint_name l of None \<Rightarrow> True | Some n \<Rightarrow> n \<in> set (endpoint_list_names db))
      (bulk_update ln_id (\<lambda>n l. l\<lparr>ln_endpoint_name := Some n\<rparr>) new (lines db))"
    using assms(2) unfolding associate_line_endpoint_def associate_endpoints_def Let_def by (auto split: if_splits)
  then have "refs_opt ln_endpoint_name (bulk_update ln_id (\<lambda>n l. l\<lparr>ln_endpoint_name := Some n\<rparr>) new (lines db)) (ep_name ` set (endpoints db))"
    unfolding set_endpoint_list_names by (simp add: refs_opt_def list_all_iff)
  with assms(1) show ?thesis
    unfolding d by (intro lines_ok) (simp_all add: bulk_update_keeps db_ok_def integrity_defs)
qed

lemma update_services_users_keeps:
  assumes "db_ok db" and "update_services_users us db = Inr db'"
  shows "db_ok db'"
proof -
  obtain new where "db' = db\<lparr>users := bulk_update us_uuid (\<lambda>dnd u. u\<lparr>us_do_not_disturb := dnd\<rparr>) new (users db)\<rparr>"
    using assms(2) unfolding update_services_users_def user_update_dnd_def Let_def by blast
  with assms(1) show ?thesis by (simp add: db_ok_def integrity_defs bulk_update_keeps)
qed

lemma sessions_scopes_keep:
  assumes "db_ok db"
  shows "add_and_remove_sessions ss db = Inr db' \<Longrightarrow> db_ok db'"
    and "update_sessions ss db = Inr db' \<Longrightarrow> db_ok db'"
proof -
  have k: "keyed se_uuid (sessions db)" "refs se_user_uuid (sessions db) (us_uuid ` set (users db))"
    using assms by (simp_all add: db_ok_def integrity_defs)
  show "db_ok db'" if "update_sessions ss db = Inr db'"
  proof -
    obtain new where "db' = session_update_all new db"
      using \<open>update_sessions ss db = Inr db'\<close> unfolding update_sessions_def Let_def by blast
    with assms k show ?thesis by (simp add: session_update_all_def sessions_ok bulk_update_keeps)
  qed
  show "db_ok db'" if "add_and_remove_sessions ss db = Inr db'"
  proof -
    obtain new ids db1 where "session_create_all new db = Inr db1" and d: "db' = session_delete_by_uuids ids db1"
      using \<open>add_and_remove_sessions ss db = Inr db'\<close> unfolding add_and_remove_sessions_def Let_def
      by (auto dest!: map_sum_InrD)
    then have "db1 = db\<lparr>sessions := sessions db @ new\<rparr>" "keyed se_uuid (sessions db @ new)"
      "list_all (\<lambda>s. se_user_uuid s \<in> set (user_list_uuids db)) new"
      by (auto simp: session_create_all_def bulk_insert_ok [OF k(1)] dest!: map_sum_InrD)
    then show ?thesis
      using assms k unfolding d session_delete_by_uuids_eq
      by (auto intro!: sessions_ok simp: list_all_iff refs_def user_list_uuids_def)
  qed
qed

lemma tokens_scopes_keep:
  assumes "db_ok db"
  shows "add_and_remove_refresh_tokens ts db = Inr db' \<Longrightarrow> db_ok db'"
    and "update_refresh_tokens ts db = Inr db' \<Longrightarrow> db_ok db'"
proof -
  have k: "keyed token_key (refresh_tokens db)" "refs rt_user_uuid (refresh_tokens db) (us_uuid ` set (users db))"
    using assms by (simp_all add: db_ok_def integrity_defs)
  have key: "token_key (t\<lparr>rt_mobile := m\<rparr>) = token_key t" for t m by (simp add: token_key_def)
  show "db_ok db'" if "update_refresh_tokens ts db = Inr db'"
  proof -
    obtain new where "db' = refresh_token_update_all new db"
      using \<open>update_refresh_tokens ts db = Inr db'\<close> unfolding update_refresh_tokens_def Let_def by blast
    with assms k show ?thesis by (simp add: refresh_token_update_all_def tokens_ok bulk_update_keeps key)
  qed
  show "db_ok db'" if "add_and_remove_refresh_tokens ts db = Inr db'"
  proof -
    obtain new ks db1 where "refresh_token_create_all new db = Inr db1" and d: "db' = refresh_token_delete_by_keys ks db1"
      using \<open>add_and_remove_refresh_tokens ts db = Inr db'\<close> unfolding add_and_remove_refresh_tokens_def Let_def
      by (auto dest!: map_sum_InrD)
    then have "db1 = db\<lparr>refresh_tokens := refresh_tokens db @ new\<rparr>" "keyed token_key (refresh_tokens db @ new)"
      "list_all (\<lambda>t. rt_user_uuid t \<in> set (user_list_uuids db)) new"
      by (auto simp: refresh_token_create_all_def bulk_insert_ok [OF k(1)] dest!: map_sum_InrD)
    then show ?thesis
      using assms k unfolding d refresh_token_delete_by_keys_eq
      by (auto intro!: tokens_ok simp: list_all_iff refs_def user_list_uuids_def)
  qed
qed

lemma scopes_keep:
  assumes ok: "db_ok db" and "body \<in> set (initiate_scopes order sn)" and run: "body db = Inr db'"
  shows "db_ok db'"
proof -
  consider "body = initiate_endpoints (sn_devices sn)" | "body = initiate_tenants (sn_tenants sn)"
    | "body = add_and_remove_users (sn_users sn)" | "body = add_and_remove_lines order (sn_users sn)"
    | "body = add_missing_endpoints (sn_users sn)" | "body = associate_line_endpoint (sn_users sn)"
    | "body = update_services_users (sn_users sn)" | "body = add_and_remove_sessions (sn_sessions sn)"
    | "body = update_sessions (sn_sessions sn)" | "body = add_and_remove_refresh_tokens (sn_tokens sn)"
    | "body = update_refresh_tokens (sn_tokens sn)" | "body = initiate_channels (sn_channels sn)"
    using assms(2) by (auto simp: initiate_scopes_def initiate_users_def initiate_sessions_def initiate_refresh_tokens_def)
  then show ?thesis
  proof cases
    case 1
    with run initiate_endpoints_ok [OF ok, of "sn_devices sn"] show ?thesis by simp
  next
    case 2
    obtain d where "initiate_tenants (sn_tenants sn) db = Inr d" "db_ok d" by (rule initiate_tenants_ok [OF ok])
    with 2 run show ?thesis by simp
  next
    case 5
    with run add_missing_endpoints_ok [OF ok, of "sn_users sn"] show ?thesis by simp
  next
    case 12
    with run initiate_channels_ok [OF ok, of "sn_channels sn"] show ?thesis by simp
  next
    case 3
    show ?thesis by (rule add_and_remove_users_keeps [OF ok run [unfolded 3]])
  next
    case 4
    show ?thesis by (rule add_and_remove_lines_keeps [OF ok run [unfolded 4]])
  next
    case 6
    show ?thesis by (rule associate_line_endpoint_keeps [OF ok run [unfolded 6]])
  next
    case 7
    show ?thesis by (rule update_services_users_keeps [OF ok run [unfolded 7]])
  next
    case 8
    show ?thesis by (rule sessions_scopes_keep(1) [OF ok run [unfolded 8]])
  next
    case 9
    show ?thesis by (rule sessions_scopes_keep(2) [OF ok run [unfolded 9]])
  next
    case 10
    show ?thesis by (rule tokens_scopes_keep(1) [OF ok run [unfolded 10]])
  next
    case 11
    show ?thesis by (rule tokens_scopes_keep(2) [OF ok run [unfolded 11]])
  qed
qed

section \<open>The bus machine\<close>

lemma consume_ok: "db_ok db \<Longrightarrow> consume m db = (r, db') \<Longrightarrow> db_ok db'"
  using handle_message_ok [of db m]
  by (auto simp: consume_def sync_scope_def handled_ok_def split: sum.splits prod.splits)

lemma run_handler_ok: "db_ok (bs_db st) \<Longrightarrow> db_ok (bs_db (run_handler m st))"
  using consume_ok by (auto simp: run_handler_def split: prod.split sum.split)

lemma on_init_complete_ok: "db_ok (bs_db st) \<Longrightarrow> db_ok (bs_db (on_init_complete st))"
proof -
  have "db_ok (bs_db st) \<Longrightarrow> db_ok (bs_db (fold run_handler ms st))" for ms
    by (induction ms arbitrary: st) (simp_all add: run_handler_ok)
  then show "db_ok (bs_db st) \<Longrightarrow> db_ok (bs_db (on_init_complete st))" by (simp add: on_init_complete_def)
qed

lemma bus_step_ok: "bus_step s t \<Longrightarrow> db_ok (bs_db s) \<Longrightarrow> db_ok (bs_db t)"
proof (induction rule: bus_step.induct)
  case (message st m)
  then show ?case by (auto simp: receive_def run_handler_ok split: option.split bool.split)
qed (auto intro: scopes_keep on_init_complete_ok)

interpretation presence_bus: invariant_system bus_step "\<lambda>st. db_ok (bs_db st)"
  by unfold_locales (rule bus_step_ok)

text \<open>
  C8: However messages, scopes of initialisations (with any answers of the other services) and
  replays of delayed messages interleave, the tables keep their keys and foreign keys; a message
  whose handler raises changes nothing, any other publishes at most one event, and that event
  shows a user as they are in the tables after the message.
\<close>

theorem presence_bus_keeps_schema:
  assumes "reaches bus_step s t" and "presence_ok (bs_db s)" and "chat_ok (bs_db s)"
  shows "presence_ok (bs_db t) \<and> chat_ok (bs_db t) \<and>
     (case consume m (bs_db t) of
        (Inl _, db') \<Rightarrow> db' = bs_db t
      | (Inr evs, db') \<Rightarrow> presence_ok db' \<and> chat_ok db' \<and> length evs \<le> 1 \<and>
          (\<forall>ev \<in> set evs. \<exists>u \<in> set (users db'). ev = presence_updated db' u))"
proof -
  have ok: "db_ok (bs_db t)"
    by (rule presence_bus.reaches_inv [OF assms(1)]) (use assms(2,3) in \<open>simp add: db_ok_def\<close>)
  then show ?thesis
    using handle_message_ok [OF ok, of m]
    by (auto simp: consume_def sync_scope_def handled_ok_def db_ok_def split: sum.split prod.split)
qed

section \<open>Delayed messages are replayed again and again\<close>

lemma run_handler_delayed: "bs_delayed (run_handler m st) = bs_delayed st"
  by (simp add: run_handler_def split: prod.split sum.split)

lemma on_init_complete_delayed: "bs_delayed (on_init_complete st) = bs_delayed st"
proof -
  have "bs_delayed (fold run_handler ms st) = bs_delayed st" for ms
    by (induction ms arbitrary: st) (simp_all add: run_handler_delayed)
  then show ?thesis by (simp add: on_init_complete_def)
qed

lemma bus_step_delayed: "bus_step s t \<Longrightarrow> prefix (bs_delayed s) (bs_delayed t)"
proof (induction rule: bus_step.induct)
  case (message st m)
  then show ?case by (auto simp: receive_def run_handler_delayed split: option.split bool.split)
qed (simp_all add: on_init_complete_delayed)

lemma reaches_delayed: "reaches bus_step s t \<Longrightarrow> prefix (bs_delayed s) (bs_delayed t)"
  by (induction rule: reaches.induct) (auto dest: bus_step_delayed)

text \<open>What a replayed session message does to a user that has no such session any more.\<close>

lemma replay_session:
  assumes ok: "db_ok db" and u: "u \<in> set (users db)" and s: "sid \<notin> se_uuid ` set (sessions db)"
  shows "\<exists>db'. consume (auth_session_created sid (us_tenant_uuid u) (us_uuid u) m) db =
      (Inr [presence_updated db' u], db') \<and>
      sessions db' = sessions db @ [\<lparr>se_uuid = sid, se_mobile = m, se_user_uuid = us_uuid u\<rparr>] \<and>
      pd_connected (dump_user db' u)"
proof -
  have get: "user_get [us_tenant_uuid u] (us_uuid u) db = Inr u"
    using ok u by (simp add: db_ok_def user_get_Inr)
  let ?s = "\<lparr>se_uuid = sid, se_mobile = m, se_user_uuid = us_uuid u\<rparr>"
  let ?db' = "db\<lparr>sessions := sessions db @ [?s]\<rparr>"
  have "delete_rows (\<lambda>x. se_user_uuid x = us_uuid u \<and> se_uuid x = sid) (sessions db) = sessions db"
    using s unfolding delete_rows_def by (intro filter_True) auto
  moreover have "keyed se_uuid (sessions db @ [?s])"
    using ok s by (simp add: keyed_snoc db_ok_def integrity_defs)
  moreover have "us_uuid u \<in> set (user_list_uuids db)" using u by (simp add: user_list_uuids_def)
  ultimately have "add_session u ?s db = Inr ?db'"
    by (simp add: add_session_def insert_rows_def)
  then have "consume (auth_session_created sid (us_tenant_uuid u) (us_uuid u) m) db = (Inr [presence_updated ?db' u], ?db')"
    using get by (simp add: consume_def sync_scope_def handle_session_created_def updated_def)
  then show ?thesis by (intro exI [of _ ?db']) (simp add: dump_user_def Let_def is_connected_def user_sessions_def)
qed

text \<open>
  C27: A message delayed by one initialisation is replayed by every later one. When a session was
  created while the first initialisation ran, then, in any later state in which the session is gone
  and the user still there, the hook of the next initialisation stores it again and announces the
  user as connected, although no such session exists.
\<close>

theorem replay_resurrects_session:
  assumes "reaches bus_step s t" and "presence_ok (bs_db t)" and "chat_ok (bs_db t)"
    and "u \<in> set (users (bs_db t))" and "sid \<notin> se_uuid ` set (sessions (bs_db t))"
    and "bs_delayed s = [auth_session_created sid (us_tenant_uuid u) (us_uuid u) m]"
  shows "prefix (bs_delayed s) (bs_delayed t) \<and>
     (bs_delayed t = bs_delayed s \<longrightarrow>
        (\<exists>x \<in> set (sessions (bs_db (on_init_complete t))). se_uuid x = sid \<and> se_user_uuid x = us_uuid u) \<and>
        (\<exists>d. bs_published (on_init_complete t) = bs_published t @ [PresenceUpdated d (us_tenant_uuid u)] \<and>
           pd_uuid d = us_uuid u \<and> pd_connected d))"
proof -
  have ok: "db_ok (bs_db t)" using assms(2,3) by (simp add: db_ok_def)
  obtain db' where db': "consume (auth_session_created sid (us_tenant_uuid u) (us_uuid u) m) (bs_db t) =
      (Inr [presence_updated db' u], db')"
    "sessions db' = sessions (bs_db t) @ [\<lparr>se_uuid = sid, se_mobile = m, se_user_uuid = us_uuid u\<rparr>]"
    "pd_connected (dump_user db' u)"
    using replay_session [OF ok assms(4,5)] by blast
  have "on_init_complete t = t\<lparr>bs_db := db', bs_published := bs_published t @ [presence_updated db' u]\<rparr>"
    if "bs_delayed t = bs_delayed s"
    using that db'(1) by (simp add: on_init_complete_def assms(6) run_handler_def)
  then show ?thesis
    using reaches_delayed [OF assms(1)] db'(2,3)
    by (auto simp: presence_updated_def dump_user_def Let_def)
qed

section \<open>The thread\<close>

definition retryable :: "exn + unit \<Rightarrow> bool" where
  "retryable outcome \<longleftrightarrow> (\<exists>e. outcome = Inl e \<and> e \<noteq> ReadTimeout \<and> (is_request_exception e \<or> is_sqlalchemy_error e))"

lemma thread_run_retries:
  assumes "list_all retryable outcomes" and "\<not> it_dead t" and "\<not> it_stopped t"
  shows "thread_run outcomes t = (map (\<lambda>k. retry_time_failed (it_failures t + k)) [0..<length outcomes],
     t\<lparr>it_failures := it_failures t + length outcomes,
       it_retry_time := (if outcomes = [] then it_retry_time t
                         else retry_time_failed (it_failures t + length outcomes - 1))\<rparr>)"
  using assms
proof (induction outcomes arbitrary: t)
  case (Cons out outs)
  then obtain e where e: "out = Inl e" "e \<noteq> ReadTimeout" "is_request_exception e \<or> is_sqlalchemy_error e"
    by (auto simp: retryable_def)
  let ?t1 = "t\<lparr>it_retry_time := retry_time_failed (it_failures t), it_failures := it_failures t + 1\<rparr>"
  have t1: "thread_initiate out t = ?t1" using e by (simp add: thread_initiate_def)
  have "map (\<lambda>k. retry_time_failed (Suc (it_failures t) + k)) [0..<length outs] =
      map (\<lambda>k. retry_time_failed (it_failures t + k)) [Suc 0..<Suc (length outs)]"
    by (simp add: map_Suc_upt [symmetric] del: upt_Suc)
  moreover have "[0..<length (out # outs)] = 0 # [Suc 0..<Suc (length outs)]"
    by (simp add: upt_conv_Cons del: upt_Suc)
  ultimately show ?case
    using Cons.IH [of ?t1] Cons.prems by (simp add: t1 Let_def)
qed simp

lemma thread_run_append:
  "list_all retryable outs \<Longrightarrow> \<not> it_dead t \<Longrightarrow> \<not> it_stopped t \<Longrightarrow>
     thread_run (outs @ rest) t =
       (fst (thread_run outs t) @ fst (thread_run rest (snd (thread_run outs t))), snd (thread_run rest (snd (thread_run outs t))))"
proof (induction outs arbitrary: t)
  case (Cons out outs)
  then obtain e where "out = Inl e" "e \<noteq> ReadTimeout" "is_request_exception e \<or> is_sqlalchemy_error e"
    by (auto simp: retryable_def)
  with Cons show ?case by (simp add: thread_initiate_def Let_def case_prod_beta)
qed simp

lemma thread_run_timeouts:
  "\<not> it_dead t \<Longrightarrow> \<not> it_stopped t \<Longrightarrow>
     it_sigterm (snd (thread_run (replicate (Suc (length (it_timeouts t))) (Inl ReadTimeout)) t)) \<and>
     fst (thread_run (replicate (Suc (length (it_timeouts t))) (Inl ReadTimeout)) t) = it_timeouts t"
proof (induction "it_timeouts t" arbitrary: t)
  case Nil
  then show ?case by (simp add: thread_initiate_def)
next
  case (Cons w ws)
  let ?t1 = "t\<lparr>it_retry_time := w, it_timeouts := ws\<rparr>"
  have "thread_initiate (Inl ReadTimeout) t = ?t1"
    using Cons.hyps(2) by (simp add: thread_initiate_def Cons.hyps(2) [symmetric])
  with Cons.hyps(1) [of ?t1] Cons.prems show ?case
    by (simp add: Cons.hyps(2) [symmetric] Let_def case_prod_beta)
qed

text \<open>
  The thread retries failed initialisations for ever, waiting 1, 2, 4, 8, 16 and then 32 seconds,
  until one succeeds; read timeouts wait 30 to 480 seconds and the sixth since the process started
  stops the service; an exception of another class kills the thread but leaves it marked as
  started, so that no restart ever runs an initialisation again.
\<close>

theorem initiator_thread_retries:
  assumes "list_all retryable failures" and "it_started t" and "\<not> it_dead t" and "\<not> it_stopped t"
    and "\<not> is_request_exception e" and "\<not> is_sqlalchemy_error e"
  shows "thread_run (failures @ [Inr ()]) t = (map (\<lambda>k. retry_time_failed (it_failures t + k)) [0..<length failures],
       (snd (thread_run failures t))\<lparr>it_stopped := False, it_started := False\<rparr>) \<and>
     (\<forall>w \<in> set (fst (thread_run failures t)). 1 \<le> w \<and> w \<le> 32) \<and>
     (let t' = snd (thread_run (replicate (Suc (length (it_timeouts t))) (Inl ReadTimeout)) t)
      in it_sigterm t' \<and> fst (thread_run (replicate (Suc (length (it_timeouts t))) (Inl ReadTimeout)) t) = it_timeouts t) \<and>
     (let t' = snd (thread_run (failures @ [Inl e]) t) in it_dead t' \<and> thread_restart (t', i) = (t', i))"
proof -
  note run = thread_run_retries [OF assms(1,3,4)]
  have bound: "1 \<le> retry_time_failed k \<and> retry_time_failed k \<le> 32" for k
  proof (cases "k < 5")
    case True
    then have "k \<in> {0, 1, 2, 3, 4}" by auto
    then show ?thesis by (auto simp: retry_time_failed_def)
  qed (simp add: retry_time_failed_def)
  have "e \<noteq> ReadTimeout" using assms(5) by auto
  then show ?thesis
    using assms bound thread_run_timeouts [OF assms(3,4)] thread_run_append [OF assms(1,3,4), of "[Inr ()]"]
      thread_run_append [OF assms(1,3,4), of "[Inl e]"]
    by (auto simp: run Let_def thread_initiate_def thread_restart_def)
qed

section \<open>Witnesses\<close>

definition bus_start :: bus_state where
  "bus_start = \<lparr>bs_initiator = fresh_initiator, bs_delayed = [], bs_db = presence_db, bs_published = []\<rparr>"

definition bus_delaying :: bus_state where
  "bus_delaying = bus_start\<lparr>bs_initiator := \<lparr>is_initialized = False, in_progress = True, milestones = [(SESSION, FETCHED)]\<rparr>,
     bs_delayed := [auth_session_created ''s2'' ''t1'' ''u1'' False]\<rparr>"

lemma bus_start_delaying: "reaches bus_step bus_start bus_delaying"
proof -
  let ?s1 = "bus_start\<lparr>bs_initiator := (bs_initiator bus_start)\<lparr>milestones := [], in_progress := True\<rparr>\<rparr>"
  let ?s2 = "?s1\<lparr>bs_initiator := fetched SESSION (bs_initiator ?s1)\<rparr>"
  have "bus_step bus_start ?s1" by (rule begin_init)
  moreover have "bus_step ?s1 ?s2" by (rule fetch) simp
  moreover have "bus_step ?s2 (receive (auth_session_created ''s2'' ''t1'' ''u1'' False) ?s2)" by (rule message)
  moreover have "receive (auth_session_created ''s2'' ''t1'' ''u1'' False) ?s2 = bus_delaying"
    by (simp add: receive_def has_fetched_def has_passed_def fetched_def mark_def bus_delaying_def bus_start_def
        fresh_initiator_def)
  ultimately show ?thesis by (metis reaches.intros)
qed

theorem presence_bus_keeps_schema_witness:
  "presence_ok (bs_db bus_delaying) \<and>
   (\<exists>db' d. consume (auth_session_created ''s2'' ''t1'' ''u1'' False) (bs_db bus_delaying) = (Inr [PresenceUpdated d ''t1''], db') \<and>
      presence_ok db')"
  using presence_bus_keeps_schema [OF bus_start_delaying, of "auth_session_created ''s2'' ''t1'' ''u1'' False"] presence_db_ok
    replay_session [of presence_db "hd (users presence_db)" "''s2''" False]
  by (auto simp: bus_delaying_def bus_start_def db_ok_def presence_db_def presence_updated_def)

theorem replay_resurrects_session_witness:
  "\<exists>x \<in> set (sessions (bs_db (on_init_complete bus_delaying))). se_uuid x = ''s2''"
  using replay_resurrects_session [OF reaches_refl, of bus_delaying "hd (users presence_db)" "''s2''" False] presence_db_ok
  by (auto simp: bus_delaying_def bus_start_def presence_db_def)

theorem initiator_thread_retries_witness:
  "fst (thread_run (replicate 3 (Inl RequestException) @ [Inr ()]) (new_initiator_thread\<lparr>it_started := True\<rparr>)) = [1, 2, 4]"
  using initiator_thread_retries [of "replicate 3 (Inl RequestException)" "new_initiator_thread\<lparr>it_started := True\<rparr>"
      "KeyError ''items''"]
  by (simp add: retryable_def new_initiator_thread_def retry_time_failed_def numeral_3_eq_3)

end
