(* ===== verification/ConnectorTypes.thy ===== *)
theory ConnectorTypes
  imports Models
begin

text \<open>
  \<open>plugins/connectors/types.py\<close> (the dataclasses that cross the connector boundary, with the
  validation of \<open>ConfigField.__post_init__\<close>) and the members of the \<open>Connector\<close> protocol
  of \<open>plugins/connectors/connector.py\<close>. A connector is a plugin outside this repository: what
  its methods compute is a field of \<open>ConnectorClass\<close>, so every theorem holds for all of them.
\<close>

type_synonym config = "(string, string) dict"

record WebhookData =
  wd_body :: "(string, string) dict"
  wd_headers :: "(string, string) dict"
  wd_content_type :: string
  wd_url :: string

record OutboundMessage =
  om_room_uuid :: uuid
  om_message_uuid :: uuid
  om_sender_uuid :: uuid
  om_body :: body
  om_message_type :: string
  om_sender_identity :: string
  om_recipient_identity :: string
  om_metadata :: "(string, string) dict"

record InboundMessage =
  im_sender :: string
  im_recipient :: string
  im_body :: body
  im_backend :: string
  im_message_type :: string
  im_external_id :: string
  im_metadata :: "(string, string) dict"

record StatusUpdate =
  su_external_id :: string
  su_status :: string
  su_backend :: string
  su_error_code :: string

datatype event = Inbound InboundMessage | Status StatusUpdate

record BackendIdentity =
  bi_identity :: string
  bi_capabilities :: "string list"

section \<open>Configuration fields\<close>

datatype FieldType = FString | FSecret | FSelect | FBoolean | FInteger | FUrl

record ConfigField =
  cf_name :: string
  cf_label :: "(string, string) dict"
  cf_type :: FieldType
  cf_required :: bool
  cf_default :: string
  cf_choices :: "string list"

text \<open>The constructor: the field, or the \<open>ValueError\<close> of \<open>__post_init__\<close>.\<close>

definition make_ConfigField :: "ConfigField \<Rightarrow> exn + ConfigField" where
  "make_ConfigField f =
     (if dict_get (cf_label f) ''en_US'' = None then Inl (ValueError ''label must include en_US'')
      else if cf_type f = FSelect then
        (if cf_choices f = [] then Inl (ValueError ''select requires non-empty choices'')
         else if cf_default f \<noteq> [] \<and> cf_default f \<notin> set (cf_choices f)
           then Inl (ValueError ''default not in choices'')
         else Inr f)
      else if cf_choices f \<noteq> [] then Inl (ValueError ''choices only allowed when type is select'')
      else Inr f)"

section \<open>The connector protocol\<close>

datatype TransportMode = Webhook | Poll | Listen

text \<open>
  An instance is built from the tenant, the provider configuration of wazo-auth and the system
  configuration; a class carries the class attributes and the methods. \<open>auth_scope\<close> stays a
  string because \<open>register_backend\<close> validates it; \<open>list_backend_identities\<close> is optional.
  \<open>send\<close>, \<open>scan_inbound\<close>, \<open>track_outbound\<close> and \<open>listen\<close> talk to the outside:
  their results are arguments of the operations that call them.
\<close>

record Connector =
  cn_backend :: string
  cn_tenant_uuid :: uuid
  cn_provider_config :: config
  cn_connector_config :: config

record ConnectorClass =
  cc_backend :: string
  cc_supported_types :: "string list"
  cc_auth_scope :: string
  cc_auth_schema :: "ConfigField list"
  cc_status_map :: "(string, DeliveryStatus) dict"
  cc_verifies_signatures :: bool
  cc_init :: "uuid \<Rightarrow> config \<Rightarrow> config \<Rightarrow> exn + Connector"
  cc_can_handle :: "WebhookData \<Rightarrow> exn + bool"
  cc_verify_signature :: "Connector \<Rightarrow> WebhookData \<Rightarrow> exn + bool"
  cc_on_event :: "WebhookData \<Rightarrow> exn + event option"
  cc_normalize_identity :: "string \<Rightarrow> exn + string"
  cc_list_backend_identities :: "(Connector \<Rightarrow> exn + BackendIdentity list) option"

lemma make_ConfigField_Inr: "make_ConfigField f = Inr g \<Longrightarrow> g = f"
  by (auto simp: make_ConfigField_def split: if_splits)

end
