(* ===== verification/Registry.thy ===== *)
theory Registry
  imports ConnectorTypes
begin

text \<open>
  \<open>plugins/connectors/registry.py\<close>: the registered backends, the validation of their
  credentials schema, and the memoised capability lookup \<open>resolve_reachable_types\<close>. The JSON
  payload and its digest (marshmallow, hashlib) are the parameter \<open>serialize\<close>.
\<close>

record RegisteredBackend =
  rb_cls :: ConnectorClass
  rb_auth_scope :: string
  rb_auth_schema :: "string \<times> string"
  rb_mode :: TransportMode

record ConnectorRegistry =
  rg_backends :: "(string, RegisteredBackend) dict"
  rg_reachable_types_cache :: "(string, string set) dict"

definition empty_registry :: ConnectorRegistry where
  "empty_registry = \<lparr>rg_backends = [], rg_reachable_types_cache = []\<rparr>"

section \<open>Registration\<close>

fun duplicate_field :: "string set \<Rightarrow> ConfigField list \<Rightarrow> string option" where
  "duplicate_field seen [] = None"
| "duplicate_field seen (f # fs) =
     (if cf_name f \<in> seen then Some (cf_name f) else duplicate_field (insert (cf_name f) seen) fs)"

definition validate_auth_schema :: "string \<Rightarrow> ConfigField list \<Rightarrow> exn + unit" where
  "validate_auth_schema scope schema =
     (if scope \<notin> {''none'', ''tenant''} then Inl (ValueError ''invalid auth_scope'')
      else if scope = ''none'' \<and> schema \<noteq> [] then Inl (ValueError ''auth_scope=none must declare no fields'')
      else case duplicate_field {} schema of
             Some _ \<Rightarrow> Inl (ValueError ''duplicate field name'')
           | None \<Rightarrow> Inr ())"

definition register_backend ::
  "(string \<Rightarrow> ConfigField list \<Rightarrow> string \<times> string) \<Rightarrow> ConnectorClass \<Rightarrow> TransportMode \<Rightarrow>
   ConnectorRegistry \<Rightarrow> exn + ConnectorRegistry" where
  "register_backend serialize cls mode rg =
     (let name = cc_backend cls in
      if dict_get (rg_backends rg) name \<noteq> None then Inl (ValueError ''already registered'')
      else case validate_auth_schema (cc_auth_scope cls) (cc_auth_schema cls) of
             Inl e \<Rightarrow> Inl e
           | Inr _ \<Rightarrow>
               Inr (rg\<lparr>rg_backends := dict_set name
                         \<lparr>rb_cls = cls, rb_auth_scope = cc_auth_scope cls,
                          rb_auth_schema = serialize (cc_auth_scope cls) (cc_auth_schema cls),
                          rb_mode = mode\<rparr> (rg_backends rg),
                      rg_reachable_types_cache := []\<rparr>))"

text \<open>
  \<open>discover\<close> walks the installed entry points (name, class) in order; \<open>cfg\<close> gives each
  name its \<open>enabled\<close> flag and its \<open>mode\<close> string, None when absent or empty. An exception of
  \<open>register_backend\<close> leaves the loop with what was registered before it.
\<close>

fun transport_mode_of_string :: "string \<Rightarrow> TransportMode option" where
  "transport_mode_of_string s =
     (if s = ''webhook'' then Some Webhook else if s = ''poll'' then Some Poll
      else if s = ''listen'' then Some Listen else None)"

record backend_config =
  bc_enabled :: bool
  bc_mode :: "string option"

fun discover ::
  "(string \<Rightarrow> ConfigField list \<Rightarrow> string \<times> string) \<Rightarrow> (string, backend_config) dict \<Rightarrow>
   (string \<times> ConnectorClass) list \<Rightarrow> ConnectorRegistry \<Rightarrow> (exn + unit) \<times> ConnectorRegistry" where
  "discover serialize cfg [] rg = (Inr (), rg)"
| "discover serialize cfg ((name, plugin) # extensions) rg =
     (case dict_get cfg name of
        None \<Rightarrow> discover serialize cfg extensions rg
      | Some c \<Rightarrow>
          if \<not> bc_enabled c then discover serialize cfg extensions rg
          else case transport_mode_of_string (case bc_mode c of None \<Rightarrow> ''webhook'' | Some m \<Rightarrow> m) of
                 None \<Rightarrow> discover serialize cfg extensions rg
               | Some mode \<Rightarrow>
                   (case register_backend serialize plugin mode rg of
                      Inl e \<Rightarrow> (Inl e, rg)
                    | Inr rg' \<Rightarrow> discover serialize cfg extensions rg'))"

section \<open>Lookups\<close>

definition get_entry :: "ConnectorRegistry \<Rightarrow> string \<Rightarrow> exn + RegisteredBackend" where
  "get_entry rg name = (case dict_get (rg_backends rg) name of None \<Rightarrow> Inl (KeyError name) | Some e \<Rightarrow> Inr e)"

definition transport_mode :: "ConnectorRegistry \<Rightarrow> string \<Rightarrow> exn + TransportMode" where
  "transport_mode rg name = map_sum id rb_mode (get_entry rg name)"

definition get_auth_schema :: "ConnectorRegistry \<Rightarrow> string \<Rightarrow> exn + string \<times> string" where
  "get_auth_schema rg name = map_sum id rb_auth_schema (get_entry rg name)"

definition get_backend :: "ConnectorRegistry \<Rightarrow> string \<Rightarrow> exn + ConnectorClass" where
  "get_backend rg name = map_sum id rb_cls (get_entry rg name)"

definition requires_auth :: "ConnectorRegistry \<Rightarrow> string \<Rightarrow> exn + bool" where
  "requires_auth rg name = map_sum id (\<lambda>e. rb_auth_scope e \<noteq> ''none'') (get_entry rg name)"

definition available_backends :: "ConnectorRegistry \<Rightarrow> string list" where
  "available_backends rg = dict_keys (rg_backends rg)"

definition types_for_backend :: "ConnectorRegistry \<Rightarrow> string \<Rightarrow> string set" where
  "types_for_backend rg name =
     (case dict_get (rg_backends rg) name of None \<Rightarrow> {} | Some e \<Rightarrow> set (cc_supported_types (rb_cls e)))"

definition backends_for_types :: "ConnectorRegistry \<Rightarrow> string set \<Rightarrow> string set" where
  "backends_for_types rg types =
     fst ` {(name, e) \<in> set (rg_backends rg). types \<inter> set (cc_supported_types (rb_cls e)) \<noteq> {}}"

text \<open>The loop of \<open>resolve_reachable_types\<close>: other exceptions than ValueError/TypeError escape.\<close>

fun normalize_rejects :: "exn \<Rightarrow> bool" where
  "normalize_rejects (ValueError _) = True"
| "normalize_rejects (TypeError _) = True"
| "normalize_rejects _ = False"

fun collect_reachable :: "RegisteredBackend list \<Rightarrow> string \<Rightarrow> string set \<Rightarrow> exn + string set" where
  "collect_reachable [] identity acc = Inr acc"
| "collect_reachable (e # es) identity acc =
     (case cc_normalize_identity (rb_cls e) identity of
        Inl x \<Rightarrow> if normalize_rejects x then collect_reachable es identity acc else Inl x
      | Inr _ \<Rightarrow> collect_reachable es identity (acc \<union> set (cc_supported_types (rb_cls e))))"

definition resolve_reachable_types ::
  "string \<Rightarrow> ConnectorRegistry \<Rightarrow> (exn + string set) \<times> ConnectorRegistry" where
  "resolve_reachable_types identity rg =
     (case dict_get (rg_reachable_types_cache rg) identity of
        Some cached \<Rightarrow> (Inr cached, rg)
      | None \<Rightarrow>
          (case collect_reachable (map snd (rg_backends rg)) identity {} of
             Inl x \<Rightarrow> (Inl x, rg)
           | Inr reachable \<Rightarrow>
               (Inr reachable,
                rg\<lparr>rg_reachable_types_cache :=
                     dict_set identity reachable (rg_reachable_types_cache rg)\<rparr>)))"

section \<open>Invariant: well-formed entries and a coherent cache\<close>

definition entry_ok :: "string \<times> RegisteredBackend \<Rightarrow> bool" where
  "entry_ok p \<longleftrightarrow> cc_backend (rb_cls (snd p)) = fst p \<and>
     rb_auth_scope (snd p) \<in> {''none'', ''tenant''} \<and>
     (rb_auth_scope (snd p) = ''none'' \<longrightarrow> cc_auth_schema (rb_cls (snd p)) = []) \<and>
     distinct (map cf_name (cc_auth_schema (rb_cls (snd p))))"

definition cache_coherent :: "ConnectorRegistry \<Rightarrow> bool" where
  "cache_coherent rg \<longleftrightarrow>
     (\<forall>(i, ts) \<in> set (rg_reachable_types_cache rg).
        collect_reachable (map snd (rg_backends rg)) i {} = Inr ts)"

definition registry_ok :: "ConnectorRegistry \<Rightarrow> bool" where
  "registry_ok rg \<longleftrightarrow> dict_wf (rg_backends rg) \<and> (\<forall>p \<in> set (rg_backends rg). entry_ok p) \<and>
     cache_coherent rg"

lemma duplicate_field_None:
  "duplicate_field seen fs = None \<longleftrightarrow> distinct (map cf_name fs) \<and> seen \<inter> cf_name ` set fs = {}"
  by (induction fs arbitrary: seen) auto

lemma validate_auth_schema_ok:
  "validate_auth_schema scope schema = Inr u \<longleftrightarrow>
     scope \<in> {''none'', ''tenant''} \<and> (scope = ''none'' \<longrightarrow> schema = []) \<and> distinct (map cf_name schema)"
proof -
  have "duplicate_field {} schema = None \<longleftrightarrow> distinct (map cf_name schema)"
    by (simp add: duplicate_field_None)
  then show ?thesis
    by (cases "duplicate_field {} schema") (auto simp: validate_auth_schema_def)
qed

lemma empty_registry_ok: "registry_ok empty_registry"
  by (simp add: registry_ok_def cache_coherent_def empty_registry_def)

lemma set_update_new: "k \<notin> fst ` set d \<Longrightarrow> set (AList.update k v d) = insert (k, v) (set d)"
  by (induction d) auto

lemma register_backend_ok:
  assumes "register_backend serialize cls mode rg = Inr rg'" and "registry_ok rg"
  shows "registry_ok rg'"
proof -
  have new: "cc_backend cls \<notin> fst ` set (rg_backends rg)"
    and v: "validate_auth_schema (cc_auth_scope cls) (cc_auth_schema cls) = Inr ()"
    using assms(1)
    by (simp_all add: register_backend_def Let_def map_of_eq_None_iff split: if_splits sum.splits)
  from assms(1) have rg': "rg' = rg\<lparr>rg_backends := dict_set (cc_backend cls)
      \<lparr>rb_cls = cls, rb_auth_scope = cc_auth_scope cls,
       rb_auth_schema = serialize (cc_auth_scope cls) (cc_auth_schema cls), rb_mode = mode\<rparr>
      (rg_backends rg), rg_reachable_types_cache := []\<rparr>"
    by (auto simp: register_backend_def Let_def split: if_splits sum.splits)
  show ?thesis
    using assms(2) v unfolding rg' registry_ok_def validate_auth_schema_ok
    by (auto simp: set_update_new [OF new] entry_ok_def cache_coherent_def)
qed

lemma discover_ok: "registry_ok rg \<Longrightarrow> registry_ok (snd (discover serialize cfg extensions rg))"
proof (induction extensions arbitrary: rg)
  case (Cons x extensions)
  obtain name plugin where x: "x = (name, plugin)" by (cases x)
  show ?case
    using Cons register_backend_ok
    by (simp add: x del: transport_mode_of_string.simps split: option.split sum.split)
qed simp

lemma resolve_value:
  assumes "cache_coherent rg"
  shows "fst (resolve_reachable_types i rg) = collect_reachable (map snd (rg_backends rg)) i {}"
proof (cases "dict_get (rg_reachable_types_cache rg) i")
  case None
  then show ?thesis
    by (auto simp: resolve_reachable_types_def split: sum.splits)
next
  case (Some ts)
  then have "(i, ts) \<in> set (rg_reachable_types_cache rg)" by (rule map_of_SomeD)
  with assms Some show ?thesis
    by (auto simp: resolve_reachable_types_def cache_coherent_def)
qed

lemma update_subset: "set (AList.update k v d) \<subseteq> insert (k, v) (set d)"
  by (induction d) auto

lemma resolve_keeps:
  assumes "registry_ok rg"
  shows "registry_ok (snd (resolve_reachable_types i rg))"
    and "rg_backends (snd (resolve_reachable_types i rg)) = rg_backends rg"
  using assms update_subset
  by (fastforce simp: resolve_reachable_types_def registry_ok_def cache_coherent_def
      split: option.splits sum.splits)+

text \<open>
  The life of a registry: successful registrations and lookups, in any order. A lookup that
  raises and a refused registration leave it as it was.
\<close>

inductive registry_step :: "ConnectorRegistry \<Rightarrow> ConnectorRegistry \<Rightarrow> bool" where
  registered: "register_backend serialize cls mode rg = Inr rg' \<Longrightarrow> registry_step rg rg'"
| discovered: "registry_step rg (snd (discover serialize cfg extensions rg))"
| resolved: "registry_step rg (snd (resolve_reachable_types identity rg))"

inductive_cases registry_stepE: "registry_step rg rg'"

interpretation registry_life: invariant_system registry_step registry_ok
  by unfold_locales (auto elim!: registry_stepE intro: register_backend_ok discover_ok resolve_keeps)

definition accepts :: "string \<Rightarrow> RegisteredBackend \<Rightarrow> bool" where
  "accepts identity e \<longleftrightarrow>
     (case cc_normalize_identity (rb_cls e) identity of Inl _ \<Rightarrow> False | Inr _ \<Rightarrow> True)"

definition only_rejects :: "string \<Rightarrow> RegisteredBackend \<Rightarrow> bool" where
  "only_rejects identity e \<longleftrightarrow>
     (case cc_normalize_identity (rb_cls e) identity of Inl x \<Rightarrow> normalize_rejects x | Inr _ \<Rightarrow> True)"

lemma collect_reachable_spec:
  "\<forall>e \<in> set es. only_rejects identity e \<Longrightarrow>
     collect_reachable es identity acc =
       Inr (acc \<union> (\<Union>e \<in> {e \<in> set es. accepts identity e}. set (cc_supported_types (rb_cls e))))"
proof (induction es arbitrary: acc)
  case (Cons e es)
  have *: "{x \<in> set (e # es). accepts identity x} =
      (if accepts identity e then insert e {x \<in> set es. accepts identity x}
       else {x \<in> set es. accepts identity x})"
    by auto
  show ?case
  proof (cases "cc_normalize_identity (rb_cls e) identity")
    case (Inl x)
    with Cons show ?thesis unfolding * by (simp add: only_rejects_def accepts_def)
  next
    case (Inr n)
    with Cons show ?thesis unfolding * by (simp add: accepts_def Un_assoc)
  qed
qed simp

text \<open>
  C13: whatever was registered and looked up before, a capability lookup
  returns exactly the types of the backends registered now whose \<open>normalize_identity\<close> accepts
  the identity: the memo table never serves a stale answer. (A backend's \<open>normalize_identity\<close>
  may raise ValueError or TypeError; another exception would escape.)
\<close>

theorem resolve_reachable_types_fresh:
  assumes "reaches registry_step empty_registry rg"
    and "\<forall>e \<in> set (map snd (rg_backends rg)). only_rejects identity e"
  shows "fst (resolve_reachable_types identity rg) =
     Inr (\<Union>e \<in> {e \<in> set (map snd (rg_backends rg)). accepts identity e}.
            set (cc_supported_types (rb_cls e)))"
proof -
  have "registry_ok rg"
    using assms(1) empty_registry_ok by (rule registry_life.reaches_inv)
  then have "fst (resolve_reachable_types identity rg) =
      collect_reachable (map snd (rg_backends rg)) identity {}"
    by (simp add: resolve_value registry_ok_def)
  then show ?thesis
    using collect_reachable_spec [OF assms(2), of "{}"] by simp
qed

text \<open>A concrete backend for the witnesses: it accepts identities that start with a plus sign.\<close>

definition sms_class :: ConnectorClass where
  "sms_class = \<lparr>cc_backend = ''sms'', cc_supported_types = [''sms''], cc_auth_scope = ''tenant'',
     cc_auth_schema = [], cc_status_map = [(''sent'', SENT), (''delivered'', DELIVERED)],
     cc_verifies_signatures = True,
     cc_init = (\<lambda>t p c. Inr \<lparr>cn_backend = ''sms'', cn_tenant_uuid = t, cn_provider_config = p,
                           cn_connector_config = c\<rparr>),
     cc_can_handle = (\<lambda>_. Inr True), cc_verify_signature = (\<lambda>_ _. Inr True),
     cc_on_event = (\<lambda>_. Inr None),
     cc_normalize_identity =
       (\<lambda>i. case i of [] \<Rightarrow> Inl (ValueError i) | c # _ \<Rightarrow> if c = CHR ''+'' then Inr i else Inl (ValueError i)),
     cc_list_backend_identities = None\<rparr>"

definition sms_registry :: ConnectorRegistry where
  "sms_registry = \<lparr>rg_backends = [(''sms'', \<lparr>rb_cls = sms_class, rb_auth_scope = ''tenant'',
      rb_auth_schema = (''{}'', ''0''), rb_mode = Webhook\<rparr>)], rg_reachable_types_cache = []\<rparr>"

lemma sms_registered:
  "register_backend (\<lambda>_ _. (''{}'', ''0'')) sms_class Webhook empty_registry = Inr sms_registry"
  by (simp add: register_backend_def empty_registry_def sms_registry_def sms_class_def
      validate_auth_schema_def)

lemma sms_registry_reached: "reaches registry_step empty_registry sms_registry"
  by (rule reaches_step, rule reaches_refl, rule registered, rule sms_registered)

theorem resolve_reachable_types_fresh_witness:
  "fst (resolve_reachable_types ''+1555'' sms_registry) = Inr {''sms''}"
proof -
  have "\<forall>e \<in> set (map snd (rg_backends sms_registry)). only_rejects ''+1555'' e"
    by (simp add: sms_registry_def sms_class_def only_rejects_def)
  from resolve_reachable_types_fresh [OF sms_registry_reached this]
  show ?thesis by (simp add: sms_registry_def sms_class_def accepts_def Collect_conv_if)
qed

end
