(* ===== verification/Store.thy ===== *)
theory Store
  imports Registry
begin

text \<open>
  \<open>plugins/connectors/store.py\<close>: the cache of connector instances. Every block the code runs
  under \<open>_fetch_lock\<close> is one definition on the state of the store (polymorphic in what is
  cached); \<open>get\<close>, \<open>find\<close>, \<open>populate\<close> compose them for one thread, and
  \<open>store_step\<close> interleaves them for any number of threads. wazo-auth, the clock, the random
  jitter and the future of another thread's fetch are the fields of \<open>FetchEnv\<close>.
\<close>

type_synonym CacheKey = "uuid \<times> string"

record 'c ConnectorStore =
  st_cache :: "(CacheKey, 'c) dict"
  st_expires_at :: "(CacheKey, real) dict"
  st_cache_epoch :: "(CacheKey, nat) dict"
  st_pending_fetches :: "CacheKey set"
  st_populated :: bool

definition new_store :: "'c ConnectorStore" where
  "new_store = \<lparr>st_cache = [], st_expires_at = [], st_cache_epoch = [], st_pending_fetches = {},
     st_populated = False\<rparr>"

section \<open>Atomic sections\<close>

definition peek :: "string \<Rightarrow> uuid \<Rightarrow> 'c ConnectorStore \<Rightarrow> 'c option" where
  "peek backend tenant st = dict_get (st_cache st) (tenant, backend)"

definition get_cached :: "real \<Rightarrow> CacheKey \<Rightarrow> 'c ConnectorStore \<Rightarrow> 'c option" where
  "get_cached clock k st =
     (if clock > (case dict_get (st_expires_at st) k of None \<Rightarrow> 0 | Some e \<Rightarrow> e) then None
      else dict_get (st_cache st) k)"

definition cache_epoch :: "CacheKey \<Rightarrow> 'c ConnectorStore \<Rightarrow> nat" where
  "cache_epoch k st = (case dict_get (st_cache_epoch st) k of None \<Rightarrow> 0 | Some e \<Rightarrow> e)"

definition evict :: "CacheKey \<Rightarrow> 'c ConnectorStore \<Rightarrow> 'c ConnectorStore" where
  "evict k st = st\<lparr>st_cache := dict_pop k (st_cache st), st_expires_at := dict_pop k (st_expires_at st)\<rparr>"

definition drop_connector :: "string \<Rightarrow> uuid \<Rightarrow> 'c ConnectorStore \<Rightarrow> 'c ConnectorStore" where
  "drop_connector backend tenant st =
     (let k = (tenant, backend); st1 = evict k st
      in if k \<in> st_pending_fetches st
         then st1\<lparr>st_cache_epoch := dict_set k (Suc (cache_epoch k st)) (st_cache_epoch st1)\<rparr>
         else st1)"

datatype 'c fetch_entry = Hit 'c | Follow | Lead

definition fetch_enter :: "real \<Rightarrow> CacheKey \<Rightarrow> 'c ConnectorStore \<Rightarrow> 'c fetch_entry \<times> 'c ConnectorStore" where
  "fetch_enter clock k st =
     (case get_cached clock k st of
        Some c \<Rightarrow> (Hit c, st)
      | None \<Rightarrow>
          if k \<in> st_pending_fetches st then (Follow, st)
          else (Lead, st\<lparr>st_pending_fetches := insert k (st_pending_fetches st)\<rparr>))"

definition fetch_commit :: "nat \<Rightarrow> CacheKey \<Rightarrow> 'c \<Rightarrow> real \<Rightarrow> 'c ConnectorStore \<Rightarrow> 'c ConnectorStore" where
  "fetch_commit epoch_before k c expires st =
     (if cache_epoch k st = epoch_before
      then st\<lparr>st_cache := dict_set k c (st_cache st),
              st_expires_at := dict_set k expires (st_expires_at st)\<rparr>
      else st)"

definition fetch_finish :: "CacheKey \<Rightarrow> 'c ConnectorStore \<Rightarrow> 'c ConnectorStore" where
  "fetch_finish k st = st\<lparr>st_pending_fetches := st_pending_fetches st - {k},
     st_cache_epoch := dict_pop k (st_cache_epoch st)\<rparr>"

section \<open>One thread\<close>

record FetchEnv =
  fe_answer :: "exn + config"       \<comment> \<open>\<open>external.get_config\<close>\<close>
  fe_get_clock :: real              \<comment> \<open>\<open>monotonic()\<close> in \<open>get\<close>, in \<open>_fetch\<close>, at the commit\<close>
  fe_enter_clock :: real
  fe_commit_clock :: real
  fe_jitter :: real                 \<comment> \<open>\<open>uniform(0.8, 1.2)\<close>\<close>
  fe_leader :: "exn + Connector"    \<comment> \<open>the future of the thread that leads the fetch\<close>

record StoreConfig =
  sc_cache_ttl :: real
  sc_connectors_config :: "(string, config) dict"

text \<open>The part of \<open>_do_fetch\<close> between the sections: the provider's configuration.\<close>

definition provider_config ::
  "ConnectorRegistry \<Rightarrow> FetchEnv \<Rightarrow> CacheKey \<Rightarrow> 'c ConnectorStore \<Rightarrow> (exn + config) \<times> 'c ConnectorStore" where
  "provider_config rg env k st =
     (case requires_auth rg (snd k) of
        Inl e \<Rightarrow> (Inl e, st)
      | Inr False \<Rightarrow> (Inr [], st)
      | Inr True \<Rightarrow>
          (case fe_answer env of
             Inr c \<Rightarrow> (Inr c, st)
           | Inl (HTTPError status) \<Rightarrow>
               (Inl (if status = Some 404 then BackendNotConfiguredException (snd k) (fst k)
                     else AuthServiceUnavailableException), evict k st)
           | Inl e \<Rightarrow> (Inl (if is_request_exception e then AuthServiceUnavailableException else e), st)))"

definition do_fetch ::
  "ConnectorRegistry \<Rightarrow> StoreConfig \<Rightarrow> FetchEnv \<Rightarrow> CacheKey \<Rightarrow> Connector ConnectorStore \<Rightarrow>
   (exn + Connector) \<times> Connector ConnectorStore" where
  "do_fetch rg sc env k st =
     (if snd k \<notin> set (available_backends rg) then (Inl (UnknownBackendException (snd k)), st)
      else
        let epoch_before = cache_epoch k st in
        case provider_config rg env k st of
          (Inl e, st1) \<Rightarrow> (Inl e, st1)
        | (Inr pc, st1) \<Rightarrow>
            (case get_backend rg (snd k) of
               Inl e \<Rightarrow> (Inl e, st1)
             | Inr cls \<Rightarrow>
                 (case cc_init cls (fst k) pc
                     (case dict_get (sc_connectors_config sc) (snd k) of None \<Rightarrow> [] | Some c \<Rightarrow> c) of
                    Inl e \<Rightarrow> (Inl e, st1)
                  | Inr instance \<Rightarrow>
                      (Inr instance,
                       fetch_commit epoch_before k instance
                         (fe_commit_clock env + sc_cache_ttl sc * fe_jitter env) st1))))"

definition store_fetch ::
  "ConnectorRegistry \<Rightarrow> StoreConfig \<Rightarrow> FetchEnv \<Rightarrow> CacheKey \<Rightarrow> Connector ConnectorStore \<Rightarrow>
   (exn + Connector) \<times> Connector ConnectorStore" where
  "store_fetch rg sc env k st =
     (case fetch_enter (fe_enter_clock env) k st of
        (Hit c, st1) \<Rightarrow> (Inr c, st1)
      | (Follow, st1) \<Rightarrow> (fe_leader env, st1)
      | (Lead, st1) \<Rightarrow>
          (case do_fetch rg sc env k st1 of (r, st2) \<Rightarrow> (r, fetch_finish k st2)))"

definition store_get ::
  "ConnectorRegistry \<Rightarrow> StoreConfig \<Rightarrow> FetchEnv \<Rightarrow> string \<Rightarrow> uuid \<Rightarrow> Connector ConnectorStore \<Rightarrow>
   (exn + Connector) \<times> Connector ConnectorStore" where
  "store_get rg sc env backend tenant st =
     (case get_cached (fe_get_clock env) (tenant, backend) st of
        Some c \<Rightarrow> (Inr c, st)
      | None \<Rightarrow> store_fetch rg sc env (tenant, backend) st)"

definition store_find ::
  "ConnectorRegistry \<Rightarrow> StoreConfig \<Rightarrow> FetchEnv \<Rightarrow> string \<Rightarrow> uuid \<Rightarrow> Connector ConnectorStore \<Rightarrow>
   Connector option \<times> Connector ConnectorStore" where
  "store_find rg sc env backend tenant st =
     (case store_get rg sc env backend tenant st of
        (Inr c, st1) \<Rightarrow> (Some c, st1)
      | (Inl _, st1) \<Rightarrow> (None, st1))"

text \<open>
  \<open>_fetch_batch\<close>: the pool runs \<open>find\<close> on every pair; \<open>pairs\<close> lists the set in the
  order the lookups complete. \<open>populate\<close> fetches what pollers and listeners need first, marks
  the store populated, then fetches the rest; once populated it does nothing.
\<close>

definition fetch_batch ::
  "ConnectorRegistry \<Rightarrow> StoreConfig \<Rightarrow> (CacheKey \<Rightarrow> FetchEnv) \<Rightarrow> CacheKey list \<Rightarrow>
   Connector ConnectorStore \<Rightarrow> Connector ConnectorStore" where
  "fetch_batch rg sc env pairs st =
     fold (\<lambda>(tenant, backend) s. snd (store_find rg sc (env (tenant, backend)) backend tenant s)) pairs st"

definition is_priority :: "ConnectorRegistry \<Rightarrow> CacheKey \<Rightarrow> bool" where
  "is_priority rg pair \<longleftrightarrow> snd pair \<in> set (available_backends rg) \<and>
     transport_mode rg (snd pair) \<noteq> Inr Webhook"

definition populate ::
  "ConnectorRegistry \<Rightarrow> StoreConfig \<Rightarrow> (CacheKey \<Rightarrow> FetchEnv) \<Rightarrow> CacheKey list \<Rightarrow>
   Connector ConnectorStore \<Rightarrow> Connector ConnectorStore" where
  "populate rg sc env pairs st =
     (if st_populated st then st
      else
        let st1 = fetch_batch rg sc env (filter (is_priority rg) pairs) st;
            st2 = st1\<lparr>st_populated := True\<rparr>
        in fetch_batch rg sc env (filter (\<lambda>p. \<not> is_priority rg p) pairs) st2)"

section \<open>Facts about the sections\<close>

lemma get_cached_Some: "get_cached clock k st = Some c \<Longrightarrow> dict_get (st_cache st) k = Some c"
  by (simp add: get_cached_def split: if_splits)

lemma evict_lookup [simp]:
  "dict_get (st_cache (evict k st)) k' = (if k' = k then None else dict_get (st_cache st) k')"
  "dict_get (st_expires_at (evict k st)) k' = (if k' = k then None else dict_get (st_expires_at st) k')"
  "cache_epoch k' (evict k st) = cache_epoch k' st"
  "st_pending_fetches (evict k st) = st_pending_fetches st"
  by (simp_all add: evict_def cache_epoch_def)

lemma drop_lookup [simp]:
  "dict_get (st_cache (drop_connector b t st)) k =
     (if k = (t, b) then None else dict_get (st_cache st) k)"
  "cache_epoch k (drop_connector b t st) =
     (if k = (t, b) \<and> k \<in> st_pending_fetches st then Suc (cache_epoch k st) else cache_epoch k st)"
  "st_pending_fetches (drop_connector b t st) = st_pending_fetches st"
  by (auto simp: drop_connector_def Let_def evict_def cache_epoch_def)

lemma commit_lookup [simp]:
  "dict_get (st_cache (fetch_commit e k c x st)) k' =
     (if k' = k \<and> cache_epoch k st = e then Some c else dict_get (st_cache st) k')"
  "cache_epoch k' (fetch_commit e k c x st) = cache_epoch k' st"
  "st_pending_fetches (fetch_commit e k c x st) = st_pending_fetches st"
  by (auto simp: fetch_commit_def cache_epoch_def)

lemma finish_lookup [simp]:
  "st_cache (fetch_finish k st) = st_cache st"
  "cache_epoch k' (fetch_finish k st) = (if k' = k then 0 else cache_epoch k' st)"
  "st_pending_fetches (fetch_finish k st) = st_pending_fetches st - {k}"
  by (auto simp: fetch_finish_def cache_epoch_def)

lemma enter_lead:
  "fetch_enter clock k st = (Lead, st') \<longleftrightarrow>
     get_cached clock k st = None \<and> k \<notin> st_pending_fetches st \<and>
     st' = st\<lparr>st_pending_fetches := insert k (st_pending_fetches st)\<rparr>"
  by (auto simp: fetch_enter_def split: option.splits if_splits)

section \<open>Any number of threads\<close>

text \<open>
  A thread that leads a fetch is between two sections: it entered, it sent the request to
  wazo-auth (with the epoch it read before), it holds the instance it built from the answer,
  or it is about to publish its result. A hit and a follower leave the store as it is. The time stamps and
  the record of drops are ghosts: the cached value carries the time its request was sent.
\<close>

datatype store_thread =
    Out
  | Leading CacheKey
  | Requesting CacheKey nat nat
  | Loaded CacheKey nat nat Connector
  | Finishing CacheKey

fun thread_key :: "store_thread \<Rightarrow> CacheKey option" where
  "thread_key Out = None"
| "thread_key (Leading k) = Some k"
| "thread_key (Requesting k _ _) = Some k"
| "thread_key (Loaded k _ _ _) = Some k"
| "thread_key (Finishing k) = Some k"

fun thread_request :: "store_thread \<Rightarrow> (nat \<times> nat) option" where
  "thread_request (Requesting _ e t) = Some (e, t)"
| "thread_request (Loaded _ e t _) = Some (e, t)"
| "thread_request _ = None"

record store_machine =
  sm_store :: "(Connector \<times> nat) ConnectorStore"
  sm_threads :: "nat \<Rightarrow> store_thread"
  sm_time :: nat
  sm_dropped :: "CacheKey \<Rightarrow> nat option"

definition new_store_machine :: store_machine where
  "new_store_machine = \<lparr>sm_store = new_store, sm_threads = (\<lambda>_. Out), sm_time = 0,
     sm_dropped = (\<lambda>_. None)\<rparr>"

abbreviation set_thread :: "nat \<Rightarrow> store_thread \<Rightarrow> store_machine \<Rightarrow> store_machine" where
  "set_thread i th m \<equiv> m\<lparr>sm_threads := (sm_threads m)(i := th)\<rparr>"

inductive store_step :: "store_machine \<Rightarrow> store_machine \<Rightarrow> bool" where
  lead: "sm_threads m i = Out \<Longrightarrow> fetch_enter clock k (sm_store m) = (Lead, st') \<Longrightarrow>
    store_step m (set_thread i (Leading k) (m\<lparr>sm_store := st'\<rparr>))"
| send_request: "sm_threads m i = Leading k \<Longrightarrow>
    store_step m (set_thread i (Requesting k (cache_epoch k (sm_store m)) (sm_time m))
      (m\<lparr>sm_time := Suc (sm_time m)\<rparr>))"
| answered: "sm_threads m i = Requesting k e t \<Longrightarrow>
    store_step m (set_thread i (Loaded k e t c) m)"
| http_error: "sm_threads m i = Requesting k e t \<Longrightarrow>
    store_step m (set_thread i (Finishing k) (m\<lparr>sm_store := evict k (sm_store m)\<rparr>))"
| no_instance: "thread_key (sm_threads m i) = Some k \<Longrightarrow>
    store_step m (set_thread i (Finishing k) m)"
| commit: "sm_threads m i = Loaded k e t c \<Longrightarrow>
    store_step m (set_thread i (Finishing k)
      (m\<lparr>sm_store := fetch_commit e k (c, t) expires (sm_store m)\<rparr>))"
| finish: "sm_threads m i = Finishing k \<Longrightarrow>
    store_step m (set_thread i Out (m\<lparr>sm_store := fetch_finish k (sm_store m)\<rparr>))"
| dropped: "store_step m (m\<lparr>sm_store := drop_connector b t (sm_store m),
    sm_dropped := (sm_dropped m)((t, b) \<mapsto> sm_time m), sm_time := Suc (sm_time m)\<rparr>)"

definition since_drop :: "store_machine \<Rightarrow> CacheKey \<Rightarrow> nat \<Rightarrow> bool" where
  "since_drop m k t \<longleftrightarrow> (case sm_dropped m k of None \<Rightarrow> True | Some d \<Rightarrow> d < t)"

definition leaders_ok :: "store_machine \<Rightarrow> bool" where
  "leaders_ok m \<longleftrightarrow>
     (\<forall>i k. thread_key (sm_threads m i) = Some k \<longrightarrow> k \<in> st_pending_fetches (sm_store m)) \<and>
     (\<forall>i j k. thread_key (sm_threads m i) = Some k \<longrightarrow> thread_key (sm_threads m j) = Some k \<longrightarrow> i = j)"

definition times_ok :: "store_machine \<Rightarrow> bool" where
  "times_ok m \<longleftrightarrow> (\<forall>k d. sm_dropped m k = Some d \<longrightarrow> d < sm_time m)"

definition requests_ok :: "store_machine \<Rightarrow> bool" where
  "requests_ok m \<longleftrightarrow> (\<forall>i k e t.
     thread_key (sm_threads m i) = Some k \<longrightarrow> thread_request (sm_threads m i) = Some (e, t) \<longrightarrow>
        e \<le> cache_epoch k (sm_store m) \<and> (cache_epoch k (sm_store m) = e \<longrightarrow> since_drop m k t))"

definition cached_ok :: "store_machine \<Rightarrow> bool" where
  "cached_ok m \<longleftrightarrow>
     (\<forall>k c t. dict_get (st_cache (sm_store m)) k = Some (c, t) \<longrightarrow> since_drop m k t)"

definition stamps_ok :: "store_machine \<Rightarrow> bool" where
  "stamps_ok m \<longleftrightarrow> times_ok m \<and> requests_ok m \<and> cached_ok m"

definition store_inv :: "store_machine \<Rightarrow> bool" where
  "store_inv m \<longleftrightarrow> leaders_ok m \<and> stamps_ok m"

text \<open>Cache keys are pairs: quantified keys stay variables.\<close>

declare split_paired_All [simp del] split_paired_Ex [simp del]

lemma leaders_cong:
  assumes "leaders_ok m" and "\<And>j. thread_key (sm_threads m' j) = thread_key (sm_threads m j)"
    and "st_pending_fetches (sm_store m') = st_pending_fetches (sm_store m)"
  shows "leaders_ok m'"
  using assms unfolding leaders_ok_def by (simp only: assms(2,3))

lemma leaders_step: "store_step m m' \<Longrightarrow> leaders_ok m \<Longrightarrow> leaders_ok m'"
proof (induction rule: store_step.induct)
  case (lead m i clock k st')
  then show ?case by (auto simp: leaders_ok_def enter_lead)
next
  case (finish m i k)
  then have "thread_key (sm_threads m i) = Some k" by simp
  with finish show ?case by (auto simp: leaders_ok_def)
qed (erule leaders_cong, auto)+

text \<open>Only the three points that touch time, epochs or the cache need an argument.\<close>

lemma stamps_frame:
  assumes "stamps_ok m" and "sm_dropped m' = sm_dropped m" and "sm_time m' = sm_time m"
    and "\<And>j k p. thread_key (sm_threads m' j) = Some k \<Longrightarrow> thread_request (sm_threads m' j) = Some p \<Longrightarrow>
       cache_epoch k (sm_store m') = cache_epoch k (sm_store m) \<and>
       thread_key (sm_threads m j) = Some k \<and> thread_request (sm_threads m j) = Some p"
    and "\<And>k c t. dict_get (st_cache (sm_store m')) k = Some (c, t) \<Longrightarrow>
       dict_get (st_cache (sm_store m)) k = Some (c, t) \<or> since_drop m k t"
  shows "stamps_ok m'"
proof -
  have eq: "since_drop m' = since_drop m"
    using assms(2) by (simp add: since_drop_def fun_eq_iff)
  have "times_ok m'"
    using assms(1-3) by (simp add: stamps_ok_def times_ok_def)
  moreover have "requests_ok m'"
    unfolding requests_ok_def eq
  proof (intro allI impI)
    fix j k e t
    assume "thread_key (sm_threads m' j) = Some k" and "thread_request (sm_threads m' j) = Some (e, t)"
    from assms(4) [OF this] have old: "cache_epoch k (sm_store m') = cache_epoch k (sm_store m)"
      and j: "thread_key (sm_threads m j) = Some k" "thread_request (sm_threads m j) = Some (e, t)"
      by simp_all
    from assms(1) have "requests_ok m" by (simp add: stamps_ok_def)
    from this [unfolded requests_ok_def, rule_format, OF j]
    show "e \<le> cache_epoch k (sm_store m') \<and> (cache_epoch k (sm_store m') = e \<longrightarrow> since_drop m k t)"
      by (simp add: old)
  qed
  moreover have "cached_ok m'"
    using assms(1,5) unfolding stamps_ok_def cached_ok_def eq by blast
  ultimately show ?thesis by (simp add: stamps_ok_def)
qed

lemma stamps_step:
  assumes "store_step m m'" and "leaders_ok m" and "stamps_ok m"
  shows "stamps_ok m'"
  using assms
proof (induction rule: store_step.induct)
  case (lead m i clock k st')
  then have "sm_store m\<lparr>st_pending_fetches := insert k (st_pending_fetches (sm_store m))\<rparr> = st'"
    by (simp add: enter_lead)
  with lead(4) show ?case
    by - (rule stamps_frame [of m], auto simp: cache_epoch_def split: if_splits)
next
  case (send_request m i k)
  have "since_drop m k (sm_time m)"
    using send_request by (auto simp: stamps_ok_def times_ok_def since_drop_def split: option.splits)
  with send_request show ?case
    by (auto simp: stamps_ok_def times_ok_def requests_ok_def cached_ok_def since_drop_def less_Suc_eq)
next
  case (answered m i k e t c)
  then show ?case by - (rule stamps_frame [of m], auto split: if_splits)
next
  case (http_error m i k e t)
  then show ?case by - (rule stamps_frame [of m], auto split: if_splits)
next
  case (no_instance m i k)
  then show ?case by - (rule stamps_frame [of m], auto split: if_splits)
next
  case (commit m i k e t c expires)
  then have "thread_key (sm_threads m i) = Some k" "thread_request (sm_threads m i) = Some (e, t)"
    by simp_all
  with commit(3) have "cache_epoch k (sm_store m) = e \<Longrightarrow> since_drop m k t"
    by (auto simp: stamps_ok_def requests_ok_def)
  with commit show ?case by - (rule stamps_frame [of m], auto split: if_splits)
next
  case (finish m i k)
  then have "thread_key (sm_threads m i) = Some k" by simp
  with finish(2) have "thread_key (sm_threads m j) \<noteq> Some k" if "j \<noteq> i" for j
    using that unfolding leaders_ok_def by blast
  with finish show ?case by - (rule stamps_frame [of m], auto split: if_splits)
next
  case (dropped m t b)
  let ?m = "m\<lparr>sm_store := drop_connector b t (sm_store m),
    sm_dropped := (sm_dropped m)((t, b) \<mapsto> sm_time m), sm_time := Suc (sm_time m)\<rparr>"
  have keep: "since_drop ?m k s = since_drop m k s" if "k \<noteq> (t, b)" for k s
    using that by (simp add: since_drop_def)
  have "times_ok ?m"
    using dropped(2) by (auto simp: stamps_ok_def times_ok_def less_Suc_eq)
  moreover have "cached_ok ?m"
    using dropped(2) keep by (auto simp: stamps_ok_def cached_ok_def)
  moreover have "requests_ok ?m"
    unfolding requests_ok_def
  proof (intro allI impI)
    fix j k e s
    assume *: "thread_key (sm_threads ?m j) = Some k" "thread_request (sm_threads ?m j) = Some (e, s)"
    then have old: "e \<le> cache_epoch k (sm_store m)" "cache_epoch k (sm_store m) = e \<longrightarrow> since_drop m k s"
      and "k \<in> st_pending_fetches (sm_store m)"
      using dropped by (auto simp: stamps_ok_def requests_ok_def leaders_ok_def)
    then show "e \<le> cache_epoch k (sm_store ?m) \<and> (cache_epoch k (sm_store ?m) = e \<longrightarrow> since_drop ?m k s)"
      using keep by (cases "k = (t, b)") auto
  qed
  ultimately show ?case by (simp add: stamps_ok_def)
qed

interpretation store_life: invariant_system store_step store_inv
  by unfold_locales (auto simp: store_inv_def leaders_step stamps_step)

lemma new_store_machine_inv: "store_inv new_store_machine"
  by (simp add: store_inv_def leaders_ok_def stamps_ok_def times_ok_def requests_ok_def cached_ok_def
      new_store_machine_def new_store_def)

text \<open>
  C6: a dropped configuration is never served again. When a tenant's connector
  configuration changes the store drops its key; whatever fetches were in flight, whatever
  threads lead them, an instance found in the cache after the drop was built from an answer to a
  request sent after it. And at most one thread at a time fetches a given key.
\<close>

theorem store_never_serves_dropped:
  assumes "reaches store_step new_store_machine m"
  shows "(sm_dropped m k = Some d \<longrightarrow> peek (snd k) (fst k) (sm_store m) = Some (c, t) \<longrightarrow> d < t) \<and>
     (sm_dropped m k = Some d \<longrightarrow> get_cached clock k (sm_store m) = Some (c, t) \<longrightarrow> d < t) \<and>
     (thread_key (sm_threads m i) = Some k \<longrightarrow> thread_key (sm_threads m j) = Some k \<longrightarrow> i = j)"
proof -
  have inv: "store_inv m"
    using assms new_store_machine_inv by (rule store_life.reaches_inv)
  have "d < t" if "sm_dropped m k = Some d" and "dict_get (st_cache (sm_store m)) k = Some (c, t)"
  proof -
    have "since_drop m k t"
      using inv that(2) unfolding store_inv_def stamps_ok_def cached_ok_def by blast
    with that(1) show ?thesis by (simp add: since_drop_def)
  qed
  moreover have "thread_key (sm_threads m i) = Some k \<longrightarrow> thread_key (sm_threads m j) = Some k \<longrightarrow> i = j"
    using inv unfolding store_inv_def leaders_ok_def by blast
  ultimately show ?thesis
    by (auto simp: peek_def dest: get_cached_Some)
qed

definition sample_connector :: Connector where
  "sample_connector = \<lparr>cn_backend = ''sms'', cn_tenant_uuid = ''t'', cn_provider_config = [],
     cn_connector_config = []\<rparr>"

theorem store_never_serves_dropped_witness:
  "\<exists>m :: store_machine. sm_dropped m (''t'', ''sms'') = Some 0 \<and>
     peek ''sms'' ''t'' (sm_store m) = Some (sample_connector, 1) \<and> (0::nat) < 1"
proof -
  define k :: CacheKey where "k = (''t'', ''sms'')"
  define mk where "mk = (\<lambda>cache expires pending th n. \<lparr>sm_store = \<lparr>st_cache = cache,
      st_expires_at = expires, st_cache_epoch = [], st_pending_fetches = pending, st_populated = False\<rparr>,
      sm_threads = (\<lambda>_. Out)(0 := th), sm_time = n, sm_dropped = [k \<mapsto> 0]\<rparr>)"
  let ?m5 = "mk [(k, sample_connector, 1)] [(k, 300)] {k} (Finishing k) 2"
  have "store_step new_store_machine (mk [] [] {} Out 1)"
    using store_step.dropped [of new_store_machine "''t''" "''sms''"]
    by (simp add: mk_def k_def new_store_machine_def new_store_def drop_connector_def evict_def
        Let_def fun_upd_def)
  moreover have "store_step (mk [] [] {} Out 1) (mk [] [] {k} (Leading k) 1)"
    using store_step.lead [of "mk [] [] {} Out 1" 0 1 k "sm_store (mk [] [] {k} Out 1)"]
    by (simp add: mk_def enter_lead get_cached_def)
  moreover have "store_step (mk [] [] {k} (Leading k) 1) (mk [] [] {k} (Requesting k 0 1) 2)"
    using store_step.send_request [of "mk [] [] {k} (Leading k) 1" 0 k]
    by (simp add: mk_def cache_epoch_def numeral_2_eq_2)
  moreover have "store_step (mk [] [] {k} (Requesting k 0 1) 2) (mk [] [] {k} (Loaded k 0 1 sample_connector) 2)"
    using store_step.answered [of "mk [] [] {k} (Requesting k 0 1) 2" 0 k 0 1 sample_connector]
    by (simp add: mk_def)
  moreover have "store_step (mk [] [] {k} (Loaded k 0 1 sample_connector) 2) ?m5"
    using store_step.commit [of "mk [] [] {k} (Loaded k 0 1 sample_connector) 2" 0 k 0 1 sample_connector 300]
    by (simp add: mk_def fetch_commit_def cache_epoch_def)
  ultimately have "reaches store_step new_store_machine ?m5"
    by (meson reaches.intros)
  from store_never_serves_dropped [OF this, where k = k and d = 0 and c = sample_connector and t = 1]
  have "(0::nat) < 1" by (simp add: mk_def peek_def k_def)
  then have "sm_dropped ?m5 (''t'', ''sms'') = Some 0 \<and>
      peek ''sms'' ''t'' (sm_store ?m5) = Some (sample_connector, 1) \<and> (0::nat) < 1"
    by (simp add: mk_def peek_def k_def)
  then show ?thesis by (rule exI)
qed

section \<open>One thread, one lookup\<close>

lemma provider_config_keeps:
  "st_pending_fetches (snd (provider_config rg env k st)) = st_pending_fetches st"
  "cache_epoch k' (snd (provider_config rg env k st)) = cache_epoch k' st"
  "dict_get (st_cache (snd (provider_config rg env k st))) k' \<in> {None, dict_get (st_cache st) k'}"
  "k' \<noteq> k \<Longrightarrow> dict_get (st_cache (snd (provider_config rg env k st))) k' = dict_get (st_cache st) k'"
  by (auto simp: provider_config_def split: sum.splits bool.splits exn.splits)

lemma do_fetch_Inr:
  assumes "do_fetch rg sc env k st = (Inr c, st')"
  shows "\<exists>st1. st' = fetch_commit (cache_epoch k st) k c
           (fe_commit_clock env + sc_cache_ttl sc * fe_jitter env) st1 \<and>
         cache_epoch k st1 = cache_epoch k st"
proof -
  obtain r st1 where pc: "provider_config rg env k st = (r, st1)" by (metis surj_pair)
  have "cache_epoch k st1 = cache_epoch k st"
    using provider_config_keeps(2) [of k rg env k st] by (simp add: pc)
  moreover have "st' = fetch_commit (cache_epoch k st) k c
      (fe_commit_clock env + sc_cache_ttl sc * fe_jitter env) st1"
    using assms by (auto simp: do_fetch_def Let_def pc split: if_splits sum.splits)
  ultimately show ?thesis by blast
qed

lemma store_get_leads:
  "get_cached (fe_get_clock env) (tenant, backend) st = None \<Longrightarrow>
   get_cached (fe_enter_clock env) (tenant, backend) st = None \<Longrightarrow>
   (tenant, backend) \<notin> st_pending_fetches st \<Longrightarrow>
   store_get rg sc env backend tenant st =
     (case do_fetch rg sc env (tenant, backend)
         (st\<lparr>st_pending_fetches := insert (tenant, backend) (st_pending_fetches st)\<rparr>) of
        (r, st2) \<Rightarrow> (r, fetch_finish (tenant, backend) st2))"
  by (simp add: store_get_def store_fetch_def fetch_enter_def)

lemma store_get_loads:
  assumes "get_cached (fe_get_clock env) (tenant, backend) st = None"
    and "get_cached (fe_enter_clock env) (tenant, backend) st = None"
    and "(tenant, backend) \<notin> st_pending_fetches st"
    and "store_get rg sc env backend tenant st = (Inr c, st')"
  shows "dict_get (st_cache st') (tenant, backend) = Some c"
    and "dict_get (st_expires_at st') (tenant, backend) =
      Some (fe_commit_clock env + sc_cache_ttl sc * fe_jitter env)"
proof -
  let ?k = "(tenant, backend)"
  obtain r st2 where d: "do_fetch rg sc env ?k
      (st\<lparr>st_pending_fetches := insert ?k (st_pending_fetches st)\<rparr>) = (r, st2)"
    by (metis surj_pair)
  with assms have "r = Inr c" and st': "st' = fetch_finish ?k st2"
    by (simp_all add: store_get_leads)
  with d obtain st1 e where "st2 = fetch_commit e ?k c
      (fe_commit_clock env + sc_cache_ttl sc * fe_jitter env) st1" "cache_epoch ?k st1 = e"
    by (metis do_fetch_Inr)
  then show "dict_get (st_cache st') ?k = Some c"
    and "dict_get (st_expires_at st') ?k = Some (fe_commit_clock env + sc_cache_ttl sc * fe_jitter env)"
    by (simp_all add: st' fetch_commit_def fetch_finish_def)
qed

text \<open>
  One lookup. A connector loaded by \<open>get\<close> is served to every later
  \<open>get\<close> within 0.8 times the TTL without asking wazo-auth, until it is dropped. When
  wazo-auth answers an HTTP error the key is evicted, and a 404 means the backend is not
  configured while any other status means the service is unavailable; without an answer the
  service is unavailable and what was cached is kept.
\<close>

theorem store_get_serves_cache:
  assumes "get_cached (fe_get_clock env) (tenant, backend) st = None"
    and "get_cached (fe_enter_clock env) (tenant, backend) st = None"
    and "(tenant, backend) \<notin> st_pending_fetches st"
    and "requires_auth rg backend = Inr True"
    and "0 \<le> sc_cache_ttl sc" and "4/5 \<le> fe_jitter env"
  shows "(store_get rg sc env backend tenant st = (Inr c, st') \<longrightarrow>
       fe_get_clock env' \<le> fe_commit_clock env + 4/5 * sc_cache_ttl sc \<longrightarrow>
       store_get rg sc env' backend tenant st' = (Inr c, st')) \<and>
     get_cached clock (tenant, backend) (drop_connector backend tenant st') = None \<and>
     (fe_answer env = Inl (HTTPError status) \<longrightarrow>
       fst (store_get rg sc env backend tenant st) =
         Inl (if status = Some 404 then BackendNotConfiguredException backend tenant
              else AuthServiceUnavailableException) \<and>
       peek backend tenant (snd (store_get rg sc env backend tenant st)) = None) \<and>
     (fe_answer env = Inl e \<and> e \<in> {ReadTimeout, RequestException} \<longrightarrow>
       fst (store_get rg sc env backend tenant st) = Inl AuthServiceUnavailableException \<and>
       st_cache (snd (store_get rg sc env backend tenant st)) = st_cache st)"
proof (intro conjI impI)
  assume get: "store_get rg sc env backend tenant st = (Inr c, st')"
    and clock: "fe_get_clock env' \<le> fe_commit_clock env + 4/5 * sc_cache_ttl sc"
  have "4/5 * sc_cache_ttl sc \<le> fe_jitter env * sc_cache_ttl sc"
    using assms(5,6) by (rule mult_right_mono [rotated])
  with clock have "fe_get_clock env' \<le> fe_commit_clock env + sc_cache_ttl sc * fe_jitter env"
    by (simp add: mult.commute)
  with store_get_loads [OF assms(1-3) get]
  have "get_cached (fe_get_clock env') (tenant, backend) st' = Some c"
    by (simp add: get_cached_def)
  then show "store_get rg sc env' backend tenant st' = (Inr c, st')"
    by (simp add: store_get_def)
next
  show "get_cached clock (tenant, backend) (drop_connector backend tenant st') = None"
    by (simp add: get_cached_def)
next
  have known: "backend \<in> set (available_backends rg)"
    using assms(4) by (auto simp: requires_auth_def get_entry_def available_backends_def
        dest!: map_of_SomeD split: option.splits intro: rev_image_eqI)
  note step = store_get_leads [OF assms(1-3)] do_fetch_def provider_config_def Let_def peek_def
  {
    assume "fe_answer env = Inl (HTTPError status)"
    then show "fst (store_get rg sc env backend tenant st) =
         Inl (if status = Some 404 then BackendNotConfiguredException backend tenant
              else AuthServiceUnavailableException)"
      and "peek backend tenant (snd (store_get rg sc env backend tenant st)) = None"
      using known assms(4) by (simp_all add: step)
  next
    assume "fe_answer env = Inl e \<and> e \<in> {ReadTimeout, RequestException}"
    then show "fst (store_get rg sc env backend tenant st) = Inl AuthServiceUnavailableException"
      and "st_cache (snd (store_get rg sc env backend tenant st)) = st_cache st"
      using known assms(4) by (auto simp: step)
  }
qed

theorem store_get_serves_cache_witness:
  "\<exists>st' :: Connector ConnectorStore. store_get sms_registry \<lparr>sc_cache_ttl = 300, sc_connectors_config = []\<rparr>
     \<lparr>fe_answer = Inl ReadTimeout, fe_get_clock = 340, fe_enter_clock = 340, fe_commit_clock = 340,
       fe_jitter = 1, fe_leader = Inl ReadTimeout\<rparr> ''sms'' ''t'' st' = (Inr sample_connector, st')"
proof -
  let ?sc = "\<lparr>sc_cache_ttl = 300, sc_connectors_config = []\<rparr>"
  let ?env = "\<lparr>fe_answer = Inr [], fe_get_clock = 100, fe_enter_clock = 100, fe_commit_clock = 101,
       fe_jitter = 1, fe_leader = Inl ReadTimeout\<rparr>"
  let ?env' = "\<lparr>fe_answer = Inl ReadTimeout, fe_get_clock = 340, fe_enter_clock = 340,
       fe_commit_clock = 340, fe_jitter = 1, fe_leader = Inl ReadTimeout\<rparr>"
  let ?st' = "\<lparr>st_cache = [((''t'', ''sms''), sample_connector)], st_expires_at = [((''t'', ''sms''), 401)],
       st_cache_epoch = [], st_pending_fetches = {}, st_populated = False\<rparr>"
  have auth: "requires_auth sms_registry ''sms'' = Inr True"
    by (simp add: requires_auth_def get_entry_def sms_registry_def)
  have entry: "available_backends sms_registry = [''sms'']" "get_backend sms_registry ''sms'' = Inr sms_class"
    by (simp_all add: available_backends_def get_backend_def get_entry_def sms_registry_def)
  have get: "store_get sms_registry ?sc ?env ''sms'' ''t'' new_store = (Inr sample_connector, ?st')"
    by (simp add: store_get_leads get_cached_def new_store_def do_fetch_def provider_config_def auth
        entry sms_class_def sample_connector_def fetch_commit_def fetch_finish_def cache_epoch_def Let_def)
  have start: "get_cached (fe_get_clock ?env) (''t'', ''sms'') new_store = None"
    "get_cached (fe_enter_clock ?env) (''t'', ''sms'') new_store = None"
    "(''t'', ''sms'') \<notin> st_pending_fetches new_store" and par: "0 \<le> sc_cache_ttl ?sc" "4/5 \<le> fe_jitter ?env"
    by (simp_all add: get_cached_def new_store_def)
  have "store_get sms_registry ?sc ?env' ''sms'' ''t'' ?st' = (Inr sample_connector, ?st')"
    using conjunct1 [OF store_get_serves_cache [where env' = ?env', OF start auth par], rule_format, OF get]
    by simp
  then show ?thesis by (rule exI)
qed

end
