(* ===== verification/IdentityQueries.thy ===== *)
theory IdentityQueries
  imports Integrity
begin

text \<open>
  \<open>database/queries/user_identity.py\<close> and \<open>database/queries/async_/user_identity.py\<close>: the
  identities of users on the connectors' backends. The collation that orders an ORDER BY and the
  case folding of a search are parameters.
\<close>

section \<open>Writing\<close>

definition ensure_tenant_and_user_exist :: "uuid \<Rightarrow> uuid \<Rightarrow> database \<Rightarrow> database" where
  "ensure_tenant_and_user_exist tenant user db =
     (let db1 = (if tenant \<in> tn_uuid ` set (tenants db) then db
                 else db\<lparr>tenants := tenants db @ [\<lparr>tn_uuid = tenant\<rparr>]\<rparr>)
      in if user \<in> us_uuid ` set (users db1) then db1
         else db1\<lparr>users := users db1 @ [\<lparr>us_uuid = user, us_tenant_uuid = tenant,
                us_state = UserUnavailable, us_status = None, us_do_not_disturb = False,
                us_last_activity = None\<rparr>]\<rparr>)"

definition duplicate_identity :: "UserIdentity \<Rightarrow> exn" where
  "duplicate_identity i = DuplicateIdentityException (ui_backend i) (ui_identity i) (ui_type i)"

definition identity_create :: "UserIdentity \<Rightarrow> database \<Rightarrow> exn + database" where
  "identity_create i db =
     (if ui_uuid i \<in> ui_uuid ` set (user_identities db) \<or>
         identity_key i \<in> identity_key ` set (user_identities db)
      then Inl (duplicate_identity i)
      else if ui_tenant_uuid i \<notin> tn_uuid ` set (tenants db) \<or> ui_user_uuid i \<notin> us_uuid ` set (users db)
      then Inl (IntegrityError False)
      else Inr (db\<lparr>user_identities := user_identities db @ [i]\<rparr>))"

text \<open>\<open>update\<close> flushes the row \<open>i\<close> as the service changed it (identity and extra).\<close>

definition identity_update :: "UserIdentity \<Rightarrow> database \<Rightarrow> exn + database" where
  "identity_update i db =
     (let rows = update_rows (\<lambda>j. ui_uuid j = ui_uuid i)
            (\<lambda>j. j\<lparr>ui_identity := ui_identity i, ui_extra := ui_extra i\<rparr>) (user_identities db)
      in if \<not> keyed identity_key rows then Inl (duplicate_identity i)
         else Inr (db\<lparr>user_identities := rows\<rparr>))"

definition identity_delete :: "UserIdentity \<Rightarrow> database \<Rightarrow> database" where
  "identity_delete i db = cascade_identities (\<lambda>j. ui_uuid j = ui_uuid i) db"

section \<open>Reading\<close>

definition of_user :: "uuid option \<Rightarrow> UserIdentity \<Rightarrow> bool" where
  "of_user user i \<longleftrightarrow> (case user of None \<Rightarrow> True | Some u \<Rightarrow> ui_user_uuid i = u)"

definition identity_get :: "uuid list \<Rightarrow> uuid \<Rightarrow> uuid option \<Rightarrow> database \<Rightarrow> exn + UserIdentity" where
  "identity_get tenant_uuids identity_uuid user db =
     (case List.find (\<lambda>i. ui_tenant_uuid i \<in> set tenant_uuids \<and> ui_uuid i = identity_uuid \<and> of_user user i)
             (user_identities db) of
        None \<Rightarrow> Inl (UnknownUserIdentityException identity_uuid)
      | Some i \<Rightarrow> Inr i)"

definition identity_find :: "uuid \<Rightarrow> uuid option \<Rightarrow> database \<Rightarrow> UserIdentity option" where
  "identity_find identity_uuid user db =
     List.find (\<lambda>i. ui_uuid i = identity_uuid \<and> of_user user i) (user_identities db)"

record identity_filter =
  if_search :: "string option"
  if_user_uuids :: "uuid list"
  if_backend :: "string option"
  if_type :: "string option"
  if_identity :: "string option"
  if_limit :: "nat option"
  if_offset :: "nat option"
  if_order :: string
  if_asc :: bool

definition build_list_query ::
  "uuid list option \<Rightarrow> uuid option \<Rightarrow> string list \<Rightarrow> string set \<Rightarrow> database \<Rightarrow> UserIdentity list" where
  "build_list_query tenant_uuids user backends types db =
     filter (\<lambda>i. (case tenant_uuids of None \<Rightarrow> True | Some ts \<Rightarrow> ui_tenant_uuid i \<in> set ts) \<and>
         of_user user i \<and> (backends \<noteq> [] \<longrightarrow> ui_backend i \<in> set backends) \<and>
         (types \<noteq> {} \<longrightarrow> ui_type i \<in> types))
       (user_identities db)"

definition contains_str :: "string \<Rightarrow> string \<Rightarrow> bool" where
  "contains_str whole part \<longleftrightarrow>
     (\<exists>n \<in> set [0 ..< Suc (length whole)]. take (length part) (drop n whole) = part)"

definition matches_opt :: "string option \<Rightarrow> string \<Rightarrow> bool" where
  "matches_opt want got \<longleftrightarrow> (case want of None \<Rightarrow> True | Some w \<Rightarrow> got = w)"

definition identity_list_filter ::
  "(string \<Rightarrow> string) \<Rightarrow> identity_filter \<Rightarrow> UserIdentity list \<Rightarrow> UserIdentity list" where
  "identity_list_filter fold_case f rows =
     filter (\<lambda>i. (case if_search f of None \<Rightarrow> True
                   | Some s \<Rightarrow> contains_str (fold_case (ui_identity i)) (fold_case s)) \<and>
         (if_user_uuids f \<noteq> [] \<longrightarrow> ui_user_uuid i \<in> set (if_user_uuids f)) \<and>
         matches_opt (if_backend f) (ui_backend i) \<and> matches_opt (if_type f) (ui_type i) \<and>
         matches_opt (if_identity f) (ui_identity i)) rows"

definition order_column :: "string \<Rightarrow> UserIdentity \<Rightarrow> string" where
  "order_column order i =
     (if order = ''uuid'' then ui_uuid i else if order = ''backend'' then ui_backend i
      else if order = ''type'' then ui_type i else ui_identity i)"

definition identity_paginate ::
  "(string \<Rightarrow> 'k :: linorder) \<Rightarrow> identity_filter \<Rightarrow> UserIdentity list \<Rightarrow> UserIdentity list" where
  "identity_paginate collate f rows =
     (let asc = sort_key (\<lambda>i. collate (order_column (if_order f) i)) rows;
          sorted = (if if_asc f then asc else rev asc);
          skipped = drop (case if_offset f of None \<Rightarrow> 0 | Some n \<Rightarrow> n) sorted
      in case if_limit f of None \<Rightarrow> skipped | Some n \<Rightarrow> take n skipped)"

definition identity_list ::
  "(string \<Rightarrow> 'k :: linorder) \<Rightarrow> (string \<Rightarrow> string) \<Rightarrow> uuid list option \<Rightarrow> uuid option \<Rightarrow> string list \<Rightarrow>
   string set \<Rightarrow> identity_filter \<Rightarrow> database \<Rightarrow> UserIdentity list" where
  "identity_list collate fold_case tenant_uuids user backends types f db =
     identity_paginate collate f
       (identity_list_filter fold_case f (build_list_query tenant_uuids user backends types db))"

definition identity_count ::
  "(string \<Rightarrow> string) \<Rightarrow> uuid list option \<Rightarrow> uuid option \<Rightarrow> string list \<Rightarrow> string set \<Rightarrow>
   identity_filter \<Rightarrow> database \<Rightarrow> nat" where
  "identity_count fold_case tenant_uuids user backends types f db =
     length (identity_list_filter fold_case f (build_list_query tenant_uuids user backends types db))"

definition find_tenant_by_identity :: "string \<Rightarrow> string \<Rightarrow> database \<Rightarrow> uuid option" where
  "find_tenant_by_identity identity backend db =
     map_option ui_tenant_uuid
       (List.find (\<lambda>i. ui_identity i = identity \<and> ui_backend i = backend) (user_identities db))"

definition has_identities_for_backend :: "uuid \<Rightarrow> string \<Rightarrow> database \<Rightarrow> bool" where
  "has_identities_for_backend tenant backend db \<longleftrightarrow>
     (\<exists>i \<in> set (user_identities db). ui_tenant_uuid i = tenant \<and> ui_backend i = backend)"

definition list_bound_identities :: "string list \<Rightarrow> uuid list \<Rightarrow> database \<Rightarrow> string set" where
  "list_bound_identities identities tenant_uuids db =
     ui_identity ` {i \<in> set (user_identities db). ui_identity i \<in> set identities \<and>
       ui_tenant_uuid i \<in> set tenant_uuids}"

text \<open>A dict comprehension over rows: the last row of a key wins, its first place is kept.\<close>

definition dict_of :: "('k \<times> 'v) list \<Rightarrow> ('k, 'v) dict" where
  "dict_of rows = fold (\<lambda>(k, v). dict_set k v) rows []"

definition list_identities_by_users :: "uuid list \<Rightarrow> string \<Rightarrow> database \<Rightarrow> (uuid, string) dict" where
  "list_identities_by_users user_uuids backend db =
     dict_of (map (\<lambda>i. (ui_user_uuid i, ui_identity i))
       (filter (\<lambda>i. ui_user_uuid i \<in> set user_uuids \<and> ui_backend i = backend) (user_identities db)))"

definition list_tenant_backends :: "database \<Rightarrow> (uuid \<times> string) list" where
  "list_tenant_backends db = remdups (map (\<lambda>i. (ui_tenant_uuid i, ui_backend i)) (user_identities db))"

definition list_types_by_users :: "uuid list \<Rightarrow> database \<Rightarrow> (uuid, string set) dict" where
  "list_types_by_users user_uuids db =
     dict_of (map (\<lambda>u. (u, ui_type ` {i \<in> set (user_identities db). ui_user_uuid i = u})) user_uuids)"

definition resolve_rows :: "(UserIdentity \<Rightarrow> bool) \<Rightarrow> string list \<Rightarrow> database \<Rightarrow> (string, User) dict" where
  "resolve_rows p identities db =
     dict_of (List.map_filter
       (\<lambda>i. map_option (Pair (ui_identity i)) (find_row us_uuid (ui_user_uuid i) (users db)))
       (filter (\<lambda>i. ui_identity i \<in> set identities \<and> p i) (user_identities db)))"

definition resolve_users_by_identities :: "string list \<Rightarrow> uuid option \<Rightarrow> database \<Rightarrow> (string, User) dict" where
  "resolve_users_by_identities identities tenant db =
     resolve_rows (\<lambda>i. case tenant of None \<Rightarrow> True | Some t \<Rightarrow> ui_tenant_uuid i = t) identities db"

text \<open>The asynchronous DAO: an empty \<open>backend\<close> filters nothing.\<close>

definition find_by_identity_and_backend :: "string \<Rightarrow> string \<Rightarrow> database \<Rightarrow> exn + UserIdentity option" where
  "find_by_identity_and_backend identity backend db =
     (case filter (\<lambda>i. ui_identity i = identity \<and> ui_backend i = backend) (user_identities db) of
        [] \<Rightarrow> Inr None
      | [i] \<Rightarrow> Inr (Some i)
      | _ \<Rightarrow> Inl (OtherException ''MultipleResultsFound''))"

definition async_resolve_users_by_identities ::
  "string list \<Rightarrow> string option \<Rightarrow> database \<Rightarrow> (string, User) dict" where
  "async_resolve_users_by_identities identities backend db =
     resolve_rows (\<lambda>i. case backend of None \<Rightarrow> True | Some b \<Rightarrow> b \<noteq> [] \<longrightarrow> ui_backend i = b) identities db"

definition async_identity_list ::
  "uuid list option \<Rightarrow> uuid option \<Rightarrow> string list \<Rightarrow> database \<Rightarrow> UserIdentity list" where
  "async_identity_list tenant_uuids user backends db = build_list_query tenant_uuids user backends {} db"

section \<open>Facts\<close>

lemma dict_of_snoc: "dict_of (rows @ [(k, v)]) = dict_set k v (dict_of rows)"
  by (simp add: dict_of_def)

lemma dict_of_Nil [simp]: "dict_of [] = []"
  by (simp add: dict_of_def)

lemma dict_of_get_in: "dict_get (dict_of rows) k = Some v \<Longrightarrow> (k, v) \<in> set rows"
proof (induction rows rule: rev_induct)
  case (snoc p rows)
  then show ?case by (cases p) (auto simp: dict_of_snoc split: if_splits)
qed simp

lemma dict_of_get_None: "dict_get (dict_of rows) k = None \<longleftrightarrow> k \<notin> fst ` set rows"
proof (induction rows rule: rev_induct)
  case (snoc p rows)
  then show ?case by (cases p) (auto simp: dict_of_snoc)
qed simp

lemma dict_of_function: "dict_get (dict_of (map (\<lambda>k. (k, f k)) ks)) k = (if k \<in> set ks then Some (f k) else None)"
  by (induction ks rule: rev_induct) (auto simp: dict_of_snoc)

lemma list_types_by_users_get:
  "dict_get (list_types_by_users us db) u =
     (if u \<in> set us then Some (ui_type ` {i \<in> set (user_identities db). ui_user_uuid i = u}) else None)"
  by (simp add: list_types_by_users_def dict_of_function)

lemma resolve_rows_Some:
  assumes "dict_get (resolve_rows p identities db) k = Some u"
  obtains i where "i \<in> set (user_identities db)" and "ui_identity i = k" and "p i"
    and "find_row us_uuid (ui_user_uuid i) (users db) = Some u" and "k \<in> set identities"
proof -
  from assms have "(k, u) \<in> set (List.map_filter
       (\<lambda>i. map_option (Pair (ui_identity i)) (find_row us_uuid (ui_user_uuid i) (users db)))
       (filter (\<lambda>i. ui_identity i \<in> set identities \<and> p i) (user_identities db)))"
    unfolding resolve_rows_def by (rule dict_of_get_in)
  then show ?thesis
    by (auto simp: List.map_filter_def intro: that)
qed

lemma resolve_rows_unique:
  assumes "chat_ok db" and "i \<in> set (user_identities db)" and "p i" and "ui_identity i \<in> set identities"
    and only: "\<And>j. j \<in> set (user_identities db) \<Longrightarrow> p j \<Longrightarrow> ui_identity j = ui_identity i \<Longrightarrow>
      ui_user_uuid j = ui_user_uuid i"
  shows "dict_get (resolve_rows p identities db) (ui_identity i) =
     find_row us_uuid (ui_user_uuid i) (users db)"
proof (cases "dict_get (resolve_rows p identities db) (ui_identity i)")
  case (Some u)
  then show ?thesis
    by (rule resolve_rows_Some) (metis Some only)
next
  case None
  obtain u where "find_row us_uuid (ui_user_uuid i) (users db) = Some u"
    using assms(1,2) by (cases "find_row us_uuid (ui_user_uuid i) (users db)")
      (auto simp: integrity_defs refs_def find_row_None_iff)
  with assms(2-4) None show ?thesis
    by (force simp: resolve_rows_def dict_of_get_None List.map_filter_def)
qed

lemma ensure_exists:
  "tenant \<in> tn_uuid ` set (tenants (ensure_tenant_and_user_exist tenant user db))"
  "user \<in> us_uuid ` set (users (ensure_tenant_and_user_exist tenant user db))"
  "user_identities (ensure_tenant_and_user_exist tenant user db) = user_identities db"
  by (auto simp: ensure_tenant_and_user_exist_def Let_def)

lemma ensure_ok:
  assumes "presence_ok db"
  shows "presence_ok (ensure_tenant_and_user_exist tenant user db)"
    and "chat_ok db \<Longrightarrow> chat_ok (ensure_tenant_and_user_exist tenant user db)"
  using assms
  by (auto simp: ensure_tenant_and_user_exist_def Let_def integrity_defs table_simps
      intro: refs_mono)

lemma identity_create_Inr:
  "identity_create i db = Inr db' \<longleftrightarrow> db' = db\<lparr>user_identities := user_identities db @ [i]\<rparr> \<and>
     ui_uuid i \<notin> ui_uuid ` set (user_identities db) \<and>
     identity_key i \<notin> identity_key ` set (user_identities db) \<and>
     ui_tenant_uuid i \<in> tn_uuid ` set (tenants db) \<and> ui_user_uuid i \<in> us_uuid ` set (users db)"
  unfolding identity_create_def by (simp only: split: if_splits) blast

lemma identity_create_ok:
  assumes "identity_create i db = Inr db'"
  shows "chat_ok db \<Longrightarrow> chat_ok db'" and "presence_ok db \<Longrightarrow> presence_ok db'"
  using assms unfolding identity_create_Inr
  by (auto simp: integrity_defs table_simps intro: refs_opt_mono)

lemma identity_update_ok:
  assumes "identity_update i db = Inr db'" and "chat_ok db"
  shows "chat_ok db'"
proof -
  let ?rows = "update_rows (\<lambda>j. ui_uuid j = ui_uuid i)
      (\<lambda>j. j\<lparr>ui_identity := ui_identity i, ui_extra := ui_extra i\<rparr>) (user_identities db)"
  have "keyed identity_key ?rows" and db': "db' = db\<lparr>user_identities := ?rows\<rparr>"
    using assms(1) by (auto simp: identity_update_def Let_def split: if_splits)
  moreover have "keyed ui_uuid ?rows"
    using assms(2) by (intro keyed_update) (simp_all add: integrity_defs)
  ultimately show ?thesis
    using assms(2) by (simp add: integrity_defs refs_update_rows)
qed

lemma identity_delete_ok:
  "chat_ok db \<Longrightarrow> chat_ok (identity_delete i db)" "presence_ok db \<Longrightarrow> presence_ok (identity_delete i db)"
  by (simp_all add: identity_delete_def cascade_identities_chat cascade_identities_presence)

text \<open>
  Binding an identity. Whatever the state of the presence tables, after
  \<open>ensure_tenant_and_user_exist\<close> creating an identity fails only because its uuid or its
  (backend, identity, type) is taken, and then as DuplicateIdentityException; otherwise it is
  found by uuid in its tenant, the user resolves from it, and every constraint still holds.
\<close>

theorem identity_create_binds:
  assumes "presence_ok db" and "chat_ok db"
    and "db1 = ensure_tenant_and_user_exist (ui_tenant_uuid i) (ui_user_uuid i) db"
  shows "case identity_create i db1 of
      Inl e \<Rightarrow> e = duplicate_identity i \<and>
        (\<exists>j \<in> set (user_identities db). ui_uuid j = ui_uuid i \<or> identity_key j = identity_key i)
    | Inr db2 \<Rightarrow> presence_ok db2 \<and> chat_ok db2 \<and>
        identity_get [ui_tenant_uuid i] (ui_uuid i) None db2 = Inr i \<and>
        ((\<forall>j \<in> set (user_identities db). ui_identity j \<noteq> ui_identity i) \<longrightarrow>
           map_option us_uuid (dict_get (resolve_users_by_identities [ui_identity i] None db2) (ui_identity i)) =
             Some (ui_user_uuid i))"
proof (cases "identity_create i db1")
  case (Inl e)
  then show ?thesis
    using ensure_exists [where tenant = "ui_tenant_uuid i" and user = "ui_user_uuid i" and db = db]
    unfolding assms(3) identity_create_def by (auto split: if_splits)
next
  case (Inr db2)
  have ids: "user_identities db1 = user_identities db"
    by (simp add: assms(3) ensure_exists)
  have ok: "presence_ok db2" "chat_ok db2"
    using Inr assms ensure_ok identity_create_ok by blast+
  have db2: "db2 = db1\<lparr>user_identities := user_identities db1 @ [i]\<rparr>"
    and new: "ui_uuid i \<notin> ui_uuid ` set (user_identities db)"
    and usr: "ui_user_uuid i \<in> us_uuid ` set (users db1)"
    using Inr by (simp_all add: identity_create_Inr ids)
  have "List.find (\<lambda>j. ui_tenant_uuid j = ui_tenant_uuid i \<and> ui_uuid j = ui_uuid i) (user_identities db) = None"
    using new unfolding find_None_iff by (metis image_eqI)
  then have "identity_get [ui_tenant_uuid i] (ui_uuid i) None db2 = Inr i"
    by (simp add: identity_get_def db2 ids find_append of_user_def)
  moreover have "map_option us_uuid (dict_get (resolve_users_by_identities [ui_identity i] None db2) (ui_identity i)) =
      Some (ui_user_uuid i)" if "\<forall>j \<in> set (user_identities db). ui_identity j \<noteq> ui_identity i"
  proof -
    have "dict_get (resolve_users_by_identities [ui_identity i] None db2) (ui_identity i) =
        find_row us_uuid (ui_user_uuid i) (users db2)"
      using that ok(2) unfolding resolve_users_by_identities_def
      by (intro resolve_rows_unique) (auto simp: db2 ids)
    moreover obtain u where "find_row us_uuid (ui_user_uuid i) (users db2) = Some u"
      using usr by (cases "find_row us_uuid (ui_user_uuid i) (users db2)") (auto simp: db2 find_row_None_iff)
    ultimately show ?thesis by (auto dest: find_row_Some_in)
  qed
  ultimately show ?thesis using Inr ok by simp
qed

definition sample_identity :: UserIdentity where
  "sample_identity = \<lparr>ui_uuid = ''i1'', ui_tenant_uuid = ''t'', ui_user_uuid = ''alice'',
     ui_backend = ''sms'', ui_type = ''sms'', ui_identity = ''+1555'', ui_extra = []\<rparr>"

theorem identity_create_binds_witness:
  "\<exists>db2. identity_create sample_identity (ensure_tenant_and_user_exist ''t'' ''alice'' empty_db) = Inr db2 \<and>
     identity_get [''t''] ''i1'' None db2 = Inr sample_identity"
proof -
  obtain db2 where c: "identity_create sample_identity (ensure_tenant_and_user_exist ''t'' ''alice'' empty_db) = Inr db2"
    by (simp add: identity_create_def sample_identity_def ensure_tenant_and_user_exist_def empty_db_def)
  have "ensure_tenant_and_user_exist ''t'' ''alice'' empty_db =
      ensure_tenant_and_user_exist (ui_tenant_uuid sample_identity) (ui_user_uuid sample_identity) empty_db"
    by (simp add: sample_identity_def)
  from identity_create_binds [OF empty_db_ok(1,2) this] c show ?thesis
    by (simp add: sample_identity_def)
qed

end
