(* ===== verification/RoomQueries.thy ===== *)
theory RoomQueries
  imports Integrity
begin

text \<open>
  \<open>database/queries/room.py\<close> and \<open>database/queries/async_/room.py\<close>: the queries on rooms,
  messages, metas and deliveries. A query without ORDER BY answers in insertion order; a generated
  uuid, \<open>now()\<close> and \<open>datetime.now\<close> (integer seconds) are arguments. Inserting a message
  with its meta, deliveries and records is one statement sequence shared by both DAOs,
  \<open>insert_message\<close>, with the constraint it violates as its error.
\<close>

section \<open>Rooms\<close>

definition violates_room :: "Room \<Rightarrow> database \<Rightarrow> bool option" where
  "violates_room r db =
     (if ro_uuid r \<in> ro_uuid ` set (rooms db) then Some True
      else if ro_tenant_uuid r \<notin> tn_uuid ` set (tenants db) then Some False
      else if \<exists>u \<in> set (ro_users r). ru_tenant_uuid u = None \<or> ru_wazo_uuid u = None then Some False
      else if \<not> keyed participant_key (ro_users r) then Some True
      else None)"

definition insert_room :: "Room \<Rightarrow> database \<Rightarrow> exn + database" where
  "insert_room r db =
     (case violates_room r db of
        Some unique \<Rightarrow> Inl (IntegrityError unique)
      | None \<Rightarrow> Inr (db\<lparr>rooms := rooms db @ [r]\<rparr>))"

definition room_get :: "uuid list \<Rightarrow> uuid \<Rightarrow> database \<Rightarrow> exn + Room" where
  "room_get tenant_uuids room_uuid db =
     (case List.find (\<lambda>r. ro_tenant_uuid r \<in> set tenant_uuids \<and> ro_uuid r = room_uuid) (rooms db) of
        None \<Rightarrow> Inl (UnknownRoomException room_uuid)
      | Some r \<Rightarrow> Inr r)"

text \<open>A room without participants has no group in the sub-query, so it matches no user filter.\<close>

definition room_matches :: "uuid list \<Rightarrow> bool \<Rightarrow> Room \<Rightarrow> bool" where
  "room_matches user_uuids exact r \<longleftrightarrow>
     ro_users r \<noteq> [] \<and> set user_uuids \<subseteq> ru_uuid ` set (ro_users r) \<and>
     (exact \<longrightarrow> ru_uuid ` set (ro_users r) \<subseteq> set user_uuids)"

definition list_rooms ::
  "uuid list option \<Rightarrow> uuid list option \<Rightarrow> bool \<Rightarrow> database \<Rightarrow> Room list" where
  "list_rooms tenant_uuids user_uuids exact db =
     (let q = (case user_uuids of
                 None \<Rightarrow> rooms db
               | Some [] \<Rightarrow> rooms db
               | Some us \<Rightarrow> filter (room_matches us exact) (rooms db))
      in case tenant_uuids of
           None \<Rightarrow> q
         | Some ts \<Rightarrow> filter (\<lambda>r. ro_tenant_uuid r \<in> set ts) q)"

definition count_rooms :: "uuid list option \<Rightarrow> uuid list option \<Rightarrow> bool \<Rightarrow> database \<Rightarrow> nat" where
  "count_rooms tenant_uuids user_uuids exact db = length (list_rooms tenant_uuids user_uuids exact db)"

definition room_of :: "database \<Rightarrow> uuid \<Rightarrow> Room option" where
  "room_of db u = find_row ro_uuid u (rooms db)"

definition message_of :: "database \<Rightarrow> uuid \<Rightarrow> RoomMessage option" where
  "message_of db u = find_row rm_uuid u (room_messages db)"

definition meta_of :: "database \<Rightarrow> uuid \<Rightarrow> MessageMeta option" where
  "meta_of db u = find_row mm_message_uuid u (message_metas db)"

definition delivery_of :: "database \<Rightarrow> nat \<Rightarrow> MessageDelivery option" where
  "delivery_of db i = find_row md_id i (message_deliveries db)"

section \<open>Inserting a message\<close>

record NewDelivery =
  nd_recipient_identity :: string
  nd_backend :: string
  nd_type :: string
  nd_external_id :: "string option"
  nd_status :: DeliveryStatus

record NewMeta =
  nm_sender_identity_uuid :: "uuid option"
  nm_extra :: "(string, string) dict"
  nm_deliveries :: "NewDelivery list"

text \<open>The rows of the deliveries and of their initial records, with the ids of the sequences.\<close>

definition delivery_rows :: "uuid \<Rightarrow> NewDelivery list \<Rightarrow> database \<Rightarrow> MessageDelivery list" where
  "delivery_rows m ds db =
     map (\<lambda>(i, d). \<lparr>md_id = i, md_message_uuid = m, md_recipient_identity = nd_recipient_identity d,
            md_backend = nd_backend d, md_type = nd_type d, md_external_id = nd_external_id d,
            md_retry_count = 0\<rparr>)
       (enumerate (next_delivery_id db) ds)"

definition record_rows :: "int \<Rightarrow> NewDelivery list \<Rightarrow> database \<Rightarrow> DeliveryRecord list" where
  "record_rows now ds db =
     map (\<lambda>(i, d). \<lparr>dr_id = next_record_id db + i, dr_delivery_id = next_delivery_id db + i,
            dr_status = nd_status d, dr_reason = None, dr_timestamp = now\<rparr>)
       (enumerate 0 ds)"

definition violates_delivery :: "MessageDelivery list \<Rightarrow> database \<Rightarrow> bool" where
  "violates_delivery new db \<longleftrightarrow>
     \<not> keyed recipient_key (message_deliveries db @ new) \<or>
     \<not> keyed external_key (filter (\<lambda>d. md_external_id d \<noteq> None) (message_deliveries db @ new))"

definition violates_message :: "RoomMessage \<Rightarrow> NewMeta option \<Rightarrow> database \<Rightarrow> bool option" where
  "violates_message m meta db =
     (if rm_uuid m \<in> rm_uuid ` set (room_messages db) then Some True
      else if rm_room_uuid m \<notin> ro_uuid ` set (rooms db) then Some False
      else case meta of
             None \<Rightarrow> None
           | Some nm \<Rightarrow>
               if (case nm_sender_identity_uuid nm of
                     None \<Rightarrow> False | Some u \<Rightarrow> u \<notin> ui_uuid ` set (user_identities db)) then Some False
               else if violates_delivery (delivery_rows (rm_uuid m) (nm_deliveries nm) db) db then Some True
               else None)"

definition store_message :: "int \<Rightarrow> RoomMessage \<Rightarrow> NewMeta option \<Rightarrow> database \<Rightarrow> database" where
  "store_message now m meta db =
     (case meta of
        None \<Rightarrow> db\<lparr>room_messages := room_messages db @ [m]\<rparr>
      | Some nm \<Rightarrow>
          db\<lparr>room_messages := room_messages db @ [m],
             message_metas := message_metas db @
               [\<lparr>mm_message_uuid = rm_uuid m, mm_sender_identity_uuid = nm_sender_identity_uuid nm,
                 mm_extra = nm_extra nm\<rparr>],
             message_deliveries := message_deliveries db @ delivery_rows (rm_uuid m) (nm_deliveries nm) db,
             delivery_records := delivery_records db @ record_rows now (nm_deliveries nm) db,
             next_delivery_id := next_delivery_id db + length (nm_deliveries nm),
             next_record_id := next_record_id db + length (nm_deliveries nm)\<rparr>)"

definition insert_message :: "int \<Rightarrow> RoomMessage \<Rightarrow> NewMeta option \<Rightarrow> database \<Rightarrow> exn + database" where
  "insert_message now m meta db =
     (case violates_message m meta db of
        Some unique \<Rightarrow> Inl (IntegrityError unique)
      | None \<Rightarrow> Inr (store_message now m meta db))"

section \<open>Synchronous DAO\<close>

text \<open>\<open>add_message\<close> sets the message's room (through \<open>room.messages\<close>).\<close>

definition room_add_message ::
  "int \<Rightarrow> Room \<Rightarrow> RoomMessage \<Rightarrow> NewMeta option \<Rightarrow> database \<Rightarrow> exn + database" where
  "room_add_message now r m meta db = insert_message now (m\<lparr>rm_room_uuid := ro_uuid r\<rparr>) meta db"

definition pending_meta ::
  "string list \<Rightarrow> string \<Rightarrow> string \<Rightarrow> uuid option \<Rightarrow> (string, string) dict \<Rightarrow> NewMeta" where
  "pending_meta recipients backend ty sender_identity extra =
     \<lparr>nm_sender_identity_uuid = sender_identity, nm_extra = extra,
      nm_deliveries = map (\<lambda>r. \<lparr>nd_recipient_identity = r, nd_backend = backend, nd_type = ty,
                                nd_external_id = None, nd_status = PENDING\<rparr>) recipients\<rparr>"

text \<open>
  \<open>prepare_pending_delivery\<close>: the message, its meta and one PENDING delivery per recipient,
  and the ids that go to the \<open>connector_delivery\<close> channel when the transaction commits.
\<close>

definition prepare_pending_delivery ::
  "int \<Rightarrow> RoomMessage \<Rightarrow> string list \<Rightarrow> string \<Rightarrow> string \<Rightarrow> uuid option \<Rightarrow> (string, string) dict \<Rightarrow>
   database \<Rightarrow> exn + database \<times> nat list" where
  "prepare_pending_delivery now m recipients backend ty sender_identity extra db =
     (let meta = pending_meta recipients backend ty sender_identity extra in
      case insert_message now m (Some meta) db of
        Inl e \<Rightarrow> Inl e
      | Inr db' \<Rightarrow> Inr (db', map md_id (delivery_rows (rm_uuid m) (nm_deliveries meta) db)))"

definition find_tenant_by_external_id :: "string \<Rightarrow> string \<Rightarrow> database \<Rightarrow> uuid option" where
  "find_tenant_by_external_id external_id backend db =
     map_option rm_tenant_uuid
       (List.find (\<lambda>m. \<exists>d \<in> set (message_deliveries db). md_message_uuid d = rm_uuid m \<and>
            md_external_id d = Some external_id \<and> md_backend d = backend) (room_messages db))"

section \<open>Listing messages\<close>

definition has_delivered :: "database \<Rightarrow> uuid \<Rightarrow> bool" where
  "has_delivered db m \<longleftrightarrow>
     (\<exists>d \<in> set (message_deliveries db). md_message_uuid d = m \<and>
        (\<exists>r \<in> set (delivery_records db). dr_delivery_id r = md_id d \<and> dr_status r = DELIVERED))"

definition visible_to :: "database \<Rightarrow> uuid \<Rightarrow> RoomMessage \<Rightarrow> bool" where
  "visible_to db viewer m \<longleftrightarrow> rm_user_uuid m = viewer \<or> meta_of db (rm_uuid m) = None \<or>
     (meta_of db (rm_uuid m) \<noteq> None \<and> has_delivered db (rm_uuid m))"

record message_filter =
  mf_search :: "string list option"     \<comment> \<open>the words of \<open>search.split(' ')\<close>\<close>
  mf_from_date :: "int option"
  mf_distinct :: bool                   \<comment> \<open>\<open>distinct='room_uuid'\<close>, its only legal value\<close>
  mf_limit :: "nat option"
  mf_offset :: "nat option"
  mf_asc :: bool

text \<open>
  \<open>DISTINCT ON (room_uuid) ... ORDER BY room_uuid, created_at DESC\<close> keeps the newest message of
  each room. \<open>like\<close> is PostgreSQL's \<open>unaccent(content) ILIKE %w1%w2%\<close>.
\<close>

fun first_of_room :: "uuid set \<Rightarrow> RoomMessage list \<Rightarrow> RoomMessage list" where
  "first_of_room seen [] = []"
| "first_of_room seen (m # ms) =
     (if rm_room_uuid m \<in> seen then first_of_room seen ms
      else m # first_of_room (insert (rm_room_uuid m) seen) ms)"

definition distinct_rooms :: "RoomMessage list \<Rightarrow> RoomMessage list" where
  "distinct_rooms ms = first_of_room {} (sort_key (\<lambda>m. - rm_created_at m) ms)"

definition list_filter :: "(string list \<Rightarrow> body option \<Rightarrow> bool) \<Rightarrow> message_filter \<Rightarrow> RoomMessage list \<Rightarrow> RoomMessage list" where
  "list_filter like f ms =
     (let q1 = (if mf_distinct f then distinct_rooms ms else ms);
          q2 = (case mf_search f of
                  None \<Rightarrow> q1
                | Some words \<Rightarrow> filter (\<lambda>m. like (filter (\<lambda>w. w \<noteq> []) words) (rm_content m)) q1)
      in case mf_from_date f of None \<Rightarrow> q2 | Some t \<Rightarrow> filter (\<lambda>m. rm_created_at m \<ge> t) q2)"

definition paginate :: "message_filter \<Rightarrow> RoomMessage list \<Rightarrow> RoomMessage list" where
  "paginate f ms =
     (let sorted = sort_key (\<lambda>m. if mf_asc f then rm_created_at m else - rm_created_at m) ms;
          skipped = drop (case mf_offset f of None \<Rightarrow> 0 | Some n \<Rightarrow> n) sorted
      in case mf_limit f of None \<Rightarrow> skipped | Some n \<Rightarrow> take n skipped)"

definition room_messages_query :: "uuid \<Rightarrow> uuid option \<Rightarrow> database \<Rightarrow> RoomMessage list" where
  "room_messages_query room_uuid viewer db =
     (let q = filter (\<lambda>m. rm_room_uuid m = room_uuid) (room_messages db)
      in case viewer of None \<Rightarrow> q | Some v \<Rightarrow> filter (visible_to db v) q)"

definition list_messages ::
  "(string list \<Rightarrow> body option \<Rightarrow> bool) \<Rightarrow> uuid \<Rightarrow> uuid option \<Rightarrow> message_filter \<Rightarrow> database \<Rightarrow> RoomMessage list" where
  "list_messages like room_uuid viewer f db =
     paginate f (list_filter like f (room_messages_query room_uuid viewer db))"

definition count_messages ::
  "(string list \<Rightarrow> body option \<Rightarrow> bool) \<Rightarrow> uuid \<Rightarrow> uuid option \<Rightarrow> message_filter \<Rightarrow> database \<Rightarrow> nat" where
  "count_messages like room_uuid viewer f db =
     length (list_filter like f (room_messages_query room_uuid viewer db))"

text \<open>One row per participant entry of the user; the ORM returns each message once.\<close>

definition user_messages_query :: "uuid \<Rightarrow> uuid \<Rightarrow> database \<Rightarrow> RoomMessage list" where
  "user_messages_query tenant user db =
     filter (\<lambda>m. case room_of db (rm_room_uuid m) of
               None \<Rightarrow> False
             | Some r \<Rightarrow> \<exists>u \<in> set (ro_users r). ru_tenant_uuid u = Some tenant \<and> ru_uuid u = user)
       (room_messages db)"

definition list_user_messages ::
  "(string list \<Rightarrow> body option \<Rightarrow> bool) \<Rightarrow> uuid \<Rightarrow> uuid \<Rightarrow> message_filter \<Rightarrow> database \<Rightarrow> RoomMessage list" where
  "list_user_messages like tenant user f db =
     paginate f (list_filter like f (filter (visible_to db user) (user_messages_query tenant user db)))"

definition count_user_messages ::
  "(string list \<Rightarrow> body option \<Rightarrow> bool) \<Rightarrow> uuid \<Rightarrow> uuid \<Rightarrow> message_filter \<Rightarrow> database \<Rightarrow> nat" where
  "count_user_messages like tenant user f db =
     length (list_filter like f (filter (visible_to db user) (user_messages_query tenant user db)))"

section \<open>Asynchronous DAO\<close>

fun terminal_status :: "DeliveryStatus \<Rightarrow> bool" where
  "terminal_status DELIVERED = True"
| "terminal_status FAILED = True"
| "terminal_status DEAD_LETTER = True"
| "terminal_status _ = False"

definition pending_external :: "uuid \<Rightarrow> string \<Rightarrow> database \<Rightarrow> MessageDelivery \<Rightarrow> (int \<times> string) option" where
  "pending_external tenant backend db d =
     (case (meta_of db (md_message_uuid d), message_of db (md_message_uuid d),
            latest_by_id db (md_id d), md_external_id d) of
        (Some _, Some m, Some r, Some x) \<Rightarrow>
          if rm_tenant_uuid m = tenant \<and> md_backend d = backend \<and> \<not> terminal_status (dr_status r)
          then Some (rm_created_at m, x) else None
      | _ \<Rightarrow> None)"

definition list_pending_external_ids :: "uuid \<Rightarrow> string \<Rightarrow> nat \<Rightarrow> database \<Rightarrow> string list" where
  "list_pending_external_ids tenant backend limit db =
     take limit (map snd (sort_key fst
       (List.map_filter (pending_external tenant backend db) (message_deliveries db))))"

text \<open>\<open>locked\<close>: another transaction holds the row (\<open>FOR UPDATE SKIP LOCKED\<close>).\<close>

definition get_message_delivery :: "nat \<Rightarrow> (nat \<Rightarrow> bool) \<Rightarrow> database \<Rightarrow> MessageDelivery option" where
  "get_message_delivery delivery_id locked db =
     (if locked delivery_id then None else delivery_of db delivery_id)"

definition get_message_meta_by_external_id :: "string \<Rightarrow> string \<Rightarrow> database \<Rightarrow> MessageMeta option" where
  "get_message_meta_by_external_id external_id backend db =
     List.find (\<lambda>mm. \<exists>d \<in> set (message_deliveries db). md_message_uuid d = mm_message_uuid mm \<and>
        md_external_id d = Some external_id \<and> md_backend d = backend) (message_metas db)"

definition add_delivery_record ::
  "int \<Rightarrow> nat \<Rightarrow> DeliveryStatus \<Rightarrow> string option \<Rightarrow> database \<Rightarrow> DeliveryRecord \<times> database" where
  "add_delivery_record now delivery_id status reason db =
     (let r = \<lparr>dr_id = next_record_id db, dr_delivery_id = delivery_id, dr_status = status,
               dr_reason = reason, dr_timestamp = now\<rparr>
      in (r, db\<lparr>delivery_records := delivery_records db @ [r],
                next_record_id := Suc (next_record_id db)\<rparr>))"

text \<open>
  \<open>add_message\<close> of the asynchronous DAO names the delivery that has an external id when the
  insert fails on a unique constraint; its caller sees the session rolled back.
\<close>

definition async_add_message ::
  "int \<Rightarrow> Room \<Rightarrow> RoomMessage \<Rightarrow> NewMeta option \<Rightarrow> database \<Rightarrow> exn + database" where
  "async_add_message now r m meta db =
     (case insert_message now (m\<lparr>rm_room_uuid := ro_uuid r\<rparr>) meta db of
        Inl (IntegrityError True) \<Rightarrow>
          (case meta of
             None \<Rightarrow> Inl (IntegrityError True)
           | Some nm \<Rightarrow>
               (case List.find (\<lambda>d. nd_external_id d \<noteq> None) (nm_deliveries nm) of
                  None \<Rightarrow> Inl (IntegrityError True)
                | Some d \<Rightarrow> Inl (DuplicateExternalIdException (the (nd_external_id d)) (nd_backend d))))
      | r \<Rightarrow> r)"

definition find_matching_signature :: "int \<Rightarrow> uuid \<Rightarrow> string \<Rightarrow> int \<Rightarrow> database \<Rightarrow> MessageMeta option" where
  "find_matching_signature now room_uuid signature window db =
     (case sort_key (\<lambda>m. - rm_created_at m)
             (filter (\<lambda>m. rm_room_uuid m = room_uuid \<and> rm_created_at m > now - window \<and>
                (case meta_of db (rm_uuid m) of
                   None \<Rightarrow> False | Some mm \<Rightarrow> dict_get (mm_extra mm) ''message_signature'' = Some signature))
               (room_messages db)) of
        [] \<Rightarrow> None
      | m # _ \<Rightarrow> meta_of db (rm_uuid m))"

definition check_duplicate_idempotency_key ::
  "int \<Rightarrow> string \<Rightarrow> string \<Rightarrow> string \<Rightarrow> string \<Rightarrow> int \<Rightarrow> database \<Rightarrow> bool" where
  "check_duplicate_idempotency_key now key recipient backend ty window db =
     (case List.find (\<lambda>i. ui_identity i = recipient \<and> ui_backend i = backend \<and> ui_type i = ty)
             (user_identities db) of
        None \<Rightarrow> False
      | Some i \<Rightarrow>
          \<exists>m \<in> set (room_messages db). rm_tenant_uuid m = ui_tenant_uuid i \<and> rm_created_at m \<ge> now - window \<and>
            (case meta_of db (rm_uuid m) of
               None \<Rightarrow> False
             | Some mm \<Rightarrow> dict_get (mm_extra mm) ''inbound_idempotency_key'' = Some key) \<and>
            (\<exists>d \<in> set (message_deliveries db). md_message_uuid d = rm_uuid m \<and> md_backend d = backend))"

text \<open>\<open>scalar_one_or_none\<close>: more than one room is SQLAlchemy's MultipleResultsFound.\<close>

definition exact_room :: "uuid \<Rightarrow> uuid list \<Rightarrow> Room \<Rightarrow> bool" where
  "exact_room tenant participants r \<longleftrightarrow> ro_tenant_uuid r = tenant \<and> ro_users r \<noteq> [] \<and>
     length (ro_users r) = length participants \<and>
     length (filter (\<lambda>u. ru_uuid u \<in> set participants) (ro_users r)) = length participants"

definition find_room :: "uuid \<Rightarrow> RoomUser list \<Rightarrow> database \<Rightarrow> exn + Room option" where
  "find_room tenant participants db =
     (case filter (exact_room tenant (map ru_uuid participants)) (rooms db) of
        [] \<Rightarrow> Inr None
      | [r] \<Rightarrow> Inr (Some r)
      | _ \<Rightarrow> Inl (OtherException ''MultipleResultsFound''))"

definition create_room :: "uuid \<Rightarrow> uuid \<Rightarrow> RoomUser list \<Rightarrow> database \<Rightarrow> exn + Room \<times> database" where
  "create_room new_uuid tenant participants db =
     (let r = \<lparr>ro_uuid = new_uuid, ro_name = None, ro_tenant_uuid = tenant, ro_users = participants\<rparr>
      in map_sum id (Pair r) (insert_room r db))"

definition recoverable :: "database \<Rightarrow> MessageDelivery \<Rightarrow> (MessageDelivery \<times> DeliveryStatus) option" where
  "recoverable db d =
     (case latest_by_id db (md_id d) of
        None \<Rightarrow> None
      | Some r \<Rightarrow> if dr_status r \<in> {PENDING, RETRYING} then Some (d, dr_status r) else None)"

definition get_recoverable_deliveries :: "database \<Rightarrow> (MessageDelivery \<times> DeliveryStatus) list" where
  "get_recoverable_deliveries db = List.map_filter (recoverable db) (message_deliveries db)"

section \<open>Inserts keep the schema\<close>

lemma map_enumerate_rows:
  assumes "\<And>i d. f (g i d) = h i"
  shows "map f (map (\<lambda>(i, d). g i d) (enumerate n ds)) = map h [n ..< n + length ds]"
proof -
  have "map f (map (\<lambda>(i, d). g i d) (enumerate n ds)) = map h (map fst (enumerate n ds))"
    unfolding map_map by (rule map_cong [OF refl]) (auto simp: assms)
  then show ?thesis by simp
qed

lemma delivery_rows_ids: "map md_id (delivery_rows m ds db) = [next_delivery_id db ..< next_delivery_id db + length ds]"
  unfolding delivery_rows_def by (subst map_enumerate_rows [where h = id]) simp_all

lemma delivery_rows_message: "d \<in> set (delivery_rows m ds db) \<Longrightarrow> md_message_uuid d = m"
  by (auto simp: delivery_rows_def)

lemma record_rows_ids:
  "map dr_id (record_rows now ds db) = map (\<lambda>i. next_record_id db + i) [0 ..< length ds]"
  "map dr_delivery_id (record_rows now ds db) = map (\<lambda>i. next_delivery_id db + i) [0 ..< length ds]"
proof -
  show "map dr_id (record_rows now ds db) = map (\<lambda>i. next_record_id db + i) [0 ..< length ds]"
    unfolding record_rows_def
    by (subst map_enumerate_rows [where h = "\<lambda>i. next_record_id db + i"]) simp_all
  show "map dr_delivery_id (record_rows now ds db) = map (\<lambda>i. next_delivery_id db + i) [0 ..< length ds]"
    unfolding record_rows_def
    by (subst map_enumerate_rows [where h = "\<lambda>i. next_delivery_id db + i"]) simp_all
qed

lemma delivery_rows_id_in:
  "d \<in> set (delivery_rows m ds db) \<Longrightarrow>
     next_delivery_id db \<le> md_id d \<and> md_id d < next_delivery_id db + length ds"
  using arg_cong [OF delivery_rows_ids, of set m ds db] by (auto simp: set_eq_iff image_iff)

lemma record_rows_in:
  assumes "r \<in> set (record_rows now ds db)"
  shows "next_record_id db \<le> dr_id r \<and> dr_id r < next_record_id db + length ds"
    and "dr_delivery_id r \<in> md_id ` set (delivery_rows m ds db)"
proof -
  have "dr_id r \<in> set (map dr_id (record_rows now ds db))"
    and d: "dr_delivery_id r \<in> set (map dr_delivery_id (record_rows now ds db))"
    using assms by simp_all
  then show "next_record_id db \<le> dr_id r \<and> dr_id r < next_record_id db + length ds"
    by (auto simp: record_rows_ids)
  have "set (map dr_delivery_id (record_rows now ds db)) = set (map md_id (delivery_rows m ds db))"
    unfolding record_rows_ids delivery_rows_ids
    by (simp add: image_add_atLeastLessThan add.commute)
  with d show "dr_delivery_id r \<in> md_id ` set (delivery_rows m ds db)" by simp
qed

lemma fresh_rows_keyed:
  "keyed md_id (delivery_rows m ds db)" "keyed dr_id (record_rows now ds db)"
  by (simp_all add: keyed_def delivery_rows_ids record_rows_ids distinct_map)

lemma keyed_fresh_append:
  fixes key :: "'r \<Rightarrow> nat"
  assumes "keyed key rows" and "keyed key new" and "\<And>r. r \<in> set rows \<Longrightarrow> key r < n"
    and "\<And>r. r \<in> set new \<Longrightarrow> n \<le> key r"
  shows "keyed key (rows @ new)"
  using assms by (fastforce simp: keyed_append dest: leD)

lemma insert_message_Inr:
  "insert_message now m meta db = Inr db' \<longleftrightarrow>
     violates_message m meta db = None \<and> db' = store_message now m meta db"
  by (auto simp: insert_message_def split: option.splits)

lemma store_message_ok:
  assumes "violates_message m meta db = None" and ok: "chat_ok db"
  shows "chat_ok (store_message now m meta db)"
proof (cases meta)
  case None
  with assms show ?thesis
    by (auto simp: violates_message_def store_message_def integrity_defs refs_def table_simps
        split: if_splits)
next
  case (Some nm)
  let ?ds = "delivery_rows (rm_uuid m) (nm_deliveries nm) db"
  let ?rs = "record_rows now (nm_deliveries nm) db"
  have new: "rm_uuid m \<notin> rm_uuid ` set (room_messages db)"
    and room: "rm_room_uuid m \<in> ro_uuid ` set (rooms db)"
    and sender: "case nm_sender_identity_uuid nm of None \<Rightarrow> True | Some u \<Rightarrow> u \<in> ui_uuid ` set (user_identities db)"
    and dlv: "keyed recipient_key (message_deliveries db @ ?ds)"
      "keyed external_key (filter (\<lambda>d. md_external_id d \<noteq> None) (message_deliveries db @ ?ds))"
    using assms(1) Some
    by (auto simp: violates_message_def violates_delivery_def split: if_splits option.splits)
  have "keyed md_id (message_deliveries db @ ?ds)"
    using ok by (intro keyed_fresh_append [where n = "next_delivery_id db"])
      (auto simp: integrity_defs fresh_rows_keyed dest: delivery_rows_id_in)
  moreover have "keyed dr_id (delivery_records db @ ?rs)"
    using ok by (intro keyed_fresh_append [where n = "next_record_id db"])
      (auto simp: integrity_defs fresh_rows_keyed dest: record_rows_in(1))
  moreover have "rm_uuid m \<notin> mm_message_uuid ` set (message_metas db)"
    using ok new by (auto simp: integrity_defs refs_def)
  ultimately have "chat_keys (store_message now m meta db)"
    using ok new dlv Some by (simp add: store_message_def integrity_defs table_simps)
  moreover have "refs md_message_uuid ?ds {rm_uuid m}"
    by (simp add: refs_def delivery_rows_message)
  moreover have "refs dr_delivery_id ?rs (md_id ` set ?ds)"
    by (simp add: refs_def record_rows_in(2) [where m = "rm_uuid m"])
  ultimately have "chat_keys (store_message now m meta db)" "chat_refs (store_message now m meta db)"
    using ok room sender Some
    by (simp, auto simp: store_message_def integrity_defs refs_def refs_opt_def split: option.splits)
  moreover have "ids_below (store_message now m meta db)"
    using ok Some by (auto simp: store_message_def integrity_defs
        dest!: delivery_rows_id_in record_rows_in(1))
  moreover have "participants_ok (store_message now m meta db)"
    using ok Some by (simp add: store_message_def integrity_defs)
  ultimately show ?thesis by (simp add: chat_ok_def)
qed

lemma insert_message_ok: "insert_message now m meta db = Inr db' \<Longrightarrow> chat_ok db \<Longrightarrow> chat_ok db'"
  by (auto simp: insert_message_Inr store_message_ok)

lemma insert_room_ok:
  assumes "insert_room r db = Inr db'" and "chat_ok db"
  shows "chat_ok db'"
  using assms
  by (auto simp: insert_room_def violates_room_def integrity_defs room_ok_def list_all_iff table_simps refs_def
      split: option.splits if_splits)

lemma add_delivery_record_ok:
  assumes "chat_ok db" and "delivery_id \<in> md_id ` set (message_deliveries db)"
  shows "chat_ok (snd (add_delivery_record now delivery_id status reason db))"
  using assms
  by (auto simp: add_delivery_record_def Let_def integrity_defs table_simps refs_def)

lemma add_delivery_record_log:
  "delivery_log (snd (add_delivery_record now i status reason db)) j =
     delivery_log db j @ (if j = i then [fst (add_delivery_record now i status reason db)] else [])"
  by (simp add: add_delivery_record_def Let_def delivery_log_def)

text \<open>While the clock does not go back the new record is the current status.\<close>

definition clock_ok :: "int \<Rightarrow> database \<Rightarrow> bool" where
  "clock_ok now db \<longleftrightarrow> (\<forall>r \<in> set (delivery_records db). dr_timestamp r \<le> now)"

lemma add_delivery_record_log_ok:
  "log_ok db \<Longrightarrow> ids_below db \<Longrightarrow> clock_ok now db \<Longrightarrow>
     log_ok (snd (add_delivery_record now i status reason db))"
  by (auto simp: add_delivery_record_def Let_def log_ok_def ids_below_def clock_ok_def sorted_wrt_append)

lemma add_delivery_record_status:
  assumes "log_ok db" and "ids_below db" and "clock_ok now db"
  shows "status_of (snd (add_delivery_record now i status reason db)) j =
     (if j = i then Some status else status_of db j)"
  using assms
  by (simp add: status_of_log_ok add_delivery_record_log_ok add_delivery_record_log)
    (simp add: add_delivery_record_def Let_def)

section \<open>Pages\<close>

lemma concat_pages: "concat (map (\<lambda>i. take n (drop (i * n) xs)) [0 ..< k]) = take (k * n) xs"
  by (induction k) (simp_all add: take_add [symmetric] add.commute)

lemma length_paginate_all: "length (paginate (f\<lparr>mf_limit := None, mf_offset := None\<rparr>) ms) = length ms"
  by (simp add: paginate_def Let_def)

text \<open>
  Paging through a room's messages neither loses nor repeats one: for
  any page size, viewer, filter and direction, the pages in order are the unpaged list, whose
  length is what \<open>count_messages\<close> reports, and it is ordered by creation time.
\<close>

theorem message_pages_cover:
  assumes "0 < n" and "count_messages like room viewer f db \<le> pages * n"
  shows "concat (map (\<lambda>i. list_messages like room viewer
            (f\<lparr>mf_limit := Some n, mf_offset := Some (i * n)\<rparr>) db) [0 ..< pages]) =
          list_messages like room viewer (f\<lparr>mf_limit := None, mf_offset := None\<rparr>) db \<and>
     length (list_messages like room viewer (f\<lparr>mf_limit := None, mf_offset := None\<rparr>) db) =
       count_messages like room viewer f db \<and>
     sorted_wrt (\<lambda>a b. if mf_asc f then rm_created_at a \<le> rm_created_at b
                        else rm_created_at b \<le> rm_created_at a)
       (list_messages like room viewer (f\<lparr>mf_limit := None, mf_offset := None\<rparr>) db)"
proof -
  let ?ms = "list_filter like f (room_messages_query room viewer db)"
  let ?key = "\<lambda>m. if mf_asc f then rm_created_at m else - rm_created_at m"
  have same: "list_filter like (f\<lparr>mf_limit := l, mf_offset := q\<rparr>) = list_filter like f" for l q
    by (simp add: list_filter_def fun_eq_iff)
  have len: "length (sort_key ?key ?ms) = count_messages like room viewer f db"
    by (simp add: count_messages_def)
  have "sorted (map ?key (sort_key ?key ?ms))" by simp
  then have "sorted_wrt (\<lambda>a b. if mf_asc f then rm_created_at a \<le> rm_created_at b
      else rm_created_at b \<le> rm_created_at a) (sort_key ?key ?ms)"
    unfolding sorted_map by (rule sorted_wrt_mono_rel [rotated]) (simp split: if_splits)
  with len assms(2) show ?thesis
    by (simp add: list_messages_def same paginate_def Let_def concat_pages)
qed

theorem message_pages_cover_witness:
  "concat (map (\<lambda>i. list_messages (\<lambda>_ _. True) ''r'' None
      \<lparr>mf_search = None, mf_from_date = None, mf_distinct = False, mf_limit = Some 2,
       mf_offset = Some (i * 2), mf_asc = True\<rparr> empty_db) [0 ..< 3]) = []"
proof -
  let ?f = "\<lparr>mf_search = None, mf_from_date = None, mf_distinct = False, mf_limit = None,
       mf_offset = None, mf_asc = True\<rparr>"
  have "count_messages (\<lambda>_ _. True) ''r'' None ?f empty_db \<le> 3 * 2"
    by (simp add: count_messages_def list_filter_def room_messages_query_def empty_db_def)
  from conjunct1 [OF message_pages_cover [OF _ this]] show ?thesis
    by (simp add: list_messages_def paginate_def list_filter_def room_messages_query_def empty_db_def)
qed

section \<open>Visibility\<close>

lemma store_message_fields:
  "room_messages (store_message now m meta db) = room_messages db @ [m]"
  "message_metas (store_message now m (Some nm) db) = message_metas db @
     [\<lparr>mm_message_uuid = rm_uuid m, mm_sender_identity_uuid = nm_sender_identity_uuid nm, mm_extra = nm_extra nm\<rparr>]"
  "message_deliveries (store_message now m (Some nm) db) =
     message_deliveries db @ delivery_rows (rm_uuid m) (nm_deliveries nm) db"
  "delivery_records (store_message now m (Some nm) db) =
     delivery_records db @ record_rows now (nm_deliveries nm) db"
  "rooms (store_message now m meta db) = rooms db"
  "user_identities (store_message now m meta db) = user_identities db"
  by (simp_all add: store_message_def split: option.splits)

lemma record_rows_status: "r \<in> set (record_rows now ds db) \<Longrightarrow> dr_status r \<in> nd_status ` set ds"
  by (force simp: record_rows_def in_set_enumerate_eq)

lemma meta_of_stored:
  assumes "insert_message now m (Some nm) db = Inr db'" and "chat_ok db"
  shows "meta_of db' (rm_uuid m) = Some \<lparr>mm_message_uuid = rm_uuid m,
     mm_sender_identity_uuid = nm_sender_identity_uuid nm, mm_extra = nm_extra nm\<rparr>"
proof -
  have "keyed mm_message_uuid (message_metas db')"
    using insert_message_ok [OF assms] by (simp add: integrity_defs)
  with assms(1) show ?thesis
    by (auto simp: insert_message_Inr meta_of_def find_row_keyed store_message_fields)
qed

lemma fresh_message_no_delivery:
  assumes "violates_message m meta db = None" and "chat_ok db" and "d \<in> set (message_deliveries db)"
  shows "md_message_uuid d \<noteq> rm_uuid m"
proof -
  have "md_message_uuid d \<in> mm_message_uuid ` set (message_metas db)"
    and "mm_message_uuid ` set (message_metas db) \<subseteq> rm_uuid ` set (room_messages db)"
    using assms(2,3) by (auto simp: integrity_defs refs_def)
  then have "md_message_uuid d \<in> rm_uuid ` set (room_messages db)" by blast
  with assms(1) show ?thesis by (auto simp: violates_message_def split: if_splits)
qed

lemma pending_not_delivered:
  assumes "prepare_pending_delivery now m recipients backend ty sender extra db = Inr (db', ids)"
    and "chat_ok db"
  shows "\<not> has_delivered db' (rm_uuid m)"
proof
  let ?nm = "pending_meta recipients backend ty sender extra"
  let ?ds = "delivery_rows (rm_uuid m) (nm_deliveries ?nm) db"
  have ins: "violates_message m (Some ?nm) db = None" "db' = store_message now m (Some ?nm) db"
    using assms(1) by (auto simp: prepare_pending_delivery_def Let_def insert_message_Inr split: sum.splits)
  assume "has_delivered db' (rm_uuid m)"
  then obtain d r where d: "d \<in> set (message_deliveries db')" "md_message_uuid d = rm_uuid m"
    and r: "r \<in> set (delivery_records db')" "dr_delivery_id r = md_id d" "dr_status r = DELIVERED"
    by (auto simp: has_delivered_def)
  have "d \<in> set ?ds"
    using d fresh_message_no_delivery [OF ins(1) assms(2)] by (auto simp: ins(2) store_message_fields)
  then have new: "next_delivery_id db \<le> md_id d"
    using delivery_rows_id_in by blast
  have "\<forall>r \<in> set (delivery_records db). dr_delivery_id r < next_delivery_id db"
    using assms(2) by (fastforce simp: integrity_defs refs_def)
  with r(1,2) new have "r \<in> set (record_rows now (nm_deliveries ?nm) db)"
    by (auto simp: ins(2) store_message_fields)
  with r(3) show False
    by (auto dest!: record_rows_status simp: pending_meta_def)
qed

text \<open>
  C12: an outbound message stays hidden from everyone but its author until a
  connector confirms it. Right after \<open>prepare_pending_delivery\<close> its author lists it and
  no other viewer does; recording any status but DELIVERED changes nothing to that, and recording
  DELIVERED for any one recipient makes it visible to all.
\<close>

theorem pending_message_hidden:
  assumes "prepare_pending_delivery now m recipients backend ty sender extra db = Inr (db', ids)"
    and "chat_ok db" and "viewer \<noteq> rm_user_uuid m" and "i \<in> set ids"
  shows "m \<in> set (room_messages_query (rm_room_uuid m) (Some (rm_user_uuid m)) db') \<and>
     m \<notin> set (room_messages_query (rm_room_uuid m) (Some viewer) db') \<and>
     (m \<in> set (room_messages_query (rm_room_uuid m) (Some viewer)
         (snd (add_delivery_record now' i status reason db'))) \<longleftrightarrow> status = DELIVERED)"
proof -
  let ?nm = "pending_meta recipients backend ty sender extra"
  let ?ds = "delivery_rows (rm_uuid m) (nm_deliveries ?nm) db"
  let ?db2 = "snd (add_delivery_record now' i status reason db')"
  have ins: "insert_message now m (Some ?nm) db = Inr db'" and db': "db' = store_message now m (Some ?nm) db"
    and ids: "ids = map md_id ?ds"
    using assms(1) by (auto simp: prepare_pending_delivery_def Let_def insert_message_Inr split: sum.splits)
  have frame: "room_messages ?db2 = room_messages db'" "message_metas ?db2 = message_metas db'"
    "message_deliveries ?db2 = message_deliveries db'"
    "set (delivery_records ?db2) =
      insert (fst (add_delivery_record now' i status reason db')) (set (delivery_records db'))"
    "dr_status (fst (add_delivery_record now' i status reason db')) = status"
    "dr_delivery_id (fst (add_delivery_record now' i status reason db')) = i"
    by (auto simp: add_delivery_record_def Let_def)
  have here: "m \<in> set (room_messages db')"
    by (simp add: db' store_message_fields)
  have meta: "meta_of db' (rm_uuid m) \<noteq> None" "meta_of ?db2 (rm_uuid m) \<noteq> None"
    using meta_of_stored [OF ins assms(2)] by (simp_all add: meta_of_def frame)
  from assms(4) obtain d where d: "d \<in> set ?ds" "md_id d = i"
    by (auto simp: ids)
  then have "d \<in> set (message_deliveries db')" "md_message_uuid d = rm_uuid m"
    by (simp_all add: db' store_message_fields delivery_rows_message)
  then have "has_delivered ?db2 (rm_uuid m) \<longleftrightarrow> has_delivered db' (rm_uuid m) \<or> status = DELIVERED"
    using d(2) unfolding has_delivered_def frame
    by (auto simp: frame)
  with pending_not_delivered [OF assms(1,2)] here meta assms(3) show ?thesis
    by (auto simp: room_messages_query_def visible_to_def frame)
qed

text \<open>A small chat: alice, who owns +1555, and the external number +1777 in one room.\<close>

definition sample_room :: Room where
  "sample_room = \<lparr>ro_uuid = ''room'', ro_name = None, ro_tenant_uuid = ''t'',
     ro_users = [\<lparr>ru_uuid = ''alice'', ru_tenant_uuid = Some ''t'', ru_wazo_uuid = Some ''w'', ru_identity = None\<rparr>,
                 \<lparr>ru_uuid = ''ext'', ru_tenant_uuid = Some ''t'', ru_wazo_uuid = Some ''w'',
                  ru_identity = Some ''+1777''\<rparr>]\<rparr>"

definition sample_chat :: database where
  "sample_chat = empty_db\<lparr>tenants := [\<lparr>tn_uuid = ''t''\<rparr>],
     users := [\<lparr>us_uuid = ''alice'', us_tenant_uuid = ''t'', us_state = UserAvailable, us_status = None,
                us_do_not_disturb = False, us_last_activity = None\<rparr>],
     user_identities := [\<lparr>ui_uuid = ''i1'', ui_tenant_uuid = ''t'', ui_user_uuid = ''alice'',
        ui_backend = ''sms'', ui_type = ''sms'', ui_identity = ''+1555'', ui_extra = []\<rparr>],
     rooms := [sample_room]\<rparr>"

definition sample_message :: RoomMessage where
  "sample_message = \<lparr>rm_uuid = ''m1'', rm_room_uuid = ''room'', rm_content = Some [72, 105],
     rm_alias = None, rm_user_uuid = ''alice'', rm_tenant_uuid = ''t'', rm_wazo_uuid = ''w'',
     rm_created_at = 1000\<rparr>"

lemma sample_chat_ok: "chat_ok sample_chat" "log_ok sample_chat"
  by (simp_all add: sample_chat_def sample_room_def empty_db_def integrity_defs room_ok_def participant_key_def
      keyed_def refs_def refs_opt_def log_ok_def)

lemma sample_prepared:
  "prepare_pending_delivery 1000 sample_message [''+1777''] ''sms'' ''sms'' (Some ''i1'') [] sample_chat =
     Inr (store_message 1000 sample_message
       (Some (pending_meta [''+1777''] ''sms'' ''sms'' (Some ''i1'') [])) sample_chat, [1])"
  by (simp add: prepare_pending_delivery_def insert_message_def violates_message_def violates_delivery_def
      pending_meta_def sample_message_def sample_chat_def sample_room_def empty_db_def delivery_rows_def
      keyed_def)

theorem pending_message_hidden_witness:
  "\<exists>db' :: database. sample_message \<notin> set (room_messages_query ''room'' (Some ''ext'') db') \<and>
     sample_message \<in> set (room_messages_query ''room'' (Some ''ext'')
       (snd (add_delivery_record 1005 1 DELIVERED None db')))"
  using pending_message_hidden [OF sample_prepared sample_chat_ok(1), of "''ext''" 1 1005 DELIVERED None]
  by (auto simp: sample_message_def)

end
