(* ===== verification/Notifier.thy ===== *)
theory Notifier
  imports RoomQueries
begin

text \<open>
  What the program says to the bus about rooms and messages: the dumped payloads of
  \<open>plugins/rooms/schemas.py\<close>, the synchronous \<open>plugins/rooms/notifier.py\<close>, and the notifiers
  of \<open>plugins/connectors/notifier.py\<close>. A notifier is the list of events it publishes, in order;
  \<open>_publish\<close> swallows a bus failure, so the caller never sees one.
\<close>

record recipient_dict =
  rd_identity :: string
  rd_status :: "DeliveryStatus option"
  rd_updated_at :: "int option"

record delivery_dict =
  dd_type :: "string option"
  dd_backend :: "string option"
  dd_recipients :: "recipient_dict list"

record message_dict =
  md_uuid :: uuid
  md_content :: "body option"
  md_alias :: "string option"
  md_delivery :: delivery_dict
  md_user_uuid :: uuid
  md_tenant_uuid :: uuid
  md_wazo_uuid :: uuid
  md_created_at :: int
  md_room :: uuid

definition internal_delivery :: delivery_dict where
  "internal_delivery = \<lparr>dd_type = Some ''internal'', dd_backend = None, dd_recipients = []\<rparr>"

definition dump_recipient :: "database \<Rightarrow> MessageDelivery \<Rightarrow> recipient_dict" where
  "dump_recipient db d = \<lparr>rd_identity = md_recipient_identity d, rd_status = status_of db (md_id d),
     rd_updated_at = updated_at db (md_id d)\<rparr>"

definition dump_delivery :: "database \<Rightarrow> uuid \<Rightarrow> delivery_dict" where
  "dump_delivery db m =
     (case meta_of db m of
        None \<Rightarrow> internal_delivery
      | Some _ \<Rightarrow> \<lparr>dd_type = meta_type db m, dd_backend = meta_backend db m,
                    dd_recipients = map (dump_recipient db) (meta_deliveries db m)\<rparr>)"

definition dump_message :: "database \<Rightarrow> RoomMessage \<Rightarrow> message_dict" where
  "dump_message db m =
     \<lparr>md_uuid = rm_uuid m, md_content = rm_content m, md_alias = rm_alias m,
      md_delivery = dump_delivery db (rm_uuid m), md_user_uuid = rm_user_uuid m,
      md_tenant_uuid = rm_tenant_uuid m, md_wazo_uuid = rm_wazo_uuid m,
      md_created_at = rm_created_at m, md_room = rm_room_uuid m\<rparr>"

record status_dict =
  sd_message_uuid :: uuid
  sd_recipient_identity :: string
  sd_status :: DeliveryStatus
  sd_timestamp :: int
  sd_backend :: string

record user_identity_dict =
  ud_uuid :: uuid
  ud_backend :: string
  ud_type :: string
  ud_identity :: string

datatype bus_event =
    UserRoomCreated Room uuid uuid                        \<comment> \<open>room, tenant, user\<close>
  | UserRoomMessageCreated message_dict uuid uuid uuid    \<comment> \<open>message, room, tenant, user\<close>
  | MessageDeliveryStatus status_dict uuid uuid uuid      \<comment> \<open>status, room, tenant, user\<close>
  | UserIdentityCreated user_identity_dict uuid uuid      \<comment> \<open>identity, tenant, user\<close>
  | UserIdentityUpdated user_identity_dict uuid uuid
  | UserIdentityDeleted user_identity_dict uuid uuid

section \<open>Synchronous notifier of the rooms plugin\<close>

definition notify_room_created :: "Room \<Rightarrow> bus_event list" where
  "notify_room_created r = map (\<lambda>u. UserRoomCreated r (ro_tenant_uuid r) (ru_uuid u)) (ro_users r)"

text \<open>An empty identity is no identity, as \<open>not u.identity\<close> has it.\<close>

definition is_external :: "RoomUser \<Rightarrow> bool" where
  "is_external u \<longleftrightarrow> ru_identity u \<notin> {None, Some []}"

definition message_event :: "database \<Rightarrow> Room \<Rightarrow> RoomMessage \<Rightarrow> RoomUser \<Rightarrow> bus_event" where
  "message_event db r m u = UserRoomMessageCreated (dump_message db m) (ro_uuid r) (ro_tenant_uuid r) (ru_uuid u)"

definition rooms_message_created :: "database \<Rightarrow> Room \<Rightarrow> RoomMessage \<Rightarrow> bus_event list" where
  "rooms_message_created db r m =
     (let internal = filter (\<lambda>u. \<not> is_external u) (ro_users r);
          recipients =
            (if meta_of db (rm_uuid m) \<noteq> None \<and>
                \<not> (\<exists>d \<in> set (meta_deliveries db (rm_uuid m)). status_of db (md_id d) = Some DELIVERED)
             then filter (\<lambda>u. ru_uuid u = rm_user_uuid m) internal
             else internal)
      in map (message_event db r m) recipients)"

section \<open>Notifier of user identities\<close>

definition dump_user_identity :: "UserIdentity \<Rightarrow> user_identity_dict" where
  "dump_user_identity i = \<lparr>ud_uuid = ui_uuid i, ud_backend = ui_backend i, ud_type = ui_type i,
     ud_identity = ui_identity i\<rparr>"

definition notify_identity_created :: "UserIdentity \<Rightarrow> bus_event list" where
  "notify_identity_created i = [UserIdentityCreated (dump_user_identity i) (ui_tenant_uuid i) (ui_user_uuid i)]"

definition notify_identity_updated :: "UserIdentity \<Rightarrow> bus_event list" where
  "notify_identity_updated i = [UserIdentityUpdated (dump_user_identity i) (ui_tenant_uuid i) (ui_user_uuid i)]"

definition notify_identity_deleted :: "UserIdentity \<Rightarrow> bus_event list" where
  "notify_identity_deleted i = [UserIdentityDeleted (dump_user_identity i) (ui_tenant_uuid i) (ui_user_uuid i)]"

section \<open>Asynchronous notifier of the connectors plugin\<close>

definition notify_message_created :: "database \<Rightarrow> Room \<Rightarrow> RoomMessage \<Rightarrow> bus_event list" where
  "notify_message_created db r m = map (message_event db r m) (ro_users r)"

definition notify_message_delivered :: "database \<Rightarrow> Room \<Rightarrow> RoomMessage \<Rightarrow> bus_event list" where
  "notify_message_delivered db r m =
     map (message_event db r m)
       (filter (\<lambda>u. \<not> is_external u \<and> ru_uuid u \<noteq> rm_user_uuid m) (ro_users r))"

text \<open>The message and the room of a delivery are loaded through its meta: both exist.\<close>

definition delivery_status_updated :: "database \<Rightarrow> MessageDelivery \<Rightarrow> DeliveryRecord \<Rightarrow> bus_event list" where
  "delivery_status_updated db d rec =
     (case message_of db (md_message_uuid d) of
        None \<Rightarrow> []
      | Some m \<Rightarrow>
          (case room_of db (rm_room_uuid m) of
             None \<Rightarrow> []
           | Some r \<Rightarrow>
               MessageDeliveryStatus
                 \<lparr>sd_message_uuid = md_message_uuid d, sd_recipient_identity = md_recipient_identity d,
                  sd_status = dr_status rec, sd_timestamp = dr_timestamp rec, sd_backend = md_backend d\<rparr>
                 (ro_uuid r) (ro_tenant_uuid r) (rm_user_uuid m) #
               (if dr_status rec = DELIVERED then notify_message_delivered db r m else [])))"

definition message_events :: "bus_event list \<Rightarrow> bus_event list" where
  "message_events es = filter (\<lambda>e. case e of UserRoomMessageCreated _ _ _ _ \<Rightarrow> True | _ \<Rightarrow> False) es"

section \<open>Who is told of a message\<close>

lemma message_events_notify [simp]:
  "message_events (map (message_event db r m) us) = map (message_event db r m) us"
  by (induction us) (auto simp: message_events_def message_event_def)

lemma filter_internal_author:
  "filter (\<lambda>u. ru_uuid u = a) (filter p us) = filter (\<lambda>u. p u \<and> ru_uuid u = a) us"
  by (induction us) auto

text \<open>
  Who is told of an outbound message. When it is prepared only its author
  hears of it; each confirmed delivery announces it to the other internal participants; external
  participants are never told. The two announcements together reach exactly the participants a
  message without a connector reaches at once.
\<close>

theorem confirmed_message_announced:
  assumes "md_message_uuid d = rm_uuid m"
    and "message_of db' (rm_uuid m) = Some m" and "room_of db' (rm_room_uuid m) = Some r"
    and "meta_of db (rm_uuid m) \<noteq> None"
    and "\<forall>x \<in> set (meta_deliveries db (rm_uuid m)). status_of db (md_id x) \<noteq> Some DELIVERED"
    and "dr_status rec = DELIVERED" and "meta_of db0 (rm_uuid m) = None"
  shows "rooms_message_created db r m =
       map (message_event db r m)
         (filter (\<lambda>u. \<not> is_external u \<and> ru_uuid u = rm_user_uuid m) (ro_users r)) \<and>
     message_events (delivery_status_updated db' d rec) =
       map (message_event db' r m)
         (filter (\<lambda>u. \<not> is_external u \<and> ru_uuid u \<noteq> rm_user_uuid m) (ro_users r)) \<and>
     rooms_message_created db0 r m = map (message_event db0 r m) (filter (\<lambda>u. \<not> is_external u) (ro_users r))"
proof (intro conjI)
  show "rooms_message_created db r m =
       map (message_event db r m)
         (filter (\<lambda>u. \<not> is_external u \<and> ru_uuid u = rm_user_uuid m) (ro_users r))"
    using assms(4,5) by (auto simp: rooms_message_created_def Let_def filter_internal_author)
  have "message_events (MessageDeliveryStatus a b c e # es) = message_events es" for a b c e es
    by (simp add: message_events_def)
  then show "message_events (delivery_status_updated db' d rec) =
       map (message_event db' r m)
         (filter (\<lambda>u. \<not> is_external u \<and> ru_uuid u \<noteq> rm_user_uuid m) (ro_users r))"
    using assms(1,2,3,6) by (simp add: delivery_status_updated_def notify_message_delivered_def)
  show "rooms_message_created db0 r m = map (message_event db0 r m) (filter (\<lambda>u. \<not> is_external u) (ro_users r))"
    using assms(7) by (simp add: rooms_message_created_def)
qed

theorem confirmed_message_announced_witness:
  "\<exists>rec db'. dr_status rec = DELIVERED \<and>
     message_events (delivery_status_updated db'
       \<lparr>md_id = 1, md_message_uuid = ''m1'', md_recipient_identity = ''+1777'', md_backend = ''sms'',
        md_type = ''sms'', md_external_id = None, md_retry_count = 0\<rparr> rec) = []"
proof -
  let ?d = "\<lparr>md_id = 1, md_message_uuid = ''m1'', md_recipient_identity = ''+1777'', md_backend = ''sms'',
      md_type = ''sms'', md_external_id = None, md_retry_count = 0\<rparr>"
  let ?rec = "\<lparr>dr_id = 2, dr_delivery_id = 1, dr_status = DELIVERED, dr_reason = None, dr_timestamp = 1005\<rparr>"
  let ?db = "store_message 1000 sample_message
      (Some (pending_meta [''+1777''] ''sms'' ''sms'' (Some ''i1'') [])) sample_chat"
  have "md_message_uuid ?d = rm_uuid sample_message"
    and "message_of ?db (rm_uuid sample_message) = Some sample_message"
    and "room_of ?db (rm_room_uuid sample_message) = Some sample_room"
    and "meta_of ?db (rm_uuid sample_message) \<noteq> None"
    and "\<forall>x \<in> set (meta_deliveries ?db (rm_uuid sample_message)). status_of ?db (md_id x) \<noteq> Some DELIVERED"
    and "dr_status ?rec = DELIVERED" and "meta_of empty_db (rm_uuid sample_message) = None"
    by (simp_all add: sample_message_def sample_chat_def sample_room_def empty_db_def store_message_def
        pending_meta_def delivery_rows_def record_rows_def message_of_def room_of_def meta_of_def
        find_row_def meta_deliveries_def status_of_def records_of_def delivery_log_def last_opt_def)
  from confirmed_message_announced [OF this] have "message_events (delivery_status_updated ?db ?d ?rec) = []"
    by (simp add: sample_room_def sample_message_def is_external_def)
  then show ?thesis by (intro exI [of _ ?rec] exI [of _ ?db]) simp
qed

end
