(* ===== verification/Executor.thy ===== *)
theory Executor
  imports Helpers Store IdentityQueries Notifier
begin

text \<open>
  \<open>plugins/connectors/executor.py\<close>: one outbound delivery attempt, one inbound message, one status
  update, and the recovery list, as state transformers of a session. The session holds the
  uncommitted view of the database, the state a rollback returns to, the events already published
  and the connector store; \<open>session_scope\<close> is \<open>async_session_scope\<close> of
  \<open>database/async_helpers.py\<close>. Delays are seconds; a result \<open>Inr (Some d)\<close> asks the runner
  to call again after \<open>d\<close>.
\<close>

section \<open>Sessions\<close>

record exec_state =
  es_db :: database
  es_base :: database
  es_events :: "bus_event list"
  es_store :: "Connector ConnectorStore"

definition begin_session :: "exec_state \<Rightarrow> exec_state" where
  "begin_session s = s\<lparr>es_base := es_db s\<rparr>"

definition rollback :: "exec_state \<Rightarrow> exec_state" where
  "rollback s = s\<lparr>es_db := es_base s\<rparr>"

definition publish :: "bus_event list \<Rightarrow> exec_state \<Rightarrow> exec_state" where
  "publish es s = s\<lparr>es_events := es_events s @ es\<rparr>"

definition session_scope ::
  "(exec_state \<Rightarrow> (exn + 'a) \<times> exec_state) \<Rightarrow> exec_state \<Rightarrow> (exn + 'a) \<times> exec_state" where
  "session_scope body s =
     (case body (begin_session s) of
        (Inr r, s') \<Rightarrow> (Inr r, s')
      | (Inl e, s') \<Rightarrow> (Inl e, rollback s'))"

section \<open>Delays\<close>

definition OUTBOUND_RETRY_DELAYS :: "int list" where
  "OUTBOUND_RETRY_DELAYS = [30, 120, 300]"

definition INBOUND_RETRY_DELAYS :: "int list" where
  "INBOUND_RETRY_DELAYS = [2, 5, 10]"

definition OUTBOUND_MAX_RETRIES :: int where
  "OUTBOUND_MAX_RETRIES = int (length OUTBOUND_RETRY_DELAYS)"

definition INBOUND_MAX_RETRIES :: nat where
  "INBOUND_MAX_RETRIES = length INBOUND_RETRY_DELAYS"

definition ECHO_WINDOW_SECONDS :: int where
  "ECHO_WINDOW_SECONDS = 60"

definition INBOUND_DEDUP_WINDOW_SECONDS :: int where
  "INBOUND_DEDUP_WINDOW_SECONDS = 7 * 24 * 3600"

definition MAX_RETRY_AFTER :: real where
  "MAX_RETRY_AFTER = 3600"

definition compute_outbound_retry_delay :: "int \<Rightarrow> real" where
  "compute_outbound_retry_delay retry_count =
     (let idx = max 0 (min (retry_count - 1) (int (length OUTBOUND_RETRY_DELAYS) - 1))
      in of_int (OUTBOUND_RETRY_DELAYS ! nat idx))"

text \<open>The awaited persistence has run: its result decides between success, a delay and the exception.\<close>

definition db_persist_or_delay ::
  "nat \<Rightarrow> (exn + 'a) \<times> exec_state \<Rightarrow> (exn + real option) \<times> exec_state" where
  "db_persist_or_delay attempt outcome =
     (case outcome of
        (Inr _, s) \<Rightarrow> (Inr None, s)
      | (Inl e, s) \<Rightarrow>
          if is_sqlalchemy_error e \<or> is_os_error e then
            (if attempt \<ge> INBOUND_MAX_RETRIES then (Inl e, s)
             else (Inr (Some (of_int (INBOUND_RETRY_DELAYS ! attempt))), rollback s))
          else (Inl e, s))"

section \<open>Status records\<close>

definition set_external_id :: "nat \<Rightarrow> string \<Rightarrow> database \<Rightarrow> database" where
  "set_external_id i x db = db\<lparr>message_deliveries :=
     update_rows (\<lambda>d. md_id d = i) (\<lambda>d. d\<lparr>md_external_id := Some x\<rparr>) (message_deliveries db)\<rparr>"

definition set_retry_count :: "nat \<Rightarrow> int \<Rightarrow> database \<Rightarrow> database" where
  "set_retry_count i n db = db\<lparr>message_deliveries :=
     update_rows (\<lambda>d. md_id d = i) (\<lambda>d. d\<lparr>md_retry_count := n\<rparr>) (message_deliveries db)\<rparr>"

text \<open>The flush of a new external id fails when another delivery of the backend has it.\<close>

definition external_id_taken :: "MessageDelivery \<Rightarrow> string \<Rightarrow> database \<Rightarrow> bool" where
  "external_id_taken d x db \<longleftrightarrow>
     (\<exists>o' \<in> set (message_deliveries db). md_id o' \<noteq> md_id d \<and> md_backend o' = md_backend d \<and>
        md_external_id o' = Some x)"

definition persist_status ::
  "int \<Rightarrow> MessageDelivery \<Rightarrow> DeliveryStatus \<Rightarrow> string option \<Rightarrow> string option \<Rightarrow> exec_state \<Rightarrow>
   (exn + DeliveryRecord) \<times> exec_state" where
  "persist_status now d status reason external_id s =
     (case external_id of
        Some x \<Rightarrow>
          if external_id_taken d x (es_db s) then (Inl (IntegrityError True), s)
          else
            let (rec, db) = add_delivery_record now (md_id d) status reason
                  (set_external_id (md_id d) x (es_db s))
            in (Inr rec, publish (delivery_status_updated db d rec) (s\<lparr>es_db := db\<rparr>))
      | None \<Rightarrow>
          let (rec, db) = add_delivery_record now (md_id d) status reason (es_db s)
          in (Inr rec, publish (delivery_status_updated db d rec) (s\<lparr>es_db := db\<rparr>)))"

section \<open>Outbound\<close>

text \<open>
  What one attempt reads from outside: the clock, the locked rows, the store's environment, the
  connector's answer to \<open>send\<close>, and Python's \<open>str\<close>/\<open>repr\<close> for the reason texts.
\<close>

record OutboundEnv =
  oe_now :: int
  oe_locked :: "nat \<Rightarrow> bool"
  oe_registry :: ConnectorRegistry
  oe_store_config :: StoreConfig
  oe_fetch :: FetchEnv
  oe_send :: "Connector \<Rightarrow> OutboundMessage \<Rightarrow> exn + string"
  oe_str :: "exn \<Rightarrow> string"
  oe_repr :: "string \<Rightarrow> string"

definition find_connector ::
  "OutboundEnv \<Rightarrow> string \<Rightarrow> uuid \<Rightarrow> exec_state \<Rightarrow> (exn + Connector) \<times> exec_state" where
  "find_connector env backend tenant s =
     (case peek backend tenant (es_store s) of
        Some c \<Rightarrow> (Inr c, s)
      | None \<Rightarrow>
          (case store_get (oe_registry env) (oe_store_config env) (oe_fetch env) backend tenant (es_store s) of
             (r, st) \<Rightarrow> (r, s\<lparr>es_store := st\<rparr>)))"

definition record_send_failure ::
  "int \<Rightarrow> MessageDelivery \<Rightarrow> string \<Rightarrow> real option \<Rightarrow> exec_state \<Rightarrow> (exn + real option) \<times> exec_state" where
  "record_send_failure now d reason retry_after s =
     (let n = md_retry_count d + 1;
          s1 = s\<lparr>es_db := set_retry_count (md_id d) n (es_db s)\<rparr>
      in if n > OUTBOUND_MAX_RETRIES then
           (case persist_status now d DEAD_LETTER (Some (''Max retries exceeded ('' @ reason @ '')'')) None s1 of
              (Inl e, s2) \<Rightarrow> (Inl e, s2)
            | (Inr _, s2) \<Rightarrow> (Inr None, s2))
         else
           (case persist_status now d RETRYING (Some reason) None s1 of
              (Inl e, s2) \<Rightarrow> (Inl e, s2)
            | (Inr _, s2) \<Rightarrow>
                (Inr (Some (case retry_after of
                    Some r \<Rightarrow> min r MAX_RETRY_AFTER
                  | None \<Rightarrow> compute_outbound_retry_delay n)), s2)))"

definition give_up :: "(exn + DeliveryRecord) \<times> exec_state \<Rightarrow> (exn + real option) \<times> exec_state" where
  "give_up outcome = (case outcome of (Inl e, s) \<Rightarrow> (Inl e, s) | (Inr _, s) \<Rightarrow> (Inr None, s))"

definition build_outbound :: "RoomMessage \<Rightarrow> Room \<Rightarrow> UserIdentity \<Rightarrow> MessageDelivery \<Rightarrow> OutboundMessage" where
  "build_outbound m r sender d =
     \<lparr>om_room_uuid = ro_uuid r, om_message_uuid = rm_uuid m, om_sender_uuid = rm_user_uuid m,
      om_body = (case rm_content m of None \<Rightarrow> [] | Some c \<Rightarrow> c), om_message_type = ui_type sender,
      om_sender_identity = ui_identity sender, om_recipient_identity = md_recipient_identity d,
      om_metadata = [(''idempotency_key'', rm_uuid m)]\<rparr>"

definition send_outbound ::
  "OutboundEnv \<Rightarrow> MessageDelivery \<Rightarrow> Connector \<Rightarrow> OutboundMessage \<Rightarrow> exec_state \<Rightarrow>
   (exn + real option) \<times> exec_state" where
  "send_outbound env d connector outbound s =
     (case oe_send env connector outbound of
        Inr external_id \<Rightarrow> give_up (persist_status (oe_now env) d ACCEPTED None (Some external_id) s)
      | Inl (ConnectorRateLimited m retry_after) \<Rightarrow>
          record_send_failure (oe_now env) d (oe_str env (ConnectorRateLimited m retry_after)) (Some retry_after) s
      | Inl e \<Rightarrow> record_send_failure (oe_now env) d (oe_str env e) None s)"

definition sender_record :: "database \<Rightarrow> MessageMeta \<Rightarrow> UserIdentity option" where
  "sender_record db mm =
     (case mm_sender_identity_uuid mm of
        None \<Rightarrow> None
      | Some u \<Rightarrow> find_row ui_uuid u (user_identities db))"

text \<open>\<open>delivery.meta\<close> is joined in and never None: without it the attribute access fails.\<close>

definition route_outbound_delivery ::
  "OutboundEnv \<Rightarrow> nat \<Rightarrow> exec_state \<Rightarrow> (exn + real option) \<times> exec_state" where
  "route_outbound_delivery env delivery_id s =
     (case get_message_delivery delivery_id (oe_locked env) (es_db s) of
        None \<Rightarrow> (Inr None, s)
      | Some d \<Rightarrow>
     (case meta_of (es_db s) (md_message_uuid d) of
        None \<Rightarrow> (Inl (OtherException ''AttributeError''), s)
      | Some meta \<Rightarrow>
     (case message_of (es_db s) (mm_message_uuid meta) of
        None \<Rightarrow> (Inr None, s)
      | Some m \<Rightarrow>
     (case room_of (es_db s) (rm_room_uuid m) of
        None \<Rightarrow> (Inr None, s)
      | Some r \<Rightarrow>
     (case sender_record (es_db s) meta of
        None \<Rightarrow>
          give_up (persist_status (oe_now env) d DEAD_LETTER
            (Some ''No sender_identity resolved for message'') None s)
      | Some sender \<Rightarrow>
     (case find_connector env (ui_backend sender) (ui_tenant_uuid sender) s of
        (Inl AuthServiceUnavailableException, s1) \<Rightarrow>
          record_send_failure (oe_now env) d (oe_str env AuthServiceUnavailableException) None s1
      | (Inl e, s1) \<Rightarrow>
          give_up (persist_status (oe_now env) d DEAD_LETTER
            (Some (''Backend '' @ oe_repr env (ui_backend sender) @ '' not available: '' @ oe_str env e)) None s1)
      | (Inr connector, s1) \<Rightarrow>
          send_outbound env d connector (build_outbound m r sender d) s1))))))"

section \<open>Inbound\<close>

text \<open>The database can fail under a flush: a driver error of SQLAlchemy, or a lost connection.\<close>

datatype db_fault = DriverFault | ConnectionLost

primrec fault_exn :: "db_fault \<Rightarrow> exn" where
  "fault_exn DriverFault = SQLAlchemyError"
| "fault_exn ConnectionLost = OSError"

record InboundEnv =
  ie_now :: int
  ie_registry :: ConnectorRegistry
  ie_wazo_uuid :: uuid
  ie_uuid5 :: "uuid \<Rightarrow> string \<Rightarrow> uuid"      \<comment> \<open>\<open>make_uuid5\<close>\<close>
  ie_sha256_hex :: "string \<Rightarrow> string"
  ie_new_room :: uuid
  ie_new_message :: uuid
  ie_fault :: "db_fault option"           \<comment> \<open>at the flush of the message or of the status\<close>

definition idempotency_key :: "InboundMessage \<Rightarrow> string option" where
  "idempotency_key inbound =
     (case dict_get (im_metadata inbound) ''idempotency_key'' of
        None \<Rightarrow> None | Some k \<Rightarrow> if k = [] then None else Some k)"

definition is_duplicate_idempotency :: "InboundEnv \<Rightarrow> string option \<Rightarrow> InboundMessage \<Rightarrow> database \<Rightarrow> bool" where
  "is_duplicate_idempotency env key inbound db =
     (case key of
        None \<Rightarrow> False
      | Some k \<Rightarrow> check_duplicate_idempotency_key (ie_now env) k (im_recipient inbound) (im_backend inbound)
                    (im_message_type inbound) INBOUND_DEDUP_WINDOW_SECONDS db)"

fun keeps_raw_sender :: "exn \<Rightarrow> bool" where
  "keeps_raw_sender (KeyError _) = True"
| "keeps_raw_sender (ValueError _) = True"
| "keeps_raw_sender (TypeError _) = True"
| "keeps_raw_sender _ = False"

definition normalize_sender :: "ConnectorRegistry \<Rightarrow> InboundMessage \<Rightarrow> exn + string" where
  "normalize_sender rg inbound =
     (case (case get_backend rg (im_backend inbound) of
              Inl e \<Rightarrow> Inl e | Inr cls \<Rightarrow> cc_normalize_identity cls (im_sender inbound)) of
        Inr i \<Rightarrow> Inr i
      | Inl e \<Rightarrow> if keeps_raw_sender e then Inr (im_sender inbound) else Inl e)"

text \<open>
  \<open>_get_or_create_room\<close>; the keyed lock makes the look-up and the insert one step for the
  coroutines of one process. The room is announced when it is created.
\<close>

definition get_or_create_room ::
  "uuid \<Rightarrow> uuid \<Rightarrow> RoomUser list \<Rightarrow> exec_state \<Rightarrow> (exn + Room) \<times> exec_state" where
  "get_or_create_room new_uuid tenant participants s =
     (case find_room tenant participants (es_db s) of
        Inl e \<Rightarrow> (Inl e, s)
      | Inr (Some r) \<Rightarrow> (Inr r, s)
      | Inr None \<Rightarrow>
          (case create_room new_uuid tenant participants (es_db s) of
             Inl e \<Rightarrow> (Inl e, s)
           | Inr (r, db) \<Rightarrow> (Inr r, publish (notify_room_created r) (s\<lparr>es_db := db\<rparr>))))"

definition local_sender :: "InboundMessage \<Rightarrow> string \<Rightarrow> User \<Rightarrow> (string, User) dict \<Rightarrow> User option" where
  "local_sender inbound sender recipient resolved =
     (case dict_get resolved sender of
        None \<Rightarrow> None
      | Some u \<Rightarrow> if us_tenant_uuid u \<noteq> us_tenant_uuid recipient then None else Some u)"

definition sender_participant :: "InboundEnv \<Rightarrow> uuid \<Rightarrow> string \<Rightarrow> User option \<Rightarrow> RoomUser" where
  "sender_participant env tenant sender sender_user =
     \<lparr>ru_uuid = (case sender_user of Some u \<Rightarrow> us_uuid u | None \<Rightarrow> ie_uuid5 env tenant sender),
      ru_tenant_uuid = Some tenant, ru_wazo_uuid = Some (ie_wazo_uuid env),
      ru_identity = (case sender_user of Some _ \<Rightarrow> None | None \<Rightarrow> Some sender)\<rparr>"

definition recipient_participant :: "InboundEnv \<Rightarrow> User \<Rightarrow> RoomUser" where
  "recipient_participant env u =
     \<lparr>ru_uuid = us_uuid u, ru_tenant_uuid = Some (us_tenant_uuid u),
      ru_wazo_uuid = Some (ie_wazo_uuid env), ru_identity = None\<rparr>"

definition resolve_inbound_room ::
  "InboundEnv \<Rightarrow> InboundMessage \<Rightarrow> string \<Rightarrow> exec_state \<Rightarrow>
   (exn + (Room \<times> RoomUser \<times> User option) option) \<times> exec_state" where
  "resolve_inbound_room env inbound sender s =
     (let resolved = async_resolve_users_by_identities [im_recipient inbound, sender] None (es_db s) in
      case dict_get resolved (im_recipient inbound) of
        None \<Rightarrow> (Inr None, s)
      | Some recipient \<Rightarrow>
          let tenant = us_tenant_uuid recipient;
              sender_user = local_sender inbound sender recipient resolved;
              sp = sender_participant env tenant sender sender_user
          in case get_or_create_room (ie_new_room env) tenant [sp, recipient_participant env recipient] s of
               (Inl e, s1) \<Rightarrow> (Inl e, s1)
             | (Inr r, s1) \<Rightarrow> (Inr (Some (r, sp, sender_user)), s1))"

definition find_matching_outbound ::
  "InboundEnv \<Rightarrow> Room \<Rightarrow> User option \<Rightarrow> string \<Rightarrow> body \<Rightarrow> database \<Rightarrow> MessageMeta option" where
  "find_matching_outbound env r sender_user sender b db =
     (if sender_user = None \<or> b = [] then None
      else find_matching_signature (ie_now env) (ro_uuid r)
             (generate_message_signature (ie_sha256_hex env) sender b) ECHO_WINDOW_SECONDS db)"

definition inbound_meta :: "InboundMessage \<Rightarrow> string option \<Rightarrow> NewMeta" where
  "inbound_meta inbound key =
     \<lparr>nm_sender_identity_uuid = None,
      nm_extra = (case key of None \<Rightarrow> [] | Some k \<Rightarrow> [(''inbound_idempotency_key'', k)]),
      nm_deliveries = [\<lparr>nd_recipient_identity = im_recipient inbound, nd_backend = im_backend inbound,
        nd_type = im_message_type inbound, nd_external_id = Some (im_external_id inbound),
        nd_status = DELIVERED\<rparr>]\<rparr>"

definition build_inbound_message :: "InboundEnv \<Rightarrow> InboundMessage \<Rightarrow> Room \<Rightarrow> RoomUser \<Rightarrow> RoomMessage" where
  "build_inbound_message env inbound r sp =
     \<lparr>rm_uuid = ie_new_message env, rm_room_uuid = ro_uuid r, rm_content = Some (im_body inbound),
      rm_alias = None, rm_user_uuid = ru_uuid sp,
      rm_tenant_uuid = (case ru_tenant_uuid sp of None \<Rightarrow> [] | Some t \<Rightarrow> t),
      rm_wazo_uuid = ie_wazo_uuid env, rm_created_at = ie_now env\<rparr>"

definition confirm_delivery ::
  "int \<Rightarrow> MessageMeta \<Rightarrow> string \<Rightarrow> exec_state \<Rightarrow> (exn + real option) \<times> exec_state" where
  "confirm_delivery now meta recipient s =
     (case List.find (\<lambda>d. md_recipient_identity d = recipient)
             (meta_deliveries (es_db s) (mm_message_uuid meta)) of
        None \<Rightarrow> (Inr None, s)
      | Some d \<Rightarrow>
          if status_of (es_db s) (md_id d) = Some DELIVERED then (Inr None, s)
          else give_up (persist_status now d DELIVERED None None s))"

text \<open>A failed insert leaves the session rolled back when it was a constraint (\<open>add_message\<close>).\<close>

definition inbound_insert ::
  "InboundEnv \<Rightarrow> Room \<Rightarrow> RoomMessage \<Rightarrow> NewMeta \<Rightarrow> exec_state \<Rightarrow> (exn + unit) \<times> exec_state" where
  "inbound_insert env r m meta s =
     (case ie_fault env of
        Some f \<Rightarrow> (Inl (fault_exn f), s)
      | None \<Rightarrow>
          (case async_add_message (ie_now env) r m (Some meta) (es_db s) of
             Inl e \<Rightarrow> (Inl e, rollback s)
           | Inr db \<Rightarrow> (Inr (), s\<lparr>es_db := db\<rparr>)))"

definition store_inbound ::
  "InboundEnv \<Rightarrow> InboundMessage \<Rightarrow> nat \<Rightarrow> Room \<Rightarrow> RoomUser \<Rightarrow> exec_state \<Rightarrow>
   (exn + real option) \<times> exec_state" where
  "store_inbound env inbound attempt r sp s =
     (let m = build_inbound_message env inbound r sp;
          meta = inbound_meta inbound (idempotency_key inbound)
      in case db_persist_or_delay attempt (inbound_insert env r m meta s) of
           (Inl (DuplicateExternalIdException _ _), s1) \<Rightarrow> (Inr None, s1)
         | (Inl e, s1) \<Rightarrow> (Inl e, s1)
         | (Inr (Some delay), s1) \<Rightarrow> (Inr (Some delay), s1)
         | (Inr None, s1) \<Rightarrow> (Inr None, publish (notify_message_created (es_db s1) r m) s1))"

definition route_inbound ::
  "InboundEnv \<Rightarrow> InboundMessage \<Rightarrow> nat \<Rightarrow> exec_state \<Rightarrow> (exn + real option) \<times> exec_state" where
  "route_inbound env inbound attempt s =
     (if attempt = 0 \<and> is_duplicate_idempotency env (idempotency_key inbound) inbound (es_db s)
      then (Inr None, s)
      else case normalize_sender (ie_registry env) inbound of
        Inl e \<Rightarrow> (Inl e, s)
      | Inr sender \<Rightarrow>
     (case resolve_inbound_room env inbound sender s of
        (Inl e, s1) \<Rightarrow> (Inl e, s1)
      | (Inr None, s1) \<Rightarrow> (Inr None, s1)
      | (Inr (Some (r, sp, sender_user)), s1) \<Rightarrow>
     (case find_matching_outbound env r sender_user sender (im_body inbound) (es_db s1) of
        Some meta \<Rightarrow> confirm_delivery (ie_now env) meta (im_recipient inbound) s1
      | None \<Rightarrow> store_inbound env inbound attempt r sp s1)))"

section \<open>Status updates\<close>

definition guarded_status ::
  "InboundEnv \<Rightarrow> MessageDelivery \<Rightarrow> DeliveryStatus \<Rightarrow> string option \<Rightarrow> exec_state \<Rightarrow>
   (exn + DeliveryRecord) \<times> exec_state" where
  "guarded_status env d status reason s =
     (case ie_fault env of
        Some f \<Rightarrow> (Inl (fault_exn f), s)
      | None \<Rightarrow> persist_status (ie_now env) d status reason None s)"

definition route_status_update ::
  "InboundEnv \<Rightarrow> StatusUpdate \<Rightarrow> nat \<Rightarrow> exec_state \<Rightarrow> (exn + real option) \<times> exec_state" where
  "route_status_update env u attempt s =
     (case get_backend (ie_registry env) (su_backend u) of
        Inl _ \<Rightarrow> (Inr None, s)
      | Inr cls \<Rightarrow>
     (case dict_get (cc_status_map cls) (su_status u) of
        None \<Rightarrow> (Inr None, s)
      | Some mapped \<Rightarrow>
     (case get_message_meta_by_external_id (su_external_id u) (su_backend u) (es_db s) of
        None \<Rightarrow> (Inr None, s)
      | Some meta \<Rightarrow>
     (case List.find (\<lambda>d. md_external_id d = Some (su_external_id u))
             (meta_deliveries (es_db s) (mm_message_uuid meta)) of
        None \<Rightarrow> (Inr None, s)
      | Some d \<Rightarrow>
          if status_of (es_db s) (md_id d) = Some DELIVERED then (Inr None, s)
          else db_persist_or_delay attempt
                 (guarded_status env d mapped
                    (if su_error_code u = [] then None else Some (su_error_code u)) s)))))"

section \<open>Recovery\<close>

definition recover_pending_deliveries :: "database \<Rightarrow> (nat \<times> real) list" where
  "recover_pending_deliveries db =
     map (\<lambda>(d, status). (md_id d,
            if status = RETRYING then compute_outbound_retry_delay (md_retry_count d) else 0))
       (get_recoverable_deliveries db)"

section \<open>Facts about the building blocks\<close>

lemma begin_session_simps [simp]:
  "es_db (begin_session s) = es_db s" "es_base (begin_session s) = es_db s"
  "es_events (begin_session s) = es_events s" "es_store (begin_session s) = es_store s"
  by (simp_all add: begin_session_def)

lemma publish_simps [simp]:
  "es_db (publish es s) = es_db s" "es_base (publish es s) = es_base s"
  "es_events (publish es s) = es_events s @ es" "es_store (publish es s) = es_store s"
  by (simp_all add: publish_def)

lemma rollback_simps [simp]:
  "es_db (rollback s) = es_base s" "es_base (rollback s) = es_base s" "es_events (rollback s) = es_events s"
  by (simp_all add: rollback_def)

lemma delay_values [simp]:
  "OUTBOUND_MAX_RETRIES = 3" "INBOUND_MAX_RETRIES = 3"
  by (simp_all add: OUTBOUND_MAX_RETRIES_def OUTBOUND_RETRY_DELAYS_def INBOUND_MAX_RETRIES_def
      INBOUND_RETRY_DELAYS_def)

lemma compute_outbound_retry_delay_values:
  "compute_outbound_retry_delay n = (if n \<le> 1 then 30 else if n = 2 then 120 else 300)"
proof -
  have "max 0 (min (n - 1) 2) = (if n \<le> 1 then 0 else if n = 2 then 1 else 2)"
    by auto
  then show ?thesis
    by (simp add: compute_outbound_retry_delay_def Let_def OUTBOUND_RETRY_DELAYS_def)
qed

lemma find_row_update:
  assumes "\<And>r. key (f r) = key r"
  shows "find_row key k (update_rows p f rows) =
     map_option (\<lambda>r. if p r then f r else r) (find_row key k rows)"
proof -
  have "find_row key k (update_rows p f rows) =
      map_option (\<lambda>r. if p r then f r else r) (List.find (\<lambda>r. key r = k) rows)"
    unfolding find_row_def update_rows_def by (rule find_cong_map) (simp add: assms)
  then show ?thesis by (simp add: find_row_def)
qed

lemma external_key_update [simp]:
  "external_key (e\<lparr>md_external_id := y\<rparr>) = (y, md_backend e)"
  "external_key (e\<lparr>md_retry_count := n\<rparr>) = external_key e"
  by (simp_all add: external_key_def)

lemma set_external_id_ok:
  assumes "chat_ok db" and "\<not> external_id_taken d x db" and "d \<in> set (message_deliveries db)"
  shows "chat_ok (set_external_id (md_id d) x db)"
proof -
  let ?rows = "update_rows (\<lambda>e. md_id e = md_id d) (\<lambda>e. e\<lparr>md_external_id := Some x\<rparr>) (message_deliveries db)"
  let ?ext = "\<lambda>e. md_external_id e \<noteq> None"
  have ids: "keyed md_id (message_deliveries db)"
    and ext: "keyed external_key (filter ?ext (message_deliveries db))"
    using assms(1) by (simp_all add: integrity_defs)
  have "keyed external_key (filter ?ext (map (\<lambda>e. if md_id e = md_id d then e\<lparr>md_external_id := Some x\<rparr> else e) rows))"
    if "keyed md_id rows" "keyed external_key (filter ?ext rows)"
      "\<forall>e \<in> set rows. md_id e \<noteq> md_id d \<longrightarrow> external_key e \<noteq> (Some x, md_backend d)"
      "\<forall>e \<in> set rows. md_id e = md_id d \<longrightarrow> e = d" for rows
    using that
  proof (induction rows)
    case (Cons e rows)
    have rest: "keyed external_key (filter ?ext
        (map (\<lambda>e. if md_id e = md_id d then e\<lparr>md_external_id := Some x\<rparr> else e) rows))"
      using Cons.prems by (intro Cons.IH) (auto simp: keyed_def split: if_splits)
    show ?case
    proof (cases "md_id e = md_id d")
      case True
      then have "e = d" and other: "\<forall>e' \<in> set rows. md_id e' \<noteq> md_id d"
        using Cons.prems by (auto simp: keyed_def)
      then have "map (\<lambda>e. if md_id e = md_id d then e\<lparr>md_external_id := Some x\<rparr> else e) rows = rows"
        by (simp add: map_idI)
      moreover have "(Some x, md_backend d) \<notin> external_key ` set (filter ?ext rows)"
        using Cons.prems(3) other by auto
      ultimately show ?thesis
        using rest \<open>e = d\<close> by (simp add: keyed_def)
    next
      case False
      have "external_key e \<notin> external_key ` set (filter ?ext
          (map (\<lambda>e. if md_id e = md_id d then e\<lparr>md_external_id := Some x\<rparr> else e) rows))" if "?ext e"
        using Cons.prems False that by (auto simp: keyed_def)
      with rest False show ?thesis by (simp add: keyed_def)
    qed
  qed simp
  then have "keyed external_key (filter ?ext ?rows)"
    using ids ext assms(2,3) unfolding update_rows_def
    by (auto simp: external_id_taken_def external_key_def dest: keyed_inj)
  moreover have "keyed md_id ?rows" "keyed recipient_key ?rows" "md_id ` set ?rows = md_id ` set (message_deliveries db)"
    using assms(1) by (auto simp: integrity_defs recipient_key_def intro!: keyed_update)
  ultimately show ?thesis
    using assms(1) unfolding integrity_defs set_external_id_def
    by (auto intro!: refs_update_rows) (auto simp: set_update_rows)
qed

lemma set_retry_count_ok: "chat_ok db \<Longrightarrow> chat_ok (set_retry_count i n db)"
proof -
  assume ok: "chat_ok db"
  let ?rows = "update_rows (\<lambda>d. md_id d = i) (\<lambda>d. d\<lparr>md_retry_count := n\<rparr>) (message_deliveries db)"
  have "filter (\<lambda>d. md_external_id d \<noteq> None) ?rows =
      update_rows (\<lambda>d. md_id d = i) (\<lambda>d. d\<lparr>md_retry_count := n\<rparr>)
        (filter (\<lambda>d. md_external_id d \<noteq> None) (message_deliveries db))"
    by (induction "message_deliveries db") (auto simp: update_rows_def filter_map o_def intro!: map_cong filter_cong)
  then have "keyed external_key (filter (\<lambda>d. md_external_id d \<noteq> None) ?rows)"
    using ok by (auto simp: integrity_defs intro!: keyed_update)
  moreover have "keyed md_id ?rows" "keyed recipient_key ?rows" "md_id ` set ?rows = md_id ` set (message_deliveries db)"
    using ok by (auto simp: integrity_defs recipient_key_def intro!: keyed_update)
  ultimately show ?thesis
    using ok unfolding integrity_defs set_retry_count_def
    by (auto intro!: refs_update_rows) (auto simp: set_update_rows)
qed

lemma delivery_log_frame [simp]:
  "delivery_log (set_external_id j x db) i = delivery_log db i"
  "delivery_log (set_retry_count j n db) i = delivery_log db i"
  by (simp_all add: delivery_log_def set_external_id_def set_retry_count_def)

lemma delivery_of_frame [simp]:
  "delivery_of (set_external_id j x db) i =
     map_option (\<lambda>d. if md_id d = j then d\<lparr>md_external_id := Some x\<rparr> else d) (delivery_of db i)"
  "delivery_of (set_retry_count j n db) i =
     map_option (\<lambda>d. if md_id d = j then d\<lparr>md_retry_count := n\<rparr> else d) (delivery_of db i)"
  "delivery_of (snd (add_delivery_record now j status reason db)) i = delivery_of db i"
  by (simp_all add: delivery_of_def set_external_id_def set_retry_count_def find_row_update
      add_delivery_record_def Let_def)

lemma delivery_of_in: "delivery_of db i = Some d \<Longrightarrow> d \<in> set (message_deliveries db) \<and> md_id d = i"
  unfolding delivery_of_def by (rule find_row_Some_in)

lemma persist_status_base [simp]: "es_base (snd (persist_status now d status reason x s)) = es_base s"
  by (auto simp: persist_status_def split: option.split prod.split)

lemma persist_status_plain:
  "persist_status now d status reason None s =
     (Inr (fst (add_delivery_record now (md_id d) status reason (es_db s))),
      publish (delivery_status_updated (snd (add_delivery_record now (md_id d) status reason (es_db s))) d
          (fst (add_delivery_record now (md_id d) status reason (es_db s))))
        (s\<lparr>es_db := snd (add_delivery_record now (md_id d) status reason (es_db s))\<rparr>))"
  by (simp add: persist_status_def case_prod_beta)

lemma persist_status_log:
  assumes "persist_status now d status reason x s = (Inr rec, s')"
  shows "delivery_log (es_db s') i = delivery_log (es_db s) i @ (if i = md_id d then [rec] else [])"
    and "dr_status rec = status" and "dr_reason rec = reason" and "dr_timestamp rec = now"
  using assms
  by (cases x; fastforce simp: persist_status_def case_prod_beta add_delivery_record_log
      add_delivery_record_def Let_def delivery_log_def set_external_id_def split: if_splits)+

lemma persist_status_ok:
  assumes "chat_ok (es_db s)" and "d \<in> set (message_deliveries (es_db s))"
  shows "chat_ok (es_db (snd (persist_status now d status reason x s)))"
proof (cases x)
  case None
  with assms show ?thesis by (simp add: persist_status_plain add_delivery_record_ok)
next
  case (Some y)
  show ?thesis
  proof (cases "external_id_taken d y (es_db s)")
    case False
    have "md_id d \<in> md_id ` set (message_deliveries (set_external_id (md_id d) y (es_db s)))"
      using assms(2) by (simp add: set_external_id_def)
    with False Some assms show ?thesis
      by (simp add: persist_status_def case_prod_beta add_delivery_record_ok set_external_id_ok)
  qed (use assms Some in \<open>simp add: persist_status_def\<close>)
qed

lemma record_send_failure_plain:
  "record_send_failure now d reason retry_after s =
     (let n = md_retry_count d + 1; s1 = s\<lparr>es_db := set_retry_count (md_id d) n (es_db s)\<rparr> in
      if n > 3
      then (Inr None, snd (persist_status now d DEAD_LETTER
              (Some (''Max retries exceeded ('' @ reason @ '')'')) None s1))
      else (Inr (Some (case retry_after of Some r \<Rightarrow> min r 3600 | None \<Rightarrow> compute_outbound_retry_delay n)),
            snd (persist_status now d RETRYING (Some reason) None s1)))"
  by (simp add: record_send_failure_def persist_status_plain MAX_RETRY_AFTER_def Let_def split: option.split)

lemma record_send_failure_ok:
  assumes "chat_ok (es_db s)" and "d \<in> set (message_deliveries (es_db s))"
  shows "chat_ok (es_db (snd (record_send_failure now d reason retry_after s)))"
proof -
  have "md_id d \<in> md_id ` set (message_deliveries (set_retry_count (md_id d) (md_retry_count d + 1) (es_db s)))"
    using assms(2) by (simp add: set_retry_count_def)
  with assms show ?thesis
    by (simp add: record_send_failure_plain Let_def persist_status_plain add_delivery_record_ok
        set_retry_count_ok)
qed

lemma find_connector_frame:
  "es_db (snd (find_connector env backend tenant s)) = es_db s"
  "es_base (snd (find_connector env backend tenant s)) = es_base s"
  by (auto simp: find_connector_def split: option.split prod.split)

lemma give_up_snd [simp]: "snd (give_up p) = snd p"
  by (auto simp: give_up_def split: prod.split sum.split)

lemma send_outbound_ok:
  assumes "chat_ok (es_db s)" and "d \<in> set (message_deliveries (es_db s))"
  shows "chat_ok (es_db (snd (send_outbound env d c m s)))"
  using assms by (simp add: send_outbound_def persist_status_ok record_send_failure_ok
      split: sum.split exn.split)

text \<open>\<open>route_outbound_delivery\<close> as one case distinction: nothing to do, a dead letter, or an attempt.\<close>

lemma route_outbound_cases:
  obtains (nothing) "snd (route_outbound_delivery env i s) = s"
      "\<forall>delay. fst (route_outbound_delivery env i s) \<noteq> Inr (Some delay)"
  | (dead) d reason s1 where "delivery_of (es_db s) i = Some d" "es_db s1 = es_db s" "es_base s1 = es_base s"
      "route_outbound_delivery env i s = give_up (persist_status (oe_now env) d DEAD_LETTER (Some reason) None s1)"
  | (failed) d reason s1 where "delivery_of (es_db s) i = Some d" "es_db s1 = es_db s" "es_base s1 = es_base s"
      "route_outbound_delivery env i s = record_send_failure (oe_now env) d reason None s1"
  | (attempt) d c m s1 where "delivery_of (es_db s) i = Some d" "es_db s1 = es_db s" "es_base s1 = es_base s"
      "route_outbound_delivery env i s = send_outbound env d c m s1"
proof (cases "get_message_delivery i (oe_locked env) (es_db s)")
  case None
  then show ?thesis by - (rule nothing, simp_all add: route_outbound_delivery_def)
next
  case (Some d)
  then have del: "delivery_of (es_db s) i = Some d"
    by (simp add: get_message_delivery_def split: if_splits)
  note route = route_outbound_delivery_def Some
  show ?thesis
  proof (cases "meta_of (es_db s) (md_message_uuid d)")
    case None
    with route show ?thesis by - (rule nothing, simp_all)
  next
    case meta: (Some mm)
    show ?thesis
    proof (cases "message_of (es_db s) (mm_message_uuid mm)")
      case None
      with route meta show ?thesis by - (rule nothing, simp_all)
    next
      case msg: (Some m)
      show ?thesis
      proof (cases "room_of (es_db s) (rm_room_uuid m)")
        case None
        with route meta msg show ?thesis by - (rule nothing, simp_all)
      next
        case room: (Some r)
        show ?thesis
        proof (cases "sender_record (es_db s) mm")
          case None
          with route meta msg room del show ?thesis by - (rule dead [of d s], simp_all)
        next
          case sender: (Some u)
          note route = route meta msg room sender
          obtain c s1 where find: "find_connector env (ui_backend u) (ui_tenant_uuid u) s = (c, s1)"
            by (metis surj_pair)
          then have s1: "es_db s1 = es_db s" "es_base s1 = es_base s"
            by (metis find_connector_frame snd_conv)+
          show ?thesis
          proof (cases c)
            case (Inr conn)
            with route find show ?thesis by - (rule attempt [OF del s1], simp)
          next
            case (Inl e)
            show ?thesis
            proof (cases "e = AuthServiceUnavailableException")
              case True
              with route find Inl show ?thesis by - (rule failed [OF del s1], simp)
            next
              case False
              with route find Inl have "route_outbound_delivery env i s =
                  give_up (persist_status (oe_now env) d DEAD_LETTER
                    (Some (''Backend '' @ oe_repr env (ui_backend u) @ '' not available: '' @ oe_str env e)) None s1)"
                by (simp split: exn.split)
              then show ?thesis by (rule dead [OF del s1])
            qed
          qed
        qed
      qed
    qed
  qed
qed

section \<open>Retries\<close>

text \<open>
  What the runner makes of the delays: each attempt is a session of its own, a delay leads to the
  next attempt, anything else ends the delivery. \<open>envs\<close> is what the successive attempts meet;
  the delays are collected.
\<close>

fun deliver :: "OutboundEnv list \<Rightarrow> nat \<Rightarrow> exec_state \<Rightarrow> real list \<times> exec_state" where
  "deliver [] i s = ([], s)"
| "deliver (env # envs) i s =
     (case session_scope (route_outbound_delivery env i) s of
        (Inr (Some delay), s1) \<Rightarrow> (case deliver envs i s1 of (ds, s2) \<Rightarrow> (delay # ds, s2))
      | (_, s1) \<Rightarrow> ([], s1))"

lemma record_send_failure_delay:
  assumes "record_send_failure now d reason retry_after s = (Inr (Some delay), s')"
    and "delivery_of (es_db s) i = Some d"
  shows "md_retry_count d < 3 \<and> delay \<le> 3600 \<and>
     delivery_of (es_db s') i = Some (d\<lparr>md_retry_count := md_retry_count d + 1\<rparr>)"
proof -
  have "md_id d = i" using assms(2) delivery_of_in by blast
  with assms show ?thesis
    by (auto simp: record_send_failure_plain persist_status_plain Let_def
        compute_outbound_retry_delay_values split: if_splits option.splits)
qed

lemma give_up_no_delay [simp]:
  "give_up p \<noteq> (Inr (Some delay), s')" "(Inr (Some delay), s') \<noteq> give_up p"
  by (auto simp: give_up_def split: prod.splits sum.splits)

lemma outbound_delay:
  assumes "route_outbound_delivery env i s = (Inr (Some delay), s')"
  obtains d where "delivery_of (es_db s) i = Some d" "md_retry_count d < 3" "delay \<le> 3600"
    "delivery_of (es_db s') i = Some (d\<lparr>md_retry_count := md_retry_count d + 1\<rparr>)"
proof (cases rule: route_outbound_cases [of env i s])
  case nothing
  with assms show ?thesis by simp
next
  case (dead d reason s1)
  with assms show ?thesis by simp
next
  case (failed d reason s1)
  with assms record_send_failure_delay [of "oe_now env" d reason None s1 delay s' i] show ?thesis
    by (simp add: that)
next
  case (attempt d c m s1)
  then have "\<exists>reason ra. record_send_failure (oe_now env) d reason ra s1 = (Inr (Some delay), s')"
    using assms unfolding send_outbound_def
    by (simp split: sum.splits exn.splits) (metis give_up_no_delay)+
  then show ?thesis
    using attempt record_send_failure_delay [where s = s1 and i = i and d = d] that by metis
qed

text \<open>
  C9: retries end. Whatever the connector and wazo-auth answer, a delivery that
  has already been retried \<open>n\<close> times is retried at most \<open>3 - n\<close> more times, and never
  waits more than an hour for the next attempt.
\<close>

theorem outbound_retries_bounded:
  assumes "delivery_of (es_db s) i = Some d"
  shows "length (fst (deliver envs i s)) \<le> nat (3 - md_retry_count d) \<and>
     (\<forall>delay \<in> set (fst (deliver envs i s)). delay \<le> 3600)"
  using assms
proof (induction envs arbitrary: s d)
  case (Cons env envs)
  obtain r s1 where sc: "session_scope (route_outbound_delivery env i) s = (r, s1)"
    by (metis surj_pair)
  show ?case
  proof (cases "\<exists>delay. r = Inr (Some delay)")
    case True
    then obtain delay where r: "r = Inr (Some delay)" by blast
    with sc have "route_outbound_delivery env i (begin_session s) = (Inr (Some delay), s1)"
      by (simp add: session_scope_def split: prod.splits sum.splits)
    then obtain d' where d': "delivery_of (es_db (begin_session s)) i = Some d'" "md_retry_count d' < 3"
      "delay \<le> 3600" "delivery_of (es_db s1) i = Some (d'\<lparr>md_retry_count := md_retry_count d' + 1\<rparr>)"
      by (rule outbound_delay)
    with Cons.prems have "d' = d" by simp
    with Cons.IH [OF d'(4)] d' sc r show ?thesis
      by (auto simp: case_prod_beta)
  next
    case False
    with sc show ?thesis by (auto split: sum.split option.split)
  qed
qed simp

text \<open>Statuses, retry counts and external ids touch neither messages nor rooms nor identities.\<close>

lemma status_frame [simp]:
  "meta_of (set_retry_count j n db) = meta_of db" "message_of (set_retry_count j n db) = message_of db"
  "room_of (set_retry_count j n db) = room_of db" "sender_record (set_retry_count j n db) = sender_record db"
  "meta_of (snd (add_delivery_record now j status reason db)) = meta_of db"
  "message_of (snd (add_delivery_record now j status reason db)) = message_of db"
  "room_of (snd (add_delivery_record now j status reason db)) = room_of db"
  "sender_record (snd (add_delivery_record now j status reason db)) = sender_record db"
  by (simp_all add: fun_eq_iff meta_of_def message_of_def room_of_def sender_record_def
      set_retry_count_def add_delivery_record_def Let_def split: option.split)

lemma build_outbound_retry [simp]:
  "build_outbound m r u (d\<lparr>md_retry_count := n\<rparr>) = build_outbound m r u d"
  by (simp add: build_outbound_def)

definition outbound_ready ::
  "exec_state \<Rightarrow> nat \<Rightarrow> MessageDelivery \<Rightarrow> Connector \<Rightarrow> OutboundMessage \<Rightarrow> bool" where
  "outbound_ready s i d c out \<longleftrightarrow> delivery_of (es_db s) i = Some d \<and>
     (\<exists>mm m r u. meta_of (es_db s) (md_message_uuid d) = Some mm \<and>
        message_of (es_db s) (mm_message_uuid mm) = Some m \<and> room_of (es_db s) (rm_room_uuid m) = Some r \<and>
        sender_record (es_db s) mm = Some u \<and>
        peek (ui_backend u) (ui_tenant_uuid u) (es_store s) = Some c \<and> out = build_outbound m r u d)"

lemma outbound_ready_sends:
  assumes "outbound_ready s i d c out" and "\<not> oe_locked env i"
  shows "route_outbound_delivery env i s = send_outbound env d c out s"
  using assms
  by (auto simp: outbound_ready_def route_outbound_delivery_def get_message_delivery_def find_connector_def)

text \<open>The wait after a failed attempt: what a rate limit asks for, an hour at most, or the back-off.\<close>

fun requested_delay :: "exn \<Rightarrow> real option" where
  "requested_delay (ConnectorRateLimited _ retry_after) = Some retry_after"
| "requested_delay _ = None"

definition failure_delay :: "exn \<Rightarrow> real \<Rightarrow> real" where
  "failure_delay e backoff = (case requested_delay e of Some r \<Rightarrow> min r 3600 | None \<Rightarrow> backoff)"

lemma send_outbound_failing:
  "oe_send env c out = Inl e \<Longrightarrow>
     send_outbound env d c out s = record_send_failure (oe_now env) d (oe_str env e) (requested_delay e) s"
  by (cases e) (simp_all add: send_outbound_def)

lemma failing_attempt:
  assumes ready: "outbound_ready s i d c out" and "\<not> oe_locked env i" and "oe_send env c out = Inl e"
  shows "\<exists>s'. session_scope (route_outbound_delivery env i) s =
       (Inr (if md_retry_count d < 3
         then Some (failure_delay e (compute_outbound_retry_delay (md_retry_count d + 1))) else None), s') \<and>
     outbound_ready s' i (d\<lparr>md_retry_count := md_retry_count d + 1\<rparr>) c out \<and>
     map dr_status (delivery_log (es_db s') i) = map dr_status (delivery_log (es_db s) i) @
       [if md_retry_count d < 3 then RETRYING else DEAD_LETTER]"
proof -
  let ?s = "begin_session s"
  have "outbound_ready ?s i d c out"
    using ready by (simp add: outbound_ready_def)
  then have route: "route_outbound_delivery env i ?s =
      record_send_failure (oe_now env) d (oe_str env e) (requested_delay e) ?s"
    using assms by (simp add: outbound_ready_sends send_outbound_failing)
  have i: "md_id d = i"
    using ready delivery_of_in unfolding outbound_ready_def by blast
  let ?st = "if md_retry_count d < 3 then RETRYING else DEAD_LETTER"
  let ?reason = "Some (if md_retry_count d < 3 then oe_str env e
      else ''Max retries exceeded ('' @ oe_str env e @ '')'')"
  let ?s1 = "?s\<lparr>es_db := set_retry_count (md_id d) (md_retry_count d + 1) (es_db s)\<rparr>"
  let ?s' = "snd (persist_status (oe_now env) d ?st ?reason None ?s1)"
  have "record_send_failure (oe_now env) d (oe_str env e) (requested_delay e) ?s =
      (Inr (if md_retry_count d < 3
        then Some (failure_delay e (compute_outbound_retry_delay (md_retry_count d + 1))) else None), ?s')"
    by (simp add: record_send_failure_plain failure_delay_def Let_def)
  moreover have "outbound_ready ?s' i (d\<lparr>md_retry_count := md_retry_count d + 1\<rparr>) c out"
    using ready i
    by (auto simp: outbound_ready_def persist_status_plain)
  moreover have "map dr_status (delivery_log (es_db ?s') i) = map dr_status (delivery_log (es_db s) i) @ [?st]"
    by (simp add: persist_status_plain add_delivery_record_log i) (simp add: add_delivery_record_def Let_def)
  ultimately show ?thesis
    by (simp add: session_scope_def route)
qed

text \<open>A delivery of alice's message \<open>m1\<close> to +1777, about to be sent through a cached connector.\<close>

definition sample_db :: database where
  "sample_db = store_message 1000 sample_message
     (Some (pending_meta [''+1777''] ''sms'' ''sms'' (Some ''i1'') [])) sample_chat"

definition sample_exec :: exec_state where
  "sample_exec = \<lparr>es_db = sample_db, es_base = sample_db, es_events = [],
     es_store = new_store\<lparr>st_cache := [((''t'', ''sms''), sample_connector)],
                          st_expires_at := [((''t'', ''sms''), 401)]\<rparr>\<rparr>"

definition sample_delivery :: MessageDelivery where
  "sample_delivery = \<lparr>md_id = 1, md_message_uuid = ''m1'', md_recipient_identity = ''+1777'',
     md_backend = ''sms'', md_type = ''sms'', md_external_id = None, md_retry_count = 0\<rparr>"

definition sample_outbound :: OutboundMessage where
  "sample_outbound = \<lparr>om_room_uuid = ''room'', om_message_uuid = ''m1'', om_sender_uuid = ''alice'',
     om_body = [72, 105], om_message_type = ''sms'', om_sender_identity = ''+1555'',
     om_recipient_identity = ''+1777'', om_metadata = [(''idempotency_key'', ''m1'')]\<rparr>"

definition sample_env :: "(Connector \<Rightarrow> OutboundMessage \<Rightarrow> exn + string) \<Rightarrow> OutboundEnv" where
  "sample_env send = \<lparr>oe_now = 1001, oe_locked = (\<lambda>_. False), oe_registry = sms_registry,
     oe_store_config = \<lparr>sc_cache_ttl = 300, sc_connectors_config = []\<rparr>,
     oe_fetch = \<lparr>fe_answer = Inl ReadTimeout, fe_get_clock = 100, fe_enter_clock = 100,
       fe_commit_clock = 100, fe_jitter = 1, fe_leader = Inl ReadTimeout\<rparr>,
     oe_send = send, oe_str = (\<lambda>_. ''down''), oe_repr = id\<rparr>"

lemmas sample_defs = sample_db_def sample_message_def sample_chat_def sample_room_def
  sample_connector_def sample_delivery_def sample_outbound_def empty_db_def

lemma sample_db_ok: "chat_ok sample_db"
proof -
  have "insert_message 1000 sample_message
      (Some (pending_meta [''+1777''] ''sms'' ''sms'' (Some ''i1'') [])) sample_chat = Inr sample_db"
    using sample_prepared
    by (simp add: prepare_pending_delivery_def sample_db_def Let_def split: sum.splits)
  then show ?thesis using sample_chat_ok(1) by (rule insert_message_ok)
qed

lemma sample_ready: "outbound_ready sample_exec 1 sample_delivery sample_connector sample_outbound"
  unfolding outbound_ready_def
  by (simp add: sample_exec_def sample_defs store_message_def pending_meta_def delivery_rows_def
      record_rows_def delivery_of_def meta_of_def message_of_def room_of_def find_row_def
      sender_record_def peek_def build_outbound_def new_store_def)

theorem outbound_retries_bounded_witness:
  "length (fst (deliver (replicate 9 (sample_env (\<lambda>_ _. Inl (ConnectorSendError ''down'')))) 1 sample_exec)) \<le> 3"
proof -
  have "delivery_of (es_db sample_exec) 1 = Some sample_delivery"
    using sample_ready by (simp add: outbound_ready_def)
  from conjunct1 [OF outbound_retries_bounded [OF this]] show ?thesis
    by (simp add: sample_delivery_def)
qed

text \<open>
  C3: a connector that keeps failing costs exactly four attempts. Take a fresh delivery (retry
  count 0) whose message, room and sender identity are in place and whose connector is in the
  cache, with the row never locked. If every send raises, whatever it raises, the first three failures ask for
  waits of 30, 120 and 300 seconds, a rate limit for what it requests instead, an hour at most; RETRYING is
  recorded each time, the fourth failure records DEAD_LETTER and nothing is tried again. FAILED
  is recorded at no point.
\<close>

theorem failing_sends_dead_letter:
  assumes "outbound_ready s i d c out" and "md_retry_count d = 0" and "4 \<le> length errors"
    and "\<forall>env \<in> set envs. \<not> oe_locked env i"
    and "map (\<lambda>env. oe_send env c out) envs = map Inl errors"
  shows "fst (deliver envs i s) = map2 failure_delay (take 3 errors) [30, 120, 300] \<and>
     map dr_status (delivery_log (es_db (snd (deliver envs i s))) i) =
       map dr_status (delivery_log (es_db s) i) @ [RETRYING, RETRYING, RETRYING, DEAD_LETTER]"
proof -
  obtain x1 x2 x3 x4 xs where errors: "errors = x1 # x2 # x3 # x4 # xs"
    using assms(3) by (auto simp: numeral_eq_Suc Suc_le_length_iff)
  with assms(5) obtain e1 e2 e3 e4 rest where envs: "envs = e1 # e2 # e3 # e4 # rest"
    and fail: "oe_send e1 c out = Inl x1" "oe_send e2 c out = Inl x2" "oe_send e3 c out = Inl x3"
      "oe_send e4 c out = Inl x4"
    by (auto simp: map_eq_Cons_conv)
  have free: "\<not> oe_locked e1 i" "\<not> oe_locked e2 i" "\<not> oe_locked e3 i" "\<not> oe_locked e4 i"
    using assms(4) by (auto simp: envs)
  note step = failing_attempt [where i = i and c = c and out = out]
  obtain s1 where s1: "session_scope (route_outbound_delivery e1 i) s = (Inr (Some (failure_delay x1 30)), s1)"
    "outbound_ready s1 i (d\<lparr>md_retry_count := 1\<rparr>) c out"
    "map dr_status (delivery_log (es_db s1) i) = map dr_status (delivery_log (es_db s) i) @ [RETRYING]"
    using step [OF assms(1) free(1) fail(1)] assms(2)
    by (auto simp: compute_outbound_retry_delay_values)
  obtain s2 where s2: "session_scope (route_outbound_delivery e2 i) s1 = (Inr (Some (failure_delay x2 120)), s2)"
    "outbound_ready s2 i (d\<lparr>md_retry_count := 2\<rparr>) c out"
    "map dr_status (delivery_log (es_db s2) i) = map dr_status (delivery_log (es_db s1) i) @ [RETRYING]"
    using step [OF s1(2) free(2) fail(2)] by (auto simp: compute_outbound_retry_delay_values)
  obtain s3 where s3: "session_scope (route_outbound_delivery e3 i) s2 = (Inr (Some (failure_delay x3 300)), s3)"
    "outbound_ready s3 i (d\<lparr>md_retry_count := 3\<rparr>) c out"
    "map dr_status (delivery_log (es_db s3) i) = map dr_status (delivery_log (es_db s2) i) @ [RETRYING]"
    using step [OF s2(2) free(3) fail(3)] by (auto simp: compute_outbound_retry_delay_values)
  obtain s4 where s4: "session_scope (route_outbound_delivery e4 i) s3 = (Inr None, s4)"
    "map dr_status (delivery_log (es_db s4) i) = map dr_status (delivery_log (es_db s3) i) @ [DEAD_LETTER]"
    using step [OF s3(2) free(4) fail(4)] by auto
  show ?thesis
    using s1(1,3) s2(1,3) s3(1,3) s4 by (simp add: envs errors)
qed

theorem failing_sends_dead_letter_witness:
  "fst (deliver (sample_env (\<lambda>_ _. Inl (ConnectorRateLimited ''slow'' 7200)) #
       replicate 3 (sample_env (\<lambda>_ _. Inl (ConnectorSendError ''down'')))) 1 sample_exec) = [3600, 120, 300] \<and>
   map dr_status (delivery_log (es_db (snd (deliver (sample_env (\<lambda>_ _. Inl (ConnectorRateLimited ''slow'' 7200)) #
       replicate 3 (sample_env (\<lambda>_ _. Inl (ConnectorSendError ''down'')))) 1 sample_exec))) 1) =
     [PENDING, RETRYING, RETRYING, RETRYING, DEAD_LETTER]"
proof -
  let ?envs = "sample_env (\<lambda>_ _. Inl (ConnectorRateLimited ''slow'' 7200)) #
      replicate 3 (sample_env (\<lambda>_ _. Inl (ConnectorSendError ''down'')))"
  let ?errors = "ConnectorRateLimited ''slow'' 7200 # replicate 3 (ConnectorSendError ''down'')"
  have "map dr_status (delivery_log (es_db sample_exec) 1) = [PENDING]"
    by (simp add: sample_exec_def sample_defs store_message_def pending_meta_def delivery_rows_def
        record_rows_def delivery_log_def)
  moreover have "fst (deliver ?envs 1 sample_exec) = map2 failure_delay (take 3 ?errors) [30, 120, 300] \<and>
      map dr_status (delivery_log (es_db (snd (deliver ?envs 1 sample_exec))) 1) =
        map dr_status (delivery_log (es_db sample_exec) 1) @ [RETRYING, RETRYING, RETRYING, DEAD_LETTER]"
    by (rule failing_sends_dead_letter [OF sample_ready])
      (simp_all add: sample_delivery_def sample_env_def)
  ultimately show ?thesis
    by (simp add: failure_delay_def numeral_3_eq_3)
qed

section \<open>Rooms of inbound messages\<close>

lemma get_or_create_cases:
  assumes "get_or_create_room u tenant ps s = (Inr r, s1)"
  obtains (existing) "s1 = s" "find_room tenant ps (es_db s) = Inr (Some r)"
  | (created) "find_room tenant ps (es_db s) = Inr None" "r = \<lparr>ro_uuid = u, ro_name = None,
        ro_tenant_uuid = tenant, ro_users = ps\<rparr>"
      "violates_room r (es_db s) = None"
      "s1 = publish (notify_room_created r) (s\<lparr>es_db := (es_db s)\<lparr>rooms := rooms (es_db s) @ [r]\<rparr>\<rparr>)"
  using assms
  by (auto simp: get_or_create_room_def create_room_def insert_room_def Let_def
      split: sum.splits option.splits)

lemma get_or_create_error:
  "get_or_create_room u tenant ps s = (Inl e, s1) \<Longrightarrow> s1 = s"
  by (auto simp: get_or_create_room_def split: sum.splits option.splits prod.splits)

lemma find_room_Some:
  assumes "find_room tenant ps db = Inr (Some r)"
  shows "filter (exact_room tenant (map ru_uuid ps)) (rooms db) = [r]"
  using assms by (auto simp: find_room_def split: list.splits)

lemma find_room_None:
  assumes "find_room tenant ps db = Inr None"
  shows "filter (exact_room tenant (map ru_uuid ps)) (rooms db) = []"
  using assms by (auto simp: find_room_def split: list.splits)

lemma exact_room_cong:
  "set us = set us' \<Longrightarrow> length us = length us' \<Longrightarrow> exact_room tenant us = exact_room tenant us'"
  by (simp add: exact_room_def fun_eq_iff)

lemma exact_room_tenant: "exact_room tenant us r \<Longrightarrow> ro_tenant_uuid r = tenant"
  by (simp add: exact_room_def)

lemma find_room_in: "find_room tenant ps db = Inr (Some r) \<Longrightarrow>
    r \<in> set (rooms db) \<and> exact_room tenant (map ru_uuid ps) r"
  using find_room_Some [of tenant ps db r] by (metis filter_eq_ConsD in_set_conv_decomp)

text \<open>
  C11: one conversation, one room. Once a room was found or created for some
  participants, asking for the same participants again, in any order, finds that very room and
  changes and announces nothing.
\<close>

theorem room_found_again:
  assumes "get_or_create_room new_uuid tenant participants s = (Inr r, s1)" and "participants \<noteq> []"
    and "set (map ru_uuid again) = set (map ru_uuid participants)"
    and "length again = length participants"
  shows "get_or_create_room other_uuid tenant again s1 = (Inr r, s1)"
proof -
  have "filter (exact_room tenant (map ru_uuid participants)) (rooms (es_db s1)) = [r]"
    using assms(1)
  proof (cases rule: get_or_create_cases)
    case existing
    then show ?thesis by (simp add: find_room_Some)
  next
    case created
    have "exact_room tenant (map ru_uuid participants) r"
      using created(2) assms(2) by (simp add: exact_room_def)
    with created find_room_None show ?thesis by simp
  qed
  moreover have "exact_room tenant (map ru_uuid again) = exact_room tenant (map ru_uuid participants)"
    using assms(3,4) by (intro exact_room_cong) simp_all
  ultimately have "find_room tenant again (es_db s1) = Inr (Some r)"
    by (simp add: find_room_def)
  then show ?thesis by (simp add: get_or_create_room_def)
qed

theorem room_found_again_witness:
  "\<exists>s1 r. get_or_create_room ''other'' ''t''
     [\<lparr>ru_uuid = ''b'', ru_tenant_uuid = Some ''t'', ru_wazo_uuid = Some ''w'', ru_identity = None\<rparr>,
      \<lparr>ru_uuid = ''a'', ru_tenant_uuid = Some ''t'', ru_wazo_uuid = Some ''w'', ru_identity = None\<rparr>] s1 = (Inr r, s1) \<and>
     ro_uuid r = ''new''"
proof -
  let ?a = "\<lparr>ru_uuid = ''a'', ru_tenant_uuid = Some ''t'', ru_wazo_uuid = Some ''w'', ru_identity = None\<rparr>"
  let ?b = "\<lparr>ru_uuid = ''b'', ru_tenant_uuid = Some ''t'', ru_wazo_uuid = Some ''w'', ru_identity = None\<rparr>"
  let ?r = "\<lparr>ro_uuid = ''new'', ro_name = None, ro_tenant_uuid = ''t'', ro_users = [?a, ?b]\<rparr>"
  have "find_room ''t'' [?a, ?b] sample_db = Inr None" "violates_room ?r sample_db = None"
    by (simp_all add: find_room_def violates_room_def keyed_def participant_key_def exact_room_def sample_defs store_message_def
        pending_meta_def)
  then have "get_or_create_room ''new'' ''t'' [?a, ?b] sample_exec = (Inr ?r, publish (notify_room_created ?r)
      (sample_exec\<lparr>es_db := sample_db\<lparr>rooms := rooms sample_db @ [?r]\<rparr>\<rparr>))"
    by (simp add: get_or_create_room_def create_room_def insert_room_def sample_exec_def Let_def)
  then obtain s1 r where g: "get_or_create_room ''new'' ''t'' [?a, ?b] sample_exec = (Inr r, s1)"
    and r: "ro_uuid r = ''new''" by (metis Room.select_convs(1))
  from room_found_again [OF g, of "[?b, ?a]" "''other''"] r show ?thesis
    by (intro exI [of _ s1] exI [of _ r]) auto
qed

section \<open>The course of an inbound message\<close>

definition resolved_pair :: "InboundMessage \<Rightarrow> string \<Rightarrow> database \<Rightarrow> (string, User) dict" where
  "resolved_pair inbound sender db = async_resolve_users_by_identities [im_recipient inbound, sender] None db"

definition inbound_room ::
  "InboundEnv \<Rightarrow> InboundMessage \<Rightarrow> exec_state \<Rightarrow> string \<Rightarrow> User \<Rightarrow> User option \<Rightarrow> Room \<Rightarrow> exec_state \<Rightarrow> bool" where
  "inbound_room env inbound s sender recipient su r s1 \<longleftrightarrow>
     normalize_sender (ie_registry env) inbound = Inr sender \<and>
     dict_get (resolved_pair inbound sender (es_db s)) (im_recipient inbound) = Some recipient \<and>
     su = local_sender inbound sender recipient (resolved_pair inbound sender (es_db s)) \<and>
     get_or_create_room (ie_new_room env) (us_tenant_uuid recipient)
       [sender_participant env (us_tenant_uuid recipient) sender su, recipient_participant env recipient] s =
       (Inr r, s1)"

lemma route_inbound_cases:
  obtains (dropped) "snd (route_inbound env inbound attempt s) = s"
  | (confirmed) sender recipient su r s1 meta where
      "inbound_room env inbound s sender recipient su r s1" "su \<noteq> None" "im_body inbound \<noteq> []"
      "find_matching_outbound env r su sender (im_body inbound) (es_db s1) = Some meta"
      "route_inbound env inbound attempt s = confirm_delivery (ie_now env) meta (im_recipient inbound) s1"
  | (stored) sender recipient su r s1 where
      "inbound_room env inbound s sender recipient su r s1"
      "find_matching_outbound env r su sender (im_body inbound) (es_db s1) = None"
      "route_inbound env inbound attempt s = store_inbound env inbound attempt r
         (sender_participant env (us_tenant_uuid recipient) sender su) s1"
proof (cases "attempt = 0 \<and> is_duplicate_idempotency env (idempotency_key inbound) inbound (es_db s)")
  case True
  then show ?thesis by - (rule dropped, simp add: route_inbound_def)
next
  case fresh: False
  show ?thesis
  proof (cases "normalize_sender (ie_registry env) inbound")
    case (Inl e)
    with fresh show ?thesis by - (rule dropped, simp add: route_inbound_def)
  next
    case sender: (Inr sender)
    note route = route_inbound_def fresh sender resolve_inbound_room_def Let_def resolved_pair_def [symmetric]
    show ?thesis
    proof (cases "dict_get (resolved_pair inbound sender (es_db s)) (im_recipient inbound)")
      case None
      then show ?thesis by - (rule dropped, simp add: route)
    next
      case (Some recipient)
      define su where "su = local_sender inbound sender recipient (resolved_pair inbound sender (es_db s))"
      define sp where "sp = sender_participant env (us_tenant_uuid recipient) sender su"
      obtain rr s1 where g: "get_or_create_room (ie_new_room env) (us_tenant_uuid recipient)
          [sp, recipient_participant env recipient] s = (rr, s1)" by (metis surj_pair)
      show ?thesis
      proof (cases rr)
        case (Inl e)
        with g have "s1 = s" by (simp add: get_or_create_error)
        with g Inl Some show ?thesis
          by - (rule dropped, simp add: route su_def [symmetric] sp_def [symmetric])
      next
        case (Inr r)
        have room: "inbound_room env inbound s sender recipient su r s1"
          using g Inr Some sender by (simp add: inbound_room_def su_def sp_def)
        show ?thesis
        proof (cases "find_matching_outbound env r su sender (im_body inbound) (es_db s1)")
          case None
          with room g Inr Some show ?thesis
            by - (rule stored, assumption, simp_all add: route su_def [symmetric] sp_def [symmetric])
        next
          case meta: (Some meta)
          then have "su \<noteq> None" "im_body inbound \<noteq> []"
            by (auto simp: find_matching_outbound_def split: if_splits)
          with meta room g Inr Some show ?thesis
            by - (rule confirmed, assumption, simp_all add: route su_def [symmetric] sp_def [symmetric])
        qed
      qed
    qed
  qed
qed

lemma inbound_room_frame:
  assumes "inbound_room env inbound s sender recipient su r s1"
  shows "es_base s1 = es_base s" and "room_messages (es_db s1) = room_messages (es_db s)"
    and "message_deliveries (es_db s1) = message_deliveries (es_db s)"
    and "delivery_records (es_db s1) = delivery_records (es_db s)"
    and "user_identities (es_db s1) = user_identities (es_db s)" and "tenants (es_db s1) = tenants (es_db s)"
    and "message_metas (es_db s1) = message_metas (es_db s)" and "users (es_db s1) = users (es_db s)"
    and "next_delivery_id (es_db s1) = next_delivery_id (es_db s)"
    and "message_events (es_events s1) = message_events (es_events s)"
proof -
  have "get_or_create_room (ie_new_room env) (us_tenant_uuid recipient)
      [sender_participant env (us_tenant_uuid recipient) sender su, recipient_participant env recipient] s = (Inr r, s1)"
    using assms unfolding inbound_room_def by blast
  then show "es_base s1 = es_base s" "room_messages (es_db s1) = room_messages (es_db s)"
    "message_deliveries (es_db s1) = message_deliveries (es_db s)"
    "delivery_records (es_db s1) = delivery_records (es_db s)"
    "user_identities (es_db s1) = user_identities (es_db s)" "tenants (es_db s1) = tenants (es_db s)"
    "message_metas (es_db s1) = message_metas (es_db s)" "users (es_db s1) = users (es_db s)"
    "next_delivery_id (es_db s1) = next_delivery_id (es_db s)"
    "message_events (es_events s1) = message_events (es_events s)"
    by (cases rule: get_or_create_cases;
        simp add: message_events_def notify_room_created_def filter_empty_conv)+
qed

lemma inbound_room_ok:
  assumes "inbound_room env inbound s sender recipient su r s1" and "chat_ok (es_db s)"
  shows "chat_ok (es_db s1)"
proof -
  have "get_or_create_room (ie_new_room env) (us_tenant_uuid recipient)
      [sender_participant env (us_tenant_uuid recipient) sender su, recipient_participant env recipient] s = (Inr r, s1)"
    using assms unfolding inbound_room_def by blast
  then show ?thesis
  proof (cases rule: get_or_create_cases)
    case created
    then have "insert_room r (es_db s) = Inr (es_db s1)" by (simp add: insert_room_def)
    then show ?thesis using assms(2) by (rule insert_room_ok)
  qed (use assms(2) in simp)
qed

lemma confirm_delivery_cases:
  obtains (same) "confirm_delivery now meta recipient s = (Inr None, s)"
  | (confirm) d where "d \<in> set (message_deliveries (es_db s))" "md_recipient_identity d = recipient"
      "md_message_uuid d = mm_message_uuid meta" "status_of (es_db s) (md_id d) \<noteq> Some DELIVERED"
      "fst (confirm_delivery now meta recipient s) = Inr None"
      "es_db (snd (confirm_delivery now meta recipient s)) =
         snd (add_delivery_record now (md_id d) DELIVERED None (es_db s))"
proof (cases "List.find (\<lambda>d. md_recipient_identity d = recipient) (meta_deliveries (es_db s) (mm_message_uuid meta))")
  case None
  then show ?thesis by (intro same) (simp add: confirm_delivery_def)
next
  case (Some d)
  then have d: "d \<in> set (message_deliveries (es_db s))" "md_recipient_identity d = recipient"
    "md_message_uuid d = mm_message_uuid meta"
    by (auto simp: meta_deliveries_def dest!: find_Some_in)
  show ?thesis
  proof (cases "status_of (es_db s) (md_id d) = Some DELIVERED")
    case True
    with Some show ?thesis by - (rule same, simp add: confirm_delivery_def)
  next
    case False
    with Some show ?thesis
      by - (rule confirm [OF d], simp_all add: confirm_delivery_def persist_status_plain give_up_def)
  qed
qed

lemma fault_exn_caught: "is_sqlalchemy_error (fault_exn f) \<or> is_os_error (fault_exn f)"
  by (cases f) (simp_all add: is_os_error_def)

lemma fault_exn_not_duplicate [simp]: "fault_exn f \<noteq> DuplicateExternalIdException x y"
  by (cases f) simp_all

lemma async_add_message_Inr:
  "async_add_message now r m meta db = Inr db' \<longleftrightarrow>
     insert_message now (m\<lparr>rm_room_uuid := ro_uuid r\<rparr>) meta db = Inr db'"
  by (auto simp: async_add_message_def split: sum.splits exn.splits bool.splits option.splits)

definition inbound_message_of :: "InboundEnv \<Rightarrow> InboundMessage \<Rightarrow> Room \<Rightarrow> RoomUser \<Rightarrow> database \<Rightarrow> database" where
  "inbound_message_of env inbound r sp db =
     store_message (ie_now env) (build_inbound_message env inbound r sp)
       (Some (inbound_meta inbound (idempotency_key inbound))) db"

lemma db_persist_Inr_None:
  "db_persist_or_delay attempt outcome = (Inr None, s1) \<longleftrightarrow> (\<exists>x. outcome = (Inr x, s1))"
  by (auto simp: db_persist_or_delay_def split: prod.splits sum.splits if_splits)

lemma store_inbound_cases:
  obtains (undone) "es_db (snd (store_inbound env inbound attempt r sp s)) = es_base s"
      "es_base (snd (store_inbound env inbound attempt r sp s)) = es_base s"
      "es_events (snd (store_inbound env inbound attempt r sp s)) = es_events s"
  | (failed) e where "store_inbound env inbound attempt r sp s = (Inl e, s)"
  | (stored) "store_inbound env inbound attempt r sp s = (Inr None,
         publish (notify_message_created (inbound_message_of env inbound r sp (es_db s)) r
             (build_inbound_message env inbound r sp))
           (s\<lparr>es_db := inbound_message_of env inbound r sp (es_db s)\<rparr>))"
      "violates_message (build_inbound_message env inbound r sp)
         (Some (inbound_meta inbound (idempotency_key inbound))) (es_db s) = None"
proof -
  let ?m = "build_inbound_message env inbound r sp"
  let ?meta = "inbound_meta inbound (idempotency_key inbound)"
  have room: "?m\<lparr>rm_room_uuid := ro_uuid r\<rparr> = ?m"
    by (simp add: build_inbound_message_def)
  show ?thesis
  proof (cases "ie_fault env")
    case (Some f)
    then have ins: "inbound_insert env r ?m ?meta s = (Inl (fault_exn f), s)"
      by (simp add: inbound_insert_def)
    show ?thesis
    proof (cases "3 \<le> attempt")
      case True
      with ins fault_exn_caught [of f] show ?thesis
        by - (rule failed [of "fault_exn f"], cases f, simp_all add: store_inbound_def db_persist_or_delay_def)
    next
      case False
      with ins fault_exn_caught [of f] show ?thesis
        by - (rule undone, simp_all add: store_inbound_def db_persist_or_delay_def)
    qed
  next
    case None
    show ?thesis
    proof (cases "async_add_message (ie_now env) r ?m (Some ?meta) (es_db s)")
      case (Inr db)
      with None have "inbound_insert env r ?m ?meta s = (Inr (), s\<lparr>es_db := db\<rparr>)"
        by (simp add: inbound_insert_def)
      moreover have "db = inbound_message_of env inbound r sp (es_db s)"
        and "violates_message ?m (Some ?meta) (es_db s) = None"
        using Inr by (simp_all add: async_add_message_Inr room insert_message_Inr inbound_message_of_def)
      ultimately show ?thesis
        by - (rule stored, simp_all add: store_inbound_def db_persist_or_delay_def)
    next
      case (Inl e)
      with None have "inbound_insert env r ?m ?meta s = (Inl e, rollback s)"
        by (simp add: inbound_insert_def)
      then show ?thesis
        by - (rule undone, auto simp: store_inbound_def db_persist_or_delay_def split: exn.split)
    qed
  qed
qed

text \<open>
  A whole session of \<open>route_inbound\<close>: the database is as before, or one delivery got its
  confirmation, or the message is stored; in the last two cases the room may be new.
\<close>

lemma inbound_session_cases:
  obtains (unchanged) "es_db (snd (session_scope (route_inbound env inbound attempt) s)) = es_db s"
      "message_events (es_events (snd (session_scope (route_inbound env inbound attempt) s))) =
         message_events (es_events s)"
  | (only_room) sender recipient su r s1 where "inbound_room env inbound (begin_session s) sender recipient su r s1"
      "es_db (snd (session_scope (route_inbound env inbound attempt) s)) = es_db s1"
      "find_matching_outbound env r su sender (im_body inbound) (es_db s1) \<noteq> None"
  | (confirmed) sender recipient su r s1 meta d where
      "inbound_room env inbound (begin_session s) sender recipient su r s1"
      "find_matching_outbound env r su sender (im_body inbound) (es_db s1) = Some meta"
      "d \<in> set (message_deliveries (es_db s1))" "md_recipient_identity d = im_recipient inbound"
      "md_message_uuid d = mm_message_uuid meta" "status_of (es_db s1) (md_id d) \<noteq> Some DELIVERED"
      "es_db (snd (session_scope (route_inbound env inbound attempt) s)) =
         snd (add_delivery_record (ie_now env) (md_id d) DELIVERED None (es_db s1))"
  | (stored) sender recipient su r s1 sp where
      "inbound_room env inbound (begin_session s) sender recipient su r s1"
      "sp = sender_participant env (us_tenant_uuid recipient) sender su"
      "find_matching_outbound env r su sender (im_body inbound) (es_db s1) = None"
      "violates_message (build_inbound_message env inbound r sp)
         (Some (inbound_meta inbound (idempotency_key inbound))) (es_db s1) = None"
      "session_scope (route_inbound env inbound attempt) s = (Inr None,
         publish (notify_message_created (inbound_message_of env inbound r sp (es_db s1)) r
             (build_inbound_message env inbound r sp))
           (s1\<lparr>es_db := inbound_message_of env inbound r sp (es_db s1)\<rparr>))"
proof -
  let ?s = "begin_session s"
  let ?run = "route_inbound env inbound attempt ?s"
  have scope: "session_scope (route_inbound env inbound attempt) s =
      (fst ?run, case fst ?run of Inl _ \<Rightarrow> rollback (snd ?run) | Inr _ \<Rightarrow> snd ?run)"
    by (simp add: session_scope_def split: prod.split sum.split)
  show ?thesis
  proof (cases rule: route_inbound_cases [of env inbound attempt ?s])
    case dropped
    then show ?thesis by - (rule unchanged, simp_all add: scope split: sum.split)
  next
    case (confirmed sender recipient su r s1 meta)
    show ?thesis
    proof (cases rule: confirm_delivery_cases [of "ie_now env" meta "im_recipient inbound" s1])
      case same
      with confirmed show ?thesis by - (rule only_room [of sender recipient su r s1], simp_all add: scope)
    next
      case (confirm d)
      with confirmed that(3) show ?thesis by (simp add: scope)
    qed
  next
    case (stored sender recipient su r s1)
    note frame = inbound_room_frame [OF stored(1)]
    define sp where "sp = sender_participant env (us_tenant_uuid recipient) sender su"
    show ?thesis
    proof (cases rule: store_inbound_cases [of env inbound attempt r sp s1])
      case undone
      with undone stored frame show ?thesis
        by - (rule unchanged, simp_all add: scope sp_def split: sum.split)
    next
      case (failed e)
      with stored frame show ?thesis
        by - (rule unchanged, simp_all add: scope sp_def)
    next
      case stored': stored
      with stored that(4) [OF stored(1) sp_def] show ?thesis
        by (simp add: scope sp_def)
    qed
  qed
qed

end
