(* ===== verification/Inbound.thy ===== *)
theory Inbound
  imports Executor
begin

text \<open>
  What sessions of the executor guarantee as a whole: each keeps the schema's constraints, tenant
  isolation of inbound messages, de-duplication, finality of DELIVERED, and the recovery list.
\<close>

section \<open>The constraints are kept\<close>

lemma inbound_message_ok:
  assumes "chat_ok db" and "violates_message (build_inbound_message env inbound r sp)
      (Some (inbound_meta inbound (idempotency_key inbound))) db = None"
  shows "chat_ok (inbound_message_of env inbound r sp db)"
  using assms by (simp add: inbound_message_of_def store_message_ok)

lemma inbound_session_ok:
  assumes "chat_ok (es_db s)"
  shows "chat_ok (es_db (snd (session_scope (route_inbound env inbound attempt) s)))"
proof (cases rule: inbound_session_cases [of env inbound attempt s])
  case unchanged
  with assms show ?thesis by simp
next
  case (only_room sender recipient su r s1)
  with assms show ?thesis by (simp add: inbound_room_ok)
next
  case (confirmed sender recipient su r s1 meta d)
  with assms show ?thesis by (simp add: inbound_room_ok add_delivery_record_ok)
next
  case (stored sender recipient su r s1 sp)
  with assms show ?thesis by (simp add: inbound_room_ok inbound_message_ok)
qed

lemma status_session_cases:
  obtains (unchanged) "es_db (snd (session_scope (route_status_update env u attempt) s)) = es_db s"
  | (recorded) d status reason cls where "d \<in> set (message_deliveries (es_db s))"
      "md_external_id d = Some (su_external_id u)" "status_of (es_db s) (md_id d) \<noteq> Some DELIVERED"
      "get_backend (ie_registry env) (su_backend u) = Inr cls"
      "dict_get (cc_status_map cls) (su_status u) = Some status"
      "es_db (snd (session_scope (route_status_update env u attempt) s)) =
         snd (add_delivery_record (ie_now env) (md_id d) status reason (es_db s))"
proof -
  let ?run = "route_status_update env u attempt (begin_session s)"
  have scope: "session_scope (route_status_update env u attempt) s =
      (fst ?run, case fst ?run of Inl _ \<Rightarrow> rollback (snd ?run) | Inr _ \<Rightarrow> snd ?run)"
    by (simp add: session_scope_def split: prod.split sum.split)
  have skip: ?thesis if "snd ?run = begin_session s"
    using that by - (rule unchanged, simp add: scope split: sum.split)
  show ?thesis
  proof (cases "get_backend (ie_registry env) (su_backend u)")
    case (Inl e)
    then show ?thesis by (intro skip) (simp add: route_status_update_def)
  next
    case cls: (Inr cls)
    show ?thesis
    proof (cases "dict_get (cc_status_map cls) (su_status u)")
      case None
      with cls show ?thesis by (intro skip) (simp add: route_status_update_def)
    next
      case mapped: (Some mapped)
      show ?thesis
      proof (cases "get_message_meta_by_external_id (su_external_id u) (su_backend u) (es_db s)")
        case None
        with cls mapped show ?thesis by (intro skip) (simp add: route_status_update_def)
      next
        case meta: (Some meta)
        show ?thesis
        proof (cases "List.find (\<lambda>d. md_external_id d = Some (su_external_id u))
             (meta_deliveries (es_db s) (mm_message_uuid meta))")
          case None
          with cls mapped meta show ?thesis by (intro skip) (simp add: route_status_update_def)
        next
          case d: (Some d)
          show ?thesis
          proof (cases "status_of (es_db s) (md_id d) = Some DELIVERED")
            case True
            with cls mapped meta d show ?thesis by (intro skip) (simp add: route_status_update_def)
          next
            case False
            have in_db: "d \<in> set (message_deliveries (es_db s))" "md_external_id d = Some (su_external_id u)"
              using d by (auto simp: meta_deliveries_def dest!: find_Some_in)
            let ?reason = "if su_error_code u = [] then None else Some (su_error_code u)"
            have run: "?run = db_persist_or_delay attempt (guarded_status env d mapped ?reason (begin_session s))"
              using cls mapped meta d False by (simp add: route_status_update_def)
            show ?thesis
            proof (cases "ie_fault env")
              case None
              with run show ?thesis
                by - (rule recorded [OF in_db False cls mapped],
                    simp add: scope guarded_status_def persist_status_plain db_persist_or_delay_def)
            next
              case (Some f)
              with run fault_exn_caught [of f] show ?thesis
                by - (rule unchanged, simp add: scope guarded_status_def db_persist_or_delay_def)
            qed
          qed
        qed
      qed
    qed
  qed
qed

lemma status_session_ok:
  assumes "chat_ok (es_db s)"
  shows "chat_ok (es_db (snd (session_scope (route_status_update env u attempt) s)))"
proof (cases rule: status_session_cases [of env u attempt s])
  case (recorded d status reason)
  with assms show ?thesis by (simp add: add_delivery_record_ok)
qed (use assms in simp)

lemma outbound_session_ok:
  assumes "chat_ok (es_db s)"
  shows "chat_ok (es_db (snd (session_scope (route_outbound_delivery env i) s)))"
proof -
  let ?run = "route_outbound_delivery env i (begin_session s)"
  have "chat_ok (es_db (snd ?run)) \<and> es_base (snd ?run) = es_db s"
  proof (cases rule: route_outbound_cases [of env i "begin_session s"])
    case nothing
    with assms show ?thesis by simp
  next
    case (dead d reason s1)
    with assms persist_status_ok [of s1 d] delivery_of_in [of "es_db s" i d] show ?thesis by simp
  next
    case (failed d reason s1)
    moreover have "es_base (snd (record_send_failure (oe_now env) d reason None s1)) = es_base s1"
      by (simp add: record_send_failure_plain Let_def)
    ultimately show ?thesis
      using assms record_send_failure_ok [of s1 d] delivery_of_in [of "es_db s" i d] by simp
  next
    case (attempt d c m s1)
    then have "es_base (snd (send_outbound env d c m s1)) = es_base s1"
      by (simp add: send_outbound_def record_send_failure_plain Let_def split: sum.split exn.split)
    with attempt assms send_outbound_ok [of s1 d] delivery_of_in [of "es_db s" i d] show ?thesis by simp
  qed
  then show ?thesis
    by (cases "fst ?run") (auto simp: session_scope_def assms split: prod.splits)
qed

section \<open>DELIVERED is final\<close>

lemma inbound_log:
  assumes "d \<in> set (message_deliveries db)" and "chat_ok db"
    and "violates_message (build_inbound_message env inbound r sp)
      (Some (inbound_meta inbound (idempotency_key inbound))) db = None"
  shows "delivery_log (inbound_message_of env inbound r sp db) (md_id d) = delivery_log db (md_id d)"
proof -
  let ?ds = "nm_deliveries (inbound_meta inbound (idempotency_key inbound))"
  have "md_id d < next_delivery_id db"
    using assms(1,2) by (auto simp: integrity_defs)
  moreover have "next_delivery_id db \<le> dr_delivery_id rec" if "rec \<in> set (record_rows (ie_now env) ?ds db)" for rec
    using record_rows_in(2) [OF that] delivery_rows_id_in by fastforce
  ultimately have "\<forall>rec \<in> set (record_rows (ie_now env) ?ds db). dr_delivery_id rec \<noteq> md_id d"
    by fastforce
  then show ?thesis
    by (simp add: delivery_log_def inbound_message_of_def store_message_fields filter_empty_conv)
qed

text \<open>
  C2: a delivered message stays delivered. Neither a status update nor an inbound
  message adds a record to a delivery whose status is DELIVERED, so late, repeated or contradictory
  reports of the backend change nothing.
\<close>

theorem delivered_is_final:
  assumes "chat_ok (es_db s)" and "d \<in> set (message_deliveries (es_db s))"
    and "status_of (es_db s) (md_id d) = Some DELIVERED"
  shows "delivery_log (es_db (snd (session_scope (route_status_update env u attempt) s))) (md_id d) =
           delivery_log (es_db s) (md_id d) \<and>
     delivery_log (es_db (snd (session_scope (route_inbound env inbound attempt) s))) (md_id d) =
           delivery_log (es_db s) (md_id d)"
proof
  show "delivery_log (es_db (snd (session_scope (route_status_update env u attempt) s))) (md_id d) =
      delivery_log (es_db s) (md_id d)"
  proof (cases rule: status_session_cases [of env u attempt s])
    case (recorded d' status reason)
    with assms(3) have "md_id d' \<noteq> md_id d" by auto
    with recorded show ?thesis by (simp add: add_delivery_record_log)
  qed simp
  have same: "delivery_log (es_db s1) = delivery_log (es_db s)" "status_of (es_db s1) = status_of (es_db s)"
    if "inbound_room env inbound (begin_session s) sender recipient su r s1" for sender recipient su r s1
    using inbound_room_frame(4) [OF that]
    by (simp_all add: fun_eq_iff delivery_log_def status_of_def records_of_def)
  show "delivery_log (es_db (snd (session_scope (route_inbound env inbound attempt) s))) (md_id d) =
      delivery_log (es_db s) (md_id d)"
  proof (cases rule: inbound_session_cases [of env inbound attempt s])
    case (confirmed sender recipient su r s1 meta d')
    with assms(3) same [OF confirmed(1)] have "md_id d' \<noteq> md_id d" by auto
    with confirmed same [OF confirmed(1)] show ?thesis by (simp add: add_delivery_record_log)
  next
    case (stored sender recipient su r s1 sp)
    have "chat_ok (es_db s1)" "d \<in> set (message_deliveries (es_db s1))"
      using assms(1,2) inbound_room_ok [OF stored(1)] inbound_room_frame(3) [OF stored(1)] by simp_all
    with stored same [OF stored(1)] show ?thesis by (simp add: inbound_log)
  next
    case (only_room sender recipient su r s1)
    with same [OF only_room(1)] show ?thesis by simp
  qed simp
qed

definition delivered_exec :: exec_state where
  "delivered_exec = sample_exec\<lparr>es_db := snd (add_delivery_record 1002 1 DELIVERED None
     (set_external_id 1 ''x1'' sample_db))\<rparr>"

lemma delivered_exec_ok: "chat_ok (es_db delivered_exec)"
proof -
  have d: "sample_delivery \<in> set (message_deliveries sample_db)" "md_id sample_delivery = 1"
    using sample_ready delivery_of_in by (auto simp: outbound_ready_def sample_exec_def)
  have "\<not> external_id_taken sample_delivery ''x1'' sample_db"
    by (simp add: external_id_taken_def sample_defs store_message_def pending_meta_def delivery_rows_def)
  from set_external_id_ok [OF sample_db_ok this d(1)] have "chat_ok (set_external_id 1 ''x1'' sample_db)"
    by (simp add: d(2))
  moreover have "1 \<in> md_id ` set (message_deliveries (set_external_id 1 ''x1'' sample_db))"
    using d by (force simp: set_external_id_def)
  ultimately show ?thesis by (simp add: delivered_exec_def add_delivery_record_ok)
qed

lemma delivered_exec_facts:
  "sample_delivery\<lparr>md_external_id := Some ''x1''\<rparr> \<in> set (message_deliveries (es_db delivered_exec))"
  "status_of (es_db delivered_exec) 1 = Some DELIVERED"
  by (simp_all add: delivered_exec_def add_delivery_record_def set_external_id_def sample_defs
      store_message_def pending_meta_def delivery_rows_def record_rows_def status_of_def records_of_def
      delivery_log_def record_key_def last_opt_def Let_def less_eq_prod_def)

definition sample_inbound_env :: InboundEnv where
  "sample_inbound_env = \<lparr>ie_now = 1010, ie_registry = sms_registry, ie_wazo_uuid = ''w'',
     ie_uuid5 = (\<lambda>t k. ''ext-'' @ k), ie_sha256_hex = id, ie_new_room = ''room2'',
     ie_new_message = ''m2'', ie_fault = None\<rparr>"

theorem delivered_is_final_witness:
  "delivery_log (es_db (snd (session_scope (route_status_update sample_inbound_env
       \<lparr>su_external_id = ''x1'', su_status = ''sent'', su_backend = ''sms'', su_error_code = []\<rparr> 0)
       delivered_exec))) 1 = delivery_log (es_db delivered_exec) 1"
  using conjunct1 [OF delivered_is_final [OF delivered_exec_ok delivered_exec_facts(1)]]
    delivered_exec_facts(2) by (simp add: sample_delivery_def)

section \<open>Tenants\<close>

lemma participants_uuids:
  "ru_tenant_uuid (sender_participant env t sender su) = Some t"
  "ru_tenant_uuid (recipient_participant env u) = Some (us_tenant_uuid u)"
  "ru_uuid (recipient_participant env u) = us_uuid u"
  by (simp_all add: sender_participant_def recipient_participant_def)

lemma inbound_room_tenant:
  assumes "inbound_room env inbound s sender recipient su r s1"
  shows "ro_tenant_uuid r = us_tenant_uuid recipient" and "r \<in> set (rooms (es_db s1))"
    and "set (rooms (es_db s1)) - set (rooms (es_db s)) \<subseteq> {r}"
    and "r \<in> set (rooms (es_db s)) \<or> (\<forall>u \<in> set (ro_users r). ru_tenant_uuid u = Some (us_tenant_uuid recipient))"
proof -
  have g: "get_or_create_room (ie_new_room env) (us_tenant_uuid recipient)
      [sender_participant env (us_tenant_uuid recipient) sender su, recipient_participant env recipient] s = (Inr r, s1)"
    using assms unfolding inbound_room_def by blast
  show "ro_tenant_uuid r = us_tenant_uuid recipient" "r \<in> set (rooms (es_db s1))"
    "set (rooms (es_db s1)) - set (rooms (es_db s)) \<subseteq> {r}"
    "r \<in> set (rooms (es_db s)) \<or> (\<forall>u \<in> set (ro_users r). ru_tenant_uuid u = Some (us_tenant_uuid recipient))"
    using g by (cases rule: get_or_create_cases;
        auto dest!: find_room_in exact_room_tenant simp: participants_uuids)+
qed

lemma add_record_frame:
  "rooms (snd (add_delivery_record now i st rs db)) = rooms db"
  "room_messages (snd (add_delivery_record now i st rs db)) = room_messages db"
  by (simp_all add: add_delivery_record_def Let_def)

lemma sender_of_message:
  assumes "su = local_sender inbound sender recipient resolved"
  shows "ru_uuid (sender_participant env (us_tenant_uuid recipient) sender su) = ie_uuid5 env (us_tenant_uuid recipient) sender \<or>
     (\<exists>u. dict_get resolved sender = Some u \<and>
        ru_uuid (sender_participant env (us_tenant_uuid recipient) sender su) = us_uuid u \<and>
        us_tenant_uuid u = us_tenant_uuid recipient)"
  using assms by (auto simp: sender_participant_def local_sender_def split: option.splits if_splits)

text \<open>
  C4: an inbound message stays in the tenant of its recipient. If the recipient
  number resolves to a user of tenant \<open>t\<close>, every room the session creates belongs to \<open>t\<close> with
  participants of \<open>t\<close> only, and every message it stores is in \<open>t\<close>, in a room of
  \<open>t\<close>, and written by a local user of \<open>t\<close> or by the external author derived from
  \<open>t\<close> and the sender's number. A recipient nobody owns changes nothing and tells nobody.
\<close>

theorem inbound_stays_in_tenant:
  assumes "normalize_sender (ie_registry env) inbound = Inr sender"
    and "s' = snd (session_scope (route_inbound env inbound attempt) s)"
    and "resolved = async_resolve_users_by_identities [im_recipient inbound, sender] None (es_db s)"
  shows "case dict_get resolved (im_recipient inbound) of
      None \<Rightarrow> es_db s' = es_db s \<and> message_events (es_events s') = message_events (es_events s)
    | Some recipient \<Rightarrow>
        (\<forall>r \<in> set (rooms (es_db s')) - set (rooms (es_db s)).
           ro_tenant_uuid r = us_tenant_uuid recipient \<and>
           (\<forall>u \<in> set (ro_users r). ru_tenant_uuid u = Some (us_tenant_uuid recipient))) \<and>
        (\<forall>m \<in> set (room_messages (es_db s')) - set (room_messages (es_db s)).
           rm_tenant_uuid m = us_tenant_uuid recipient \<and>
           (\<exists>r \<in> set (rooms (es_db s')). ro_uuid r = rm_room_uuid m \<and>
              ro_tenant_uuid r = us_tenant_uuid recipient) \<and>
           (rm_user_uuid m = ie_uuid5 env (us_tenant_uuid recipient) sender \<or>
              (\<exists>u. dict_get resolved sender = Some u \<and> rm_user_uuid m = us_uuid u \<and>
                 us_tenant_uuid u = us_tenant_uuid recipient)))"
proof -
  have res: "resolved = resolved_pair inbound sender (es_db (begin_session s))"
    by (simp add: assms(3) resolved_pair_def)
  have rcp: "sender' = sender \<and> dict_get resolved (im_recipient inbound) = Some recipient \<and>
      su = local_sender inbound sender recipient resolved"
    if "inbound_room env inbound (begin_session s) sender' recipient su r s1" for sender' recipient su r s1
    using that assms(1) by (auto simp: inbound_room_def res)
  have rooms: "\<forall>r' \<in> set (rooms (es_db s1)) - set (rooms (es_db s)).
      ro_tenant_uuid r' = us_tenant_uuid recipient \<and>
      (\<forall>u \<in> set (ro_users r'). ru_tenant_uuid u = Some (us_tenant_uuid recipient))"
    if "inbound_room env inbound (begin_session s) sender' recipient su r s1" for sender' recipient su r s1
    using inbound_room_tenant [OF that] by auto
  show ?thesis
  proof (cases rule: inbound_session_cases [of env inbound attempt s])
    case unchanged
    then show ?thesis by (simp add: assms(2) split: option.split)
  next
    case (only_room sender' recipient su r s1)
    with rcp [OF only_room(1)] rooms [OF only_room(1)] inbound_room_frame(2) [OF only_room(1)] show ?thesis
      by (simp add: assms(2))
  next
    case (confirmed sender' recipient su r s1 meta d)
    with rcp [OF confirmed(1)] rooms [OF confirmed(1)] inbound_room_frame(2) [OF confirmed(1)] show ?thesis
      by (simp add: assms(2) add_record_frame)
  next
    case (stored sender' recipient su r s1 sp)
    let ?m = "build_inbound_message env inbound r sp"
    have eq: "rooms (es_db s') = rooms (es_db s1)" "room_messages (es_db s') = room_messages (es_db s) @ [?m]"
      using stored(5) inbound_room_frame(2) [OF stored(1)]
      by (simp_all add: assms(2) inbound_message_of_def store_message_fields)
    have "rm_tenant_uuid ?m = us_tenant_uuid recipient" "rm_room_uuid ?m = ro_uuid r"
      "rm_user_uuid ?m = ru_uuid sp"
      by (simp_all add: build_inbound_message_def stored(2) participants_uuids)
    moreover have "rm_user_uuid ?m = ie_uuid5 env (us_tenant_uuid recipient) sender \<or>
        (\<exists>u. dict_get resolved sender = Some u \<and> rm_user_uuid ?m = us_uuid u \<and>
           us_tenant_uuid u = us_tenant_uuid recipient)"
      using rcp [OF stored(1)] sender_of_message [of su inbound sender recipient resolved env]
      by (simp add: build_inbound_message_def stored(2))
    ultimately show ?thesis
      using rcp [OF stored(1)] rooms [OF stored(1)] inbound_room_tenant(1,2) [OF stored(1)]
      by (auto simp: eq)
  qed
qed

definition sample_inbound :: InboundMessage where
  "sample_inbound = \<lparr>im_sender = ''+1888'', im_recipient = ''+1555'', im_body = [72, 111], im_backend = ''sms'',
     im_message_type = ''sms'', im_external_id = ''x9'', im_metadata = [(''idempotency_key'', ''k9'')]\<rparr>"

lemma sample_normalized: "normalize_sender sms_registry sample_inbound = Inr ''+1888''"
  by (simp add: normalize_sender_def get_backend_def get_entry_def sms_registry_def sms_class_def
      sample_inbound_def)

theorem inbound_stays_in_tenant_witness:
  "rm_tenant_uuid ` (set (room_messages (es_db (snd (session_scope (route_inbound sample_inbound_env
        sample_inbound 0) sample_exec)))) - set (room_messages sample_db)) \<subseteq> {''t''}"
proof -
  have "normalize_sender (ie_registry sample_inbound_env) sample_inbound = Inr ''+1888''"
    using sample_normalized by (simp add: sample_inbound_env_def)
  from inbound_stays_in_tenant [OF this refl refl, of 0 sample_exec]
  have "\<forall>m \<in> set (room_messages (es_db (snd (session_scope (route_inbound sample_inbound_env sample_inbound 0)
        sample_exec)))) - set (room_messages sample_db). rm_tenant_uuid m = ''t''"
    by (simp add: async_resolve_users_by_identities_def resolve_rows_def sample_inbound_def
        sample_exec_def sample_defs store_message_def pending_meta_def find_row_def dict_of_def
        List.map_filter_def)
  then show ?thesis by auto
qed

section \<open>De-duplication\<close>

lemma identity_found:
  assumes "keyed identity_key (user_identities db)" and "i \<in> set (user_identities db)"
    and "identity_key i = (backend, recipient, ty)"
  shows "List.find (\<lambda>i. ui_identity i = recipient \<and> ui_backend i = backend \<and> ui_type i = ty)
     (user_identities db) = Some i" (is "List.find ?p _ = _")
proof (cases "List.find ?p (user_identities db)")
  case None
  with assms(2,3) show ?thesis by (auto simp: find_None_iff identity_key_def)
next
  case (Some i')
  then have "i' \<in> set (user_identities db)" "identity_key i' = identity_key i"
    using assms(3) by (auto simp: identity_key_def dest!: find_Some_in)
  with assms(1,2) Some show ?thesis by (auto dest: keyed_inj)
qed

lemma resolved_recipient_tenant:
  assumes "dict_get (resolved_pair inbound sender db) (im_recipient inbound) = Some recipient"
    and "\<forall>j \<in> set (user_identities db). ui_identity j = im_recipient inbound \<longrightarrow>
      tenant_of_user db (ui_user_uuid j) = Some t"
  shows "us_tenant_uuid recipient = t"
proof -
  obtain j where "j \<in> set (user_identities db)" "ui_identity j = im_recipient inbound"
    "find_row us_uuid (ui_user_uuid j) (users db) = Some recipient"
    using assms(1) unfolding resolved_pair_def async_resolve_users_by_identities_def by (rule resolve_rows_Some)
  with assms(2) show ?thesis by (auto simp: tenant_of_user_def)
qed

text \<open>
  C1: an inbound message is stored once. In valid chat tables, after a session stored it, a second
  copy with the same recipient, backend, type and idempotency key whose first attempt comes within
  seven days changes nothing and tells nobody, whatever its sender, body and external id have
  become. The recipient number must have an identity row on exactly this backend and type, and all
  rows of the number must belong to users of the tenant of that row: the query for the duplicate
  looks in the tenant of that row, and without it in none.
\<close>

theorem inbound_stored_once:
  assumes "chat_ok (es_db s)"
    and "room_messages (es_db (snd (session_scope (route_inbound env inbound attempt) s))) \<noteq> room_messages (es_db s)"
    and "idempotency_key inbound = Some k" and "idempotency_key copy = Some k"
    and "im_recipient copy = im_recipient inbound" and "im_backend copy = im_backend inbound"
    and "im_message_type copy = im_message_type inbound"
    and "i \<in> set (user_identities (es_db s))"
    and "identity_key i = (im_backend inbound, im_recipient inbound, im_message_type inbound)"
    and "\<forall>j \<in> set (user_identities (es_db s)). ui_identity j = im_recipient inbound \<longrightarrow>
      tenant_of_user (es_db s) (ui_user_uuid j) = Some (ui_tenant_uuid i)"
    and "ie_now env' \<le> ie_now env + 7 * 24 * 3600"
  shows "session_scope (route_inbound env' copy 0) (snd (session_scope (route_inbound env inbound attempt) s)) =
     (Inr None, begin_session (snd (session_scope (route_inbound env inbound attempt) s)))"
proof (cases rule: inbound_session_cases [of env inbound attempt s])
  case unchanged
  with assms(2) show ?thesis by simp
next
  case (only_room sender recipient su r s1)
  with assms(2) inbound_room_frame(2) [OF only_room(1)] show ?thesis by simp
next
  case (confirmed sender recipient su r s1 meta d)
  with assms(2) inbound_room_frame(2) [OF confirmed(1)] show ?thesis
    by (simp add: add_delivery_record_def Let_def)
next
  case (stored sender recipient su r s1 sp)
  let ?m = "build_inbound_message env inbound r sp"
  let ?nm = "inbound_meta inbound (idempotency_key inbound)"
  let ?db = "inbound_message_of env inbound r sp (es_db s1)"
  have ok1: "chat_ok (es_db s1)"
    using assms(1) inbound_room_ok [OF stored(1)] by simp
  have ins: "insert_message (ie_now env) ?m (Some ?nm) (es_db s1) = Inr ?db"
    using stored(4) by (simp add: insert_message_Inr inbound_message_of_def)
  have ok: "chat_ok ?db" using ins ok1 by (rule insert_message_ok)
  have ids: "user_identities ?db = user_identities (es_db s)"
    using inbound_room_frame(5) [OF stored(1)] by (simp add: inbound_message_of_def store_message_fields)
  have res: "dict_get (resolved_pair inbound sender (es_db s)) (im_recipient inbound) = Some recipient"
    using stored(1) by (simp add: inbound_room_def)
  have tenant: "us_tenant_uuid recipient = ui_tenant_uuid i"
    using res assms(10) by (rule resolved_recipient_tenant)
  have "List.find (\<lambda>i. ui_identity i = im_recipient inbound \<and> ui_backend i = im_backend inbound \<and>
      ui_type i = im_message_type inbound) (user_identities ?db) = Some i"
    using ok assms(8,9) by (intro identity_found) (auto simp: integrity_defs ids)
  moreover have "?m \<in> set (room_messages ?db)" "rm_tenant_uuid ?m = ui_tenant_uuid i"
    "rm_created_at ?m \<ge> ie_now env' - INBOUND_DEDUP_WINDOW_SECONDS"
    using assms(11) tenant
    by (simp_all add: inbound_message_of_def store_message_fields build_inbound_message_def stored(2)
        participants_uuids INBOUND_DEDUP_WINDOW_SECONDS_def)
  moreover have "meta_of ?db (rm_uuid ?m) = Some \<lparr>mm_message_uuid = rm_uuid ?m,
      mm_sender_identity_uuid = None, mm_extra = [(''inbound_idempotency_key'', k)]\<rparr>"
    using meta_of_stored [OF ins ok1] assms(3) by (simp add: inbound_meta_def)
  moreover have "\<exists>d \<in> set (message_deliveries ?db). md_message_uuid d = rm_uuid ?m \<and> md_backend d = im_backend inbound"
    by (simp add: inbound_message_of_def store_message_fields inbound_meta_def delivery_rows_def)
  ultimately have "is_duplicate_idempotency env' (idempotency_key copy) copy ?db"
    unfolding is_duplicate_idempotency_def check_duplicate_idempotency_key_def assms(4-7)
    by (auto intro!: bexI [of _ ?m])
  moreover have "es_db (snd (session_scope (route_inbound env inbound attempt) s)) = ?db"
    by (simp add: stored(5))
  ultimately show ?thesis
    by (simp add: session_scope_def route_inbound_def)
qed

lemma store_inbound_stores:
  assumes "ie_fault env = None" and "violates_message (build_inbound_message env inbound r sp)
      (Some (inbound_meta inbound (idempotency_key inbound))) (es_db s) = None"
  shows "fst (store_inbound env inbound attempt r sp s) = Inr None"
    and "es_db (snd (store_inbound env inbound attempt r sp s)) = inbound_message_of env inbound r sp (es_db s)"
proof -
  have "(build_inbound_message env inbound r sp)\<lparr>rm_room_uuid := ro_uuid r\<rparr> = build_inbound_message env inbound r sp"
    by (simp add: build_inbound_message_def)
  then show "fst (store_inbound env inbound attempt r sp s) = Inr None"
    and "es_db (snd (store_inbound env inbound attempt r sp s)) = inbound_message_of env inbound r sp (es_db s)"
    using assms by (simp_all add: store_inbound_def Let_def inbound_insert_def async_add_message_def
        insert_message_def db_persist_or_delay_def inbound_message_of_def)
qed

text \<open>The sample message is stored: the external number +1888 writes to alice in a new room.\<close>

lemma sample_resolved:
  "dict_get (resolved_pair sample_inbound ''+1888'' sample_db) ''+1555'' =
     Some \<lparr>us_uuid = ''alice'', us_tenant_uuid = ''t'', us_state = UserAvailable, us_status = None,
           us_do_not_disturb = False, us_last_activity = None\<rparr>"
  "dict_get (resolved_pair sample_inbound ''+1888'' sample_db) ''+1888'' = None"
  by (simp_all add: resolved_pair_def async_resolve_users_by_identities_def resolve_rows_def sample_inbound_def
      sample_defs store_message_def pending_meta_def find_row_def dict_of_def List.map_filter_def)

lemma sample_inbound_stored:
  "room_messages (es_db (snd (session_scope (route_inbound sample_inbound_env sample_inbound 0) sample_exec)))
     \<noteq> room_messages (es_db sample_exec)"
proof -
  let ?env = sample_inbound_env
  let ?sp = "\<lparr>ru_uuid = ''ext-+1888'', ru_tenant_uuid = Some ''t'', ru_wazo_uuid = Some ''w'',
      ru_identity = Some ''+1888''\<rparr>"
  let ?rp = "\<lparr>ru_uuid = ''alice'', ru_tenant_uuid = Some ''t'', ru_wazo_uuid = Some ''w'', ru_identity = None\<rparr>"
  let ?r = "\<lparr>ro_uuid = ''room2'', ro_name = None, ro_tenant_uuid = ''t'', ro_users = [?sp, ?rp]\<rparr>"
  let ?s1 = "publish (notify_room_created ?r)
      ((begin_session sample_exec)\<lparr>es_db := sample_db\<lparr>rooms := rooms sample_db @ [?r]\<rparr>\<rparr>)"
  have "get_or_create_room ''room2'' ''t'' [?sp, ?rp] (begin_session sample_exec) = (Inr ?r, ?s1)"
    by (simp add: get_or_create_room_def create_room_def insert_room_def find_room_def violates_room_def
        keyed_def participant_key_def exact_room_def Let_def sample_exec_def begin_session_def sample_defs
        store_message_def pending_meta_def)
  moreover have "\<not> is_duplicate_idempotency ?env (idempotency_key sample_inbound) sample_inbound sample_db"
    by (simp add: is_duplicate_idempotency_def check_duplicate_idempotency_key_def idempotency_key_def
        sample_inbound_def sample_inbound_env_def sample_defs store_message_def pending_meta_def meta_of_def
        find_row_def)
  ultimately have "route_inbound ?env sample_inbound 0 (begin_session sample_exec) =
      store_inbound ?env sample_inbound 0 ?r ?sp ?s1"
    using sample_normalized sample_resolved
    by (simp add: route_inbound_def resolve_inbound_room_def resolved_pair_def sample_exec_def
        sample_inbound_env_def sample_inbound_def local_sender_def sender_participant_def
        recipient_participant_def find_matching_outbound_def Let_def begin_session_def)
  moreover have "violates_message (build_inbound_message ?env sample_inbound ?r ?sp)
      (Some (inbound_meta sample_inbound (idempotency_key sample_inbound))) (es_db ?s1) = None"
    by (simp add: violates_message_def violates_delivery_def build_inbound_message_def inbound_meta_def
        sample_inbound_env_def sample_inbound_def sample_exec_def sample_defs store_message_def
        pending_meta_def delivery_rows_def keyed_def recipient_key_def external_key_def)
  moreover have "ie_fault ?env = None" by (simp add: sample_inbound_env_def)
  ultimately have "session_scope (route_inbound ?env sample_inbound 0) sample_exec =
      (Inr None, snd (store_inbound ?env sample_inbound 0 ?r ?sp ?s1))"
    and "room_messages (es_db (snd (store_inbound ?env sample_inbound 0 ?r ?sp ?s1))) \<noteq> room_messages sample_db"
    using store_inbound_stores [of ?env sample_inbound ?r ?sp ?s1 0]
    by (simp_all add: session_scope_def case_prod_beta inbound_message_of_def store_message_fields)
  then show ?thesis by (simp add: sample_exec_def)
qed

theorem inbound_stored_once_witness:
  "fst (session_scope (route_inbound sample_inbound_env sample_inbound 0)
     (snd (session_scope (route_inbound sample_inbound_env sample_inbound 0) sample_exec))) = Inr None"
proof -
  let ?i = "\<lparr>ui_uuid = ''i1'', ui_tenant_uuid = ''t'', ui_user_uuid = ''alice'',
        ui_backend = ''sms'', ui_type = ''sms'', ui_identity = ''+1555'', ui_extra = []\<rparr>"
  have ok: "chat_ok (es_db sample_exec)" by (simp add: sample_exec_def sample_db_ok)
  have key: "idempotency_key sample_inbound = Some ''k9''"
    by (simp add: idempotency_key_def sample_inbound_def)
  have "?i \<in> set (user_identities (es_db sample_exec))"
    "identity_key ?i = (im_backend sample_inbound, im_recipient sample_inbound, im_message_type sample_inbound)"
    "\<forall>j \<in> set (user_identities (es_db sample_exec)). ui_identity j = im_recipient sample_inbound \<longrightarrow>
      tenant_of_user (es_db sample_exec) (ui_user_uuid j) = Some (ui_tenant_uuid ?i)"
    by (simp_all add: sample_exec_def sample_defs store_message_def pending_meta_def identity_key_def
        sample_inbound_def tenant_of_user_def find_row_def)
  from inbound_stored_once [OF ok sample_inbound_stored key key refl refl refl this, of sample_inbound_env]
  show ?thesis by simp
qed

text \<open>
  An external id is stored once. While the backend's external id of an
  inbound message is on a delivery of the same backend, no session stores the message
  again, even without an idempotency key or after the de-duplication window.
\<close>

theorem inbound_external_id_once:
  assumes "d \<in> set (message_deliveries (es_db s))" and "md_external_id d = Some (im_external_id inbound)"
    and "md_backend d = im_backend inbound"
  shows "room_messages (es_db (snd (session_scope (route_inbound env inbound attempt) s))) = room_messages (es_db s)"
proof (cases rule: inbound_session_cases [of env inbound attempt s])
  case (only_room sender recipient su r s1)
  with inbound_room_frame(2) [OF only_room(1)] show ?thesis by simp
next
  case (confirmed sender recipient su r s1 meta d')
  with inbound_room_frame(2) [OF confirmed(1)] show ?thesis by (simp add: add_delivery_record_def Let_def)
next
  case (stored sender recipient su r s1 sp)
  let ?new = "delivery_rows (ie_new_message env) (nm_deliveries (inbound_meta inbound (idempotency_key inbound))) (es_db s1)"
  have "d \<in> set (message_deliveries (es_db s1))"
    using assms(1) inbound_room_frame(3) [OF stored(1)] by simp
  moreover have "\<exists>e \<in> set ?new. external_key e = (Some (im_external_id inbound), im_backend inbound) \<and>
      md_external_id e \<noteq> None"
    by (simp add: inbound_meta_def delivery_rows_def external_key_def)
  ultimately have "\<not> keyed external_key (filter (\<lambda>d. md_external_id d \<noteq> None) (message_deliveries (es_db s1) @ ?new))"
    using assms(2,3) by (force simp: keyed_append external_key_def)
  with stored(4) have False
    by (auto simp: violates_message_def violates_delivery_def build_inbound_message_def
        split: if_splits option.splits)
  then show ?thesis ..
qed simp

theorem inbound_external_id_once_witness:
  "room_messages (es_db (snd (session_scope (route_inbound sample_inbound_env
     (sample_inbound\<lparr>im_external_id := ''x1'', im_metadata := []\<rparr>) 0) delivered_exec))) = [sample_message]"
proof -
  have "room_messages (es_db delivered_exec) = [sample_message]"
    by (simp add: delivered_exec_def add_delivery_record_def set_external_id_def sample_defs
        store_message_def pending_meta_def Let_def)
  moreover have "md_external_id (sample_delivery\<lparr>md_external_id := Some ''x1''\<rparr>) =
      Some (im_external_id (sample_inbound\<lparr>im_external_id := ''x1'', im_metadata := []\<rparr>))"
    "md_backend (sample_delivery\<lparr>md_external_id := Some ''x1''\<rparr>) =
      im_backend (sample_inbound\<lparr>im_external_id := ''x1'', im_metadata := []\<rparr>)"
    by (simp_all add: sample_delivery_def sample_inbound_def)
  note inbound_external_id_once [OF delivered_exec_facts(1) this, of sample_inbound_env 0]
  ultimately show ?thesis by simp
qed

section \<open>Recovery\<close>

lemma recoverable_status:
  assumes "log_ok db"
  shows "recoverable db d = (if status_of db (md_id d) \<in> {Some PENDING, Some RETRYING}
     then Some (d, the (status_of db (md_id d))) else None)"
  using assms
  by (auto simp: recoverable_def status_of_log_ok log_ok_sorted split: option.split)

text \<open>
  C10: recovery loses nothing and repeats nothing. As long as the clock did not go
  back, the list of deliveries to re-enqueue after a restart names every delivery whose status
  is PENDING or RETRYING, each once and no other; a pending one is due at once, a retrying one
  after the delay its retry count had.
\<close>

theorem recovery_is_exact:
  assumes "chat_ok db" and "log_ok db"
  shows "distinct (map fst (recover_pending_deliveries db)) \<and>
     (\<forall>i delay. (i, delay) \<in> set (recover_pending_deliveries db) \<longleftrightarrow>
        (\<exists>d. delivery_of db i = Some d \<and>
          (status_of db i = Some PENDING \<and> delay = 0 \<or>
           status_of db i = Some RETRYING \<and> delay = compute_outbound_retry_delay (md_retry_count d))))"
proof
  have keyed: "keyed md_id (message_deliveries db)"
    using assms(1) by (simp add: integrity_defs)
  have "map fst (recover_pending_deliveries db) =
      map md_id (filter (\<lambda>d. status_of db (md_id d) \<in> {Some PENDING, Some RETRYING}) (message_deliveries db))"
    unfolding recover_pending_deliveries_def get_recoverable_deliveries_def
    by (induction "message_deliveries db" rule: list.induct)
      (simp_all add: List.map_filter_def recoverable_status [OF assms(2)] o_def case_prod_beta)
  with keyed show "distinct (map fst (recover_pending_deliveries db))"
    by (simp add: keyed_def distinct_map_filter)
  show "\<forall>i delay. (i, delay) \<in> set (recover_pending_deliveries db) \<longleftrightarrow>
        (\<exists>d. delivery_of db i = Some d \<and>
          (status_of db i = Some PENDING \<and> delay = 0 \<or>
           status_of db i = Some RETRYING \<and> delay = compute_outbound_retry_delay (md_retry_count d)))"
    using keyed
    by (force simp: recover_pending_deliveries_def get_recoverable_deliveries_def List.map_filter_def
        recoverable_status [OF assms(2)] delivery_of_def find_row_keyed)
qed

theorem recovery_is_exact_witness:
  "(1, 0) \<in> set (recover_pending_deliveries sample_db)"
proof -
  have "log_ok sample_db"
    by (simp add: log_ok_def sample_defs store_message_def pending_meta_def record_rows_def)
  moreover have "delivery_of sample_db 1 = Some sample_delivery" "status_of sample_db 1 = Some PENDING"
    by (simp_all add: sample_defs store_message_def pending_meta_def record_rows_def delivery_rows_def
        delivery_of_def find_row_def status_of_def records_of_def delivery_log_def last_opt_def)
  ultimately show ?thesis
    using recovery_is_exact [OF sample_db_ok] by blast
qed

section \<open>Limits of the resolution\<close>

lemma resolve_rows_last:
  assumes "user_identities db = ids @ [j]" and "ui_identity j \<in> set identities" and "p j"
    and "find_row us_uuid (ui_user_uuid j) (users db) = Some u"
  shows "dict_get (resolve_rows p identities db) (ui_identity j) = Some u"
proof -
  have "resolve_rows p identities db = dict_set (ui_identity j) u
      (dict_of (List.map_filter
         (\<lambda>i. map_option (Pair (ui_identity i)) (find_row us_uuid (ui_user_uuid i) (users db)))
         (filter (\<lambda>i. ui_identity i \<in> set identities \<and> p i) ids)))"
    using assms by (simp add: resolve_rows_def List.map_filter_def dict_of_snoc)
  then show ?thesis by simp
qed

text \<open>
  C23: the recipient of an inbound message is looked up by its number alone. A
  number can be bound on two backends, even in two tenants (the unique key holds the backend);
  the row read last then receives the messages of both, whatever the backend of the message:
  the rooms and messages of the session are in its user's tenant.
\<close>

theorem inbound_ignores_backend:
  assumes "user_identities (es_db s) = ids @ [j]" and "ui_identity j = im_recipient inbound"
    and "find_row us_uuid (ui_user_uuid j) (users (es_db s)) = Some u"
  shows "\<forall>m \<in> set (room_messages (es_db (snd (session_scope (route_inbound env inbound attempt) s)))) -
      set (room_messages (es_db s)). rm_tenant_uuid m = us_tenant_uuid u"
proof -
  have recipient: "recipient = u"
    if "inbound_room env inbound (begin_session s) sender recipient su r s1" for sender recipient su r s1
    using that resolve_rows_last [OF assms(1) _ _ assms(3), of "[im_recipient inbound, sender]"] assms(2)
    by (simp add: inbound_room_def resolved_pair_def async_resolve_users_by_identities_def)
  show ?thesis
  proof (cases rule: inbound_session_cases [of env inbound attempt s])
    case (only_room sender recipient su r s1)
    with inbound_room_frame(2) [OF only_room(1)] show ?thesis by simp
  next
    case (confirmed sender recipient su r s1 meta d)
    with inbound_room_frame(2) [OF confirmed(1)] show ?thesis
      by (simp add: add_delivery_record_def Let_def)
  next
    case (stored sender recipient su r s1 sp)
    with inbound_room_frame(2) [OF stored(1)] recipient [OF stored(1)] show ?thesis
      by (auto simp: inbound_message_of_def store_message_fields build_inbound_message_def participants_uuids)
  qed simp
qed

text \<open>Two tenants share +1555 on two backends; the message comes in on the first one's.\<close>

definition shared_number_exec :: exec_state where
  "shared_number_exec = sample_exec\<lparr>es_db := sample_db\<lparr>
     tenants := tenants sample_db @ [\<lparr>tn_uuid = ''t2''\<rparr>],
     users := users sample_db @ [\<lparr>us_uuid = ''bob'', us_tenant_uuid = ''t2'', us_state = UserAvailable,
       us_status = None, us_do_not_disturb = False, us_last_activity = None\<rparr>],
     user_identities := user_identities sample_db @ [\<lparr>ui_uuid = ''i2'', ui_tenant_uuid = ''t2'',
       ui_user_uuid = ''bob'', ui_backend = ''mms'', ui_type = ''sms'', ui_identity = ''+1555'', ui_extra = []\<rparr>]\<rparr>\<rparr>"

theorem inbound_ignores_backend_witness:
  "im_backend sample_inbound = ''sms'' \<and>
   rm_tenant_uuid ` (set (room_messages (es_db (snd (session_scope (route_inbound sample_inbound_env
      sample_inbound 0) shared_number_exec)))) - set (room_messages (es_db shared_number_exec))) \<subseteq> {''t2''}"
proof -
  let ?j = "\<lparr>ui_uuid = ''i2'', ui_tenant_uuid = ''t2'', ui_user_uuid = ''bob'', ui_backend = ''mms'',
      ui_type = ''sms'', ui_identity = ''+1555'', ui_extra = []\<rparr>"
  let ?u = "\<lparr>us_uuid = ''bob'', us_tenant_uuid = ''t2'', us_state = UserAvailable, us_status = None,
      us_do_not_disturb = False, us_last_activity = None\<rparr>"
  have "user_identities (es_db shared_number_exec) = user_identities sample_db @ [?j]"
    "ui_identity ?j = im_recipient sample_inbound"
    "find_row us_uuid (ui_user_uuid ?j) (users (es_db shared_number_exec)) = Some ?u"
    by (simp_all add: shared_number_exec_def sample_inbound_def sample_defs store_message_def
        pending_meta_def find_row_def)
  from inbound_ignores_backend [OF this, of sample_inbound_env 0] show ?thesis
    by (auto simp: sample_inbound_def)
qed

text \<open>
  A message between two numbers of the same user is lost. Both participants
  are then the same row of \<open>RoomUser\<close>, so unless a room with two such entries exists the room
  cannot be created: every attempt of the session raises and leaves no trace.
\<close>

theorem self_message_rejected:
  assumes "attempt = 0 \<longrightarrow> \<not> is_duplicate_idempotency env (idempotency_key inbound) inbound (es_db s)"
    and "normalize_sender (ie_registry env) inbound = Inr sender"
    and "dict_get (resolved_pair inbound sender (es_db s)) (im_recipient inbound) = Some u"
    and "dict_get (resolved_pair inbound sender (es_db s)) sender = Some u"
    and "find_room (us_tenant_uuid u) [recipient_participant env u, recipient_participant env u] (es_db s) = Inr None"
    and "ie_new_room env \<notin> ro_uuid ` set (rooms (es_db s))" and "us_tenant_uuid u \<in> tn_uuid ` set (tenants (es_db s))"
  shows "session_scope (route_inbound env inbound attempt) s = (Inl (IntegrityError True), begin_session s)"
proof -
  let ?p = "recipient_participant env u"
  have sp: "sender_participant env (us_tenant_uuid u) sender (Some u) = ?p"
    by (simp add: sender_participant_def recipient_participant_def)
  have "violates_room \<lparr>ro_uuid = ie_new_room env, ro_name = None, ro_tenant_uuid = us_tenant_uuid u,
      ro_users = [?p, ?p]\<rparr> (es_db s) = Some True"
    using assms(6,7) by (simp add: violates_room_def recipient_participant_def keyed_def)
  then have "get_or_create_room (ie_new_room env) (us_tenant_uuid u) [?p, ?p] (begin_session s) =
      (Inl (IntegrityError True), begin_session s)"
    using assms(5) by (simp add: get_or_create_room_def create_room_def insert_room_def Let_def)
  then have "resolve_inbound_room env inbound sender (begin_session s) = (Inl (IntegrityError True), begin_session s)"
    using assms(3,4) by (simp add: resolve_inbound_room_def Let_def resolved_pair_def local_sender_def sp)
  then have "route_inbound env inbound attempt (begin_session s) = (Inl (IntegrityError True), begin_session s)"
    using assms(1,2) by (cases "attempt = 0") (simp_all add: route_inbound_def)
  then show ?thesis by (simp add: session_scope_def rollback_def begin_session_def)
qed

definition two_numbers_exec :: exec_state where
  "two_numbers_exec = sample_exec\<lparr>es_db := sample_db\<lparr>
     user_identities := user_identities sample_db @ [\<lparr>ui_uuid = ''i3'', ui_tenant_uuid = ''t'',
       ui_user_uuid = ''alice'', ui_backend = ''sms'', ui_type = ''sms'', ui_identity = ''+1888'', ui_extra = []\<rparr>]\<rparr>\<rparr>"

theorem self_message_rejected_witness:
  "fst (session_scope (route_inbound sample_inbound_env sample_inbound 0) two_numbers_exec) =
     Inl (IntegrityError True)"
proof -
  let ?u = "\<lparr>us_uuid = ''alice'', us_tenant_uuid = ''t'', us_state = UserAvailable, us_status = None,
      us_do_not_disturb = False, us_last_activity = None\<rparr>"
  have "normalize_sender (ie_registry sample_inbound_env) sample_inbound = Inr ''+1888''"
    using sample_normalized by (simp add: sample_inbound_env_def)
  moreover have "\<not> is_duplicate_idempotency sample_inbound_env (idempotency_key sample_inbound) sample_inbound
      (es_db two_numbers_exec)"
    by (simp add: is_duplicate_idempotency_def check_duplicate_idempotency_key_def idempotency_key_def
        sample_inbound_def sample_inbound_env_def two_numbers_exec_def sample_defs store_message_def
        pending_meta_def meta_of_def find_row_def)
  moreover have "dict_get (resolved_pair sample_inbound ''+1888'' (es_db two_numbers_exec)) (im_recipient sample_inbound) = Some ?u"
    "dict_get (resolved_pair sample_inbound ''+1888'' (es_db two_numbers_exec)) ''+1888'' = Some ?u"
    "find_room (us_tenant_uuid ?u) [recipient_participant sample_inbound_env ?u, recipient_participant sample_inbound_env ?u]
       (es_db two_numbers_exec) = Inr None"
    "ie_new_room sample_inbound_env \<notin> ro_uuid ` set (rooms (es_db two_numbers_exec))"
    "us_tenant_uuid ?u \<in> tn_uuid ` set (tenants (es_db two_numbers_exec))"
    by (simp_all add: resolved_pair_def async_resolve_users_by_identities_def resolve_rows_def sample_inbound_def
        sample_inbound_env_def two_numbers_exec_def sample_defs store_message_def pending_meta_def find_row_def
        dict_of_def List.map_filter_def find_room_def exact_room_def recipient_participant_def)
  ultimately show ?thesis
    by (simp add: self_message_rejected)
qed

end
