(* ===== verification/MessageQueue.thy ===== *)
theory MessageQueue
  imports Prelude
begin

text \<open>
  \<open>plugin_helpers/queue.py\<close>: the bounded FIFO that carries inbound events from any thread to
  the delivery loop. First the operations as the code runs them one at a time, then the queue as
  a machine whose steps are the points where producers and the consumer may interleave: a producer
  checks the size, appends, reads \<open>_wake\<close>, resolves it; the consumer finds the queue empty,
  publishes a new future, looks again, waits, resumes, pops.
\<close>

section \<open>Operations\<close>

record 'a AsyncQueue =
  q_items :: "'a list"
  q_maxsize :: nat
  q_wake :: "bool option"    \<comment> \<open>None, or a future and whether it is done\<close>

definition new_queue :: "nat \<Rightarrow> 'a AsyncQueue" where
  "new_queue maxsize = \<lparr>q_items = [], q_maxsize = maxsize, q_wake = None\<rparr>"

text \<open>\<open>append\<close>: None is QueueFull.\<close>

definition append :: "'a \<Rightarrow> 'a AsyncQueue \<Rightarrow> 'a AsyncQueue option" where
  "append item q =
     (if length (q_items q) \<ge> q_maxsize q then None
      else Some (q\<lparr>q_items := q_items q @ [item],
                   q_wake := (case q_wake q of None \<Rightarrow> None | Some _ \<Rightarrow> Some True)\<rparr>))"

definition reset :: "'a AsyncQueue \<Rightarrow> 'a AsyncQueue" where
  "reset q = q\<lparr>q_wake := None\<rparr>"

text \<open>\<open>__anext__\<close> up to its first suspension: an item, or a parked consumer.\<close>

definition anext :: "'a AsyncQueue \<Rightarrow> 'a option \<times> 'a AsyncQueue" where
  "anext q =
     (case q_items q of
        [] \<Rightarrow> (None, q\<lparr>q_wake := Some False\<rparr>)
      | x # xs \<Rightarrow> (Some x, q\<lparr>q_items := xs\<rparr>))"

section \<open>The contract of a bounded queue\<close>

locale bounded_fifo =
  fixes contents :: "'q \<Rightarrow> 'a list"
    and capacity :: "'q \<Rightarrow> nat"
    and enq :: "'a \<Rightarrow> 'q \<Rightarrow> 'q option"
    and deq :: "'q \<Rightarrow> 'a option \<times> 'q"
  assumes enq_full: "enq x q = None \<longleftrightarrow> capacity q \<le> length (contents q)"
    and enq_contents: "enq x q = Some q' \<Longrightarrow> contents q' = contents q @ [x]"
    and enq_capacity: "enq x q = Some q' \<Longrightarrow> capacity q' = capacity q"
    and deq_empty: "contents q = [] \<Longrightarrow> fst (deq q) = None \<and> contents (snd (deq q)) = []"
    and deq_first: "contents q = x # xs \<Longrightarrow> fst (deq q) = Some x \<and> contents (snd (deq q)) = xs"
    and deq_capacity: "capacity (snd (deq q)) = capacity q"
begin

definition offer :: "'a \<Rightarrow> 'q \<Rightarrow> 'q" where
  "offer x q = (case enq x q of None \<Rightarrow> q | Some q' \<Rightarrow> q')"

lemma offer_contents:
  "contents (offer x q) = (if capacity q \<le> length (contents q) then contents q else contents q @ [x])"
  using enq_full [of x q] enq_contents by (auto simp: offer_def split: option.splits)

lemma offer_capacity [simp]: "capacity (offer x q) = capacity q"
  by (auto simp: offer_def enq_capacity split: option.splits)

lemma offers_capacity [simp]: "capacity (fold offer xs q) = capacity q"
  by (induction xs arbitrary: q) auto

lemma offers_contents:
  "contents (fold offer xs q) =
     contents q @ take (capacity q - length (contents q)) xs"
proof (induction xs arbitrary: q)
  case (Cons x xs)
  show ?case
  proof (cases "capacity q \<le> length (contents q)")
    case True
    then show ?thesis using Cons [of "offer x q"] by (simp add: offer_contents)
  next
    case False
    then obtain k where "capacity q - length (contents q) = Suc k"
      by (metis diff_is_0_eq old.nat.exhaust)
    moreover from this have "capacity q - Suc (length (contents q)) = k" by simp
    ultimately show ?thesis using False Cons [of "offer x q"] by (simp add: offer_contents)
  qed
qed simp

end

interpretation async_queue: bounded_fifo q_items q_maxsize append anext
  by unfold_locales (auto simp: append_def anext_def split: if_splits list.splits)

section \<open>Interleavings\<close>

datatype 'a producer = Producing | Checked 'a | Appended | Waking nat

datatype consumer = Looping | Published nat | Waiting nat | Popping

record 'a queue_machine =
  qm_items :: "'a list"
  qm_maxsize :: nat
  qm_wake :: "nat option"
  qm_done :: "nat set"
  qm_next :: nat
  qm_producers :: "nat \<Rightarrow> 'a producer"
  qm_consumer :: consumer
  qm_in :: "'a list"     \<comment> \<open>ghost: everything appended\<close>
  qm_out :: "'a list"    \<comment> \<open>ghost: everything delivered\<close>

definition init_machine :: "nat \<Rightarrow> 'a queue_machine" where
  "init_machine maxsize = \<lparr>qm_items = [], qm_maxsize = maxsize, qm_wake = None, qm_done = {},
     qm_next = 0, qm_producers = (\<lambda>_. Producing), qm_consumer = Looping, qm_in = [], qm_out = []\<rparr>"

inductive queue_step :: "'a queue_machine \<Rightarrow> 'a queue_machine \<Rightarrow> bool" where
  check: "qm_producers m p = Producing \<Longrightarrow> length (qm_items m) < qm_maxsize m \<Longrightarrow>
    queue_step m (m\<lparr>qm_producers := (qm_producers m)(p := Checked x)\<rparr>)"
| put: "qm_producers m p = Checked x \<Longrightarrow>
    queue_step m (m\<lparr>qm_items := qm_items m @ [x], qm_in := qm_in m @ [x],
      qm_producers := (qm_producers m)(p := Appended)\<rparr>)"
| read_wake: "qm_producers m p = Appended \<Longrightarrow>
    queue_step m (m\<lparr>qm_producers :=
      (qm_producers m)(p := (case qm_wake m of None \<Rightarrow> Producing | Some w \<Rightarrow> Waking w))\<rparr>)"
| set_result: "qm_producers m p = Waking w \<Longrightarrow>
    queue_step m (m\<lparr>qm_done := insert w (qm_done m),
      qm_producers := (qm_producers m)(p := Producing)\<rparr>)"
| publish: "qm_consumer m = Looping \<Longrightarrow> qm_items m = [] \<Longrightarrow>
    queue_step m (m\<lparr>qm_wake := Some (qm_next m), qm_next := Suc (qm_next m),
      qm_consumer := Published (qm_next m)\<rparr>)"
| found: "qm_consumer m = Looping \<Longrightarrow> qm_items m \<noteq> [] \<Longrightarrow>
    queue_step m (m\<lparr>qm_consumer := Popping\<rparr>)"
| look_again: "qm_consumer m = Published w \<Longrightarrow>
    queue_step m (m\<lparr>qm_consumer := (if qm_items m = [] then Waiting w else Popping)\<rparr>)"
| resume: "qm_consumer m = Waiting w \<Longrightarrow> w \<in> qm_done m \<Longrightarrow>
    queue_step m (m\<lparr>qm_consumer := Looping\<rparr>)"
| pop: "qm_consumer m = Popping \<Longrightarrow> qm_items m = x # xs \<Longrightarrow>
    queue_step m (m\<lparr>qm_items := xs, qm_out := qm_out m @ [x], qm_consumer := Looping\<rparr>)"
| restart: "queue_step m (m\<lparr>qm_wake := None, qm_consumer := Looping\<rparr>)"

definition queue_inv :: "'a queue_machine \<Rightarrow> bool" where
  "queue_inv m \<longleftrightarrow> qm_in m = qm_out m @ qm_items m \<and>
     (\<forall>w. qm_consumer m = Published w \<longrightarrow> qm_wake m = Some w) \<and>
     (\<forall>w. qm_consumer m = Waiting w \<longrightarrow> qm_wake m = Some w \<and>
        (qm_items m \<noteq> [] \<longrightarrow> w \<in> qm_done m \<or>
           (\<exists>p. qm_producers m p = Appended \<or> qm_producers m p = Waking w))) \<and>
     (qm_consumer m = Popping \<longrightarrow> qm_items m \<noteq> [])"

lemma queue_step_inv: "queue_step m m' \<Longrightarrow> queue_inv m \<Longrightarrow> queue_inv m'"
proof (induction rule: queue_step.induct)
  case (read_wake m p)
  show ?case
  proof (cases "qm_wake m")
    case None
    with read_wake show ?thesis by (auto simp: queue_inv_def)
  next
    case (Some w)
    with read_wake show ?thesis by (force simp: queue_inv_def)
  qed
next
  case (set_result m p w)
  then show ?case by (force simp: queue_inv_def)
qed (force simp: queue_inv_def split: if_splits)+

interpretation queue_life: invariant_system queue_step queue_inv
  by unfold_locales (rule queue_step_inv)

lemma init_machine_inv: "queue_inv (init_machine n)"
  by (simp add: queue_inv_def init_machine_def)

text \<open>
  C14: no event is lost, duplicated or reordered between the threads, and no
  wake-up is lost. However producers and the consumer interleave, what was delivered is a prefix
  of what was appended and the rest is still queued; and when the consumer is parked on a
  future with events queued and no producer in the middle of an append, that future is
  already resolved, so the consumer is able to run.
\<close>

theorem queue_no_lost_wakeup:
  assumes "reaches queue_step (init_machine maxsize) m"
  shows "qm_in m = qm_out m @ qm_items m \<and>
     (\<forall>w. qm_consumer m = Waiting w \<and> qm_items m \<noteq> [] \<and>
          (\<forall>p. qm_producers m p \<noteq> Appended \<and> (\<forall>v. qm_producers m p \<noteq> Waking v)) \<longrightarrow>
        w \<in> qm_done m \<and> queue_step m (m\<lparr>qm_consumer := Looping\<rparr>))"
proof -
  have "queue_inv m"
    using assms init_machine_inv by (rule queue_life.reaches_inv)
  then show ?thesis by (auto simp: queue_inv_def intro: queue_step.resume)
qed

theorem queue_no_lost_wakeup_witness:
  "\<exists>m :: nat queue_machine. qm_in m = [7] \<and> qm_consumer m = Waiting 0 \<and> qm_items m = [7] \<and>
     qm_in m = qm_out m @ qm_items m"
proof -
  define mk :: "nat option \<Rightarrow> nat \<Rightarrow> consumer \<Rightarrow> nat list \<Rightarrow> nat producer \<Rightarrow> nat queue_machine"
    where "mk = (\<lambda>wake n c xs p. \<lparr>qm_items = xs, qm_maxsize = 10, qm_wake = wake, qm_done = {},
      qm_next = n, qm_producers = (\<lambda>_. Producing)(0 := p), qm_consumer = c, qm_in = xs, qm_out = []\<rparr>)"
  have "queue_step (mk None 0 Looping [] Producing) (mk (Some 0) 1 (Published 0) [] Producing)"
    using queue_step.publish [of "mk None 0 Looping [] Producing"] by (simp add: mk_def)
  moreover have "queue_step (mk (Some 0) 1 (Published 0) [] Producing) (mk (Some 0) 1 (Waiting 0) [] Producing)"
    using queue_step.look_again [of "mk (Some 0) 1 (Published 0) [] Producing" 0] by (simp add: mk_def)
  moreover have "queue_step (mk (Some 0) 1 (Waiting 0) [] Producing) (mk (Some 0) 1 (Waiting 0) [] (Checked 7))"
    using queue_step.check [of "mk (Some 0) 1 (Waiting 0) [] Producing" 0 7] by (simp add: mk_def)
  moreover have "queue_step (mk (Some 0) 1 (Waiting 0) [] (Checked 7)) (mk (Some 0) 1 (Waiting 0) [7] Appended)"
    using queue_step.put [of "mk (Some 0) 1 (Waiting 0) [] (Checked 7)" 0 7] by (simp add: mk_def)
  moreover have "mk None 0 Looping [] Producing = init_machine 10"
    by (simp add: mk_def init_machine_def fun_eq_iff)
  ultimately have "reaches queue_step (init_machine 10) (mk (Some 0) 1 (Waiting 0) [7] Appended)"
    by (metis reaches.intros)
  then have "qm_in (mk (Some 0) 1 (Waiting 0) [7] Appended) =
      qm_out (mk (Some 0) 1 (Waiting 0) [7] Appended) @ qm_items (mk (Some 0) 1 (Waiting 0) [7] Appended)"
    by (rule conjunct1 [OF queue_no_lost_wakeup])
  then have "qm_in (mk (Some 0) 1 (Waiting 0) [7] Appended) = [7] \<and>
      qm_consumer (mk (Some 0) 1 (Waiting 0) [7] Appended) = Waiting 0 \<and>
      qm_items (mk (Some 0) 1 (Waiting 0) [7] Appended) = [7] \<and>
      qm_in (mk (Some 0) 1 (Waiting 0) [7] Appended) =
      qm_out (mk (Some 0) 1 (Waiting 0) [7] Appended) @ qm_items (mk (Some 0) 1 (Waiting 0) [7] Appended)"
    by (simp add: mk_def)
  then show ?thesis by (rule exI)
qed

end
