(* ===== verification/Runner.thy ===== *)
theory Runner
  imports Inbound MessageQueue
begin

text \<open>
  \<open>plugins/connectors/runner.py\<close>: the restart back-off of every runner, and the delivery runner:
  its task table, its semaphore, its timers, the notification and recovery paths, the pollers. The
  loop runs one callback at a time, so every callback is one definition. A delivery id
  is a decimal string, as the notification carries it; a timer handle is a number; the
  loop's pending handles are \<open>rn_handles\<close>.
\<close>

section \<open>Restarts\<close>

record restart_state =
  rs_backoff :: "int stream"
  rs_healthy :: bool
  rs_restart_count :: nat

definition new_restart_state :: restart_state where
  "new_restart_state = \<lparr>rs_backoff = exponential_backoff, rs_healthy = False, rs_restart_count = 0\<rparr>"

text \<open>\<open>_wait_backoff\<close> up to the wait: the seconds it waits for the closing signal.\<close>

definition wait_backoff :: "'a restart_state_scheme \<Rightarrow> int \<times> 'a restart_state_scheme" where
  "wait_backoff s =
     (let s1 = (if rs_healthy s then s\<lparr>rs_backoff := exponential_backoff, rs_healthy := False\<rparr> else s)
      in (shd (rs_backoff s1),
          s1\<lparr>rs_backoff := stl (rs_backoff s1), rs_restart_count := Suc (rs_restart_count s1)\<rparr>))"

definition mark_healthy :: "bool \<Rightarrow> bool \<Rightarrow> 'a restart_state_scheme \<Rightarrow> 'a restart_state_scheme" where
  "mark_healthy cancelled failed s = (if \<not> cancelled \<and> \<not> failed then s\<lparr>rs_healthy := True\<rparr> else s)"

text \<open>What a runner goes through: it crashes and waits, or one of its tasks ends well.\<close>

datatype restart_event = Crashed | TaskDone

fun waits :: "restart_event list \<Rightarrow> 'a restart_state_scheme \<Rightarrow> int list" where
  "waits [] s = []"
| "waits (Crashed # es) s = (let (d, s1) = wait_backoff s in d # waits es s1)"
| "waits (TaskDone # es) s = waits es (mark_healthy False False s)"

section \<open>The delivery runner\<close>

datatype task_key =
    OutboundKey string
  | InboundKey string string nat
  | StatusKey string string string nat

datatype task_phase = Created | Processing

datatype timer = OutboundTimer string | InboundTimer event nat

record runner = restart_state +
  rn_max_tasks :: nat
  rn_tasks :: "(task_key, task_phase) dict"
  rn_scheduled_timers :: "nat set"
  rn_outbound_timers :: "(string, nat) dict"
  rn_handles :: "(nat, timer) dict"
  rn_next_handle :: nat
  rn_queue :: "event AsyncQueue"

definition new_runner :: "nat \<Rightarrow> runner" where
  "new_runner max_tasks = \<lparr>rs_backoff = exponential_backoff, rs_healthy = False, rs_restart_count = 0,
     rn_max_tasks = max_tasks, rn_tasks = [], rn_scheduled_timers = {}, rn_outbound_timers = [],
     rn_handles = [], rn_next_handle = 0, rn_queue = new_queue 1000\<rparr>"

definition enqueue_message :: "event \<Rightarrow> runner \<Rightarrow> runner" where
  "enqueue_message m rn =
     (case MessageQueue.append m (rn_queue rn) of None \<Rightarrow> rn | Some q \<Rightarrow> rn\<lparr>rn_queue := q\<rparr>)"

definition in_flight_count :: "runner \<Rightarrow> nat" where
  "in_flight_count rn = length (rn_tasks rn)"

text \<open>\<open>create_task\<close>: at most one task per key.\<close>

definition create_task :: "task_key \<Rightarrow> runner \<Rightarrow> runner" where
  "create_task key rn =
     (if dict_get (rn_tasks rn) key \<noteq> None then rn
      else rn\<lparr>rn_tasks := dict_set key Created (rn_tasks rn)\<rparr>)"

definition schedule_outbound_delivery :: "string \<Rightarrow> runner \<Rightarrow> runner" where
  "schedule_outbound_delivery delivery_id rn = create_task (OutboundKey delivery_id) rn"

fun event_key :: "event \<Rightarrow> nat \<Rightarrow> task_key" where
  "event_key (Inbound m) attempt = InboundKey (im_backend m) (im_external_id m) attempt"
| "event_key (Status u) attempt = StatusKey (su_backend u) (su_external_id u) (su_status u) attempt"

definition schedule_inbound :: "event \<Rightarrow> nat \<Rightarrow> runner \<Rightarrow> runner" where
  "schedule_inbound m attempt rn = create_task (event_key m attempt) rn"

definition call_later :: "timer \<Rightarrow> runner \<Rightarrow> nat \<times> runner" where
  "call_later t rn =
     (rn_next_handle rn,
      rn\<lparr>rn_handles := dict_set (rn_next_handle rn) t (rn_handles rn),
         rn_scheduled_timers := insert (rn_next_handle rn) (rn_scheduled_timers rn),
         rn_next_handle := Suc (rn_next_handle rn)\<rparr>)"

definition cancel_handle :: "nat \<Rightarrow> runner \<Rightarrow> runner" where
  "cancel_handle h rn = rn\<lparr>rn_handles := dict_pop h (rn_handles rn),
     rn_scheduled_timers := rn_scheduled_timers rn - {h}\<rparr>"

definition schedule_outbound_delivery_later :: "string \<Rightarrow> runner \<Rightarrow> runner" where
  "schedule_outbound_delivery_later delivery_id rn =
     (let rn1 = (case dict_get (rn_outbound_timers rn) delivery_id of
                   None \<Rightarrow> rn | Some existing \<Rightarrow> cancel_handle existing rn);
          (h, rn2) = call_later (OutboundTimer delivery_id) rn1
      in rn2\<lparr>rn_outbound_timers := dict_set delivery_id h (rn_outbound_timers rn2)\<rparr>)"

definition schedule_inbound_later :: "event \<Rightarrow> nat \<Rightarrow> runner \<Rightarrow> runner" where
  "schedule_inbound_later m attempt rn = snd (call_later (InboundTimer m attempt) rn)"

text \<open>A handle comes due: the loop removes it and runs its callback.\<close>

definition fire_timer :: "nat \<Rightarrow> runner \<Rightarrow> runner" where
  "fire_timer h rn =
     (case dict_get (rn_handles rn) h of
        None \<Rightarrow> rn
      | Some (OutboundTimer i) \<Rightarrow>
          schedule_outbound_delivery i
            ((cancel_handle h rn)\<lparr>rn_outbound_timers := dict_pop i (rn_outbound_timers rn)\<rparr>)
      | Some (InboundTimer m attempt) \<Rightarrow> schedule_inbound m attempt (cancel_handle h rn))"

definition on_delivery_notify :: "string \<Rightarrow> runner \<Rightarrow> runner" where
  "on_delivery_notify payload rn =
     fold schedule_outbound_delivery (filter (\<lambda>i. i \<noteq> []) (split_commas payload)) rn"

definition recover :: "(nat \<times> real) list \<Rightarrow> runner \<Rightarrow> runner" where
  "recover items rn =
     fold (\<lambda>(i, delay). if delay > 0 then schedule_outbound_delivery_later (str_of_nat i)
                        else schedule_outbound_delivery (str_of_nat i)) items rn"

text \<open>The semaphore: a task processes while fewer than \<open>max_concurrent_tasks\<close> do.\<close>

definition processing :: "runner \<Rightarrow> task_key list" where
  "processing rn = map fst (filter (\<lambda>p. snd p = Processing) (rn_tasks rn))"

definition acquire :: "task_key \<Rightarrow> runner \<Rightarrow> runner" where
  "acquire key rn =
     (if dict_get (rn_tasks rn) key = Some Created \<and> length (processing rn) < rn_max_tasks rn
      then rn\<lparr>rn_tasks := dict_set key Processing (rn_tasks rn)\<rparr> else rn)"

text \<open>
  The end of a task: an outbound one schedules its retry while it holds the semaphore, an
  inbound one after releasing it; the done callbacks mark the runner healthy and remove the key
  before any timer can run.
\<close>

definition finish_outbound :: "string \<Rightarrow> real option \<Rightarrow> runner \<Rightarrow> runner" where
  "finish_outbound delivery_id retry_delay rn =
     (if dict_get (rn_tasks rn) (OutboundKey delivery_id) = Some Processing then
        let rn1 = (case retry_delay of None \<Rightarrow> rn
                   | Some _ \<Rightarrow> schedule_outbound_delivery_later delivery_id rn);
            rn2 = mark_healthy False False rn1
        in rn2\<lparr>rn_tasks := dict_pop (OutboundKey delivery_id) (rn_tasks rn2)\<rparr>
      else rn)"

definition finish_inbound :: "event \<Rightarrow> nat \<Rightarrow> real option \<Rightarrow> runner \<Rightarrow> runner" where
  "finish_inbound m attempt retry_delay rn =
     (if dict_get (rn_tasks rn) (event_key m attempt) = Some Processing then
        let rn1 = (case retry_delay of None \<Rightarrow> rn
                   | Some _ \<Rightarrow> schedule_inbound_later m (attempt + 1) rn);
            rn2 = mark_healthy False False rn1
        in rn2\<lparr>rn_tasks := dict_pop (event_key m attempt) (rn_tasks rn2)\<rparr>
      else rn)"

text \<open>\<open>_dispatch\<close> takes one event off the queue.\<close>

definition dispatch_event :: "runner \<Rightarrow> runner" where
  "dispatch_event rn =
     (case anext (rn_queue rn) of
        (None, q) \<Rightarrow> rn\<lparr>rn_queue := q\<rparr>
      | (Some m, q) \<Rightarrow> schedule_inbound m 0 (rn\<lparr>rn_queue := q\<rparr>))"

text \<open>
  The end of a run. \<open>_shutdown\<close> first cancels every timer, then waits for the tasks in flight
  and forgets them; a new run has a new loop and \<open>_reset_loop_state\<close>.
\<close>

definition shutdown_timers :: "runner \<Rightarrow> runner" where
  "shutdown_timers rn = rn\<lparr>rn_handles := filter (\<lambda>p. fst p \<notin> rn_scheduled_timers rn) (rn_handles rn),
     rn_scheduled_timers := {}\<rparr>"

definition shutdown_tasks :: "runner \<Rightarrow> runner" where
  "shutdown_tasks rn = rn\<lparr>rn_tasks := []\<rparr>"

definition new_loop :: "runner \<Rightarrow> runner" where
  "new_loop rn = rn\<lparr>rn_handles := []\<rparr>"

definition reset_loop_state :: "runner \<Rightarrow> runner" where
  "reset_loop_state rn = rn\<lparr>rn_tasks := [], rn_scheduled_timers := {}, rn_outbound_timers := [],
     rn_queue := MessageQueue.reset (rn_queue rn)\<rparr>"

section \<open>What one task runs\<close>

text \<open>
  \<open>_process_outbound_delivery\<close> and \<open>_process\<close>: the session, with every exception logged
  and swallowed. \<open>int(delivery_id)\<close> of a string that is no number raises.
\<close>

definition process_outbound_delivery :: "OutboundEnv \<Rightarrow> string \<Rightarrow> exec_state \<Rightarrow> real option \<times> exec_state" where
  "process_outbound_delivery env delivery_id s =
     (case nat_of_str delivery_id of
        None \<Rightarrow> (None, s)
      | Some i \<Rightarrow>
          (case session_scope (route_outbound_delivery env i) s of
             (Inr r, s1) \<Rightarrow> (r, s1)
           | (Inl _, s1) \<Rightarrow> (None, s1)))"

definition process_event :: "InboundEnv \<Rightarrow> event \<Rightarrow> nat \<Rightarrow> exec_state \<Rightarrow> real option \<times> exec_state" where
  "process_event env m attempt s =
     (case session_scope (case m of
          Inbound x \<Rightarrow> route_inbound env x attempt | Status u \<Rightarrow> route_status_update env u attempt) s of
        (Inr r, s1) \<Rightarrow> (r, s1)
      | (Inl _, s1) \<Rightarrow> (None, s1))"

section \<open>Restarts back off\<close>

lemma wait_backoff_unhealthy:
  "\<not> rs_healthy s \<Longrightarrow> wait_backoff s = (shd (rs_backoff s),
     s\<lparr>rs_backoff := stl (rs_backoff s), rs_restart_count := Suc (rs_restart_count s)\<rparr>)"
  by (simp add: wait_backoff_def)

lemma waits_crashes: "\<not> rs_healthy s \<Longrightarrow> waits (replicate n Crashed) s = stake n (rs_backoff s)"
  by (induction n arbitrary: s) (simp_all add: wait_backoff_unhealthy)

lemma waits_append_done:
  "waits (es @ TaskDone # replicate (Suc n) Crashed) s =
     waits es s @ stake (Suc n) exponential_backoff"
proof (induction es arbitrary: s)
  case Nil
  have "waits (replicate n Crashed) (snd (wait_backoff (mark_healthy False False s))) = stake n (stl exponential_backoff)"
    by (simp add: wait_backoff_def mark_healthy_def Let_def waits_crashes)
  then show ?case by (simp add: wait_backoff_def mark_healthy_def Let_def)
next
  case (Cons e es)
  then show ?case by (cases e) (simp_all add: case_prod_beta)
qed

text \<open>
  A runner that keeps crashing waits 1, 2, 4, 8, 16 seconds and then 32 seconds each time,
  and one task that ends well since the last crash puts the sequence back to its start,
  whatever happened before.
\<close>

theorem restart_backoff_resets:
  "waits (replicate n Crashed) new_restart_state = map (\<lambda>k. if k < 6 then 2 ^ k else 32) [0..<n] \<and>
   waits (es @ TaskDone # replicate (Suc n) Crashed) s =
     waits es s @ map (\<lambda>k. if k < 6 then 2 ^ k else 32) [0..<Suc n]"
proof -
  have st: "stake n exponential_backoff = map (\<lambda>k. if k < 6 then 2 ^ k else 32) [0..<n]" for n
    by (rule nth_equalityI) (simp_all add: stake_nth exponential_backoff_nth)
  have "waits (replicate n Crashed) new_restart_state = stake n exponential_backoff"
    by (simp add: waits_crashes new_restart_state_def)
  then show ?thesis by (simp only: st waits_append_done simp_thms)
qed

section \<open>The task table and the timers\<close>

fun key_attempt :: "task_key \<Rightarrow> nat" where
  "key_attempt (OutboundKey _) = 0"
| "key_attempt (InboundKey _ _ attempt) = attempt"
| "key_attempt (StatusKey _ _ _ attempt) = attempt"

definition timers_ok :: "runner \<Rightarrow> bool" where
  "timers_ok rn \<longleftrightarrow> dict_wf (rn_handles rn) \<and> dict_wf (rn_outbound_timers rn) \<and>
     (\<forall>h. dict_get (rn_handles rn) h \<noteq> None \<longrightarrow> h < rn_next_handle rn) \<and>
     rn_scheduled_timers rn = {h. dict_get (rn_handles rn) h \<noteq> None} \<and>
     (\<forall>i h. dict_get (rn_outbound_timers rn) i = Some h \<longleftrightarrow>
            dict_get (rn_handles rn) h = Some (OutboundTimer i))"

definition tasks_ok :: "runner \<Rightarrow> bool" where
  "tasks_ok rn \<longleftrightarrow> dict_wf (rn_tasks rn) \<and> length (processing rn) \<le> rn_max_tasks rn"

definition attempts_ok :: "runner \<Rightarrow> bool" where
  "attempts_ok rn \<longleftrightarrow> (\<forall>k p. dict_get (rn_tasks rn) k = Some p \<longrightarrow> key_attempt k \<le> INBOUND_MAX_RETRIES) \<and>
     (\<forall>h m n. dict_get (rn_handles rn) h = Some (InboundTimer m n) \<longrightarrow> n \<le> INBOUND_MAX_RETRIES)"

definition tracked :: "runner \<Rightarrow> string set" where
  "tracked rn = {i. dict_get (rn_tasks rn) (OutboundKey i) \<noteq> None \<or> dict_get (rn_outbound_timers rn) i \<noteq> None}"

lemmas runner_defs = timers_ok_def tasks_ok_def attempts_ok_def tracked_def

lemma processing_card:
  "dict_wf (rn_tasks rn) \<Longrightarrow>
     length (processing rn) = card {k. dict_get (rn_tasks rn) k = Some Processing}"
proof -
  assume wf: "dict_wf (rn_tasks rn)"
  then have "distinct (processing rn)"
    by (simp add: dict_wf_def processing_def distinct_map_filter)
  moreover have "set (processing rn) = {k. dict_get (rn_tasks rn) k = Some Processing}"
    using wf by (auto simp: processing_def dict_items_iff [symmetric] image_iff)
  ultimately show ?thesis by (metis distinct_card)
qed

lemma processing_finite: "finite {k. dict_get d k = Some v}"
  by (rule finite_subset [OF _ finite_dom_map_of [of d]]) (auto simp: dom_def)

lemma tasks_ok_set:
  assumes "tasks_ok rn" and "dict_get (rn_tasks rn) k = None \<and> p = Created \<or> length (processing rn) < rn_max_tasks rn"
  shows "tasks_ok (rn\<lparr>rn_tasks := dict_set k p (rn_tasks rn)\<rparr>)"
proof -
  let ?T = "\<lambda>d. {k. dict_get d k = Some Processing}"
  have wf: "dict_wf (rn_tasks rn)" using assms(1) by (simp add: tasks_ok_def)
  have "card (?T (dict_set k p (rn_tasks rn))) \<le> rn_max_tasks rn"
  proof (cases "length (processing rn) < rn_max_tasks rn")
    case True
    have "card (?T (dict_set k p (rn_tasks rn))) \<le> card (insert k (?T (rn_tasks rn)))"
      by (rule card_mono) (auto simp: processing_finite split: if_splits)
    also have "\<dots> \<le> Suc (card (?T (rn_tasks rn)))"
      by (rule card_insert_le_m1 [THEN le_trans]) (auto simp: card_insert_if processing_finite)
    finally show ?thesis using True wf by (simp only: processing_card [of rn])
  next
    case False
    then have "?T (dict_set k p (rn_tasks rn)) = ?T (rn_tasks rn)" using assms(2) by auto
    with assms(1) wf show ?thesis by (simp add: tasks_ok_def processing_card)
  qed
  with wf show ?thesis
    by (simp add: tasks_ok_def dict_wf_set processing_card)
qed

lemma tasks_ok_pop:
  assumes "tasks_ok rn"
  shows "tasks_ok (rn\<lparr>rn_tasks := dict_pop k (rn_tasks rn)\<rparr>)"
proof -
  have wf: "dict_wf (rn_tasks rn)" using assms by (simp add: tasks_ok_def)
  have "card {j. dict_get (dict_pop k (rn_tasks rn)) j = Some Processing}
      \<le> card {j. dict_get (rn_tasks rn) j = Some Processing}"
    by (rule card_mono) (auto simp: processing_finite)
  with assms wf show ?thesis
    by (simp add: tasks_ok_def dict_wf_pop processing_card)
qed

lemma tasks_ok_cong:
  "rn_tasks rn' = rn_tasks rn \<Longrightarrow> rn_max_tasks rn' = rn_max_tasks rn \<Longrightarrow> tasks_ok rn' = tasks_ok rn"
  by (simp add: tasks_ok_def processing_def)

definition runner_inv :: "runner \<Rightarrow> bool" where
  "runner_inv rn \<longleftrightarrow> timers_ok rn \<and> tasks_ok rn \<and> attempts_ok rn"

lemma create_task_inv:
  assumes "runner_inv rn" and "key_attempt k \<le> INBOUND_MAX_RETRIES"
  shows "runner_inv (create_task k rn)"
  using assms tasks_ok_set [of rn k Created]
  by (auto simp: runner_inv_def create_task_def timers_ok_def attempts_ok_def)

lemma create_task_tracked:
  "tracked (create_task k rn) = tracked rn \<union> {i. k = OutboundKey i}"
  by (auto simp: tracked_def create_task_def)

lemma timers_fresh:
  assumes "timers_ok rn"
  shows "dict_get (rn_handles rn) (rn_next_handle rn) = None"
    and "dict_get (rn_outbound_timers rn) j \<noteq> Some (rn_next_handle rn)"
proof -
  show "dict_get (rn_handles rn) (rn_next_handle rn) = None"
    using assms unfolding timers_ok_def by blast
  with assms show "dict_get (rn_outbound_timers rn) j \<noteq> Some (rn_next_handle rn)"
    by (simp add: timers_ok_def)
qed

lemma timers_owner:
  "timers_ok rn \<Longrightarrow> dict_get (rn_outbound_timers rn) i = Some h \<longleftrightarrow>
     dict_get (rn_handles rn) h = Some (OutboundTimer i)"
  by (simp add: timers_ok_def)

lemma timers_others:
  assumes "timers_ok rn" and "dict_get (rn_outbound_timers rn) i = Some h"
  shows "j \<noteq> i \<Longrightarrow> dict_get (rn_outbound_timers rn) j = Some h' \<longleftrightarrow>
           h' \<noteq> h \<and> dict_get (rn_handles rn) h' = Some (OutboundTimer j)"
    and "h' \<noteq> h \<Longrightarrow> dict_get (rn_handles rn) h' \<noteq> Some (OutboundTimer i)"
  using assms(2) timers_owner [OF assms(1)] by (metis option.inject timer.inject(1))+

lemma timers_ok_cancel:
  assumes "timers_ok rn" and "dict_get (rn_outbound_timers rn) i = Some h"
  shows "timers_ok ((cancel_handle h rn)\<lparr>rn_outbound_timers := dict_pop i (rn_outbound_timers rn)\<rparr>)"
proof -
  have "dict_get (dict_pop i (rn_outbound_timers rn)) j = Some h' \<longleftrightarrow>
      dict_get (dict_pop h (rn_handles rn)) h' = Some (OutboundTimer j)" for j h'
    using timers_others [OF assms] by (cases "j = i"; cases "h' = h") auto
  with assms(1) show ?thesis
    by (auto simp: timers_ok_def cancel_handle_def dict_wf_pop)
qed

lemma timers_ok_cong:
  assumes "timers_ok rn" and "rn_handles rn' = rn_handles rn" and "rn_next_handle rn' = rn_next_handle rn"
    and "rn_scheduled_timers rn' = rn_scheduled_timers rn" and "dict_wf (rn_outbound_timers rn')"
    and "\<And>i. dict_get (rn_outbound_timers rn') i = dict_get (rn_outbound_timers rn) i"
  shows "timers_ok rn'"
  using assms by (simp add: timers_ok_def)

lemma timers_ok_set:
  assumes "timers_ok rn" and "dict_get (rn_outbound_timers rn) i = None"
  shows "timers_ok ((snd (call_later (OutboundTimer i) rn))\<lparr>rn_outbound_timers :=
     dict_set i (rn_next_handle rn) (rn_outbound_timers rn)\<rparr>)"
proof -
  have "dict_get (rn_handles rn) h \<noteq> Some (OutboundTimer i)" for h
    using assms(2) by (simp flip: timers_owner [OF assms(1)])
  with assms timers_fresh [OF assms(1)] timers_owner [OF assms(1)] show ?thesis
    by (auto simp: timers_ok_def call_later_def dict_wf_set)
qed

lemma call_later_frame [simp]:
  "fst (call_later t rn) = rn_next_handle rn"
  "rn_tasks (snd (call_later t rn)) = rn_tasks rn"
  "rn_max_tasks (snd (call_later t rn)) = rn_max_tasks rn"
  "rn_outbound_timers (snd (call_later t rn)) = rn_outbound_timers rn"
  "rn_handles (snd (call_later t rn)) = dict_set (rn_next_handle rn) t (rn_handles rn)"
  by (simp_all add: call_later_def)

lemma cancel_handle_frame [simp]:
  "rn_tasks (cancel_handle h rn) = rn_tasks rn"
  "rn_max_tasks (cancel_handle h rn) = rn_max_tasks rn"
  "rn_outbound_timers (cancel_handle h rn) = rn_outbound_timers rn"
  "rn_next_handle (cancel_handle h rn) = rn_next_handle rn"
  "rn_handles (cancel_handle h rn) = dict_pop h (rn_handles rn)"
  by (simp_all add: cancel_handle_def)

lemma schedule_outbound_later_frame [simp]:
  "rn_tasks (schedule_outbound_delivery_later i rn) = rn_tasks rn"
  "rn_max_tasks (schedule_outbound_delivery_later i rn) = rn_max_tasks rn"
  by (simp_all add: schedule_outbound_delivery_later_def case_prod_beta Let_def split: option.split)

lemma schedule_outbound_later_tracked:
  "tracked (schedule_outbound_delivery_later i rn) = insert i (tracked rn)"
  by (auto simp: tracked_def schedule_outbound_delivery_later_def case_prod_beta Let_def split: option.split)

lemma schedule_outbound_later_inv:
  assumes "runner_inv rn"
  shows "runner_inv (schedule_outbound_delivery_later i rn)"
proof -
  have t: "timers_ok rn" and a: "attempts_ok rn" and k: "tasks_ok rn"
    using assms by (simp_all add: runner_inv_def)
  have "timers_ok (schedule_outbound_delivery_later i rn)"
  proof (cases "dict_get (rn_outbound_timers rn) i")
    case None
    then show ?thesis using timers_ok_set [OF t None]
      by (simp add: schedule_outbound_delivery_later_def case_prod_beta)
  next
    case (Some h)
    have wf: "dict_wf (rn_outbound_timers rn)" using t by (simp add: timers_ok_def)
    let ?rn1 = "(cancel_handle h rn)\<lparr>rn_outbound_timers := dict_pop i (rn_outbound_timers rn)\<rparr>"
    have "timers_ok ((snd (call_later (OutboundTimer i) ?rn1))\<lparr>rn_outbound_timers :=
        dict_set i (rn_next_handle ?rn1) (rn_outbound_timers ?rn1)\<rparr>)"
      by (rule timers_ok_set [OF timers_ok_cancel [OF t Some]]) simp
    then show ?thesis
      by (rule timers_ok_cong)
        (use Some wf in \<open>simp_all add: schedule_outbound_delivery_later_def case_prod_beta Let_def
          call_later_def cancel_handle_def dict_wf_set\<close>)
  qed
  moreover have "attempts_ok (schedule_outbound_delivery_later i rn)"
    using a by (auto simp: attempts_ok_def schedule_outbound_delivery_later_def case_prod_beta Let_def
        split: option.split if_splits)
  ultimately show ?thesis using k tasks_ok_cong [of "schedule_outbound_delivery_later i rn" rn]
    by (simp add: runner_inv_def)
qed

lemma schedule_inbound_later_inv:
  assumes "runner_inv rn" and "attempt \<le> INBOUND_MAX_RETRIES"
  shows "runner_inv (schedule_inbound_later m attempt rn)"
    and "tracked (schedule_inbound_later m attempt rn) = tracked rn"
    and "rn_tasks (schedule_inbound_later m attempt rn) = rn_tasks rn"
    and "rn_max_tasks (schedule_inbound_later m attempt rn) = rn_max_tasks rn"
proof -
  have t: "timers_ok rn" using assms by (simp add: runner_inv_def)
  then have "timers_ok (schedule_inbound_later m attempt rn)"
    using timers_fresh [OF t] timers_owner [OF t]
    by (auto simp: timers_ok_def schedule_inbound_later_def call_later_def dict_wf_set)
  moreover have "attempts_ok (schedule_inbound_later m attempt rn)"
    using assms by (auto simp: runner_inv_def attempts_ok_def schedule_inbound_later_def)
  ultimately show "runner_inv (schedule_inbound_later m attempt rn)"
    using assms(1) tasks_ok_cong [of "schedule_inbound_later m attempt rn" rn]
    by (simp add: runner_inv_def schedule_inbound_later_def)
qed (simp_all add: schedule_inbound_later_def tracked_def)

lemma fire_timer_inv:
  assumes "runner_inv rn"
  shows "runner_inv (fire_timer h rn)" and "tracked rn \<subseteq> tracked (fire_timer h rn)"
proof -
  have t: "timers_ok rn" using assms by (simp add: runner_inv_def)
  show "runner_inv (fire_timer h rn)"
  proof (cases "dict_get (rn_handles rn) h")
    case None
    with assms show ?thesis by (simp add: fire_timer_def)
  next
    case (Some u)
    show ?thesis
    proof (cases u)
      case (OutboundTimer i)
      have own: "dict_get (rn_outbound_timers rn) i = Some h"
        using Some OutboundTimer by (simp add: timers_owner [OF t])
      let ?rn1 = "(cancel_handle h rn)\<lparr>rn_outbound_timers := dict_pop i (rn_outbound_timers rn)\<rparr>"
      have "timers_ok ?rn1"
        by (rule timers_ok_cancel [OF t own])
      moreover have "attempts_ok ?rn1" "tasks_ok ?rn1"
        using assms tasks_ok_cong [of ?rn1 rn] by (auto simp: runner_inv_def attempts_ok_def)
      ultimately have "runner_inv ?rn1" by (simp add: runner_inv_def)
      with Some OutboundTimer show ?thesis
        by (simp add: fire_timer_def schedule_outbound_delivery_def create_task_inv)
    next
      case (InboundTimer m n)
      have "timers_ok (cancel_handle h rn)"
        using t Some InboundTimer timers_owner [OF t] by (auto simp: timers_ok_def cancel_handle_def dict_wf_pop)
      moreover have "attempts_ok (cancel_handle h rn)" "tasks_ok (cancel_handle h rn)"
        using assms tasks_ok_cong [of "cancel_handle h rn" rn] by (auto simp: runner_inv_def attempts_ok_def)
      ultimately have "runner_inv (cancel_handle h rn)" by (simp add: runner_inv_def)
      moreover have "key_attempt (event_key m n) \<le> INBOUND_MAX_RETRIES"
        using assms Some InboundTimer by (cases m) (auto simp: runner_inv_def attempts_ok_def)
      ultimately show ?thesis
        using Some InboundTimer by (simp add: fire_timer_def schedule_inbound_def create_task_inv)
    qed
  qed
  show "tracked rn \<subseteq> tracked (fire_timer h rn)"
    by (auto simp: fire_timer_def schedule_outbound_delivery_def schedule_inbound_def
        create_task_def tracked_def split: option.splits timer.splits)
qed

lemma schedule_outbound_inv:
  "runner_inv rn \<Longrightarrow> runner_inv (schedule_outbound_delivery i rn)"
  "tracked (schedule_outbound_delivery i rn) = insert i (tracked rn)"
  by (auto simp: schedule_outbound_delivery_def create_task_inv create_task_tracked)

lemma on_delivery_notify_inv:
  assumes "runner_inv rn"
  shows "runner_inv (on_delivery_notify payload rn)"
    and "tracked (on_delivery_notify payload rn) = tracked rn \<union> {i \<in> set (split_commas payload). i \<noteq> []}"
proof -
  have "runner_inv (fold schedule_outbound_delivery is rn) \<and>
      tracked (fold schedule_outbound_delivery is rn) = tracked rn \<union> set is" for "is"
    using assms by (induction "is" arbitrary: rn) (auto simp: schedule_outbound_inv)
  from this [of "filter (\<lambda>i. i \<noteq> []) (split_commas payload)"]
  show "runner_inv (on_delivery_notify payload rn)"
    and "tracked (on_delivery_notify payload rn) = tracked rn \<union> {i \<in> set (split_commas payload). i \<noteq> []}"
    by (simp_all add: on_delivery_notify_def)
qed

lemma recover_inv:
  assumes "runner_inv rn"
  shows "runner_inv (recover items rn)" and "tracked (recover items rn) = tracked rn \<union> (str_of_nat \<circ> fst) ` set items"
proof -
  have "runner_inv (recover items rn) \<and> tracked (recover items rn) = tracked rn \<union> (str_of_nat \<circ> fst) ` set items"
    using assms
  proof (induction items arbitrary: rn)
    case (Cons x items)
    obtain i d where "x = (i, d)" by fastforce
    then show ?case
      using Cons.prems Cons.IH [of "schedule_outbound_delivery_later (str_of_nat i) rn"]
        Cons.IH [of "schedule_outbound_delivery (str_of_nat i) rn"]
      by (auto simp: recover_def schedule_outbound_later_inv schedule_outbound_later_tracked
          schedule_outbound_inv split: if_splits)
  qed (simp add: recover_def)
  then show "runner_inv (recover items rn)"
    and "tracked (recover items rn) = tracked rn \<union> (str_of_nat \<circ> fst) ` set items" by simp_all
qed

lemma queue_frame:
  "runner_inv (rn\<lparr>rn_queue := q\<rparr>) = runner_inv rn" "tracked (rn\<lparr>rn_queue := q\<rparr>) = tracked rn"
  by (simp_all add: runner_inv_def runner_defs processing_def)

lemma acquire_inv:
  assumes "runner_inv rn"
  shows "runner_inv (acquire k rn)" and "tracked rn \<subseteq> tracked (acquire k rn)"
  using assms tasks_ok_set [of rn k Processing]
  by (auto simp: acquire_def runner_inv_def timers_ok_def attempts_ok_def tracked_def)

lemma finish_outbound_inv:
  assumes "runner_inv rn"
  shows "runner_inv (finish_outbound i r rn)"
    and "tracked rn - (if r = None then {i} else {}) \<subseteq> tracked (finish_outbound i r rn)"
proof -
  let ?rn1 = "case r of None \<Rightarrow> rn | Some _ \<Rightarrow> schedule_outbound_delivery_later i rn"
  have inv: "runner_inv ?rn1" using assms by (simp add: schedule_outbound_later_inv split: option.split)
  have tr: "tracked ?rn1 = tracked rn \<union> (if r = None then {} else {i})"
    by (auto simp: schedule_outbound_later_tracked split: option.split)
  have mark: "runner_inv (mark_healthy c f rn') = runner_inv rn'" for c f rn'
    by (simp add: mark_healthy_def runner_inv_def runner_defs processing_def)
  have pop: "runner_inv (rn'\<lparr>rn_tasks := dict_pop k (rn_tasks rn')\<rparr>)" if "runner_inv rn'" for k rn'
    using that tasks_ok_pop [of rn' k] by (auto simp: runner_inv_def timers_ok_def attempts_ok_def)
  show "runner_inv (finish_outbound i r rn)"
    using inv assms mark pop by (simp add: finish_outbound_def Let_def)
  show "tracked rn - (if r = None then {i} else {}) \<subseteq> tracked (finish_outbound i r rn)"
  proof (cases r)
    case None
    then show ?thesis by (auto simp: finish_outbound_def tracked_def mark_healthy_def)
  next
    case (Some d)
    then show ?thesis
      by (auto simp: finish_outbound_def tracked_def mark_healthy_def schedule_outbound_delivery_later_def
          Let_def case_prod_beta split: option.splits)
  qed
qed

lemma finish_inbound_inv:
  assumes "runner_inv rn" and "r \<noteq> None \<Longrightarrow> attempt < INBOUND_MAX_RETRIES"
  shows "runner_inv (finish_inbound m attempt r rn)"
    and "tracked (finish_inbound m attempt r rn) = tracked rn"
proof -
  let ?rn1 = "case r of None \<Rightarrow> rn | Some _ \<Rightarrow> schedule_inbound_later m (attempt + 1) rn"
  have inv: "runner_inv ?rn1 \<and> tracked ?rn1 = tracked rn"
    using assms schedule_inbound_later_inv [of rn "attempt + 1" m] by (auto split: option.split)
  have mark: "runner_inv (mark_healthy c f rn') = runner_inv rn'" "tracked (mark_healthy c f rn') = tracked rn'"
    for c f rn'
    by (simp_all add: mark_healthy_def runner_inv_def runner_defs processing_def)
  have pop: "runner_inv (rn'\<lparr>rn_tasks := dict_pop k (rn_tasks rn')\<rparr>)" if "runner_inv rn'" for k rn'
    using that tasks_ok_pop [of rn' k] by (auto simp: runner_inv_def timers_ok_def attempts_ok_def)
  have key: "tracked (rn'\<lparr>rn_tasks := dict_pop (event_key m attempt) (rn_tasks rn')\<rparr>) = tracked rn'" for rn'
    by (cases m) (auto simp: tracked_def)
  show "runner_inv (finish_inbound m attempt r rn)"
    using inv assms(1) mark pop by (simp add: finish_inbound_def Let_def)
  show "tracked (finish_inbound m attempt r rn) = tracked rn"
    using inv mark key by (simp add: finish_inbound_def Let_def)
qed

section \<open>The runner's life\<close>

text \<open>
  The runner with the executor it drives; \<open>rm_wanted\<close> is a ghost: the deliveries that were
  notified or recovered in this run and whose last attempt did not end yet.
\<close>

record runner_machine =
  rm_runner :: runner
  rm_exec :: exec_state
  rm_wanted :: "string set"

definition new_runner_machine :: "nat \<Rightarrow> exec_state \<Rightarrow> runner_machine" where
  "new_runner_machine max_tasks s = \<lparr>rm_runner = new_runner max_tasks, rm_exec = s, rm_wanted = {}\<rparr>"

inductive runner_step :: "runner_machine \<Rightarrow> runner_machine \<Rightarrow> bool" where
  enqueued: "runner_step M (M\<lparr>rm_runner := enqueue_message m (rm_runner M)\<rparr>)"
| dispatched: "runner_step M (M\<lparr>rm_runner := dispatch_event (rm_runner M)\<rparr>)"
| notified: "runner_step M (M\<lparr>rm_runner := on_delivery_notify payload (rm_runner M),
    rm_wanted := rm_wanted M \<union> {i \<in> set (split_commas payload). i \<noteq> []}\<rparr>)"
| recovered: "items = recover_pending_deliveries (es_db (rm_exec M)) \<Longrightarrow>
    runner_step M (M\<lparr>rm_runner := recover items (rm_runner M),
      rm_wanted := rm_wanted M \<union> (str_of_nat \<circ> fst) ` set items\<rparr>)"
| timer_due: "runner_step M (M\<lparr>rm_runner := fire_timer h (rm_runner M)\<rparr>)"
| acquired: "runner_step M (M\<lparr>rm_runner := acquire k (rm_runner M)\<rparr>)"
| outbound_done: "dict_get (rn_tasks (rm_runner M)) (OutboundKey i) = Some Processing \<Longrightarrow>
    process_outbound_delivery oenv i (rm_exec M) = (r, s) \<Longrightarrow>
    runner_step M \<lparr>rm_runner = finish_outbound i r (rm_runner M), rm_exec = s,
      rm_wanted = (if r = None then rm_wanted M - {i} else rm_wanted M)\<rparr>"
| inbound_done: "dict_get (rn_tasks (rm_runner M)) (event_key m attempt) = Some Processing \<Longrightarrow>
    process_event env m attempt (rm_exec M) = (r, s) \<Longrightarrow>
    runner_step M (M\<lparr>rm_runner := finish_inbound m attempt r (rm_runner M), rm_exec := s\<rparr>)"
| crashed: "runner_step M (M\<lparr>rm_runner := reset_loop_state (new_loop (snd (wait_backoff
      (shutdown_tasks (shutdown_timers (rm_runner M)))))), rm_wanted := {}\<rparr>)"

lemma db_persist_delay:
  "fst (db_persist_or_delay attempt outcome) = Inr (Some d) \<Longrightarrow>
     attempt < INBOUND_MAX_RETRIES \<and> d = of_int (INBOUND_RETRY_DELAYS ! attempt)"
  by (auto simp: db_persist_or_delay_def split: prod.splits sum.splits if_splits)

lemma inbound_delay:
  assumes "fst (process_event env m attempt s) = Some d"
  shows "attempt < INBOUND_MAX_RETRIES \<and> d = of_int (INBOUND_RETRY_DELAYS ! attempt)"
proof (cases m)
  case (Inbound x)
  then have "fst (route_inbound env x attempt (begin_session s)) = Inr (Some d)"
    using assms by (auto simp: process_event_def session_scope_def split: prod.splits sum.splits)
  then obtain r sp s1 where "fst (store_inbound env x attempt r sp s1) = Inr (Some d)"
    by (auto simp: route_inbound_def confirm_delivery_def give_up_def split: prod.splits sum.splits option.splits if_splits)
  then have "fst (db_persist_or_delay attempt (inbound_insert env r
      (build_inbound_message env x r sp) (inbound_meta x (idempotency_key x)) s1)) = Inr (Some d)"
    by (auto simp: store_inbound_def Let_def split: prod.splits sum.splits option.splits exn.splits)
  then show ?thesis by (rule db_persist_delay)
next
  case (Status u)
  then have "fst (route_status_update env u attempt (begin_session s)) = Inr (Some d)"
    using assms by (auto simp: process_event_def session_scope_def split: prod.splits sum.splits)
  then obtain outcome where "fst (db_persist_or_delay attempt (outcome :: (exn + DeliveryRecord) \<times> exec_state)) = Inr (Some d)"
    by (auto simp: route_status_update_def split: prod.splits sum.splits option.splits if_splits)
  then show ?thesis by (rule db_persist_delay)
qed

definition machine_inv :: "nat \<Rightarrow> runner_machine \<Rightarrow> bool" where
  "machine_inv n M \<longleftrightarrow> runner_inv (rm_runner M) \<and> rm_wanted M \<subseteq> tracked (rm_runner M) \<and>
     rn_max_tasks (rm_runner M) = n"

lemma max_tasks_create [simp]: "rn_max_tasks (create_task k rn) = rn_max_tasks rn"
  by (simp add: create_task_def)

lemma max_tasks_fold:
  "(\<And>x rn. rn_max_tasks (f x rn) = rn_max_tasks rn) \<Longrightarrow> rn_max_tasks (fold f xs rn) = rn_max_tasks rn"
  by (induction xs arbitrary: rn) auto

lemma max_tasks_frame [simp]:
  "rn_max_tasks (schedule_outbound_delivery i rn) = rn_max_tasks rn"
  "rn_max_tasks (schedule_inbound m attempt rn) = rn_max_tasks rn"
  "rn_max_tasks (mark_healthy c f rn) = rn_max_tasks rn"
  "rn_max_tasks (schedule_inbound_later m attempt rn) = rn_max_tasks rn"
  by (simp_all add: schedule_outbound_delivery_def schedule_inbound_def mark_healthy_def schedule_inbound_later_def)

lemma max_tasks_steps [simp]:
  "rn_max_tasks (enqueue_message m rn) = rn_max_tasks rn"
  "rn_max_tasks (dispatch_event rn) = rn_max_tasks rn"
  "rn_max_tasks (on_delivery_notify payload rn) = rn_max_tasks rn"
  "rn_max_tasks (recover items rn) = rn_max_tasks rn"
  "rn_max_tasks (fire_timer h rn) = rn_max_tasks rn"
  "rn_max_tasks (acquire k rn) = rn_max_tasks rn"
  "rn_max_tasks (finish_outbound i r rn) = rn_max_tasks rn"
  "rn_max_tasks (finish_inbound m attempt r rn) = rn_max_tasks rn"
  "rn_max_tasks (reset_loop_state (new_loop (snd (wait_backoff (shutdown_tasks (shutdown_timers rn)))))) = rn_max_tasks rn"
  by (auto simp: enqueue_message_def dispatch_event_def on_delivery_notify_def recover_def fire_timer_def
      acquire_def finish_outbound_def finish_inbound_def reset_loop_state_def new_loop_def wait_backoff_def
      shutdown_tasks_def shutdown_timers_def Let_def intro!: max_tasks_fold
      split: option.split prod.split timer.split)

lemma enqueue_message_inv:
  "runner_inv (enqueue_message m rn) = runner_inv rn" "tracked (enqueue_message m rn) = tracked rn"
  by (simp_all add: enqueue_message_def queue_frame split: option.split)

lemma dispatch_event_inv:
  assumes "runner_inv rn"
  shows "runner_inv (dispatch_event rn)" and "tracked rn \<subseteq> tracked (dispatch_event rn)"
proof -
  have zero: "key_attempt (event_key m 0) \<le> INBOUND_MAX_RETRIES" for m by (cases m) simp_all
  have "runner_inv (create_task (event_key m 0) (rn\<lparr>rn_queue := q\<rparr>))" for m q
    using assms zero by (simp add: create_task_inv queue_frame)
  with assms show "runner_inv (dispatch_event rn)"
    by (auto simp: dispatch_event_def schedule_inbound_def queue_frame split: prod.split option.split)
  show "tracked rn \<subseteq> tracked (dispatch_event rn)"
    by (auto simp: dispatch_event_def schedule_inbound_def queue_frame create_task_tracked
        split: prod.split option.split)
qed

lemma restarted_inv: "runner_inv (reset_loop_state (new_loop rn))"
  by (simp add: reset_loop_state_def new_loop_def runner_inv_def runner_defs processing_def)

lemma runner_step_inv: "runner_step M M' \<Longrightarrow> machine_inv n M \<Longrightarrow> machine_inv n M'"
proof (induction rule: runner_step.induct)
  case (dispatched M)
  then show ?case using dispatch_event_inv [of "rm_runner M"] by (auto simp: machine_inv_def)
next
  case (timer_due M h)
  then show ?case using fire_timer_inv [of "rm_runner M" h] by (auto simp: machine_inv_def)
next
  case (acquired M k)
  then show ?case using acquire_inv [of "rm_runner M" k] by (auto simp: machine_inv_def)
next
  case (outbound_done M i oenv r s)
  then show ?case using finish_outbound_inv [where rn = "rm_runner M" and i = i and r = r] by (auto simp: machine_inv_def)
next
  case (inbound_done M m attempt env r s)
  then have "r \<noteq> None \<Longrightarrow> attempt < INBOUND_MAX_RETRIES"
    using inbound_delay [of env m attempt "rm_exec M"] by auto
  with inbound_done show ?case using finish_inbound_inv [where rn = "rm_runner M" and r = r and attempt = attempt and m = m] by (simp add: machine_inv_def)
qed (auto simp: machine_inv_def enqueue_message_inv on_delivery_notify_inv recover_inv restarted_inv)

interpretation runner_life: invariant_system runner_step "machine_inv n" for n
  by unfold_locales (rule runner_step_inv)

lemma new_runner_machine_inv: "machine_inv n (new_runner_machine n s)"
  by (simp add: machine_inv_def new_runner_machine_def new_runner_def runner_inv_def runner_defs processing_def)

lemma reached_inv:
  "reaches runner_step (new_runner_machine n s) M \<Longrightarrow> machine_inv n M"
  using new_runner_machine_inv runner_life.reaches_inv by blast

text \<open>
  C19: whatever is notified, recovered, received, retried or crashes, the delivery runner never
  processes more than \<open>max_concurrent_tasks\<close> tasks, has one task per key and one pending
  timer per delivery, can cancel every pending timer, and retries no inbound event more than
  three times.
\<close>

theorem runner_bounded:
  assumes "reaches runner_step (new_runner_machine max_tasks s) M"
  shows "length (processing (rm_runner M)) \<le> max_tasks \<and> distinct (dict_keys (rn_tasks (rm_runner M))) \<and>
     {h. dict_get (rn_handles (rm_runner M)) h \<noteq> None} = rn_scheduled_timers (rm_runner M) \<and>
     (dict_get (rn_handles (rm_runner M)) h = Some (OutboundTimer i) \<longrightarrow>
      dict_get (rn_handles (rm_runner M)) h' = Some (OutboundTimer i) \<longrightarrow> h = h') \<and>
     (dict_get (rn_handles (rm_runner M)) h = Some (InboundTimer m attempt) \<longrightarrow> attempt \<le> 3) \<and>
     (dict_get (rn_tasks (rm_runner M)) (event_key m attempt) \<noteq> None \<longrightarrow> attempt \<le> 3)"
proof -
  have inv: "machine_inv max_tasks M" using assms by (rule reached_inv)
  have own: "timers_ok (rm_runner M)" using inv by (simp add: machine_inv_def runner_inv_def)
  have "attempt \<le> 3" if "dict_get (rn_tasks (rm_runner M)) (event_key m attempt) \<noteq> None"
    using that inv by (cases m) (auto simp: machine_inv_def runner_inv_def attempts_ok_def)
  moreover have "h = h'" if "dict_get (rn_handles (rm_runner M)) h = Some (OutboundTimer i)"
      "dict_get (rn_handles (rm_runner M)) h' = Some (OutboundTimer i)"
    using that by (simp flip: timers_owner [OF own])
  ultimately show ?thesis
    using inv by (auto simp: machine_inv_def runner_inv_def tasks_ok_def dict_wf_def attempts_ok_def timers_ok_def)
qed

definition busy_machine :: runner_machine where
  "busy_machine = (let M = new_runner_machine 1 sample_exec
     in M\<lparr>rm_runner := acquire (OutboundKey ''1'') (on_delivery_notify ''1,2'' (rm_runner M)),
          rm_wanted := {''1'', ''2''}\<rparr>)"

lemma busy_machine_reached: "reaches runner_step (new_runner_machine 1 sample_exec) busy_machine"
proof -
  let ?M = "new_runner_machine 1 sample_exec"
  let ?N = "?M\<lparr>rm_runner := on_delivery_notify ''1,2'' (rm_runner ?M), rm_wanted := {''1'', ''2''}\<rparr>"
  have "{i \<in> set (split_commas ''1,2''). i \<noteq> []} = {''1'', ''2''}"
    by (auto simp: split_commas_def)
  then have "runner_step ?M ?N"
    using notified [of ?M "''1,2''"] by (simp add: new_runner_machine_def)
  moreover have "runner_step ?N busy_machine"
    using acquired [of ?N "OutboundKey ''1''"] by (simp add: busy_machine_def new_runner_machine_def Let_def)
  ultimately show ?thesis by (metis reaches.intros)
qed

lemma busy_machine_tasks:
  "rn_tasks (rm_runner busy_machine) = [(OutboundKey ''1'', Processing), (OutboundKey ''2'', Created)]"
  by (simp add: busy_machine_def new_runner_machine_def new_runner_def on_delivery_notify_def split_commas_def
      schedule_outbound_delivery_def create_task_def acquire_def processing_def Let_def)

theorem runner_bounded_witness:
  "length (processing (rm_runner busy_machine)) \<le> 1 \<and> rn_tasks (rm_runner busy_machine) =
     [(OutboundKey ''1'', Processing), (OutboundKey ''2'', Created)]"
  using runner_bounded [OF busy_machine_reached] busy_machine_tasks by simp

section \<open>No delivery is forgotten\<close>

lemma reaches_first: "step s t \<Longrightarrow> reaches step t u \<Longrightarrow> reaches step s u"
  by (rule reaches_trans) (blast intro: reaches.intros)+

lemma release_task:
  assumes "machine_inv n M" and "dict_get (rn_tasks (rm_runner M)) k = Some Processing"
  obtains M' where "runner_step M M'" and "\<And>j. j \<noteq> k \<Longrightarrow>
      dict_get (rn_tasks (rm_runner M')) j = dict_get (rn_tasks (rm_runner M)) j"
    and "length (processing (rm_runner M')) < n"
proof -
  have wf: "dict_wf (rn_tasks (rm_runner M))" and le: "length (processing (rm_runner M)) \<le> n"
    using assms(1) by (simp_all add: machine_inv_def runner_inv_def tasks_ok_def)
  have "\<exists>M'. runner_step M M' \<and> rn_tasks (rm_runner M') = dict_pop k (rn_tasks (rm_runner M))"
  proof -
    have ev: ?thesis if k: "k = event_key m attempt" for m attempt
    proof -
      obtain r s where "process_event sample_inbound_env m attempt (rm_exec M) = (r, s)" by fastforce
      with assms(2) k have "runner_step M (M\<lparr>rm_runner := finish_inbound m attempt r (rm_runner M), rm_exec := s\<rparr>)"
        by (intro inbound_done) simp_all
      moreover have "rn_tasks (finish_inbound m attempt r (rm_runner M)) = dict_pop k (rn_tasks (rm_runner M))"
        using assms(2) k
        by (simp add: finish_inbound_def Let_def mark_healthy_def schedule_inbound_later_def split: option.split)
      ultimately show ?thesis by fastforce
    qed
    show ?thesis
    proof (cases k)
      case (OutboundKey i)
      obtain r s where "process_outbound_delivery (sample_env (\<lambda>_ _. Inr [])) i (rm_exec M) = (r, s)" by fastforce
      with assms(2) OutboundKey have "runner_step M \<lparr>rm_runner = finish_outbound i r (rm_runner M), rm_exec = s,
          rm_wanted = (if r = None then rm_wanted M - {i} else rm_wanted M)\<rparr>"
        by (intro outbound_done) simp_all
      moreover have "rn_tasks (finish_outbound i r (rm_runner M)) = dict_pop k (rn_tasks (rm_runner M))"
        using assms(2) OutboundKey
        by (simp add: finish_outbound_def Let_def mark_healthy_def split: option.split)
      ultimately show ?thesis by fastforce
    next
      case (InboundKey b x a)
      have "k = event_key (Inbound (sample_inbound\<lparr>im_backend := b, im_external_id := x\<rparr>)) a"
        by (simp add: InboundKey)
      then show ?thesis by (rule ev)
    next
      case (StatusKey b x st a)
      have "k = event_key (Status \<lparr>su_external_id = x, su_status = st, su_backend = b, su_error_code = []\<rparr>) a"
        by (simp add: StatusKey)
      then show ?thesis by (rule ev)
    qed
  qed
  then obtain M' where M': "runner_step M M'" "rn_tasks (rm_runner M') = dict_pop k (rn_tasks (rm_runner M))"
    by blast
  have "{j. dict_get (rn_tasks (rm_runner M')) j = Some Processing}
      \<subset> {j. dict_get (rn_tasks (rm_runner M)) j = Some Processing}"
    using assms(2) M'(2) by auto
  then have "length (processing (rm_runner M')) < length (processing (rm_runner M))"
    using wf M'(2) by (simp add: processing_card dict_wf_pop psubset_card_mono processing_finite)
  with M' le show ?thesis by (intro that [of M']) simp_all
qed

lemma free_slot_admits:
  assumes "machine_inv max_tasks N" and "dict_get (rn_tasks (rm_runner N)) (OutboundKey i) = Some Created"
    and "length (processing (rm_runner N)) < max_tasks"
  shows "\<exists>N'. reaches runner_step N N' \<and> dict_get (rn_tasks (rm_runner N')) (OutboundKey i) = Some Processing"
proof -
  have "runner_step N (N\<lparr>rm_runner := acquire (OutboundKey i) (rm_runner N)\<rparr>)" by (rule acquired)
  moreover have "dict_get (rn_tasks (acquire (OutboundKey i) (rm_runner N))) (OutboundKey i) = Some Processing"
    using assms by (simp add: acquire_def machine_inv_def)
  ultimately show ?thesis
    by (intro exI [of _ "N\<lparr>rm_runner := acquire (OutboundKey i) (rm_runner N)\<rparr>"])
      (auto intro: reaches.intros)
qed

lemma created_task_runs:
  assumes "machine_inv max_tasks N" and "dict_get (rn_tasks (rm_runner N)) (OutboundKey i) = Some Created"
    and "0 < max_tasks"
  shows "\<exists>N'. reaches runner_step N N' \<and> dict_get (rn_tasks (rm_runner N')) (OutboundKey i) = Some Processing"
proof (cases "length (processing (rm_runner N)) < max_tasks")
  case False
  then obtain k where "k \<in> set (processing (rm_runner N))"
    using assms(3) by (cases "processing (rm_runner N)") auto
  then have k: "dict_get (rn_tasks (rm_runner N)) k = Some Processing"
    using assms(1) by (auto simp: processing_def machine_inv_def runner_inv_def tasks_ok_def dict_items_iff)
  then obtain N1 where N1: "runner_step N N1" "length (processing (rm_runner N1)) < max_tasks"
      and "\<And>j. j \<noteq> k \<Longrightarrow> dict_get (rn_tasks (rm_runner N1)) j = dict_get (rn_tasks (rm_runner N)) j"
    using release_task [OF assms(1)] by metis
  moreover have "k \<noteq> OutboundKey i" using assms(2) k by auto
  ultimately have "dict_get (rn_tasks (rm_runner N1)) (OutboundKey i) = Some Created"
    using assms(2) by simp
  with N1 obtain N2 where "reaches runner_step N1 N2"
      "dict_get (rn_tasks (rm_runner N2)) (OutboundKey i) = Some Processing"
    using free_slot_admits [OF runner_step_inv [OF N1(1) assms(1)]] by blast
  then show ?thesis
    using reaches_first [of runner_step, OF N1(1)] by blast
qed (use free_slot_admits assms in blast)

text \<open>
  C15: no delivery is forgotten. From the moment its id is notified or recovered until an attempt
  ends it (or the run crashes, after which recovery reads it from the database), a delivery has
  a task or a pending timer; and whatever else is in flight, the runner can always reach a state
  where that delivery is being processed.
\<close>

theorem no_delivery_forgotten:
  assumes "reaches runner_step (new_runner_machine max_tasks s) M" and "i \<in> rm_wanted M" and "0 < max_tasks"
  shows "(dict_get (rn_tasks (rm_runner M)) (OutboundKey i) \<noteq> None \<or>
      (\<exists>h. dict_get (rn_handles (rm_runner M)) h = Some (OutboundTimer i))) \<and>
     (\<exists>M'. reaches runner_step M M' \<and> dict_get (rn_tasks (rm_runner M')) (OutboundKey i) = Some Processing)"
proof -
  have inv: "machine_inv max_tasks M" using assms(1) by (rule reached_inv)
  then have own: "timers_ok (rm_runner M)" by (simp add: machine_inv_def runner_inv_def)
  have "i \<in> tracked (rm_runner M)" using inv assms(2) by (auto simp: machine_inv_def)
  then have held: "dict_get (rn_tasks (rm_runner M)) (OutboundKey i) \<noteq> None \<or>
      (\<exists>h. dict_get (rn_handles (rm_runner M)) h = Some (OutboundTimer i))"
    by (auto simp: tracked_def timers_owner [OF own])
  have "\<exists>M'. reaches runner_step M M' \<and> dict_get (rn_tasks (rm_runner M')) (OutboundKey i) = Some Processing"
  proof (cases "dict_get (rn_tasks (rm_runner M)) (OutboundKey i)")
    case (Some p)
    show ?thesis
    proof (cases p)
      case Created
      with Some show ?thesis using assms(3) by (intro created_task_runs [OF inv]) simp_all
    next
      case Processing
      with Some show ?thesis by (intro exI [of _ M]) (simp add: reaches_refl)
    qed
  next
    case None
    then obtain h where h: "dict_get (rn_handles (rm_runner M)) h = Some (OutboundTimer i)"
      using held by blast
    let ?N = "M\<lparr>rm_runner := fire_timer h (rm_runner M)\<rparr>"
    have step: "runner_step M ?N" by (rule timer_due)
    have "dict_get (rn_tasks (rm_runner ?N)) (OutboundKey i) = Some Created"
      using h None by (simp add: fire_timer_def schedule_outbound_delivery_def create_task_def)
    then obtain N2 where "reaches runner_step ?N N2"
        "dict_get (rn_tasks (rm_runner N2)) (OutboundKey i) = Some Processing"
      using created_task_runs [OF runner_step_inv [OF step inv]] assms(3) by blast
    then show ?thesis
      using reaches_first [of runner_step, OF step] by blast
  qed
  with held show ?thesis by blast
qed

theorem no_delivery_forgotten_witness:
  "\<exists>M'. reaches runner_step busy_machine M' \<and>
     dict_get (rn_tasks (rm_runner M')) (OutboundKey ''2'') = Some Processing"
  using no_delivery_forgotten [OF busy_machine_reached, of "''2''"] by (simp add: busy_machine_def Let_def)

section \<open>From the database to the task\<close>

lemma fold_schedule_outbound:
  "dict_get (rn_tasks (fold schedule_outbound_delivery is rn)) k =
     (if dict_get (rn_tasks rn) k = None \<and> k \<in> OutboundKey ` set is then Some Created
      else dict_get (rn_tasks rn) k)"
  by (induction "is" arbitrary: rn) (auto simp: schedule_outbound_delivery_def create_task_def)

text \<open>
  C21: what the database notifies is what gets dispatched. The payload built from the ids of a
  prepared message creates one task for each of its deliveries that has none yet and touches no
  other task, and such a task routes exactly that delivery.
\<close>

theorem notified_deliveries_dispatched:
  assumes "prepare_pending_delivery now m recipients backend ty sender extra db = Inr (db', ids)"
  shows "dict_get (rn_tasks (on_delivery_notify (join_commas (map str_of_nat ids)) rn)) k =
      (if dict_get (rn_tasks rn) k = None \<and> k \<in> (OutboundKey \<circ> str_of_nat) ` set ids
       then Some Created else dict_get (rn_tasks rn) k) \<and>
     length ids = length recipients \<and>
     (\<forall>i. process_outbound_delivery env (str_of_nat i) s =
        (case session_scope (route_outbound_delivery env i) s of (Inr r, s1) \<Rightarrow> (r, s1) | (Inl _, s1) \<Rightarrow> (None, s1)))"
proof -
  have "filter (\<lambda>i. i \<noteq> []) (split_commas (join_commas (map str_of_nat ids))) = map str_of_nat ids"
  proof (cases "ids = []")
    case True
    then show ?thesis by (simp add: split_commas_def)
  next
    case False
    then have "split_commas (join_commas (map str_of_nat ids)) = map str_of_nat ids"
      by (intro split_join_commas) (auto simp: str_of_nat_no_comma)
    then show ?thesis by (auto simp: filter_id_conv)
  qed
  moreover have "length ids = length recipients"
    using assms by (auto simp: prepare_pending_delivery_def Let_def delivery_rows_def pending_meta_def split: sum.splits)
  ultimately show ?thesis
    by (auto simp: on_delivery_notify_def fold_schedule_outbound image_image o_def process_outbound_delivery_def)
qed

lemma str_of_nat_1: "str_of_nat 1 = ''1''"
  by (simp add: str_of_nat.simps char_of_def bit_0 bit_Suc)

theorem notified_deliveries_dispatched_witness:
  "dict_get (rn_tasks (on_delivery_notify (join_commas (map str_of_nat [1])) (new_runner 4))) (OutboundKey ''1'') =
     Some Created"
proof -
  have "dict_get (rn_tasks (new_runner 4)) (OutboundKey ''1'') = None \<and>
      OutboundKey ''1'' \<in> (OutboundKey \<circ> str_of_nat) ` set [1]"
    using str_of_nat_1 by (simp add: new_runner_def)
  then show ?thesis
    using notified_deliveries_dispatched [OF sample_prepared, where k = "OutboundKey ''1''" and rn = "new_runner 4"]
    by (simp only: if_True simp_thms)
qed

end
