(* ===== verification/Cadence.thy ===== *)
theory Cadence
  imports Prelude
begin

text \<open>
  \<open>plugins/connectors/cadence.py\<close>: the adaptive interval of a connector poller. The clock is
  read once by \<open>step\<close> itself and once more by \<open>effective_min\<close>; the readings are arguments.
\<close>

record PollerCadence =
  poll_min :: real
  poll_max :: real
  tau_speedup :: real
  tau_slowdown :: real
  rate_limit_floor :: real
  interval :: real
  rate_limit_until :: real
  last_step_time :: real

definition make_cadence :: "real \<Rightarrow> real \<Rightarrow> real \<Rightarrow> real \<Rightarrow> real \<Rightarrow> real \<Rightarrow> PollerCadence" where
  "make_cadence lo hi tsp tsl fl clock =
     \<lparr>poll_min = lo, poll_max = hi, tau_speedup = tsp, tau_slowdown = tsl, rate_limit_floor = fl,
      interval = lo, rate_limit_until = 0, last_step_time = clock\<rparr>"

definition effective_min :: "real \<Rightarrow> PollerCadence \<Rightarrow> real" where
  "effective_min clock c =
     (if clock < rate_limit_until c then max (poll_min c) (rate_limit_floor c) else poll_min c)"

definition penalize :: "real \<Rightarrow> real \<Rightarrow> PollerCadence \<Rightarrow> PollerCadence" where
  "penalize duration clock c = c\<lparr>rate_limit_until := clock + duration\<rparr>"

definition reset_step_clock :: "real \<Rightarrow> PollerCadence \<Rightarrow> PollerCadence" where
  "reset_step_clock clock c = c\<lparr>last_step_time := clock\<rparr>"

definition cadence_step :: "bool \<Rightarrow> real \<Rightarrow> real \<Rightarrow> PollerCadence \<Rightarrow> PollerCadence" where
  "cadence_step did_work now clock c =
     (let dt = now - last_step_time c;
          c1 = c\<lparr>last_step_time := now\<rparr>;
          eff_min = effective_min clock c1;
          target = (if did_work then eff_min else poll_max c1);
          tau = (if did_work then tau_speedup c1 else tau_slowdown c1);
          rate = (if tau > 0 then min (dt / tau) 1 else 1);
          moved = interval c1 + rate * (target - interval c1)
      in c1\<lparr>interval := max eff_min (min (poll_max c1) moved)\<rparr>)"

definition next_interval :: "real \<Rightarrow> PollerCadence \<Rightarrow> real" where
  "next_interval clock c = max (effective_min clock c) (min (poll_max c) (interval c))"

section \<open>The parameters never change\<close>

lemma cadence_params [simp]:
  "poll_min (penalize d t c) = poll_min c" "poll_max (penalize d t c) = poll_max c"
  "rate_limit_floor (penalize d t c) = rate_limit_floor c"
  "poll_min (reset_step_clock t c) = poll_min c" "poll_max (reset_step_clock t c) = poll_max c"
  "rate_limit_floor (reset_step_clock t c) = rate_limit_floor c"
  "poll_min (cadence_step w n t c) = poll_min c" "poll_max (cadence_step w n t c) = poll_max c"
  "rate_limit_floor (cadence_step w n t c) = rate_limit_floor c"
  by (simp_all add: penalize_def reset_step_clock_def cadence_step_def Let_def)

lemma effective_min_bounds:
  "poll_min c \<le> effective_min t c" "effective_min t c \<le> max (poll_min c) (rate_limit_floor c)"
  by (simp_all add: effective_min_def)

lemma next_interval_bounds:
  "effective_min t c \<le> next_interval t c"
  "next_interval t c \<le> max (effective_min t c) (poll_max c)"
  by (auto simp: next_interval_def max_def min_def)

section \<open>Every run stays between the bounds\<close>

inductive cadence_move :: "PollerCadence \<Rightarrow> PollerCadence \<Rightarrow> bool" where
  stepped: "cadence_move c (cadence_step did_work now clock c)"
| penalized: "cadence_move c (penalize duration clock c)"
| clock_reset: "cadence_move c (reset_step_clock clock c)"

inductive_cases cadence_moveE: "cadence_move c c'"

definition cadence_ok :: "real \<Rightarrow> real \<Rightarrow> real \<Rightarrow> PollerCadence \<Rightarrow> bool" where
  "cadence_ok lo hi fl c \<longleftrightarrow> poll_min c = lo \<and> poll_max c = hi \<and> rate_limit_floor c = fl \<and>
     lo \<le> interval c \<and> interval c \<le> max lo (max hi fl)"

lemma cadence_step_interval:
  "effective_min t c \<le> interval (cadence_step w n t c)"
  "interval (cadence_step w n t c) \<le> max (effective_min t c) (poll_max c)"
  by (auto simp: cadence_step_def Let_def effective_min_def max_def min_def)

lemma cadence_ok_step: "cadence_ok lo hi fl c \<Longrightarrow> cadence_ok lo hi fl (cadence_step w n t c)"
  using cadence_step_interval [where t = t and c = c and w = w and n = n]
    effective_min_bounds [where c = c and t = t]
  by (auto simp: cadence_ok_def max_def split: if_splits)

lemma cadence_ok_penalize: "cadence_ok lo hi fl c \<Longrightarrow> cadence_ok lo hi fl (penalize d t c)"
  by (simp add: cadence_ok_def penalize_def)

lemma cadence_ok_reset: "cadence_ok lo hi fl c \<Longrightarrow> cadence_ok lo hi fl (reset_step_clock t c)"
  by (simp add: cadence_ok_def reset_step_clock_def)

interpretation cadence_life: invariant_system cadence_move "cadence_ok lo hi fl" for lo hi fl
  by unfold_locales
    (erule cadence_moveE; simp add: cadence_ok_step cadence_ok_penalize cadence_ok_reset)

text \<open>
  However a poller's cadence is stepped, penalised and reset, the interval
  it sleeps next is at least \<open>poll_min\<close>, at most \<open>poll_max\<close> (or the floor in force, if that is
  larger), and at least \<open>rate_limit_floor\<close> while a rate-limit penalty is running.
\<close>

theorem poller_interval_bounds:
  assumes "reaches cadence_move (make_cadence lo hi tsp tsl fl t0) c"
  shows "lo \<le> next_interval clock c \<and> next_interval clock c \<le> max hi (effective_min clock c) \<and>
     (clock < rate_limit_until c \<longrightarrow> fl \<le> next_interval clock c) \<and>
     (rate_limit_until c \<le> clock \<longrightarrow> lo \<le> hi \<longrightarrow> next_interval clock c \<le> hi)"
proof -
  have "cadence_ok lo hi fl (make_cadence lo hi tsp tsl fl t0)"
    by (simp add: cadence_ok_def make_cadence_def)
  with assms have "cadence_ok lo hi fl c"
    by (rule cadence_life.reaches_inv)
  then have "poll_min c = lo" "poll_max c = hi" "rate_limit_floor c = fl"
    by (simp_all add: cadence_ok_def)
  then show ?thesis
    using next_interval_bounds [where t = clock and c = c]
      effective_min_bounds [where c = c and t = clock]
    by (auto simp: effective_min_def max_def split: if_splits)
qed

theorem poller_interval_bounds_witness:
  "5 \<le> next_interval 110 (penalize 300 100 (cadence_step False 100 100 (make_cadence 5 60 5 60 30 70)))
   \<and> 30 \<le> next_interval 110 (penalize 300 100 (cadence_step False 100 100 (make_cadence 5 60 5 60 30 70)))"
proof -
  have "reaches cadence_move (make_cadence 5 60 5 60 30 70)
      (penalize 300 100 (cadence_step False 100 100 (make_cadence 5 60 5 60 30 70)))"
    by (rule reaches_step, rule reaches_step, rule reaches_refl, rule stepped, rule penalized)
  from poller_interval_bounds [OF this, of 110] show ?thesis
    by (simp add: penalize_def)
qed

text \<open>
  The direction of each step. While the interval is inside its bounds and
  time moves forward, finding work never lengthens it, an idle scan never shortens it, and after an
  idle time of \<open>tau_slowdown\<close> (a busy time of \<open>tau_speedup\<close>) it sits exactly on its target.
\<close>

theorem cadence_step_direction:
  assumes "effective_min clock c \<le> interval c" and "interval c \<le> poll_max c"
    and "last_step_time c \<le> now"
  shows "interval (cadence_step True now clock c) \<le> interval c \<and>
     interval c \<le> interval (cadence_step False now clock c) \<and>
     (tau_speedup c \<le> now - last_step_time c \<longrightarrow>
        interval (cadence_step True now clock c) = effective_min clock c) \<and>
     (tau_slowdown c \<le> now - last_step_time c \<longrightarrow>
        interval (cadence_step False now clock c) = poll_max c)"
proof -
  define eff where "eff = effective_min clock c"
  have eff: "effective_min clock (c\<lparr>last_step_time := now\<rparr>) = eff"
    by (simp add: eff_def effective_min_def)
  define rate where "rate = (\<lambda>tau. if tau > 0 then min ((now - last_step_time c) / tau) 1 else 1)"
  have rate01: "0 \<le> rate tau" "rate tau \<le> 1" for tau
    using assms(3) by (auto simp: rate_def)
  have full: "rate tau = 1" if "tau \<le> now - last_step_time c" for tau
    using that by (auto simp: rate_def min_def field_simps)
  have step: "interval (cadence_step w now clock c) =
      max eff (min (poll_max c) (interval c +
        rate (if w then tau_speedup c else tau_slowdown c) *
          ((if w then eff else poll_max c) - interval c)))" for w
    by (simp add: cadence_step_def Let_def eff rate_def)
  have down: "rate t * (eff - interval c) \<le> 0" and up: "0 \<le> rate t * (poll_max c - interval c)" for t
    using assms(1,2) rate01 [of t] by (auto simp: eff_def mult_le_0_iff)
  have order: "eff \<le> interval c" "interval c \<le> poll_max c"
    using assms(1,2) by (simp_all add: eff_def)
  have "interval (cadence_step True now clock c) \<le> interval c"
    using down [of "tau_speedup c"] order unfolding step by simp
  moreover have "interval c \<le> interval (cadence_step False now clock c)"
    using up [of "tau_slowdown c"] order unfolding step by simp
  moreover have "tau_speedup c \<le> now - last_step_time c \<longrightarrow>
      interval (cadence_step True now clock c) = eff"
    using full order unfolding step by (simp add: min_def)
  moreover have "tau_slowdown c \<le> now - last_step_time c \<longrightarrow>
      interval (cadence_step False now clock c) = poll_max c"
    using full order unfolding step by (simp add: max_def)
  ultimately show ?thesis by (simp add: eff_def)
qed

theorem cadence_step_direction_witness:
  "interval (cadence_step True 20 20 ((make_cadence 5 60 5 60 30 0)\<lparr>interval := 40\<rparr>)) \<le> 40"
proof -
  have "effective_min 20 ((make_cadence 5 60 5 60 30 0)\<lparr>interval := 40\<rparr>)
      \<le> interval ((make_cadence 5 60 5 60 30 0)\<lparr>interval := 40\<rparr>)"
    by (simp add: make_cadence_def effective_min_def)
  from cadence_step_direction [OF this, of 20] show ?thesis
    by (simp add: make_cadence_def)
qed

end
