(* ===== verification/Pollers.thy ===== *)
theory Pollers
  imports Runner Cadence
begin

text \<open>
  The pollers of the delivery runner and the listeners of the listener runner
  (\<open>plugins/connectors/runner.py\<close>): which tasks run for which connector instances, and what a
  poller does from its first sleep on, turn by turn. A task table maps a cache key to the instance its task was started
  with, or to a task that is done.
\<close>

section \<open>The task tables\<close>

datatype instance_task = Running Connector | Done

type_synonym task_table = "(CacheKey, instance_task) dict"

text \<open>
  \<open>transport_mode\<close> raises a KeyError for a backend that is not registered, which ends the
  comprehension.
\<close>

fun build_desired :: "ConnectorRegistry \<Rightarrow> TransportMode \<Rightarrow> (CacheKey, Connector) dict \<Rightarrow> exn + (CacheKey, Connector) dict" where
  "build_desired rg mode [] = Inr []"
| "build_desired rg mode ((key, c) # items) =
     (case transport_mode rg (cn_backend c) of
        Inl e \<Rightarrow> Inl e
      | Inr m \<Rightarrow> map_sum id (\<lambda>d. if m = mode then (key, c) # d else d) (build_desired rg mode items))"

text \<open>\<open>_reconcile\<close>: forget what is done, stop what is not wanted, start what is missing.\<close>

definition reap :: "task_table \<Rightarrow> task_table" where
  "reap tasks = filter (\<lambda>p. snd p \<noteq> Done) tasks"

definition reconcile :: "(CacheKey, Connector) dict \<Rightarrow> task_table \<Rightarrow> task_table" where
  "reconcile desired tasks =
     (let live = reap tasks
      in filter (\<lambda>p. fst p \<in> set (dict_keys desired)) live @
         map (\<lambda>(key, c). (key, Running c)) (filter (\<lambda>p. fst p \<notin> set (dict_keys live)) desired))"

text \<open>
  \<open>_synchronize_pollers\<close> reaps before it computes what it wants; \<open>resync\<close> of the listeners
  computes it first, in the calling thread. Both do nothing while the loop is not running.
\<close>

definition synchronize_pollers ::
  "ConnectorRegistry \<Rightarrow> Connector ConnectorStore \<Rightarrow> task_table \<Rightarrow> (exn + unit) \<times> task_table" where
  "synchronize_pollers rg st pollers =
     (case build_desired rg Poll (st_cache st) of
        Inl e \<Rightarrow> (Inl e, reap pollers)
      | Inr desired \<Rightarrow> (Inr (), reconcile desired (reap pollers)))"

definition resync_listeners ::
  "ConnectorRegistry \<Rightarrow> Connector ConnectorStore \<Rightarrow> task_table \<Rightarrow> (exn + unit) \<times> task_table" where
  "resync_listeners rg st listeners =
     (case build_desired rg Listen (st_cache st) of
        Inl e \<Rightarrow> (Inl e, listeners)
      | Inr desired \<Rightarrow> (Inr (), reconcile desired listeners))"

section \<open>One turn of a poller\<close>









section \<open>The tables follow the store\<close>

lemma build_desired_spec:
  "build_desired rg mode items = Inr d \<Longrightarrow>
     d = filter (\<lambda>(key, c). transport_mode rg (cn_backend c) = Inr mode) items"
proof (induction items arbitrary: d)
  case (Cons p items)
  obtain key c where "p = (key, c)" by fastforce
  with Cons show ?case
    by (cases "build_desired rg mode items") (auto split: sum.splits if_splits)
qed simp

lemma dict_wf_filter: "dict_wf d \<Longrightarrow> dict_wf (filter p d)"
  by (simp add: dict_wf_def distinct_map_filter)

lemma dict_get_filter:
  "dict_wf d \<Longrightarrow> dict_get (filter p d) k =
     (case dict_get d k of None \<Rightarrow> None | Some v \<Rightarrow> if p (k, v) then Some v else None)"
proof (induction d)
  case (Cons q d)
  then show ?case
    by (cases q) (auto simp: dict_wf_def map_of_eq_None_iff image_iff split: option.splits)
qed simp

lemma dict_get_map_value: "dict_get (map (\<lambda>(k, v). (k, f v)) d) k = map_option f (dict_get d k)"
  by (induction d) auto

lemma reap_idem [simp]: "reap (reap tasks) = reap tasks"
  by (simp add: reap_def)

lemma reap_get:
  "dict_wf tasks \<Longrightarrow> dict_get (reap tasks) key =
     (case dict_get tasks key of Some (Running c) \<Rightarrow> Some (Running c) | _ \<Rightarrow> None)"
  by (auto simp: reap_def dict_get_filter split: option.split instance_task.split)

lemma reconcile_get:
  assumes "dict_wf desired" and "dict_wf tasks"
  shows "dict_get (reconcile desired tasks) key =
     (case dict_get desired key of
        None \<Rightarrow> None
      | Some c \<Rightarrow> Some (case dict_get tasks key of Some (Running c') \<Rightarrow> Running c' | _ \<Rightarrow> Running c))"
proof -
  have wf: "dict_wf (reap tasks)"
    using assms(2) by (simp add: reap_def dict_wf_filter)
  have mem: "(key \<in> set (dict_keys d)) = (dict_get d key \<noteq> None)" for key and d :: "(CacheKey, 'v) dict"
    by (rule dict_mem_keys)
  have "dict_get (reconcile desired tasks) key =
      (case dict_get (filter (\<lambda>p. fst p \<in> set (dict_keys desired)) (reap tasks)) key of
         Some t \<Rightarrow> Some t
       | None \<Rightarrow> map_option Running (dict_get (filter (\<lambda>p. fst p \<notin> set (dict_keys (reap tasks))) desired) key))"
    by (simp add: reconcile_def Let_def map_add_def dict_get_map_value del: set_map list.set_map split: option.split)
  also have "\<dots> = (case dict_get (reap tasks) key of
       Some t \<Rightarrow> if dict_get desired key = None then None else Some t
     | None \<Rightarrow> map_option Running (dict_get desired key))"
    unfolding dict_get_filter [OF wf] dict_get_filter [OF assms(1)] fst_conv mem
    by (auto split: option.split)
  finally show ?thesis
    by (auto simp: reap_get [OF assms(2)] split: option.split instance_task.split)
qed

lemma reconcile_wf: "dict_wf desired \<Longrightarrow> dict_wf tasks \<Longrightarrow> dict_wf (reconcile desired tasks)"
  by (force simp: reconcile_def reap_def dict_wf_def Let_def distinct_map_filter o_def case_prod_beta)

text \<open>
  After a synchronisation the pollers are exactly those of the cached instances whose backend
  polls. A poller that was running keeps running with the instance it was started with, a missing
  or finished one is started with the cached instance, every other one is stopped; and
  synchronising again changes nothing.
\<close>

theorem pollers_match_store:
  assumes "synchronize_pollers rg st pollers = (Inr (), pollers')"
    and "dict_wf (st_cache st)" and "dict_wf pollers"
  shows "dict_get pollers' key =
      (case dict_get (st_cache st) key of
         Some c \<Rightarrow>
           if transport_mode rg (cn_backend c) = Inr Poll
           then Some (case dict_get pollers key of Some (Running c') \<Rightarrow> Running c' | _ \<Rightarrow> Running c)
           else None
       | None \<Rightarrow> None) \<and>
     dict_get (snd (synchronize_pollers rg st pollers')) key = dict_get pollers' key"
proof -
  obtain d where d: "build_desired rg Poll (st_cache st) = Inr d"
    and p': "pollers' = reconcile d (reap pollers)"
    using assms(1) by (auto simp: synchronize_pollers_def split: sum.splits)
  have d_get: "dict_get d key = (case dict_get (st_cache st) key of None \<Rightarrow> None
      | Some c \<Rightarrow> if transport_mode rg (cn_backend c) = Inr Poll then Some c else None)" for key
    using build_desired_spec [OF d] dict_get_filter [OF assms(2)] by (simp split: option.split)
  have wf: "dict_wf d" "dict_wf (reap pollers)"
    using build_desired_spec [OF d] assms(2,3) by (simp_all add: dict_wf_filter reap_def)
  have get: "dict_get pollers' key = (case dict_get d key of None \<Rightarrow> None
      | Some c \<Rightarrow> Some (case dict_get pollers key of Some (Running c') \<Rightarrow> Running c' | _ \<Rightarrow> Running c))"
    unfolding p' reconcile_get [OF wf] reap_get [OF assms(3)]
    by (auto split: option.split instance_task.split)
  have wf': "dict_wf pollers'" "dict_wf (reap pollers')"
    using reconcile_wf [OF wf] by (simp_all add: p' reap_def dict_wf_filter)
  have "dict_get (snd (synchronize_pollers rg st pollers')) key = dict_get pollers' key"
    unfolding synchronize_pollers_def d sum.case snd_conv reconcile_get [OF wf(1) wf'(2)]
      reap_get [OF wf'(1)] get
    by (auto split: option.split instance_task.split)
  with get d_get [of key] show ?thesis by (auto split: option.split)
qed

definition polling_registry :: ConnectorRegistry where
  "polling_registry = \<lparr>rg_backends = [(''sms'', \<lparr>rb_cls = sms_class, rb_auth_scope = ''tenant'',
      rb_auth_schema = (''{}'', ''0''), rb_mode = Poll\<rparr>)], rg_reachable_types_cache = []\<rparr>"

definition polling_store :: "Connector ConnectorStore" where
  "polling_store = new_store\<lparr>st_cache := [((''t'', ''sms''), sample_connector)]\<rparr>"

lemma polling_synchronized:
  "synchronize_pollers polling_registry polling_store
     [((''t'', ''sms''), Done), ((''u'', ''sms''), Running sample_connector)] =
   (Inr (), [((''t'', ''sms''), Running sample_connector)])"
  by (simp add: synchronize_pollers_def polling_store_def polling_registry_def transport_mode_def
      get_entry_def sample_connector_def reconcile_def reap_def new_store_def)

theorem pollers_match_store_witness:
  "dict_get (snd (synchronize_pollers polling_registry polling_store
     [((''t'', ''sms''), Running sample_connector)])) (''t'', ''sms'') = Some (Running sample_connector)"
proof -
  have "dict_wf (st_cache polling_store)"
    "dict_wf [((''t'', ''sms''), Done), ((''u'', ''sms''), Running sample_connector)]"
    by (simp_all add: polling_store_def dict_wf_def)
  from pollers_match_store [OF polling_synchronized this, of "(''t'', ''sms'')"]
  show ?thesis by simp
qed

section \<open>How long a poller sleeps\<close>

















end
