(* ===== verification/ConnectorSchemas.thy ===== *)
theory ConnectorSchemas
  imports ConnectorTypes
begin

text \<open>
  \<open>plugins/connectors/schemas.py\<close>: the validation of the free-form \<open>extra\<close> of an identity
  with its three limits, the request bodies of the identity resources (JSON objects; fields the
  schema does not name are dropped), and the serialised fields of a connector's configuration.
  Parsing a UUID (marshmallow's field: \<open>None\<close> for text that is no UUID, its canonical text
  otherwise) is the parameter \<open>parse_uuid\<close>. Every rejection is the one \<open>ValidationError\<close>.
\<close>

section \<open>The extra of an identity\<close>

definition MAX_EXTRA_KEY_LENGTH :: nat where
  "MAX_EXTRA_KEY_LENGTH = 64"

definition MAX_EXTRA_VALUE_LENGTH :: nat where
  "MAX_EXTRA_VALUE_LENGTH = 1024"

definition MAX_EXTRA_TOTAL_LENGTH :: nat where
  "MAX_EXTRA_TOTAL_LENGTH = 4096"

text \<open>\<open>len(str(item))\<close> of a scalar; \<open>None\<close> for what \<open>_EXTRA_SCALAR_TYPES\<close> leaves out.\<close>

fun dec_length :: "nat \<Rightarrow> nat" where
  "dec_length n = (if n < 10 then 1 else Suc (dec_length (n div 10)))"

declare dec_length.simps [simp del]

fun text_length :: "json \<Rightarrow> nat option" where
  "text_length JNull = Some 4"
| "text_length (JBool b) = Some (if b then 4 else 5)"
| "text_length (JInt i) = Some ((if i < 0 then 1 else 0) + dec_length (nat \<bar>i\<bar>))"
| "text_length (JFloat s) = Some (length s)"
| "text_length (JStr s) = Some (length s)"
| "text_length (JList xs) = None"
| "text_length (JDict d) = None"

definition scalar_length :: "json \<Rightarrow> exn + nat" where
  "scalar_length item =
     (case text_length item of
        None \<Rightarrow> Inl ValidationError
      | Some n \<Rightarrow> if n > MAX_EXTRA_VALUE_LENGTH then Inl ValidationError else Inr n)"

fun elements :: "json \<Rightarrow> json list" where
  "elements (JList xs) = xs"
| "elements item = [item]"

fun sum_lengths :: "json list \<Rightarrow> exn + nat" where
  "sum_lengths [] = Inr 0"
| "sum_lengths (e # es) =
     (case scalar_length e of
        Inl x \<Rightarrow> Inl x | Inr n \<Rightarrow> map_sum id (\<lambda>m. n + m) (sum_lengths es))"

fun validate_items :: "nat \<Rightarrow> (string, json) dict \<Rightarrow> exn + unit" where
  "validate_items acc [] = Inr ()"
| "validate_items acc ((key, item) # items) =
     (if length key > MAX_EXTRA_KEY_LENGTH then Inl ValidationError
      else case sum_lengths (elements item) of
             Inl x \<Rightarrow> Inl x
           | Inr n \<Rightarrow>
               (let acc1 = acc + (length key + n)
                in if acc1 > MAX_EXTRA_TOTAL_LENGTH then Inl ValidationError
                   else validate_items acc1 items))"

definition validate_extra :: "(string, json) dict \<Rightarrow> exn + unit" where
  "validate_extra value = validate_items 0 value"

section \<open>Request bodies\<close>

record identity_body =
  ib_user_uuid :: uuid
  ib_backend :: string
  ib_type :: string
  ib_identity :: string
  ib_extra :: "(string, json) dict"

definition load_string :: "nat \<Rightarrow> json \<Rightarrow> exn + string" where
  "load_string max_length value =
     (case value of
        JStr s \<Rightarrow> if 1 \<le> length s \<and> length s \<le> max_length then Inr s else Inl ValidationError
      | _ \<Rightarrow> Inl ValidationError)"

definition load_required :: "nat \<Rightarrow> string \<Rightarrow> (string, json) dict \<Rightarrow> exn + string" where
  "load_required max_length key data =
     (case dict_get data key of
        None \<Rightarrow> Inl ValidationError | Some v \<Rightarrow> load_string max_length v)"

definition load_extra :: "json \<Rightarrow> exn + (string, json) dict" where
  "load_extra value =
     (case value of
        JDict d \<Rightarrow> map_sum id (\<lambda>_. d) (validate_extra d)
      | _ \<Rightarrow> Inl ValidationError)"

definition load_user_uuid :: "(string \<Rightarrow> uuid option) \<Rightarrow> (string, json) dict \<Rightarrow> exn + uuid" where
  "load_user_uuid parse_uuid data =
     (case dict_get data ''user_uuid'' of
        Some (JStr s) \<Rightarrow> (case parse_uuid s of None \<Rightarrow> Inl ValidationError | Some u \<Rightarrow> Inr u)
      | _ \<Rightarrow> Inl ValidationError)"

definition load_identity_create ::
  "(string \<Rightarrow> uuid option) \<Rightarrow> (string, json) dict \<Rightarrow> exn + identity_body" where
  "load_identity_create parse_uuid data =
     (case load_user_uuid parse_uuid data of Inl e \<Rightarrow> Inl e | Inr u \<Rightarrow>
      case load_required 64 ''backend'' data of Inl e \<Rightarrow> Inl e | Inr b \<Rightarrow>
      case load_required 32 ''type'' data of Inl e \<Rightarrow> Inl e | Inr t \<Rightarrow>
      case load_required 256 ''identity'' data of Inl e \<Rightarrow> Inl e | Inr i \<Rightarrow>
      case (case dict_get data ''extra'' of None \<Rightarrow> Inr [] | Some v \<Rightarrow> load_extra v) of
        Inl e \<Rightarrow> Inl e
      | Inr x \<Rightarrow> Inr \<lparr>ib_user_uuid = u, ib_backend = b, ib_type = t, ib_identity = i, ib_extra = x\<rparr>)"

text \<open>What an update may change; an absent field stays as it is.\<close>

record identity_changes =
  ic_identity :: "string option"
  ic_extra :: "(string, json) dict option"

definition load_optional :: "(json \<Rightarrow> exn + 'a) \<Rightarrow> string \<Rightarrow> (string, json) dict \<Rightarrow> exn + 'a option" where
  "load_optional load key data =
     (case dict_get data key of None \<Rightarrow> Inr None | Some v \<Rightarrow> map_sum id Some (load v))"

definition load_identity_update :: "(string, json) dict \<Rightarrow> exn + identity_changes" where
  "load_identity_update data =
     (if ''user_uuid'' \<in> set (dict_keys data) then Inl ValidationError
      else case load_optional (load_string 256) ''identity'' data of Inl e \<Rightarrow> Inl e | Inr i \<Rightarrow>
           case load_optional load_extra ''extra'' data of Inl e \<Rightarrow> Inl e | Inr x \<Rightarrow>
             Inr \<lparr>ic_identity = i, ic_extra = x\<rparr>)"

text \<open>
  \<open>split_user_uuid\<close>: the repeated and comma separated values of the query string, without
  empty pieces and repetitions, in the order they come.
\<close>

fun split_comma :: "string \<Rightarrow> string list" where
  "split_comma [] = [[]]"
| "split_comma (c # s) =
     (if c = CHR '','' then [] # split_comma s
      else case split_comma s of [] \<Rightarrow> [[c]] | p # ps \<Rightarrow> (c # p) # ps)"

definition split_user_uuid :: "string list \<Rightarrow> string list" where
  "split_user_uuid values =
     rev (remdups (rev (filter (\<lambda>p. p \<noteq> []) (concat (map split_comma values)))))"

definition load_uuid :: "(string \<Rightarrow> uuid option) \<Rightarrow> string option \<Rightarrow> exn + uuid option" where
  "load_uuid parse_uuid arg =
     (case arg of
        None \<Rightarrow> Inr None
      | Some s \<Rightarrow> (case parse_uuid s of None \<Rightarrow> Inl ValidationError | Some u \<Rightarrow> Inr (Some u)))"

section \<open>Configuration fields\<close>

definition serialize_label :: "ConfigField \<Rightarrow> (string \<times> string) list" where
  "serialize_label f = cf_label f"

definition serialize_choices :: "ConfigField \<Rightarrow> string list option" where
  "serialize_choices f = (if cf_type f \<noteq> FSelect then None else Some (cf_choices f))"

section \<open>Which extras are accepted\<close>

definition element_ok :: "json \<Rightarrow> bool" where
  "element_ok e \<longleftrightarrow> (case text_length e of None \<Rightarrow> False | Some n \<Rightarrow> n \<le> 1024)"

definition element_size :: "json \<Rightarrow> nat" where
  "element_size e = (case text_length e of None \<Rightarrow> 0 | Some n \<Rightarrow> n)"

definition item_size :: "string \<times> json \<Rightarrow> nat" where
  "item_size p = length (fst p) + sum_list (map element_size (elements (snd p)))"

definition item_ok :: "string \<times> json \<Rightarrow> bool" where
  "item_ok p \<longleftrightarrow> length (fst p) \<le> 64 \<and> list_all element_ok (elements (snd p))"

lemma sum_lengths_value:
  "sum_lengths es = (if list_all element_ok es then Inr (sum_list (map element_size es))
     else Inl ValidationError)"
proof (induction es)
  case (Cons e es)
  then show ?case
    by (cases "text_length e")
      (simp_all add: scalar_length_def element_ok_def [of e] element_size_def [of e]
        MAX_EXTRA_VALUE_LENGTH_def)
qed simp

lemma validate_items_value:
  assumes "acc \<le> 4096"
  shows "validate_items acc d =
     (if list_all item_ok d \<and> acc + sum_list (map item_size d) \<le> 4096 then Inr ()
      else Inl ValidationError)"
  using assms
proof (induction d arbitrary: acc)
  case (Cons p d)
  obtain k v where p: "p = (k, v)" by (cases p)
  show ?case
  proof (cases "item_ok p \<and> acc + item_size p \<le> 4096")
    case True
    then have "acc + item_size p \<le> 4096" by simp
    from Cons.IH [OF this] True show ?thesis
      by (simp add: p item_ok_def item_size_def sum_lengths_value Let_def MAX_EXTRA_KEY_LENGTH_def
          MAX_EXTRA_TOTAL_LENGTH_def add.assoc)
  next
    case False
    then show ?thesis
      by (auto simp: p item_ok_def item_size_def sum_lengths_value Let_def MAX_EXTRA_KEY_LENGTH_def
          MAX_EXTRA_TOTAL_LENGTH_def)
  qed
qed simp

text \<open>
  An \<open>extra\<close> is accepted exactly when every key has at most 64 characters,
  every value is a scalar or a list of scalars whose texts have at most 1024 characters each, and
  keys and texts together have at most 4096; so what is stored is bounded whatever the client
  sends, and the running total the code keeps never accepts an extra a later item makes too long.
\<close>

theorem extra_accepted_iff:
  "validate_extra d = Inr () \<longleftrightarrow>
     list_all (\<lambda>(k, v). length k \<le> 64 \<and>
       list_all (\<lambda>e. \<exists>n. text_length e = Some n \<and> n \<le> 1024) (elements v)) d \<and>
     sum_list (map (\<lambda>(k, v). length k + sum_list (map (the \<circ> text_length) (elements v))) d) \<le> 4096"
  (is "_ \<longleftrightarrow> list_all ?ok d \<and> sum_list (map ?size d) \<le> 4096")
proof -
  have ok: "element_ok = (\<lambda>e. \<exists>n. text_length e = Some n \<and> n \<le> 1024)"
    by (auto simp: element_ok_def fun_eq_iff split: option.splits)
  have item: "item_ok = ?ok"
    by (auto simp: item_ok_def fun_eq_iff ok)
  have "item_size p = ?size p" if "?ok p" for p
  proof -
    have "map element_size (elements (snd p)) = map (the \<circ> text_length) (elements (snd p))"
      using that by (fastforce simp: element_size_def list_all_iff)
    then show ?thesis unfolding item_size_def split_beta by (simp only:)
  qed
  then have size: "sum_list (map item_size d) = sum_list (map ?size d)" if "list_all ?ok d"
    using that by (intro arg_cong [where f = sum_list] map_cong refl) (simp add: list_all_iff)
  have "validate_extra d = Inr () \<longleftrightarrow> list_all ?ok d \<and> sum_list (map item_size d) \<le> 4096"
    by (simp add: validate_extra_def validate_items_value [of 0 d] item)
  also have "\<dots> \<longleftrightarrow> list_all ?ok d \<and> sum_list (map ?size d) \<le> 4096"
    using size by (intro conj_cong refl) (simp only:)
  finally show ?thesis .
qed

lemma load_extra_ok: "load_extra v = Inr x \<Longrightarrow> validate_extra x = Inr ()"
  by (cases v) (auto simp: load_extra_def map_sum_def split: sum.splits)

lemma load_string_ok: "load_string n v = Inr s \<Longrightarrow> v = JStr s \<and> 1 \<le> length s \<and> length s \<le> n"
  by (auto simp: load_string_def split: json.splits if_splits)

lemma load_required_ok:
  "load_required n key data = Inr s \<Longrightarrow> dict_get data key = Some (JStr s) \<and> 1 \<le> length s \<and> length s \<le> n"
  by (auto simp: load_required_def dest: load_string_ok split: option.splits)

end
