(* ===== verification/Services.thy ===== *)
theory Services
  imports PresenceQueries IdentityQueries Notifier Helpers Registry ConnectorSchemas
begin

text \<open>
  \<open>plugins/connectors/services.py\<close>: identities, the participants of a room request, who can be
  reached by which type of identity, and the preparation of an outbound message. An operation
  maps the state of a request to its result (or exception) and the state after it: the session's
  view of the tables and what is committed, the identity the session holds modified but not yet
  flushed, the payload of \<open>pg_notify\<close>, the events, and the registry with its memo table.
  wazo-auth, uuid5, SHA-256, the clock, the collation and case folding of the database are the
  fields of \<open>service_env\<close>.
\<close>

section \<open>Requests\<close>

record service_state =
  sv_committed :: database
  sv_db :: database
  sv_dirty :: "UserIdentity option"
  sv_notify :: "nat list"
  sv_events :: "bus_event list"
  sv_registry :: ConnectorRegistry

record 'k service_env =
  se_collate :: "string \<Rightarrow> 'k"
  se_fold_case :: "string \<Rightarrow> string"
  se_uuid5 :: "uuid \<Rightarrow> string \<Rightarrow> uuid"
  se_sha256_hex :: "string \<Rightarrow> string"
  se_now :: int
  se_auth_user :: "uuid \<Rightarrow> exn + uuid"    \<comment> \<open>\<open>auth_client.users.get(..)['tenant_uuid']\<close>\<close>

definition and_then ::
  "(exn + 'a) \<times> 's \<Rightarrow> ('a \<Rightarrow> 's \<Rightarrow> (exn + 'b) \<times> 's) \<Rightarrow> (exn + 'b) \<times> 's" where
  "and_then r f = (case r of (Inl e, s) \<Rightarrow> (Inl e, s) | (Inr a, s) \<Rightarrow> f a s)"

definition publish_events :: "bus_event list \<Rightarrow> 'z service_state_scheme \<Rightarrow> 'z service_state_scheme" where
  "publish_events es s = s\<lparr>sv_events := sv_events s @ es\<rparr>"

definition rollback_session :: "'z service_state_scheme \<Rightarrow> 'z service_state_scheme" where
  "rollback_session s = s\<lparr>sv_db := sv_committed s, sv_dirty := None, sv_notify := []\<rparr>"

lemma and_then_simps [simp]:
  "and_then (Inl e, s) f = (Inl e, s)"
  "and_then (Inr a, s) f = f a s"
  by (simp_all add: and_then_def)

lemma and_then_Inr:
  "and_then r f = (Inr b, s') \<longleftrightarrow> (\<exists>a s1. r = (Inr a, s1) \<and> f a s1 = (Inr b, s'))"
  by (cases r; cases "fst r") auto

section \<open>Users and identities\<close>

definition ask_auth :: "('k, 'y) service_env_scheme \<Rightarrow> uuid list \<Rightarrow> uuid \<Rightarrow> exn + uuid" where
  "ask_auth env visible_tenants user =
     (case se_auth_user env user of
        Inl (HTTPError status) \<Rightarrow>
          Inl (if status = Some 404 then UnknownUserException user else AuthServiceUnavailableException)
      | Inl e \<Rightarrow> Inl (if is_request_exception e then AuthServiceUnavailableException else e)
      | Inr tenant \<Rightarrow> if tenant \<notin> set visible_tenants then Inl (UnknownUserException user) else Inr tenant)"

definition get_user_tenant_uuid ::
  "('k, 'y) service_env_scheme \<Rightarrow> uuid list \<Rightarrow> uuid \<Rightarrow> 'z service_state_scheme \<Rightarrow> (exn + uuid) \<times> 'z service_state_scheme" where
  "get_user_tenant_uuid env tenant_uuids user s =
     (case user_get tenant_uuids user (sv_db s) of
        Inr u \<Rightarrow> (Inr (us_tenant_uuid u), s)
      | Inl _ \<Rightarrow>
          (case ask_auth env tenant_uuids user of
             Inl e \<Rightarrow> (Inl e, s)
           | Inr tenant \<Rightarrow> (Inr tenant, s\<lparr>sv_db := ensure_tenant_and_user_exist tenant user (sv_db s)\<rparr>)))"

definition filter_by_registered_backends :: "ConnectorRegistry \<Rightarrow> UserIdentity list \<Rightarrow> UserIdentity list" where
  "filter_by_registered_backends rg is = filter (\<lambda>i. ui_backend i \<in> set (available_backends rg)) is"

definition default_identity_filter :: identity_filter where
  "default_identity_filter = \<lparr>if_search = None, if_user_uuids = [], if_backend = None, if_type = None,
     if_identity = None, if_limit = None, if_offset = None, if_order = ''identity'', if_asc = True\<rparr>"

definition list_identities ::
  "('k :: linorder, 'y) service_env_scheme \<Rightarrow> uuid list \<Rightarrow> uuid option \<Rightarrow> bool \<Rightarrow> identity_filter \<Rightarrow>
   'z service_state_scheme \<Rightarrow> UserIdentity list" where
  "list_identities env tenant_uuids user only_registered f s =
     (let is = identity_list (se_collate env) (se_fold_case env) (Some tenant_uuids) user [] {} f (sv_db s)
      in if only_registered then filter_by_registered_backends (sv_registry s) is else is)"

definition count_identities ::
  "('k, 'y) service_env_scheme \<Rightarrow> uuid list \<Rightarrow> identity_filter \<Rightarrow> 'z service_state_scheme \<Rightarrow> nat" where
  "count_identities env tenant_uuids f s =
     identity_count (se_fold_case env) (Some tenant_uuids) None [] {} f (sv_db s)"

definition validate_and_normalize_identity :: "UserIdentity \<Rightarrow> ConnectorRegistry \<Rightarrow> exn + UserIdentity" where
  "validate_and_normalize_identity i rg =
     (case get_backend rg (ui_backend i) of
        Inl _ \<Rightarrow> Inl (UnknownBackendException (ui_backend i))
      | Inr cls \<Rightarrow>
          (case cc_normalize_identity cls (ui_identity i) of
             Inl (ValueError e) \<Rightarrow> Inl (InvalidIdentityFormatException (ui_identity i) (ui_backend i) e)
           | Inl e \<Rightarrow> Inl e
           | Inr n \<Rightarrow> Inr (i\<lparr>ui_identity := n\<rparr>)))"

text \<open>The DAO rolls the session back when a flush breaks a constraint.\<close>

definition create_identity ::
  "UserIdentity \<Rightarrow> 'z service_state_scheme \<Rightarrow> (exn + UserIdentity) \<times> 'z service_state_scheme" where
  "create_identity i s =
     (case validate_and_normalize_identity i (sv_registry s) of
        Inl e \<Rightarrow> (Inl e, s)
      | Inr j \<Rightarrow>
          (case identity_create j (sv_db s) of
             Inl e \<Rightarrow> (Inl e, rollback_session s)
           | Inr db \<Rightarrow> (Inr j, publish_events (notify_identity_created j) (s\<lparr>sv_db := db\<rparr>))))"

text \<open>The identity is an object of the session: what was assigned to it is in \<open>sv_dirty\<close>.\<close>

definition update_identity ::
  "UserIdentity \<Rightarrow> 'z service_state_scheme \<Rightarrow> (exn + UserIdentity) \<times> 'z service_state_scheme" where
  "update_identity i s =
     (case validate_and_normalize_identity i (sv_registry s) of
        Inl e \<Rightarrow> (Inl e, s)
      | Inr j \<Rightarrow>
          (case identity_update j (sv_db s) of
             Inl e \<Rightarrow> (Inl e, rollback_session s)
           | Inr db \<Rightarrow>
               (Inr j, publish_events (notify_identity_updated j) (s\<lparr>sv_db := db, sv_dirty := None\<rparr>))))"

definition delete_identity :: "UserIdentity \<Rightarrow> 'z service_state_scheme \<Rightarrow> 'z service_state_scheme" where
  "delete_identity i s = publish_events (notify_identity_deleted i) (s\<lparr>sv_db := identity_delete i (sv_db s)\<rparr>)"

section \<open>Participants of a room request\<close>

record user_args =
  ua_uuid :: "uuid option"
  ua_tenant_uuid :: "uuid option"
  ua_wazo_uuid :: "uuid option"
  ua_identity :: "string option"

definition needs_resolution :: "user_args \<Rightarrow> bool" where
  "needs_resolution u \<longleftrightarrow> ua_identity u \<notin> {None, Some []} \<and> ua_uuid u \<in> {None, Some []}"

definition resolve_participant ::
  "(uuid \<Rightarrow> string \<Rightarrow> uuid) \<Rightarrow> (string, User) dict \<Rightarrow> uuid \<Rightarrow> user_args \<Rightarrow> user_args" where
  "resolve_participant uuid5 resolved tenant u =
     (if \<not> needs_resolution u then u
      else case ua_identity u of
             None \<Rightarrow> u
           | Some identity \<Rightarrow>
               (case dict_get resolved identity of
                  None \<Rightarrow> u\<lparr>ua_uuid := Some (uuid5 tenant identity)\<rparr>
                | Some user \<Rightarrow> u\<lparr>ua_uuid := Some (us_uuid user), ua_identity := None\<rparr>))"

definition resolve_room_participants ::
  "('k, 'y) service_env_scheme \<Rightarrow> uuid \<Rightarrow> user_args list \<Rightarrow> database \<Rightarrow> user_args list" where
  "resolve_room_participants env tenant us db =
     (let identities = List.map_filter ua_identity (filter needs_resolution us);
          resolved = resolve_users_by_identities identities (Some tenant) db
      in map (resolve_participant (se_uuid5 env) resolved tenant) us)"

section \<open>Reachability\<close>

definition reachable_types ::
  "string \<Rightarrow> 'z service_state_scheme \<Rightarrow> (exn + string set) \<times> 'z service_state_scheme" where
  "reachable_types identity s =
     (case resolve_reachable_types identity (sv_registry s) of
        (r, rg) \<Rightarrow> (r, s\<lparr>sv_registry := rg\<rparr>))"

definition identity_text :: "RoomUser \<Rightarrow> string" where
  "identity_text u = (case ru_identity u of None \<Rightarrow> [] | Some i \<Rightarrow> i)"

text \<open>\<open>db_types.get(uuid, set())\<close>.\<close>

definition types_or_none :: "(uuid, string set) dict \<Rightarrow> uuid \<Rightarrow> string set" where
  "types_or_none types u = (case dict_get types u of None \<Rightarrow> {} | Some ts \<Rightarrow> ts)"

text \<open>
  The loop over the external participants of \<open>validate_room_reachability\<close>: those bound to a
  user are looked up later, the others must be reachable through a backend.
\<close>

fun classify_external ::
  "string set \<Rightarrow> RoomUser list \<Rightarrow> RoomUser list \<times> (uuid, string set) dict \<Rightarrow> 'z service_state_scheme \<Rightarrow>
   (exn + RoomUser list \<times> (uuid, string set) dict) \<times> 'z service_state_scheme" where
  "classify_external bound [] acc s = (Inr acc, s)"
| "classify_external bound (u # us) (lookup, types) s =
     (if identity_text u \<in> bound then classify_external bound us (lookup @ [u], types) s
      else and_then (reachable_types (identity_text u) s) (\<lambda>ts s1.
        if ts = {} then (Inl (UnreachableParticipantException (identity_text u) []), s1)
        else classify_external bound us (lookup, dict_set (ru_uuid u) ts types) s1))"

fun add_db_types ::
  "(uuid, string set) dict \<Rightarrow> RoomUser list \<Rightarrow> (uuid, string set) dict \<Rightarrow> exn + (uuid, string set) dict" where
  "add_db_types db_types [] types = Inr types"
| "add_db_types db_types (u # us) types =
     (let ts = types_or_none db_types (ru_uuid u)
      in if ts = {} then
           Inl (UnreachableParticipantException (if is_external u then identity_text u else ru_uuid u) [])
         else add_db_types db_types us (dict_set (ru_uuid u) ts types))"

definition common_types :: "string set list \<Rightarrow> string set" where
  "common_types tss = (case tss of [] \<Rightarrow> {} | ts # rest \<Rightarrow> fold (\<lambda>t acc. acc \<inter> t) rest ts)"

definition validate_room_reachability ::
  "Room \<Rightarrow> 'z service_state_scheme \<Rightarrow> (exn + unit) \<times> 'z service_state_scheme" where
  "validate_room_reachability r s =
     (let participants = ro_users r; external = filter is_external participants
      in if length participants < 2 \<or> external = [] then (Inr (), s)
         else if length participants > 2 then
           (Inl (UnreachableParticipantException
              ''Group rooms with external participants are not supported'' []), s)
         else
           let bound = list_bound_identities (map identity_text external) [ro_tenant_uuid r] (sv_db s)
           in and_then (classify_external bound external ([], []) s) (\<lambda>(lookup, types) s1.
                let needs_db_lookup = lookup @ filter (\<lambda>u. \<not> is_external u) participants;
                    db_types = list_types_by_users (map ru_uuid needs_db_lookup) (sv_db s1)
                in case add_db_types db_types needs_db_lookup types of
                     Inl e \<Rightarrow> (Inl e, s1)
                   | Inr all_types \<Rightarrow>
                       if common_types (map snd all_types) = {} then (Inl NoCommonConnectorException, s1)
                       else (Inr (), s1)))"

fun check_external ::
  "string \<Rightarrow> string \<Rightarrow> RoomUser list \<Rightarrow> 'z service_state_scheme \<Rightarrow> (exn + unit) \<times> 'z service_state_scheme" where
  "check_external ty backend [] s = (Inr (), s)"
| "check_external ty backend (u # us) s =
     and_then (reachable_types (identity_text u) s) (\<lambda>ts s1.
       if ty \<notin> ts then (Inl (UnreachableParticipantException (identity_text u) backend), s1)
       else check_external ty backend us s1)"

definition validate_identity_reachability ::
  "Room \<Rightarrow> uuid \<Rightarrow> uuid \<Rightarrow> 'z service_state_scheme \<Rightarrow> (exn + UserIdentity) \<times> 'z service_state_scheme" where
  "validate_identity_reachability r user sender_identity_uuid s =
     (case identity_find sender_identity_uuid (Some user) (sv_db s) of
        None \<Rightarrow> (Inl (InvalidIdentityException sender_identity_uuid), s)
      | Some i \<Rightarrow>
          (let others = filter (\<lambda>u. ru_uuid u \<noteq> user) (ro_users r);
               internal = filter (\<lambda>u. \<not> is_external u) others;
               internal_types = list_types_by_users (map ru_uuid internal) (sv_db s)
           in case List.find (\<lambda>u. ui_type i \<notin> types_or_none internal_types (ru_uuid u)) internal of
                Some u \<Rightarrow> (Inl (UnreachableParticipantException (ru_uuid u) (ui_backend i)), s)
              | None \<Rightarrow>
                  and_then (check_external (ui_type i) (ui_backend i) (filter is_external others) s)
                    (\<lambda>_ s1. (Inr i, s1))))"

text \<open>The types each of the other participants can be reached by, in \<open>list_room_identities\<close>.\<close>

fun participant_types ::
  "string set \<Rightarrow> (uuid, string set) dict \<Rightarrow> RoomUser list \<Rightarrow> 'z service_state_scheme \<Rightarrow>
   (exn + string set list) \<times> 'z service_state_scheme" where
  "participant_types bound db_types [] s = (Inr [], s)"
| "participant_types bound db_types (u # us) s =
     and_then
       (if is_external u \<and> identity_text u \<notin> bound then reachable_types (identity_text u) s
        else (Inr (types_or_none db_types (ru_uuid u)), s))
       (\<lambda>ts s1. and_then (participant_types bound db_types us s1) (\<lambda>tss s2. (Inr (ts # tss), s2)))"

definition list_room_identities ::
  "('k :: linorder, 'y) service_env_scheme \<Rightarrow> uuid list \<Rightarrow> uuid \<Rightarrow> uuid \<Rightarrow> 'z service_state_scheme \<Rightarrow>
   (exn + UserIdentity list) \<times> 'z service_state_scheme" where
  "list_room_identities env tenant_uuids room_uuid user s =
     (case room_get tenant_uuids room_uuid (sv_db s) of
        Inl e \<Rightarrow> (Inl e, s)
      | Inr r \<Rightarrow>
          if user \<notin> ru_uuid ` set (ro_users r) then (Inl (UnknownRoomException room_uuid), s)
          else
            let others = filter (\<lambda>u. ru_uuid u \<noteq> user) (ro_users r)
            in if length others \<noteq> 1 then (Inr [], s)
               else
                 let bound = list_bound_identities (map identity_text (filter is_external others))
                       tenant_uuids (sv_db s);
                     db_users = filter (\<lambda>u. \<not> is_external u \<or> identity_text u \<in> bound) others;
                     db_types = list_types_by_users (map ru_uuid db_users) (sv_db s)
                 in and_then (participant_types bound db_types others s) (\<lambda>tss s1.
                      if common_types tss = {} then (Inr [], s1)
                      else (Inr (filter_by_registered_backends (sv_registry s1)
                             (identity_list (se_collate env) (se_fold_case env) None (Some user) []
                                (common_types tss) default_identity_filter (sv_db s1))), s1)))"

section \<open>Preparing an outbound message\<close>

definition build_outbound_extras ::
  "('k, 'y) service_env_scheme \<Rightarrow> RoomMessage \<Rightarrow> UserIdentity \<Rightarrow> Room \<Rightarrow> (string, string) dict" where
  "build_outbound_extras env m i r =
     (''outbound_idempotency_key'', rm_uuid m) #
     (if \<exists>u \<in> set (ro_users r). ru_uuid u \<noteq> rm_user_uuid m \<and> \<not> is_external u
      then [(''message_signature'', generate_message_signature (se_sha256_hex env) (ui_identity i)
              (case rm_content m of None \<Rightarrow> [] | Some c \<Rightarrow> c))]
      else [])"

definition resolve_outbound_recipients :: "Room \<Rightarrow> uuid \<Rightarrow> string \<Rightarrow> database \<Rightarrow> string list" where
  "resolve_outbound_recipients r sender backend db =
     (let others = filter (\<lambda>u. ru_uuid u \<noteq> sender) (ro_users r);
          internal_uuids = map ru_uuid (filter (\<lambda>u. \<not> is_external u) others);
          resolved = list_identities_by_users internal_uuids backend db
      in map identity_text (filter is_external others) @ List.map_filter (dict_get resolved) internal_uuids)"

definition prepare_outbound_delivery ::
  "('k, 'y) service_env_scheme \<Rightarrow> Room \<Rightarrow> RoomMessage \<Rightarrow> UserIdentity \<Rightarrow> 'z service_state_scheme \<Rightarrow>
   (exn + RoomMessage) \<times> 'z service_state_scheme" where
  "prepare_outbound_delivery env r m i s =
     (let recipients = resolve_outbound_recipients r (rm_user_uuid m) (ui_backend i) (sv_db s)
      in if length recipients \<noteq> 1 then
           (Inl (UnreachableParticipantException ''expected exactly 1 recipient'' []), s)
         else
           let m1 = m\<lparr>rm_room_uuid := ro_uuid r\<rparr>
           in case prepare_pending_delivery (se_now env) m1 recipients (ui_backend i) (ui_type i)
                     (Some (ui_uuid i)) (build_outbound_extras env m1 i r) (sv_db s) of
                Inl e \<Rightarrow> (Inl e, s)
              | Inr (db, ids) \<Rightarrow> (Inr m1, s\<lparr>sv_db := db, sv_notify := sv_notify s @ ids\<rparr>))"

section \<open>What the lookups answer\<close>

definition registry_types :: "ConnectorRegistry \<Rightarrow> string \<Rightarrow> string set" where
  "registry_types rg i =
     (\<Union>e \<in> {e \<in> set (map snd (rg_backends rg)). accepts i e}. set (cc_supported_types (rb_cls e)))"

definition user_types :: "database \<Rightarrow> uuid \<Rightarrow> string set" where
  "user_types db u = ui_type ` {i \<in> set (user_identities db). ui_user_uuid i = u}"

text \<open>The registry a request works with: coherent, and its backends only reject identities.\<close>

definition registry_good :: "ConnectorRegistry \<Rightarrow> bool" where
  "registry_good rg \<longleftrightarrow> registry_ok rg \<and> (\<forall>i. \<forall>e \<in> set (map snd (rg_backends rg)). only_rejects i e)"

text \<open>All a lookup may change is the memo table of the registry.\<close>

definition memo_step :: "'z service_state_scheme \<Rightarrow> 'z service_state_scheme \<Rightarrow> bool" where
  "memo_step s s' \<longleftrightarrow> (\<exists>rg. s' = s\<lparr>sv_registry := rg\<rparr> \<and> rg_backends rg = rg_backends (sv_registry s) \<and>
     registry_good rg)"

lemma memo_refl: "registry_good (sv_registry s) \<Longrightarrow> memo_step s s"
  by (auto simp: memo_step_def intro!: exI [of _ "sv_registry s"])

lemma memo_trans: "memo_step s s1 \<Longrightarrow> memo_step s1 s2 \<Longrightarrow> memo_step s s2"
  by (auto simp: memo_step_def)

lemma memo_frame [frame_simps]:
  assumes "memo_step s s'"
  shows "sv_db s' = sv_db s" and "sv_committed s' = sv_committed s" and "sv_dirty s' = sv_dirty s"
    and "sv_notify s' = sv_notify s" and "sv_events s' = sv_events s"
    and "rg_backends (sv_registry s') = rg_backends (sv_registry s)" and "registry_good (sv_registry s')"
    and "registry_types (sv_registry s') = registry_types (sv_registry s)"
    and "available_backends (sv_registry s') = available_backends (sv_registry s)"
    and "get_backend (sv_registry s') = get_backend (sv_registry s)"
proof -
  obtain rg where "s' = s\<lparr>sv_registry := rg\<rparr>" and rg: "rg_backends rg = rg_backends (sv_registry s)"
    and "registry_good rg"
    using assms by (auto simp: memo_step_def)
  moreover have "registry_types rg = registry_types (sv_registry s)"
    unfolding registry_types_def rg ..
  ultimately show "sv_db s' = sv_db s" and "sv_committed s' = sv_committed s" and "sv_dirty s' = sv_dirty s"
    and "sv_notify s' = sv_notify s" and "sv_events s' = sv_events s"
    and "rg_backends (sv_registry s') = rg_backends (sv_registry s)" and "registry_good (sv_registry s')"
    and "registry_types (sv_registry s') = registry_types (sv_registry s)"
    and "available_backends (sv_registry s') = available_backends (sv_registry s)"
    and "get_backend (sv_registry s') = get_backend (sv_registry s)"
    by (simp_all add: available_backends_def get_backend_def get_entry_def fun_eq_iff)
qed

lemma reachable_types_value:
  assumes "registry_good (sv_registry s)"
  obtains s' where "reachable_types i s = (Inr (registry_types (sv_registry s) i), s')" and "memo_step s s'"
proof -
  have "fst (resolve_reachable_types i (sv_registry s)) = Inr (registry_types (sv_registry s) i)"
    using assms collect_reachable_spec [of "map snd (rg_backends (sv_registry s))" i "{}"]
    by (simp add: registry_good_def registry_ok_def resolve_value registry_types_def)
  moreover have "registry_good (snd (resolve_reachable_types i (sv_registry s)))"
    and "rg_backends (snd (resolve_reachable_types i (sv_registry s))) = rg_backends (sv_registry s)"
    using assms resolve_keeps [of "sv_registry s" i] by (auto simp: registry_good_def)
  ultimately show ?thesis
    by (intro that [of "s\<lparr>sv_registry := snd (resolve_reachable_types i (sv_registry s))\<rparr>"])
      (auto simp: reachable_types_def memo_step_def split_beta prod_eq_iff)
qed

lemma types_or_none_users:
  "types_or_none (list_types_by_users us db) u = (if u \<in> set us then user_types db u else {})"
  by (simp add: types_or_none_def list_types_by_users_get user_types_def)

lemma bound_single: "i \<in> list_bound_identities [i] ts db \<longleftrightarrow>
    (\<exists>j \<in> set (user_identities db). ui_identity j = i \<and> ui_tenant_uuid j \<in> set ts)"
  by (auto simp: list_bound_identities_def)

lemma set_identity_list_default:
  "set (identity_list collate fold_case None (Some user) [] types default_identity_filter db) =
     {i \<in> set (user_identities db). ui_user_uuid i = user \<and> (types \<noteq> {} \<longrightarrow> ui_type i \<in> types)}"
  by (auto simp: identity_list_def identity_paginate_def identity_list_filter_def
      default_identity_filter_def build_list_query_def of_user_def matches_opt_def Let_def)

section \<open>One other participant\<close>

text \<open>What a participant can be reached by, as \<open>list_room_identities\<close> sees it.\<close>

definition participant_capability :: "uuid list \<Rightarrow> database \<Rightarrow> ConnectorRegistry \<Rightarrow> RoomUser \<Rightarrow> string set" where
  "participant_capability ts db rg u =
     (if is_external u \<and> identity_text u \<notin> list_bound_identities [identity_text u] ts db
      then registry_types rg (identity_text u) else user_types db (ru_uuid u))"

lemma list_room_identities_single:
  assumes "registry_good (sv_registry s)" and "room_get ts room_uuid (sv_db s) = Inr r"
    and "user \<in> ru_uuid ` set (ro_users r)" and "filter (\<lambda>u. ru_uuid u \<noteq> user) (ro_users r) = [u]"
  obtains s' listed where "list_room_identities env ts room_uuid user s = (Inr listed, s')" and "memo_step s s'"
    and "set listed = {i \<in> set (user_identities (sv_db s)). ui_user_uuid i = user \<and>
           ui_type i \<in> participant_capability ts (sv_db s) (sv_registry s) u \<and>
           ui_backend i \<in> set (available_backends (sv_registry s))}"
proof -
  let ?db = "sv_db s" and ?cap = "participant_capability ts (sv_db s) (sv_registry s) u"
  let ?bound = "list_bound_identities (map identity_text (filter is_external [u])) ts ?db"
  let ?types = "list_types_by_users
      (map ru_uuid (filter (\<lambda>u. \<not> is_external u \<or> identity_text u \<in> ?bound) [u])) ?db"
  have "\<exists>s1. participant_types ?bound ?types [u] s = (Inr [?cap], s1) \<and> memo_step s s1"
  proof (cases "is_external u \<and> identity_text u \<notin> list_bound_identities [identity_text u] ts ?db")
    case True
    obtain s1 where "reachable_types (identity_text u) s =
        (Inr (registry_types (sv_registry s) (identity_text u)), s1)" and "memo_step s s1"
      using assms(1) by (rule reachable_types_value)
    with True show ?thesis by (simp add: participant_capability_def)
  next
    case False
    then show ?thesis
      using memo_refl [OF assms(1)] by (auto simp: participant_capability_def types_or_none_users)
  qed
  then obtain s1 where p: "participant_types ?bound ?types [u] s = (Inr [?cap], s1)" and m: "memo_step s s1"
    by blast
  let ?listed = "if ?cap = {} then [] else filter_by_registered_backends (sv_registry s1)
      (identity_list (se_collate env) (se_fold_case env) None (Some user) [] ?cap default_identity_filter
         (sv_db s1))"
  have "list_room_identities env ts room_uuid user s = (Inr ?listed, s1)"
    unfolding list_room_identities_def assms(2) sum.case Let_def assms(4) p and_then_simps
    using assms(3) by (simp add: common_types_def)
  moreover have "set ?listed = {i \<in> set (user_identities ?db). ui_user_uuid i = user \<and> ui_type i \<in> ?cap \<and>
      ui_backend i \<in> set (available_backends (sv_registry s))}"
    by (auto simp: filter_by_registered_backends_def set_identity_list_default memo_frame [OF m])
  ultimately show ?thesis using m by (intro that)
qed

lemma identity_find_own:
  assumes "chat_ok db" and "i \<in> set (user_identities db)"
  shows "identity_find (ui_uuid i) (Some (ui_user_uuid i)) db = Some i"
proof (cases "identity_find (ui_uuid i) (Some (ui_user_uuid i)) db")
  case None
  then show ?thesis
    using assms(2) by (auto simp: identity_find_def find_None_iff of_user_def)
next
  case (Some j)
  then have "j \<in> set (user_identities db)" and "ui_uuid j = ui_uuid i"
    by (auto simp: identity_find_def find_Some_iff)
  then have "j = i"
    using assms keyed_inj [of ui_uuid "user_identities db" j i] by (simp add: chat_ok_def chat_keys_def)
  with Some show ?thesis by simp
qed

lemma validate_identity_single:
  assumes "registry_good (sv_registry s)" and "chat_ok (sv_db s)" and "i \<in> set (user_identities (sv_db s))"
    and "ui_user_uuid i = user" and "filter (\<lambda>u. ru_uuid u \<noteq> user) (ro_users r) = [u]"
    and "ui_type i \<in> (if is_external u then registry_types (sv_registry s) (identity_text u)
           else user_types (sv_db s) (ru_uuid u))"
  obtains s' where "validate_identity_reachability r user (ui_uuid i) s = (Inr i, s')" and "memo_step s s'"
proof (cases "is_external u")
  case True
  obtain s1 where "reachable_types (identity_text u) s =
      (Inr (registry_types (sv_registry s) (identity_text u)), s1)" and "memo_step s s1"
    using assms(1) by (rule reachable_types_value)
  with True assms(6) identity_find_own [OF assms(2,3)] show ?thesis
    by (intro that) (auto simp: validate_identity_reachability_def assms(4,5))
next
  case False
  with assms(6) identity_find_own [OF assms(2,3)] memo_refl [OF assms(1)] show ?thesis
    by (intro that) (auto simp: validate_identity_reachability_def assms(4,5) types_or_none_users Let_def)
qed

text \<open>A room of one user and one external participant whose identity no user of the tenant has.\<close>

lemma validate_room_pair:
  assumes "registry_good (sv_registry s)" and "length (ro_users r) = 2"
    and "filter is_external (ro_users r) = [u]" and "filter (\<lambda>u. \<not> is_external u) (ro_users r) = [me]"
    and "ru_uuid u \<noteq> ru_uuid me"
    and "identity_text u \<notin> list_bound_identities [identity_text u] [ro_tenant_uuid r] (sv_db s)"
  obtains s' res where "validate_room_reachability r s = (res, s')" and "memo_step s s'"
    and "res = Inr () \<longleftrightarrow>
      registry_types (sv_registry s) (identity_text u) \<inter> user_types (sv_db s) (ru_uuid me) \<noteq> {}"
proof -
  let ?T = "registry_types (sv_registry s) (identity_text u)" and ?M = "user_types (sv_db s) (ru_uuid me)"
  obtain s1 where v: "reachable_types (identity_text u) s = (Inr ?T, s1)" and m: "memo_step s s1"
    using assms(1) by (rule reachable_types_value)
  have not_me: "\<not> is_external me"
    using assms(4) by (metis (mono_tags, lifting) filter_eq_ConsD)
  have classify: "classify_external (list_bound_identities [identity_text u] [ro_tenant_uuid r] (sv_db s)) [u] ([], []) s =
      (if ?T = {} then (Inl (UnreachableParticipantException (identity_text u) []), s1)
       else (Inr ([], [(ru_uuid u, ?T)]), s1))"
    using assms(6) v by simp
  have db: "add_db_types (list_types_by_users [ru_uuid me] (sv_db s)) [me] [(ru_uuid u, ?T)] =
      (if ?M = {} then Inl (UnreachableParticipantException (ru_uuid me) [])
       else Inr [(ru_uuid u, ?T), (ru_uuid me, ?M)])"
    using assms(5) not_me by (simp add: types_or_none_users)
  let ?res = "if ?T = {} then Inl (UnreachableParticipantException (identity_text u) [])
      else if ?M = {} then Inl (UnreachableParticipantException (ru_uuid me) [])
      else if ?T \<inter> ?M = {} then Inl NoCommonConnectorException else Inr ()"
  have "validate_room_reachability r s = (?res, s1)"
    unfolding validate_room_reachability_def Let_def assms(3,4) list.map classify
    using assms(2) by (simp add: memo_frame [OF m] db common_types_def del: add_db_types.simps)
  then show ?thesis using m by (rule that) auto
qed

end
