(* ===== verification/Router.thy ===== *)
theory Router
  imports Pollers Services Hooks
begin

text \<open>
  \<open>plugins/connectors/router.py\<close>: the entry point of the connectors plugin. It lists
  connectors and their identities, keeps the store and the runners in step with the identities,
  prepares outbound messages, and lets webhooks in. Its state adds to a request's the connector
  store, the delivery runner, whether the two loops run, and the callbacks posted to them
  (\<open>call_soon_threadsafe\<close>).
\<close>

section \<open>State\<close>

datatype loop_callback =
    SynchronizePollers
  | ReconcileListeners "(CacheKey, Connector) dict"

record router_state = service_state +
  rt_store :: "Connector ConnectorStore"
  rt_runner :: "runner option"        \<comment> \<open>None is the \<open>NullRunner\<close>\<close>
  rt_delivery_loop :: bool
  rt_listener_loop :: bool
  rt_callbacks :: "loop_callback list"

record 'k router_env = "'k service_env" +
  re_store_config :: StoreConfig
  re_fetch :: "CacheKey \<Rightarrow> FetchEnv"
  re_completed :: "CacheKey list \<Rightarrow> CacheKey list"   \<comment> \<open>the lookups of a batch that end in time, in that order\<close>

definition new_router :: "nat \<Rightarrow> ConnectorRegistry \<Rightarrow> database \<Rightarrow> router_state" where
  "new_router max_tasks rg db =
     \<lparr>sv_committed = db, sv_db = db, sv_dirty = None, sv_notify = [], sv_events = [], sv_registry = rg,
      rt_store = new_store,
      rt_runner = (if available_backends rg = [] then None else Some (new_runner max_tasks)),
      rt_delivery_loop = False, rt_listener_loop = False, rt_callbacks = []\<rparr>"

definition populate_store :: "('k, 'y) router_env_scheme \<Rightarrow> router_state \<Rightarrow> router_state" where
  "populate_store env s =
     s\<lparr>rt_store := populate (sv_registry s) (re_store_config env) (re_fetch env)
          (re_completed env (list_tenant_backends (sv_db s))) (rt_store s)\<rparr>"

definition on_auth_available :: "('k, 'y) router_env_scheme \<Rightarrow> router_state \<Rightarrow> router_state" where
  "on_auth_available env s = (if st_populated (rt_store s) then s else populate_store env s)"

section \<open>Connectors of a tenant\<close>

record connector_item =
  ci_name :: string
  ci_supported_types :: "string list"
  ci_configured :: bool
  ci_mode :: TransportMode

definition needs_auth :: "RegisteredBackend \<Rightarrow> bool" where
  "needs_auth e \<longleftrightarrow> rb_auth_scope e \<noteq> ''none''"

definition list_connectors :: "('k, 'y) router_env_scheme \<Rightarrow> uuid \<Rightarrow> router_state \<Rightarrow> connector_item list \<times> router_state" where
  "list_connectors env tenant s =
     (let entries = rg_backends (sv_registry s);
          uncached = map (\<lambda>(name, e). (tenant, name))
            (filter (\<lambda>(name, e). needs_auth e \<and> peek name tenant (rt_store s) = None) entries);
          st1 = (if uncached = [] then rt_store s
                 else fetch_batch (sv_registry s) (re_store_config env) (re_fetch env)
                        (re_completed env uncached) (rt_store s));
          cached = (\<lambda>name. if (tenant, name) \<in> set uncached then peek name tenant st1
                          else peek name tenant (rt_store s))
      in (map (\<lambda>(name, e). \<lparr>ci_name = name, ci_supported_types = cc_supported_types (rb_cls e),
                  ci_configured = (\<not> needs_auth e \<or> cached name \<noteq> None), ci_mode = rb_mode e\<rparr>) entries,
          s\<lparr>rt_store := st1\<rparr>))"

definition router_auth_schema :: "string \<Rightarrow> router_state \<Rightarrow> exn + string \<times> string" where
  "router_auth_schema backend s =
     (case get_auth_schema (sv_registry s) backend of
        Inl _ \<Rightarrow> Inl (NoSuchConnectorException backend) | Inr p \<Rightarrow> Inr p)"

record connector_identity =
  cd_identity :: string
  cd_capabilities :: "string list"
  cd_binding :: "(uuid \<times> uuid) option"     \<comment> \<open>identity and user\<close>

definition connector_identity_item ::
  "ConnectorClass \<Rightarrow> (string, UserIdentity) dict \<Rightarrow> BackendIdentity \<Rightarrow> connector_identity option" where
  "connector_identity_item cls bindings bi =
     (let capabilities = filter (\<lambda>c. c \<in> set (cc_supported_types cls)) (bi_capabilities bi)
      in if capabilities = [] then None
         else Some \<lparr>cd_identity = bi_identity bi, cd_capabilities = capabilities,
                cd_binding = map_option (\<lambda>i. (ui_uuid i, ui_user_uuid i)) (dict_get bindings (bi_identity bi))\<rparr>)"

definition store_lookup ::
  "('k, 'y) router_env_scheme \<Rightarrow> string \<Rightarrow> uuid \<Rightarrow> router_state \<Rightarrow> (exn + Connector) \<times> router_state" where
  "store_lookup env backend tenant s =
     (case store_get (sv_registry s) (re_store_config env) (re_fetch env (tenant, backend)) backend tenant (rt_store s) of
        (r, st) \<Rightarrow> (r, s\<lparr>rt_store := st\<rparr>))"

definition list_connector_identities ::
  "('k :: linorder, 'y) router_env_scheme \<Rightarrow> uuid \<Rightarrow> string \<Rightarrow> router_state \<Rightarrow> (exn + connector_identity list) \<times> router_state" where
  "list_connector_identities env tenant backend s =
     (case get_backend (sv_registry s) backend of
        Inl _ \<Rightarrow> (Inl (NoSuchConnectorException backend), s)
      | Inr cls \<Rightarrow>
          and_then (store_lookup env backend tenant s) (\<lambda>connector s1.
            case cc_list_backend_identities cls of
              None \<Rightarrow> (Inl (ConnectorIdentitiesNotSupportedException backend), s1)
            | Some f \<Rightarrow>
                (case f connector of
                   Inl e \<Rightarrow> (Inl (if e = NotImplementedError then ConnectorIdentitiesNotSupportedException backend
                                 else ConnectorIdentitiesUnavailableException backend), s1)
                 | Inr found \<Rightarrow>
                     (let existing = identity_list (se_collate env) (se_fold_case env) (Some [tenant]) None
                            [backend] {} default_identity_filter (sv_db s1);
                          bindings = dict_of (map (\<lambda>i. (ui_identity i, i)) existing)
                      in (Inr (List.map_filter (connector_identity_item cls bindings) found), s1)))))"

section \<open>Keeping the store and the runners in step\<close>

definition resync_pollers :: "router_state \<Rightarrow> router_state" where
  "resync_pollers s =
     (if rt_delivery_loop s then s\<lparr>rt_callbacks := rt_callbacks s @ [SynchronizePollers]\<rparr> else s)"

definition resync :: "router_state \<Rightarrow> (exn + unit) \<times> router_state" where
  "resync s =
     (if \<not> rt_listener_loop s then (Inr (), s)
      else case build_desired (sv_registry s) Listen (st_cache (rt_store s)) of
             Inl e \<Rightarrow> (Inl e, s)
           | Inr desired \<Rightarrow> (Inr (), s\<lparr>rt_callbacks := rt_callbacks s @ [ReconcileListeners desired]\<rparr>))"

definition reconcile_after_create :: "router_state \<Rightarrow> (exn + unit) \<times> router_state" where
  "reconcile_after_create s = resync (resync_pollers s)"

definition drop_from_store :: "uuid \<Rightarrow> string \<Rightarrow> router_state \<Rightarrow> router_state" where
  "drop_from_store tenant backend s = s\<lparr>rt_store := drop_connector backend tenant (rt_store s)\<rparr>"

definition invalidate_backend_cache :: "uuid \<Rightarrow> string \<Rightarrow> router_state \<Rightarrow> (exn + unit) \<times> router_state" where
  "invalidate_backend_cache tenant backend s =
     (if peek backend tenant (rt_store s) = None then (Inr (), s)
      else resync (resync_pollers (drop_from_store tenant backend s)))"

definition reconcile_after_delete :: "uuid \<Rightarrow> string \<Rightarrow> router_state \<Rightarrow> (exn + unit) \<times> router_state" where
  "reconcile_after_delete tenant backend s =
     (let s1 = (if \<not> has_identities_for_backend tenant backend (sv_db s) \<and>
                   peek backend tenant (rt_store s) \<noteq> None
                then drop_from_store tenant backend s else s)
      in resync (resync_pollers s1))"

definition validate_tenant_backend ::
  "('k, 'y) router_env_scheme \<Rightarrow> uuid \<Rightarrow> string \<Rightarrow> router_state \<Rightarrow> (exn + unit) \<times> router_state" where
  "validate_tenant_backend env tenant backend s =
     and_then (store_lookup env backend tenant s) (\<lambda>_ s1. (Inr (), s1))"

section \<open>Outbound messages\<close>

text \<open>
  \<open>MessageContext\<close>: the room, the message, the identity asked for and the one it resolved to.
  A prepared message is already an object of the session.
\<close>

record message_context =
  mc_room :: Room
  mc_message :: RoomMessage
  mc_sender_identity_uuid :: "uuid option"
  mc_resolved_sender_identity :: "UserIdentity option"
  mc_prepared :: bool

definition prepare_outbound ::
  "('k, 'y) service_env_scheme \<Rightarrow> message_context \<times> router_state \<Rightarrow>
   (exn + unit) \<times> message_context \<times> router_state" where
  "prepare_outbound env cs =
     (case cs of (ctx, s) \<Rightarrow>
        (case mc_sender_identity_uuid ctx of
           None \<Rightarrow>
             if \<exists>u \<in> set (ro_users (mc_room ctx)). is_external u
             then (Inl MessageIdentityRequiredException, ctx, s) else (Inr (), ctx, s)
         | Some identity_uuid \<Rightarrow>
             (case validate_identity_reachability (mc_room ctx) (rm_user_uuid (mc_message ctx)) identity_uuid s of
                (Inl e, s1) \<Rightarrow> (Inl e, ctx, s1)
              | (Inr i, s1) \<Rightarrow>
                  (let ctx1 = ctx\<lparr>mc_resolved_sender_identity := Some i\<rparr>
                   in case prepare_outbound_delivery env (mc_room ctx) (mc_message ctx) i s1 of
                        (Inl e, s2) \<Rightarrow> (Inl e, ctx1, s2)
                      | (Inr m, s2) \<Rightarrow> (Inr (), ctx1\<lparr>mc_message := m, mc_prepared := True\<rparr>, s2)))))"

section \<open>Webhooks\<close>

definition resolve_tenant :: "event \<Rightarrow> string \<Rightarrow> database \<Rightarrow> uuid option" where
  "resolve_tenant ev backend db =
     (case ev of
        Inbound m \<Rightarrow> find_tenant_by_identity (im_recipient m) backend db
      | Status u \<Rightarrow> find_tenant_by_external_id (su_external_id u) backend db)"

fun parse_failure :: "exn \<Rightarrow> bool" where
  "parse_failure (UnknownBackendException _) = True"
| "parse_failure (BackendNotConfiguredException _ _) = True"
| "parse_failure _ = False"

definition enqueue_event :: "event \<Rightarrow> router_state \<Rightarrow> router_state" where
  "enqueue_event ev s = s\<lparr>rt_runner := map_option (enqueue_message ev) (rt_runner s)\<rparr>"

definition signature_valid :: "ConnectorClass \<Rightarrow> Connector \<Rightarrow> WebhookData \<Rightarrow> bool" where
  "signature_valid cls instance data =
     (if cc_verifies_signatures cls
      then case cc_verify_signature cls instance data of Inl _ \<Rightarrow> False | Inr valid \<Rightarrow> valid
      else True)"

definition verify_and_enqueue ::
  "('k, 'y) router_env_scheme \<Rightarrow> WebhookData \<Rightarrow> event \<Rightarrow> string \<Rightarrow> ConnectorClass \<Rightarrow> router_state \<Rightarrow> (exn + unit) \<times> router_state" where
  "verify_and_enqueue env data ev backend cls s =
     (case resolve_tenant ev backend (sv_db s) of
        None \<Rightarrow> (Inl ConnectorParseError, s)
      | Some tenant \<Rightarrow>
          (case store_lookup env backend tenant s of
             (Inl e, s1) \<Rightarrow>
               (Inl (if parse_failure e then ConnectorParseError
                     else if e = AuthServiceUnavailableException then ConnectorTransientError else e), s1)
           | (Inr instance, s1) \<Rightarrow>
               if \<not> signature_valid cls instance data then (Inl ConnectorAuthException, s1)
               else (Inr (), enqueue_event ev s1)))"

text \<open>A backend that raises, declines or finds no event leaves the webhook to the next.\<close>

definition recognised :: "ConnectorClass \<Rightarrow> WebhookData \<Rightarrow> event option" where
  "recognised cls data =
     (case cc_can_handle cls data of
        Inr True \<Rightarrow> (case cc_on_event cls data of Inr r \<Rightarrow> r | Inl _ \<Rightarrow> None)
      | _ \<Rightarrow> None)"

fun try_backends ::
  "('k, 'y) router_env_scheme \<Rightarrow> WebhookData \<Rightarrow> string list \<Rightarrow> router_state \<Rightarrow> (exn + unit) \<times> router_state" where
  "try_backends env data [] s = (Inl ConnectorParseError, s)"
| "try_backends env data (name # names) s =
     (case get_backend (sv_registry s) name of
        Inl e \<Rightarrow> (Inl e, s)
      | Inr cls \<Rightarrow>
          (case recognised cls data of
             None \<Rightarrow> try_backends env data names s
           | Some ev \<Rightarrow> verify_and_enqueue env data ev name cls s))"

definition dispatch_webhook ::
  "('k, 'y) router_env_scheme \<Rightarrow> WebhookData \<Rightarrow> string option \<Rightarrow> router_state \<Rightarrow> (exn + unit) \<times> router_state" where
  "dispatch_webhook env data backend s =
     (let backends = available_backends (sv_registry s)
      in if backends = [] then (Inl ConnectorParseError, s)
         else case backend of
                None \<Rightarrow> try_backends env data backends s
              | Some b \<Rightarrow> if b \<notin> set backends then (Inl ConnectorParseError, s) else try_backends env data [b] s)"

section \<open>Status\<close>

record connectors_status =
  cs_ok :: bool
  cs_backends_registered :: nat
  cs_in_flight :: nat
  cs_delivery_restart_count :: nat
  cs_instances :: nat

definition connectors_status_of :: "bool \<Rightarrow> bool \<Rightarrow> router_state \<Rightarrow> connectors_status" where
  "connectors_status_of delivery_running listener_running s =
     \<lparr>cs_ok = (rt_runner s = None \<or> delivery_running \<and> listener_running),
      cs_backends_registered = length (available_backends (sv_registry s)),
      cs_in_flight = (case rt_runner s of None \<Rightarrow> 0 | Some rn \<Rightarrow> in_flight_count rn),
      cs_delivery_restart_count = (case rt_runner s of None \<Rightarrow> 0 | Some rn \<Rightarrow> rs_restart_count rn),
      cs_instances = length (st_cache (rt_store s))\<rparr>"

end
