(* ===== verification/ConnectorApi.thy ===== *)
theory ConnectorApi
  imports Router
begin

text \<open>
  \<open>plugins/connectors/http.py\<close> (the HTTP resources of the connectors plugin),
  \<open>plugins/connectors/bus_consume.py\<close>, the two helpers of \<open>plugin_helpers/http.py\<close>, and
  the end of a request in \<open>http_server.py\<close>. A handler returns a body and a status code or
  raises. Tokens, ACLs and the flask request are arguments: the tenants a token may see, the
  parsed JSON, the query string. Whether Flask hands an exception to the teardown, instead of the
  response \<open>ErrorCatchingResource\<close> makes of it, is the parameter \<open>escapes\<close>.
\<close>

section \<open>The end of a request\<close>

record 'k api_env = "'k router_env" +
  ap_parse_uuid :: "string \<Rightarrow> uuid option"
  ap_new_uuid :: uuid
  ap_wazo_uuid :: uuid

text \<open>
  \<open>commit_database\<close>: a commit flushes what the session holds modified; when that breaks a
  constraint it rolls back and raises.
\<close>

definition commit_database :: "'z service_state_scheme \<Rightarrow> (exn + unit) \<times> 'z service_state_scheme" where
  "commit_database s =
     (case sv_dirty s of
        None \<Rightarrow> (Inr (), s\<lparr>sv_committed := sv_db s\<rparr>)
      | Some i \<Rightarrow>
          (case identity_update i (sv_db s) of
             Inl _ \<Rightarrow> (Inl (IntegrityError True), rollback_session s)
           | Inr db \<Rightarrow> (Inr (), s\<lparr>sv_db := db, sv_committed := db, sv_dirty := None\<rparr>)))"

definition teardown_appcontext ::
  "exn option \<Rightarrow> 'z service_state_scheme \<Rightarrow> (exn + unit) \<times> 'z service_state_scheme" where
  "teardown_appcontext exception s =
     (case exception of None \<Rightarrow> commit_database s | Some _ \<Rightarrow> (Inr (), rollback_session s))"

text \<open>
  A request: the handler, then the teardown. Committing a session whose flush failed raises and
  rolls back, so a database error always ends in a rollback.
\<close>

definition serve ::
  "(exn \<Rightarrow> bool) \<Rightarrow> ('z service_state_scheme \<Rightarrow> (exn + 'a) \<times> 'z service_state_scheme) \<Rightarrow>
   'z service_state_scheme \<Rightarrow> (exn + 'a) \<times> 'z service_state_scheme" where
  "serve escapes handler s =
     (case handler s of
        (Inl e, s1) \<Rightarrow>
          (Inl e, snd (teardown_appcontext (if escapes e \<or> is_sqlalchemy_error e then Some e else None) s1))
      | (Inr a, s1) \<Rightarrow>
          (case teardown_appcontext None s1 of
             (Inl e, s2) \<Rightarrow> (Inl e, s2) | (Inr _, s2) \<Rightarrow> (Inr a, s2)))"

section \<open>Webhooks\<close>

record http_request =
  hr_scheme :: string
  hr_host :: string
  hr_path :: string
  hr_query_string :: string
  hr_headers :: "(string, string) dict"
  hr_content_type :: "string option"
  hr_json :: "(string, string) dict option"    \<comment> \<open>Some when \<open>is_json\<close>\<close>
  hr_form :: "(string, string) dict"

definition header_or :: "http_request \<Rightarrow> string \<Rightarrow> string \<Rightarrow> string" where
  "header_or rq name fallback = (case dict_get (hr_headers rq) name of None \<Rightarrow> fallback | Some v \<Rightarrow> v)"

definition build_public_url :: "http_request \<Rightarrow> string" where
  "build_public_url rq =
     header_or rq ''X-Forwarded-Proto'' (hr_scheme rq) @ ''://'' @ hr_host rq @
     header_or rq ''X-Script-Name'' [] @
     (if hr_query_string rq = [] then hr_path rq else hr_path rq @ ''?'' @ hr_query_string rq)"

definition build_webhook_data :: "http_request \<Rightarrow> WebhookData" where
  "build_webhook_data rq =
     \<lparr>wd_body = (case hr_json rq of Some b \<Rightarrow> b | None \<Rightarrow> hr_form rq), wd_headers = hr_headers rq,
      wd_content_type = (case hr_content_type rq of None \<Rightarrow> [] | Some t \<Rightarrow> t), wd_url = build_public_url rq\<rparr>"

definition webhook_post ::
  "('k, 'y) router_env_scheme \<Rightarrow> http_request \<Rightarrow> string option \<Rightarrow> router_state \<Rightarrow> (exn + nat) \<times> router_state" where
  "webhook_post env rq backend s =
     (case dispatch_webhook env (build_webhook_data rq) backend s of
        (Inr _, s1) \<Rightarrow> (Inr 204, s1)
      | (Inl e, s1) \<Rightarrow>
          (Inl (if e = ConnectorParseError then WebhookParseException
                else if e = ConnectorTransientError then WebhookTransientException else e), s1))"

section \<open>Connectors\<close>

definition connectors_get ::
  "('k, 'y) router_env_scheme \<Rightarrow> uuid \<Rightarrow> router_state \<Rightarrow> (exn + (connector_item list \<times> nat) \<times> nat) \<times> router_state" where
  "connectors_get env tenant s =
     (case list_connectors env tenant s of (items, s1) \<Rightarrow> (Inr ((items, length items), 200), s1))"

record schema_response =
  sr_body :: string
  sr_etag :: string
  sr_cache_control :: string
  sr_status :: nat

text \<open>\<open>if_none_match\<close> is \<open>request.if_none_match.contains_weak\<close>.\<close>

definition auth_schema_get :: "(string \<Rightarrow> bool) \<Rightarrow> string \<Rightarrow> router_state \<Rightarrow> exn + schema_response" where
  "auth_schema_get if_none_match backend s =
     map_sum id (\<lambda>(payload, etag).
       \<lparr>sr_body = (if if_none_match etag then [] else payload), sr_etag = etag,
        sr_cache_control = ''private, no-cache'',
        sr_status = (if if_none_match etag then 304 else 200)\<rparr>) (router_auth_schema backend s)"

definition connector_identities_get ::
  "('k :: linorder, 'y) router_env_scheme \<Rightarrow> uuid \<Rightarrow> string \<Rightarrow> router_state \<Rightarrow>
   (exn + (connector_identity list \<times> nat) \<times> nat) \<times> router_state" where
  "connector_identities_get env tenant backend s =
     and_then (list_connector_identities env tenant backend s) (\<lambda>items s1.
       (Inr ((items, length items), 200), s1))"

section \<open>Identities\<close>

record identity_page =
  pg_items :: "UserIdentity list"
  pg_filtered :: nat
  pg_total :: nat

definition identity_list_get ::
  "('k :: linorder, 'y) service_env_scheme \<Rightarrow> uuid list \<Rightarrow> identity_filter \<Rightarrow> 'z service_state_scheme \<Rightarrow>
   identity_page \<times> nat" where
  "identity_list_get env visible f s =
     (\<lparr>pg_items = list_identities env visible None False f s, pg_filtered = count_identities env visible f s,
       pg_total = count_identities env visible default_identity_filter s\<rparr>, 200)"

definition identity_list_post ::
  "'k api_env \<Rightarrow> uuid list \<Rightarrow> (string, json) dict \<Rightarrow> router_state \<Rightarrow> (exn + UserIdentity \<times> nat) \<times> router_state" where
  "identity_list_post env visible data s =
     (case load_identity_create (ap_parse_uuid env) data of
        Inl e \<Rightarrow> (Inl e, s)
      | Inr b \<Rightarrow>
          and_then (get_user_tenant_uuid env visible (ib_user_uuid b) s) (\<lambda>tenant s1.
          and_then (validate_tenant_backend env tenant (ib_backend b) s1) (\<lambda>_ s2.
          and_then (create_identity
              \<lparr>ui_uuid = ap_new_uuid env, ui_tenant_uuid = tenant, ui_user_uuid = ib_user_uuid b,
               ui_backend = ib_backend b, ui_type = ib_type b, ui_identity = ib_identity b,
               ui_extra = ib_extra b\<rparr> s2) (\<lambda>created s3.
          and_then (reconcile_after_create s3) (\<lambda>_ s4. (Inr (created, 201), s4))))))"

definition identity_item_get ::
  "uuid list \<Rightarrow> uuid \<Rightarrow> 'z service_state_scheme \<Rightarrow> exn + UserIdentity \<times> nat" where
  "identity_item_get visible identity_uuid s =
     map_sum id (\<lambda>i. (i, 200)) (identity_get visible identity_uuid None (sv_db s))"

definition update_model_instance :: "identity_changes \<Rightarrow> UserIdentity \<Rightarrow> UserIdentity" where
  "update_model_instance c i =
     i\<lparr>ui_identity := (case ic_identity c of None \<Rightarrow> ui_identity i | Some n \<Rightarrow> n),
       ui_extra := (case ic_extra c of None \<Rightarrow> ui_extra i | Some x \<Rightarrow> x)\<rparr>"

text \<open>The attributes are assigned to the object the session tracks, before any check of them.\<close>

definition identity_item_put ::
  "uuid list \<Rightarrow> uuid \<Rightarrow> (string, json) dict \<Rightarrow> 'z service_state_scheme \<Rightarrow>
   (exn + UserIdentity \<times> nat) \<times> 'z service_state_scheme" where
  "identity_item_put visible identity_uuid data s =
     (case identity_get visible identity_uuid None (sv_db s) of
        Inl e \<Rightarrow> (Inl e, s)
      | Inr i \<Rightarrow>
          (case load_identity_update data of
             Inl e \<Rightarrow> (Inl e, s)
           | Inr c \<Rightarrow>
               (let j = update_model_instance c i
                in and_then (update_identity j (s\<lparr>sv_dirty := Some j\<rparr>)) (\<lambda>k s1. (Inr (k, 200), s1)))))"

definition identity_item_delete ::
  "uuid list \<Rightarrow> uuid \<Rightarrow> router_state \<Rightarrow> (exn + nat) \<times> router_state" where
  "identity_item_delete visible identity_uuid s =
     (case identity_get visible identity_uuid None (sv_db s) of
        Inl e \<Rightarrow> (Inl e, s)
      | Inr i \<Rightarrow>
          and_then (reconcile_after_delete (ui_tenant_uuid i) (ui_backend i) (delete_identity i s))
            (\<lambda>_ s1. (Inr 204, s1)))"

definition user_me_identities_get ::
  "('k :: linorder) api_env \<Rightarrow> uuid \<Rightarrow> uuid \<Rightarrow> string option \<Rightarrow> router_state \<Rightarrow>
   (exn + (user_identity_dict list \<times> nat) \<times> nat) \<times> router_state" where
  "user_me_identities_get env tenant user room_arg s =
     (case load_uuid (ap_parse_uuid env) room_arg of
        Inl e \<Rightarrow> (Inl e, s)
      | Inr room_uuid \<Rightarrow>
          and_then
            (case room_uuid of
               Some r \<Rightarrow> list_room_identities env [tenant] r user s
             | None \<Rightarrow> (Inr (list_identities env [tenant] (Some user) True default_identity_filter s), s))
            (\<lambda>is s1. (Inr ((map dump_user_identity is, length is), 200), s1)))"

section \<open>Bus events\<close>

definition on_external_auth_changed :: "(string, string) dict \<Rightarrow> router_state \<Rightarrow> (exn + unit) \<times> router_state" where
  "on_external_auth_changed payload s =
     (case dict_get payload ''uuid'' of
        None \<Rightarrow> (Inl (KeyError ''uuid''), s)
      | Some tenant \<Rightarrow>
          (case dict_get payload ''external_auth_name'' of
             None \<Rightarrow> (Inl (KeyError ''external_auth_name''), s)
           | Some backend \<Rightarrow> invalidate_backend_cache tenant backend s))"

section \<open>What a webhook can do\<close>

lemma verify_and_enqueue_cases:
  assumes "verify_and_enqueue env data ev backend cls s = (r, s')"
  shows "sv_db s' = sv_db s \<and> sv_events s' = sv_events s \<and>
    (case r of
       Inl _ \<Rightarrow> rt_runner s' = rt_runner s
     | Inr _ \<Rightarrow> \<exists>tenant instance. resolve_tenant ev backend (sv_db s) = Some tenant \<and>
         fst (store_lookup env backend tenant s) = Inr instance \<and> signature_valid cls instance data \<and>
         rt_runner s' = map_option (enqueue_message ev) (rt_runner s))"
proof (cases "resolve_tenant ev backend (sv_db s)")
  case None
  with assms show ?thesis by (auto simp: verify_and_enqueue_def)
next
  case (Some tenant)
  obtain x s1 where l: "store_lookup env backend tenant s = (x, s1)" by (cases "store_lookup env backend tenant s")
  then have "sv_db s1 = sv_db s" and "sv_events s1 = sv_events s" and "rt_runner s1 = rt_runner s"
    by (auto simp: store_lookup_def split: prod.splits)
  with assms Some l show ?thesis
    by (cases x) (auto simp: verify_and_enqueue_def enqueue_event_def split: if_splits)
qed

definition webhook_accepted ::
  "('k, 'y) router_env_scheme \<Rightarrow> WebhookData \<Rightarrow> string list \<Rightarrow> router_state \<Rightarrow> router_state \<Rightarrow> bool" where
  "webhook_accepted env data names s s' \<longleftrightarrow>
     (\<exists>name \<in> set names. \<exists>cls ev tenant instance.
        get_backend (sv_registry s) name = Inr cls \<and> recognised cls data = Some ev \<and>
        resolve_tenant ev name (sv_db s) = Some tenant \<and>
        fst (store_lookup env name tenant s) = Inr instance \<and> signature_valid cls instance data \<and>
        rt_runner s' = map_option (enqueue_message ev) (rt_runner s))"

lemma try_backends_cases:
  assumes "try_backends env data names s = (r, s')"
  shows "sv_db s' = sv_db s \<and> sv_events s' = sv_events s \<and>
    (case r of Inl _ \<Rightarrow> rt_runner s' = rt_runner s | Inr _ \<Rightarrow> webhook_accepted env data names s s')"
  using assms
proof (induction names)
  case (Cons name names)
  show ?case
  proof (cases "get_backend (sv_registry s) name")
    case (Inl e)
    with Cons.prems show ?thesis by auto
  next
    case (Inr cls)
    show ?thesis
    proof (cases "recognised cls data")
      case None
      with Cons Inr show ?thesis by (auto simp: webhook_accepted_def split: sum.splits)
    next
      case (Some ev)
      with Cons.prems Inr have "verify_and_enqueue env data ev name cls s = (r, s')" by simp
      from verify_and_enqueue_cases [OF this] Some Inr show ?thesis
        by (cases r) (auto simp: webhook_accepted_def)
    qed
  qed
qed auto

declare try_backends.simps [simp del]

lemma dispatch_webhook_cases:
  assumes "dispatch_webhook env data backend s = (r, s')"
  shows "sv_db s' = sv_db s \<and> sv_events s' = sv_events s \<and>
    (case r of
       Inl _ \<Rightarrow> rt_runner s' = rt_runner s
     | Inr _ \<Rightarrow> webhook_accepted env data
         (case backend of None \<Rightarrow> available_backends (sv_registry s) | Some b \<Rightarrow> [b]) s s' \<and>
         (\<forall>b. backend = Some b \<longrightarrow> b \<in> set (available_backends (sv_registry s))))"
  using assms try_backends_cases [of env data _ s r s']
  by (cases r) (auto simp: dispatch_webhook_def Let_def split: if_splits option.splits)

lemma recognised_calls:
  "recognised cls data = Some ev \<Longrightarrow> cc_can_handle cls data = Inr True \<and> cc_on_event cls data = Inr (Some ev)"
  by (auto simp: recognised_def split: sum.splits bool.splits)

lemma signature_checked:
  "signature_valid cls i data \<Longrightarrow> cc_verifies_signatures cls \<Longrightarrow> cc_verify_signature cls i data = Inr True"
  by (auto simp: signature_valid_def split: sum.splits)

lemma store_lookup_get:
  "fst (store_lookup env name tenant s) =
     fst (store_get (sv_registry s) (re_store_config env) (re_fetch env (tenant, name)) name tenant (rt_store s))"
  by (simp add: store_lookup_def split: prod.split)

lemma enqueued_items:
  "q_items (rn_queue (enqueue_message ev rn)) =
     (if length (q_items (rn_queue rn)) \<ge> q_maxsize (rn_queue rn) then q_items (rn_queue rn)
      else q_items (rn_queue rn) @ [ev])"
  by (simp add: enqueue_message_def append_def)

lemma backend_available: "get_backend rg n = Inr cls \<Longrightarrow> n \<in> set (available_backends rg)"
  unfolding available_backends_def dict_mem_keys
  by (auto simp: get_backend_def get_entry_def split: option.splits)

text \<open>
  C28: a webhook gets an event into the delivery loop only through a registered backend
  (the one of the URL, when it names one) that recognised the payload, for a tenant the tables
  resolve the event to, with an instance of the connector store, whose signature check accepted
  the request when the backend has one. Any other outcome is an error and leaves the loop's queue
  as it was; no outcome touches the tables or the bus. The answer 204 does not say that the event
  was queued: when the queue is full it is dropped.
\<close>

theorem webhook_verified_before_enqueue:
  assumes "webhook_post env rq backend s = (r, s')" and "rt_runner s = Some rn"
  shows "sv_db s' = sv_db s \<and> sv_events s' = sv_events s \<and>
    (r = Inr 204 \<longrightarrow>
       (\<exists>name cls ev tenant instance.
          name \<in> set (available_backends (sv_registry s)) \<and> backend \<in> {None, Some name} \<and>
          get_backend (sv_registry s) name = Inr cls \<and>
          cc_can_handle cls (build_webhook_data rq) = Inr True \<and>
          cc_on_event cls (build_webhook_data rq) = Inr (Some ev) \<and>
          resolve_tenant ev name (sv_db s) = Some tenant \<and>
          fst (store_get (sv_registry s) (re_store_config env) (re_fetch env (tenant, name)) name tenant
            (rt_store s)) = Inr instance \<and>
          (cc_verifies_signatures cls \<longrightarrow>
            cc_verify_signature cls instance (build_webhook_data rq) = Inr True) \<and>
          (\<exists>rn'. rt_runner s' = Some rn' \<and>
             q_items (rn_queue rn') =
               (if length (q_items (rn_queue rn)) \<ge> q_maxsize (rn_queue rn) then q_items (rn_queue rn)
                else q_items (rn_queue rn) @ [ev])))) \<and>
    (r \<noteq> Inr 204 \<longrightarrow> (\<exists>e. r = Inl e) \<and> rt_runner s' = Some rn)"
proof -
  obtain x s1 where d: "dispatch_webhook env (build_webhook_data rq) backend s = (x, s1)"
    by (cases "dispatch_webhook env (build_webhook_data rq) backend s")
  note c = dispatch_webhook_cases [OF d]
  show ?thesis
  proof (cases x)
    case (Inl e)
    with assms d c show ?thesis by (auto simp: webhook_post_def)
  next
    case (Inr u)
    with assms(1) d have r: "r = Inr 204" and s': "s' = s1" by (auto simp: webhook_post_def)
    from c Inr have "webhook_accepted env (build_webhook_data rq)
        (case backend of None \<Rightarrow> available_backends (sv_registry s) | Some b \<Rightarrow> [b]) s s1" by simp
    then obtain name cls ev tenant conn
      where n: "name \<in> set (case backend of None \<Rightarrow> available_backends (sv_registry s) | Some b \<Rightarrow> [b])"
        and g: "get_backend (sv_registry s) name = Inr cls"
        and e: "recognised cls (build_webhook_data rq) = Some ev"
        and t: "resolve_tenant ev name (sv_db s) = Some tenant"
        and i: "fst (store_lookup env name tenant s) = Inr conn"
        and v: "signature_valid cls conn (build_webhook_data rq)"
        and q: "rt_runner s1 = map_option (enqueue_message ev) (rt_runner s)"
      unfolding webhook_accepted_def by blast
    have "backend \<in> {None, Some name}" using n by (cases backend) auto
    then have "\<exists>name cls ev tenant instance.
          name \<in> set (available_backends (sv_registry s)) \<and> backend \<in> {None, Some name} \<and>
          get_backend (sv_registry s) name = Inr cls \<and>
          cc_can_handle cls (build_webhook_data rq) = Inr True \<and>
          cc_on_event cls (build_webhook_data rq) = Inr (Some ev) \<and>
          resolve_tenant ev name (sv_db s) = Some tenant \<and>
          fst (store_get (sv_registry s) (re_store_config env) (re_fetch env (tenant, name)) name tenant
            (rt_store s)) = Inr instance \<and>
          (cc_verifies_signatures cls \<longrightarrow>
            cc_verify_signature cls instance (build_webhook_data rq) = Inr True) \<and>
          (\<exists>rn'. rt_runner s' = Some rn' \<and>
             q_items (rn_queue rn') =
               (if length (q_items (rn_queue rn)) \<ge> q_maxsize (rn_queue rn) then q_items (rn_queue rn)
                else q_items (rn_queue rn) @ [ev]))"
      using backend_available [OF g] g recognised_calls [OF e] t i signature_checked [OF v] q assms(2) enqueued_items
      unfolding s' store_lookup_get
      by (intro exI [of _ name] exI [of _ cls] exI [of _ ev] exI [of _ tenant] exI [of _ conn]) simp
    with c Inr r s' show ?thesis by simp
  qed
qed

section \<open>What an accepted identity looks like\<close>

lemma get_user_tenant_uuid_Inr:
  assumes "get_user_tenant_uuid env visible user s = (Inr tenant, s')"
  shows "tenant \<in> set visible \<and> user \<in> us_uuid ` set (users (sv_db s')) \<and>
    user_identities (sv_db s') = user_identities (sv_db s) \<and> sv_events s' = sv_events s \<and>
    sv_dirty s' = sv_dirty s \<and> sv_registry s' = sv_registry s \<and>
    (presence_ok (sv_db s) \<longrightarrow> chat_ok (sv_db s) \<longrightarrow> presence_ok (sv_db s') \<and> chat_ok (sv_db s'))"
proof (cases "user_get visible user (sv_db s)")
  case (Inr u)
  with assms show ?thesis
    by (auto simp: get_user_tenant_uuid_def user_get_def find_Some_iff split: option.splits)
next
  case (Inl e)
  with assms have ask: "ask_auth env visible user = Inr tenant"
    and s': "s' = s\<lparr>sv_db := ensure_tenant_and_user_exist tenant user (sv_db s)\<rparr>"
    by (auto simp: get_user_tenant_uuid_def split: sum.splits)
  from ask have "tenant \<in> set visible"
    by (auto simp: ask_auth_def split: sum.splits exn.splits if_splits)
  then show ?thesis
    unfolding s' using ensure_exists [where tenant = tenant and user = user and db = "sv_db s"] ensure_ok
    by simp
qed

lemma store_lookup_frame:
  assumes "store_lookup env backend tenant s = (r, s')"
  shows "sv_db s' = sv_db s \<and> sv_events s' = sv_events s \<and> sv_dirty s' = sv_dirty s \<and>
    sv_registry s' = sv_registry s \<and> sv_committed s' = sv_committed s \<and> sv_notify s' = sv_notify s"
  using assms by (auto simp: store_lookup_def split: prod.splits)

lemma reconcile_frame:
  assumes "reconcile_after_create s = (r, s')"
  shows "sv_db s' = sv_db s \<and> sv_events s' = sv_events s \<and> sv_dirty s' = sv_dirty s \<and>
    sv_registry s' = sv_registry s \<and> sv_committed s' = sv_committed s \<and> sv_notify s' = sv_notify s"
  using assms
  by (auto simp: reconcile_after_create_def resync_def resync_pollers_def split: if_splits sum.splits)

lemma create_identity_Inr:
  assumes "create_identity i s = (Inr j, s')"
  obtains cls db where "get_backend (sv_registry s) (ui_backend i) = Inr cls"
    and "cc_normalize_identity cls (ui_identity i) = Inr (ui_identity j)"
    and "j = i\<lparr>ui_identity := ui_identity j\<rparr>" and "identity_create j (sv_db s) = Inr db"
    and "s' = publish_events (notify_identity_created j) (s\<lparr>sv_db := db\<rparr>)"
proof -
  obtain cls where cls: "get_backend (sv_registry s) (ui_backend i) = Inr cls"
    using assms by (auto simp: create_identity_def validate_and_normalize_identity_def split: sum.splits)
  obtain n where n: "cc_normalize_identity cls (ui_identity i) = Inr n"
    using assms cls
    by (cases "cc_normalize_identity cls (ui_identity i)")
      (auto simp: create_identity_def validate_and_normalize_identity_def split: exn.splits)
  obtain db where "identity_create (i\<lparr>ui_identity := n\<rparr>) (sv_db s) = Inr db"
    using assms cls n
    by (auto simp: create_identity_def validate_and_normalize_identity_def split: sum.splits)
  then show ?thesis
    using assms cls n
    by (intro that [of cls db]) (auto simp: create_identity_def validate_and_normalize_identity_def)
qed

text \<open>
  C30: what \<open>POST /identities\<close> stores is well typed. An accepted request adds exactly
  one identity, bound to an existing user in a tenant the token may see, on a registered backend,
  holding the number as the backend normalises it; its texts have the lengths the schema allows and
  its extra passes the limits; the constraints of the tables still hold, and the bus hears of
  exactly this identity.
\<close>

theorem identity_post_well_typed:
  assumes "serve escapes (identity_list_post env visible data) s = (Inr (i, code), s')"
    and "presence_ok (sv_db s)" and "chat_ok (sv_db s)" and "sv_dirty s = None"
  shows "code = 201 \<and> user_identities (sv_committed s') = user_identities (sv_db s) @ [i] \<and>
    presence_ok (sv_committed s') \<and> chat_ok (sv_committed s') \<and>
    ui_tenant_uuid i \<in> set visible \<and> ui_user_uuid i \<in> us_uuid ` set (users (sv_committed s')) \<and>
    (\<exists>raw cls. dict_get data ''identity'' = Some (JStr raw) \<and> 1 \<le> length raw \<and> length raw \<le> 256 \<and>
       get_backend (sv_registry s) (ui_backend i) = Inr cls \<and>
       cc_normalize_identity cls raw = Inr (ui_identity i)) \<and>
    1 \<le> length (ui_backend i) \<and> length (ui_backend i) \<le> 64 \<and>
    1 \<le> length (ui_type i) \<and> length (ui_type i) \<le> 32 \<and>
    validate_extra (ui_extra i) = Inr () \<and>
    sv_events s' = sv_events s @ notify_identity_created i"
proof -
  obtain s4 where h: "identity_list_post env visible data s = (Inr (i, code), s4)"
    and t: "commit_database s4 = (Inr (), s')"
    using assms(1) by (auto simp: serve_def teardown_appcontext_def split: prod.splits sum.splits)
  obtain b where b: "load_identity_create (ap_parse_uuid env) data = Inr b"
    using h by (auto simp: identity_list_post_def split: sum.splits)
  let ?i = "\<lambda>tenant. \<lparr>ui_uuid = ap_new_uuid env, ui_tenant_uuid = tenant, ui_user_uuid = ib_user_uuid b,
      ui_backend = ib_backend b, ui_type = ib_type b, ui_identity = ib_identity b, ui_extra = ib_extra b\<rparr>"
  obtain tenant s1 s2 s3 u where
    u: "get_user_tenant_uuid env visible (ib_user_uuid b) s = (Inr tenant, s1)"
    and v: "validate_tenant_backend env tenant (ib_backend b) s1 = (Inr (), s2)"
    and c: "create_identity (?i tenant) s2 = (Inr i, s3)"
    and r: "reconcile_after_create s3 = (Inr u, s4)" and code: "code = 201"
    using h b by (auto simp: identity_list_post_def and_then_Inr)
  have v': "sv_db s2 = sv_db s1 \<and> sv_events s2 = sv_events s1 \<and> sv_dirty s2 = sv_dirty s1 \<and>
      sv_registry s2 = sv_registry s1"
    using v by (auto simp: validate_tenant_backend_def and_then_Inr dest: store_lookup_frame)
  note fu = get_user_tenant_uuid_Inr [OF u]
  obtain cls db where cls: "get_backend (sv_registry s2) (ib_backend b) = Inr cls"
    and n: "cc_normalize_identity cls (ib_identity b) = Inr (ui_identity i)"
    and i: "i = (?i tenant)\<lparr>ui_identity := ui_identity i\<rparr>" and db: "identity_create i (sv_db s2) = Inr db"
    and s3: "s3 = publish_events (notify_identity_created i) (s2\<lparr>sv_db := db\<rparr>)"
    using c by (rule create_identity_Inr) simp
  have s': "sv_committed s' = db \<and> sv_events s' = sv_events s @ notify_identity_created i"
    using t reconcile_frame [OF r] v' fu s3 assms(4)
    by (auto simp: commit_database_def publish_events_def)
  have fields: "ui_backend i = ib_backend b \<and> ui_type i = ib_type b \<and> ui_extra i = ib_extra b \<and>
      ui_tenant_uuid i = tenant \<and> ui_user_uuid i = ib_user_uuid b"
    by (subst i, subst i, subst i, subst i, subst i) simp
  have body: "dict_get data ''identity'' = Some (JStr (ib_identity b)) \<and> 1 \<le> length (ib_identity b) \<and>
      length (ib_identity b) \<le> 256 \<and> 1 \<le> length (ib_backend b) \<and> length (ib_backend b) \<le> 64 \<and>
      1 \<le> length (ib_type b) \<and> length (ib_type b) \<le> 32 \<and> validate_extra (ib_extra b) = Inr ()"
    using b by (auto simp: load_identity_create_def validate_extra_def
        dest!: load_required_ok load_extra_ok [unfolded validate_extra_def] split: sum.splits option.splits)
  have ok: "presence_ok db \<and> chat_ok db" and ids: "user_identities db = user_identities (sv_db s) @ [i]"
    and usr: "users db = users (sv_db s2)"
    using db fu v' assms(2,3) identity_create_ok [OF db] by (auto simp: identity_create_Inr)
  show ?thesis
    using code s' fields body ok ids usr fu v' cls n by auto
qed

section \<open>A rejected update is kept\<close>

lemma identity_get_iff:
  assumes "keyed ui_uuid (user_identities db)"
  shows "identity_get visible u None db = Inr i \<longleftrightarrow>
    i \<in> set (user_identities db) \<and> ui_tenant_uuid i \<in> set visible \<and> ui_uuid i = u"
proof
  assume "identity_get visible u None db = Inr i"
  then show "i \<in> set (user_identities db) \<and> ui_tenant_uuid i \<in> set visible \<and> ui_uuid i = u"
    by (auto simp: identity_get_def find_Some_iff split: option.splits)
next
  assume i: "i \<in> set (user_identities db) \<and> ui_tenant_uuid i \<in> set visible \<and> ui_uuid i = u"
  then have "List.find (\<lambda>i. ui_tenant_uuid i \<in> set visible \<and> ui_uuid i = u \<and> of_user None i)
      (user_identities db) \<noteq> None"
    by (auto simp: find_None_iff of_user_def)
  then obtain j where j: "List.find (\<lambda>i. ui_tenant_uuid i \<in> set visible \<and> ui_uuid i = u \<and> of_user None i)
      (user_identities db) = Some j"
    by auto
  then have "j \<in> set (user_identities db)" and "ui_uuid j = u"
    by (auto simp: find_Some_iff)
  with i assms have "j = i" by (auto dest: keyed_inj)
  with j show "identity_get visible u None db = Inr i" by (simp add: identity_get_def)
qed

lemma keyed_update_one:
  assumes "keyed key rows" and "keyed key2 rows"
    and "\<And>r. key2 (f r) = k" and "\<forall>r \<in> set rows. key2 r = k \<longrightarrow> key r = u"
  shows "keyed key2 (update_rows (\<lambda>r. key r = u) f rows)"
proof -
  have "inj_on (\<lambda>r. key2 (if key r = u then f r else r)) (set rows)"
    using assms by (intro inj_onI) (auto split: if_splits dest: keyed_inj)
  moreover have "distinct rows" using assms(1) by (simp add: keyed_def distinct_map)
  ultimately show ?thesis
    by (simp add: keyed_def update_rows_def distinct_map comp_def)
qed

text \<open>
  C31: an update that is refused is stored all the same. \<open>PUT /identities/{uuid}\<close>
  with a number the backend cannot normalise answers invalid-identity-format, but the attributes
  were assigned to the object the session tracks, the exception became a response, and the
  teardown commits: the identity keeps the refused number, un-normalised, and no event says so.
\<close>

theorem rejected_update_committed:
  assumes "chat_ok (sv_db s)" and "identity_get visible u None (sv_db s) = Inr i"
    and "load_identity_update data = Inr c" and "ic_identity c = Some raw"
    and "get_backend (sv_registry s) (ui_backend i) = Inr cls"
    and "cc_normalize_identity cls raw = Inl (ValueError reason)"
    and "\<forall>j \<in> set (user_identities (sv_db s)).
      identity_key j = (ui_backend i, raw, ui_type i) \<longrightarrow> ui_uuid j = u"
    and "\<not> escapes (InvalidIdentityFormatException raw (ui_backend i) reason)"
  shows "\<exists>s'. serve escapes (identity_item_put visible u data) s =
      (Inl (InvalidIdentityFormatException raw (ui_backend i) reason), s') \<and>
    identity_get visible u None (sv_committed s') = Inr (update_model_instance c i) \<and>
    ui_identity (update_model_instance c i) = raw \<and> sv_events s' = sv_events s"
proof -
  let ?j = "update_model_instance c i"
  let ?f = "\<lambda>j. j\<lparr>ui_identity := ui_identity ?j, ui_extra := ui_extra ?j\<rparr>"
  let ?rows = "update_rows (\<lambda>j. ui_uuid j = ui_uuid ?j) ?f (user_identities (sv_db s))"
  have j: "ui_identity ?j = raw" "ui_backend ?j = ui_backend i" "ui_uuid ?j = ui_uuid i"
    "ui_type ?j = ui_type i" "ui_tenant_uuid ?j = ui_tenant_uuid i"
    using assms(4) by (simp_all add: update_model_instance_def)
  have ku: "keyed ui_uuid (user_identities (sv_db s))" and ki: "keyed identity_key (user_identities (sv_db s))"
    using assms(1) by (simp_all add: integrity_defs)
  have i: "i \<in> set (user_identities (sv_db s))" and vis: "ui_tenant_uuid i \<in> set visible" and u: "ui_uuid i = u"
    using assms(2) by (simp_all add: identity_get_iff [OF ku])
  have inj: "r = i" if "r \<in> set (user_identities (sv_db s))" and "ui_uuid r = u" for r
    using that i u ku by (auto dest: keyed_inj)
  have rows: "?rows = update_rows (\<lambda>j. ui_uuid j = u) (\<lambda>_. ?j) (user_identities (sv_db s))"
    unfolding update_rows_def j(3) u
    by (intro map_cong refl) (auto dest!: inj simp: update_model_instance_def)
  have "identity_key ?j = (ui_backend i, raw, ui_type i)"
    by (simp add: identity_key_def j)
  then have "keyed identity_key ?rows"
    unfolding rows using ku ki assms(7) by (intro keyed_update_one) auto
  then have upd: "identity_update ?j (sv_db s) = Inr ((sv_db s)\<lparr>user_identities := ?rows\<rparr>)"
    by (simp add: identity_update_def Let_def)
  have refused: "validate_and_normalize_identity ?j (sv_registry s) =
      Inl (InvalidIdentityFormatException raw (ui_backend i) reason)"
    using assms(5,6) by (simp add: validate_and_normalize_identity_def j)
  have "identity_item_put visible u data s =
      (Inl (InvalidIdentityFormatException raw (ui_backend i) reason), s\<lparr>sv_dirty := Some ?j\<rparr>)"
    using assms(2,3) refused by (simp add: identity_item_put_def update_identity_def Let_def)
  moreover have "keyed ui_uuid ?rows"
    using ku by (intro keyed_update) simp_all
  then have "identity_get visible u None ((sv_db s)\<lparr>user_identities := ?rows\<rparr>) = Inr ?j"
    using i vis u unfolding rows by (auto simp: identity_get_iff j update_rows_def image_iff)
  ultimately show ?thesis
    using assms(8) upd j(1) by (simp add: serve_def teardown_appcontext_def commit_database_def)
qed

section \<open>Witnesses\<close>

definition hook_class :: ConnectorClass where
  "hook_class = sms_class\<lparr>cc_on_event := (\<lambda>_. Inr (Some (Inbound sample_inbound)))\<rparr>"

definition hook_registry :: ConnectorRegistry where
  "hook_registry = sms_registry\<lparr>rg_backends := [(''sms'', \<lparr>rb_cls = hook_class, rb_auth_scope = ''tenant'',
      rb_auth_schema = (''{}'', ''0''), rb_mode = Webhook\<rparr>)]\<rparr>"

definition sample_router :: router_state where
  "sample_router = \<lparr>sv_committed = sample_chat, sv_db = sample_chat, sv_dirty = None, sv_notify = [],
     sv_events = [], sv_registry = hook_registry, rt_store = es_store sample_exec,
     rt_runner = Some (new_runner 4), rt_delivery_loop = False, rt_listener_loop = False,
     rt_callbacks = []\<rparr>"

definition sample_api :: "nat api_env" where
  "sample_api = \<lparr>se_collate = length, se_fold_case = id, se_uuid5 = (\<lambda>t k. ''ext-'' @ k), se_sha256_hex = id,
     se_now = 2000, se_auth_user = (\<lambda>_. Inl ReadTimeout),
     re_store_config = \<lparr>sc_cache_ttl = 300, sc_connectors_config = []\<rparr>,
     re_fetch = (\<lambda>_. \<lparr>fe_answer = Inl ReadTimeout, fe_get_clock = 100, fe_enter_clock = 100,
       fe_commit_clock = 100, fe_jitter = 1, fe_leader = Inl ReadTimeout\<rparr>), re_completed = id,
     ap_parse_uuid = Some, ap_new_uuid = ''i2'', ap_wazo_uuid = ''w''\<rparr>"

definition sample_request :: http_request where
  "sample_request = \<lparr>hr_scheme = ''https'', hr_host = ''wazo'', hr_path = ''/1.0/connectors/incoming'',
     hr_query_string = [], hr_headers = [], hr_content_type = None, hr_json = Some [], hr_form = []\<rparr>"

lemmas router_sample_defs = sample_router_def sample_api_def hook_registry_def sms_registry_def
  hook_class_def sms_class_def sample_chat_def sample_exec_def empty_db_def sample_inbound_def

theorem webhook_verified_before_enqueue_witness:
  "\<exists>s'. webhook_post sample_api sample_request None sample_router = (Inr 204, s') \<and>
     sv_db s' = sample_chat \<and> map_option (q_items \<circ> rn_queue) (rt_runner s') = Some [Inbound sample_inbound]"
proof -
  obtain s' where w: "webhook_post sample_api sample_request None sample_router = (Inr 204, s')"
    by (simp add: router_sample_defs webhook_post_def dispatch_webhook_def available_backends_def
        get_backend_def get_entry_def recognised_def verify_and_enqueue_def resolve_tenant_def
        find_tenant_by_identity_def store_lookup_def store_get_def get_cached_def signature_valid_def
        sample_connector_def new_store_def try_backends.simps)
  have rn: "rt_runner sample_router = Some (new_runner 4)" by (simp add: sample_router_def)
  have ev: "ev = Inbound sample_inbound"
    if "get_backend (sv_registry sample_router) n = Inr cls" and "cc_on_event cls d = Inr (Some ev)" for n cls d ev
    using that by (auto simp: sample_router_def hook_registry_def hook_class_def get_backend_def get_entry_def
        split: if_splits)
  show ?thesis
    using webhook_verified_before_enqueue [OF w rn] ev w
    by (auto simp: new_runner_def new_queue_def sample_router_def)
qed

theorem identity_post_well_typed_witness:
  "\<exists>s' i. serve (\<lambda>_. False) (identity_list_post sample_api [''t'']
      [(''user_uuid'', JStr ''alice''), (''backend'', JStr ''sms''), (''type'', JStr ''sms''),
       (''identity'', JStr ''+1999'')]) sample_router = (Inr (i, 201), s') \<and>
     ui_identity i = ''+1999'' \<and> chat_ok (sv_committed s') \<and> sv_events s' = notify_identity_created i"
proof -
  let ?data = "[(''user_uuid'', JStr ''alice''), (''backend'', JStr ''sms''), (''type'', JStr ''sms''),
      (''identity'', JStr ''+1999'')]"
  obtain s' i code where r: "serve (\<lambda>_. False) (identity_list_post sample_api [''t''] ?data) sample_router =
      (Inr (i, code), s')" and i: "ui_identity i = ''+1999''"
    by (simp add: router_sample_defs serve_def teardown_appcontext_def commit_database_def
        identity_list_post_def load_identity_create_def load_user_uuid_def load_required_def load_string_def
        get_user_tenant_uuid_def user_get_def validate_tenant_backend_def store_lookup_def store_get_def
        get_cached_def new_store_def sample_connector_def create_identity_def
        validate_and_normalize_identity_def get_backend_def get_entry_def identity_create_def
        identity_key_def reconcile_after_create_def resync_def resync_pollers_def publish_events_def)
  have "presence_ok (sv_db sample_router)"
    by (simp add: sample_router_def sample_chat_def empty_db_def integrity_defs refs_def refs_opt_def keyed_def)
  moreover have "chat_ok (sv_db sample_router)" and "sv_dirty sample_router = None"
    using sample_chat_ok(1) by (simp_all add: sample_router_def)
  ultimately have "code = 201 \<and> chat_ok (sv_committed s') \<and>
      sv_events s' = sv_events sample_router @ notify_identity_created i"
    using identity_post_well_typed [OF r] by blast
  with r i show ?thesis by (auto simp: sample_router_def)
qed

theorem rejected_update_committed_witness:
  "\<exists>s'. serve (\<lambda>_. False) (identity_item_put [''t''] ''i1'' [(''identity'', JStr ''555'')]) sample_router =
      (Inl (InvalidIdentityFormatException ''555'' ''sms'' ''555''), s') \<and>
     map ui_identity (user_identities (sv_committed s')) = [''555'']"
proof -
  let ?i = "\<lparr>ui_uuid = ''i1'', ui_tenant_uuid = ''t'', ui_user_uuid = ''alice'', ui_backend = ''sms'',
      ui_type = ''sms'', ui_identity = ''+1555'', ui_extra = []\<rparr>"
  have "chat_ok (sv_db sample_router)"
    using sample_chat_ok(1) by (simp add: sample_router_def)
  moreover have "identity_get [''t''] ''i1'' None (sv_db sample_router) = Inr ?i"
    by (simp add: sample_router_def sample_chat_def identity_get_def of_user_def)
  moreover have "load_identity_update [(''identity'', JStr ''555'')] =
      Inr \<lparr>ic_identity = Some ''555'', ic_extra = None\<rparr>"
    by (simp add: load_identity_update_def load_optional_def load_string_def)
  moreover have "ic_identity \<lparr>ic_identity = Some ''555'', ic_extra = None\<rparr> = Some ''555''" by simp
  moreover have "get_backend (sv_registry sample_router) (ui_backend ?i) = Inr hook_class"
    by (simp add: sample_router_def hook_registry_def get_backend_def get_entry_def)
  moreover have "cc_normalize_identity hook_class ''555'' = Inl (ValueError ''555'')"
    by (simp add: hook_class_def sms_class_def)
  moreover have "\<forall>j \<in> set (user_identities (sv_db sample_router)).
      identity_key j = (ui_backend ?i, ''555'', ui_type ?i) \<longrightarrow> ui_uuid j = ''i1''"
    by (simp add: sample_router_def sample_chat_def)
  ultimately obtain s' where s': "serve (\<lambda>_. False)
      (identity_item_put [''t''] ''i1'' [(''identity'', JStr ''555'')]) sample_router =
      (Inl (InvalidIdentityFormatException ''555'' (ui_backend ?i) ''555''), s')"
    using rejected_update_committed [where escapes = "\<lambda>_. False"] by blast
  moreover have "map ui_identity (user_identities (sv_committed s')) = [''555'']"
    using s' by (simp add: router_sample_defs serve_def teardown_appcontext_def commit_database_def
        identity_item_put_def identity_get_def of_user_def load_identity_update_def load_optional_def
        load_string_def update_model_instance_def update_identity_def validate_and_normalize_identity_def
        get_backend_def get_entry_def identity_update_def update_rows_def identity_key_def) auto
  ultimately show ?thesis by auto
qed

end
