(* ===== verification/Rooms.thy ===== *)
theory Rooms
  imports ConnectorApi
begin

text \<open>
  \<open>plugins/rooms/services.py\<close>, the request schemas of \<open>plugins/rooms/schemas.py\<close> and
  \<open>plugins/rooms/http.py\<close>: creating and listing rooms, posting and listing messages, with the
  three hooks the connectors plugin registers (\<open>plugins/connectors/plugin.py\<close>). The user and
  the tenant of the token are arguments; LIKE is the parameter \<open>like\<close>. A message gets its uuid
  when it is built: the code draws it in the hook or lets the flush draw it.
\<close>

section \<open>Request bodies\<close>

record message_body =
  mb_content :: "body option"
  mb_alias :: "string option"
  mb_sender_identity_uuid :: "string option"

definition load_message ::
  "(string \<Rightarrow> uuid option) \<Rightarrow> message_body \<Rightarrow> exn + body \<times> string option \<times> uuid option" where
  "load_message parse_uuid b =
     (case mb_content b of
        None \<Rightarrow> Inl ValidationError
      | Some content \<Rightarrow>
          if \<exists>a. mb_alias b = Some a \<and> length a > 256 then Inl ValidationError
          else map_sum id (\<lambda>u. (content, mb_alias b, u)) (load_uuid parse_uuid (mb_sender_identity_uuid b)))"

definition load_user :: "(string \<Rightarrow> uuid option) \<Rightarrow> user_args \<Rightarrow> exn + user_args" where
  "load_user parse_uuid u =
     (if ua_identity u = Some [] then Inl ValidationError
      else case load_uuid parse_uuid (ua_uuid u) of Inl e \<Rightarrow> Inl e | Inr a \<Rightarrow>
           case load_uuid parse_uuid (ua_tenant_uuid u) of Inl e \<Rightarrow> Inl e | Inr t \<Rightarrow>
           case load_uuid parse_uuid (ua_wazo_uuid u) of Inl e \<Rightarrow> Inl e | Inr w \<Rightarrow>
             Inr (u\<lparr>ua_uuid := a, ua_tenant_uuid := t, ua_wazo_uuid := w\<rparr>))"

fun load_users :: "(string \<Rightarrow> uuid option) \<Rightarrow> user_args list \<Rightarrow> exn + user_args list" where
  "load_users parse_uuid [] = Inr []"
| "load_users parse_uuid (u # us) =
     (case load_user parse_uuid u of
        Inl e \<Rightarrow> Inl e | Inr v \<Rightarrow> map_sum id (\<lambda>vs. v # vs) (load_users parse_uuid us))"

definition load_message_filter :: "message_filter \<Rightarrow> exn + message_filter" where
  "load_message_filter f =
     (if mf_search f \<in> {None, Some [], Some [[]]} \<and> \<not> mf_distinct f then Inl ValidationError else Inr f)"

section \<open>Hooks\<close>

record room_hooks =
  hk_schema :: "((user_args list \<times> uuid) \<times> router_state) subscribers"
  hk_room :: "(Room \<times> router_state) subscribers"
  hk_message :: "(message_context \<times> router_state) subscribers"

definition no_hooks :: room_hooks where
  "no_hooks = \<lparr>hk_schema = [], hk_room = [], hk_message = []\<rparr>"

definition resolve_participants_hook ::
  "('k, 'y) service_env_scheme \<Rightarrow> ((user_args list \<times> uuid) \<times> router_state) callback" where
  "resolve_participants_hook env p =
     (case p of ((us, tenant), s) \<Rightarrow> (Inr (), (resolve_room_participants env tenant us (sv_db s), tenant), s))"

definition validate_room_hook :: "(Room \<times> router_state) callback" where
  "validate_room_hook p =
     (case p of (r, s) \<Rightarrow> (case validate_room_reachability r s of (res, s1) \<Rightarrow> (res, r, s1)))"

text \<open>What \<open>Plugin.load\<close> of the connectors plugin registers.\<close>

definition connector_hooks :: "('k, 'y) service_env_scheme \<Rightarrow> room_hooks" where
  "connector_hooks env =
     \<lparr>hk_schema = register_hook ''before_room_schema_validation'' (resolve_participants_hook env) [],
      hk_room = register_hook ''before_room_creation'' validate_room_hook [],
      hk_message = register_hook ''before_message_creation'' (prepare_outbound env) []\<rparr>"

section \<open>Service\<close>

definition prepare_room_request ::
  "room_hooks \<Rightarrow> uuid \<Rightarrow> user_args list \<Rightarrow> router_state \<Rightarrow> (exn + user_args list) \<times> router_state" where
  "prepare_room_request hooks tenant us s =
     (case dispatch_hook ''before_room_schema_validation'' True (hk_schema hooks) ((us, tenant), s) of
        (Inl e, _, s1) \<Rightarrow> (Inl e, s1)
      | (Inr _, (us1, _), s1) \<Rightarrow> (Inr us1, s1))"

definition set_default_room_values :: "uuid \<Rightarrow> Room \<Rightarrow> Room" where
  "set_default_room_values wazo r =
     r\<lparr>ro_users := map (\<lambda>u. u\<lparr>
          ru_tenant_uuid := (case ru_tenant_uuid u of None \<Rightarrow> Some (ro_tenant_uuid r) | Some t \<Rightarrow> Some t),
          ru_wazo_uuid := (case ru_wazo_uuid u of None \<Rightarrow> Some wazo | Some w \<Rightarrow> Some w)\<rparr>) (ro_users r)\<rparr>"

definition room_create :: "uuid \<Rightarrow> room_hooks \<Rightarrow> Room \<Rightarrow> router_state \<Rightarrow> (exn + Room) \<times> router_state" where
  "room_create wazo hooks r s =
     (case dispatch_hook ''before_room_creation'' True (hk_room hooks) (set_default_room_values wazo r, s) of
        (Inl e, _, s1) \<Rightarrow> (Inl e, s1)
      | (Inr _, r1, s1) \<Rightarrow>
          (case insert_room r1 (sv_db s1) of
             Inl e \<Rightarrow> (Inl e, s1)
           | Inr db \<Rightarrow> (Inr r1, publish_events (notify_room_created r1) (s1\<lparr>sv_db := db\<rparr>))))"

definition has_delivery_pipeline :: "room_hooks \<Rightarrow> bool" where
  "has_delivery_pipeline hooks = has_subscribers ''before_message_creation'' (hk_message hooks)"

text \<open>
  \<open>add_message\<close> of a prepared message finds its row flushed; any other message it inserts.
\<close>

definition create_message ::
  "'k api_env \<Rightarrow> room_hooks \<Rightarrow> Room \<Rightarrow> RoomMessage \<Rightarrow> uuid option \<Rightarrow> router_state \<Rightarrow>
   (exn + RoomMessage) \<times> router_state" where
  "create_message env hooks r m sender_identity_uuid s =
     (let ctx = \<lparr>mc_room = r, mc_message = m\<lparr>rm_wazo_uuid := ap_wazo_uuid env\<rparr>,
                 mc_sender_identity_uuid = sender_identity_uuid, mc_resolved_sender_identity = None,
                 mc_prepared = False\<rparr>
      in case dispatch_hook ''before_message_creation'' True (hk_message hooks) (ctx, s) of
           (Inl e, _, s1) \<Rightarrow> (Inl e, s1)
         | (Inr _, ctx1, s1) \<Rightarrow>
             (let m1 = (mc_message ctx1)\<lparr>rm_room_uuid := ro_uuid r\<rparr>
              in case (if mc_prepared ctx1 then Inr (sv_db s1)
                       else room_add_message (se_now env) r m1 None (sv_db s1)) of
                   Inl e \<Rightarrow> (Inl e, s1)
                 | Inr db \<Rightarrow> (Inr m1, publish_events (rooms_message_created db r m1) (s1\<lparr>sv_db := db\<rparr>))))"

section \<open>Rooms over HTTP\<close>

record room_body =
  rb_name :: "string option"
  rb_users :: "user_args list"

fun required_uuids :: "user_args list \<Rightarrow> exn + uuid list" where
  "required_uuids [] = Inr []"
| "required_uuids (u # us) =
     (case ua_uuid u of
        None \<Rightarrow> Inl (KeyError ''uuid'')
      | Some x \<Rightarrow> map_sum id (\<lambda>xs. x # xs) (required_uuids us))"

definition new_participant :: "uuid \<Rightarrow> user_args" where
  "new_participant user = \<lparr>ua_uuid = Some user, ua_tenant_uuid = None, ua_wazo_uuid = None, ua_identity = None\<rparr>"

definition room_user :: "user_args \<Rightarrow> RoomUser" where
  "room_user u = \<lparr>ru_uuid = (case ua_uuid u of None \<Rightarrow> [] | Some x \<Rightarrow> x), ru_tenant_uuid = ua_tenant_uuid u,
     ru_wazo_uuid = ua_wazo_uuid u, ru_identity = ua_identity u\<rparr>"

text \<open>
  \<open>validate_participants\<close>: the checks of \<open>post\<close> between the schema and the lookup of an
  existing room.
\<close>

definition validate_participants :: "uuid \<Rightarrow> user_args list \<Rightarrow> exn + user_args list" where
  "validate_participants user us =
     (case required_uuids us of
        Inl e \<Rightarrow> Inl e
      | Inr uuids \<Rightarrow>
          if \<not> distinct uuids then Inl DuplicateUserException
          else let us1 = (if user \<in> set uuids then us else us @ [new_participant user])
               in if length us1 < 2 \<or> length us1 > 100 then Inl ValidationError else Inr us1)"

definition room_post ::
  "'k api_env \<Rightarrow> room_hooks \<Rightarrow> uuid \<Rightarrow> uuid \<Rightarrow> room_body \<Rightarrow> router_state \<Rightarrow> (exn + Room \<times> nat) \<times> router_state" where
  "room_post env hooks tenant user b s =
     and_then (prepare_room_request hooks tenant (rb_users b) s) (\<lambda>raw s1.
       case load_users (ap_parse_uuid env) raw of
         Inl e \<Rightarrow> (Inl e, s1)
       | Inr loaded \<Rightarrow>
           (case validate_participants user loaded of
              Inl e \<Rightarrow> (Inl e, s1)
            | Inr us \<Rightarrow>
                (case list_rooms (Some [tenant]) (Some (map (ru_uuid \<circ> room_user) us)) True (sv_db s1) of
                   r # _ \<Rightarrow> (Inr (r, 201), s1)
                 | [] \<Rightarrow>
                     and_then (room_create (ap_wazo_uuid env) hooks
                        \<lparr>ro_uuid = ap_new_uuid env, ro_name = rb_name b, ro_tenant_uuid = tenant,
                         ro_users = map room_user us\<rparr> s1) (\<lambda>r s2. (Inr (r, 201), s2)))))"

record 'a page =
  pa_items :: "'a list"
  pa_filtered :: nat
  pa_total :: nat

definition rooms_get :: "uuid \<Rightarrow> uuid \<Rightarrow> uuid list \<Rightarrow> database \<Rightarrow> Room page" where
  "rooms_get tenant user user_uuids db =
     (let us = (if user \<in> set user_uuids then user_uuids else user_uuids @ [user]);
          n = count_rooms (Some [tenant]) (Some us) False db
      in \<lparr>pa_items = list_rooms (Some [tenant]) (Some us) False db, pa_filtered = n, pa_total = n\<rparr>)"

section \<open>Messages over HTTP\<close>

definition default_message_filter :: message_filter where
  "default_message_filter = \<lparr>mf_search = None, mf_from_date = None, mf_distinct = False, mf_limit = None,
     mf_offset = None, mf_asc = False\<rparr>"

definition message_post ::
  "'k api_env \<Rightarrow> room_hooks \<Rightarrow> uuid \<Rightarrow> uuid \<Rightarrow> uuid \<Rightarrow> message_body \<Rightarrow> router_state \<Rightarrow>
   (exn + message_dict \<times> nat) \<times> router_state" where
  "message_post env hooks tenant user room_uuid b s =
     (case room_get [tenant] room_uuid (sv_db s) of
        Inl e \<Rightarrow> (Inl e, s)
      | Inr r \<Rightarrow>
          (case load_message (ap_parse_uuid env) b of
             Inl e \<Rightarrow> (Inl e, s)
           | Inr (content, alias, sender) \<Rightarrow>
               and_then (create_message env hooks r
                   \<lparr>rm_uuid = ap_new_uuid env, rm_room_uuid = [], rm_content = Some content,
                    rm_alias = alias, rm_user_uuid = user, rm_tenant_uuid = tenant, rm_wazo_uuid = [],
                    rm_created_at = se_now env\<rparr> sender s)
                 (\<lambda>m s1. (Inr (dump_message (sv_db s1) m,
                     if sender \<noteq> None \<and> has_delivery_pipeline hooks then 202 else 201), s1))))"

definition room_messages_get ::
  "(string list \<Rightarrow> body option \<Rightarrow> bool) \<Rightarrow> uuid \<Rightarrow> uuid \<Rightarrow> uuid \<Rightarrow> message_filter \<Rightarrow> database \<Rightarrow>
   exn + message_dict page" where
  "room_messages_get like tenant user room_uuid f db =
     (case room_get [tenant] room_uuid db of
        Inl e \<Rightarrow> Inl e
      | Inr r \<Rightarrow>
          if user \<notin> ru_uuid ` set (ro_users r) then Inl (UnknownRoomException room_uuid)
          else Inr \<lparr>pa_items = map (dump_message db) (list_messages like (ro_uuid r) (Some user) f db),
                    pa_filtered = count_messages like (ro_uuid r) (Some user) f db,
                    pa_total = count_messages like (ro_uuid r) (Some user) default_message_filter db\<rparr>)"

definition user_messages_get ::
  "(string list \<Rightarrow> body option \<Rightarrow> bool) \<Rightarrow> uuid \<Rightarrow> uuid \<Rightarrow> message_filter \<Rightarrow> database \<Rightarrow>
   exn + message_dict page" where
  "user_messages_get like tenant user f0 db =
     (case load_message_filter f0 of
        Inl e \<Rightarrow> Inl e
      | Inr f \<Rightarrow>
          Inr \<lparr>pa_items = map (dump_message db) (list_user_messages like tenant user f db),
               pa_filtered = count_user_messages like tenant user f db,
               pa_total = count_user_messages like tenant user default_message_filter db\<rparr>)"

section \<open>The hooks of the connectors plugin\<close>

lemma dispatch_single:
  "dispatch_hook n True (register_hook n c []) s =
     (case c s of (Inl e, s') \<Rightarrow> (Inl e, s') | (Inr _, s') \<Rightarrow> (Inr (), s'))"
  by (simp add: dispatch_hook_def register_hook_def split: prod.split sum.split)

lemma connector_pipeline [simp]: "has_delivery_pipeline (connector_hooks env)"
  by (simp add: has_delivery_pipeline_def connector_hooks_def)

lemma room_get_Inr:
  "room_get ts u db = Inr r \<Longrightarrow> r \<in> set (rooms db) \<and> ro_uuid r = u \<and> ro_tenant_uuid r \<in> set ts"
  by (auto simp: room_get_def find_Some_iff split: option.splits)

lemma room_get_keyed:
  assumes "keyed ro_uuid (rooms db)" and "r \<in> set (rooms db)" and "ro_tenant_uuid r \<in> set ts"
  shows "room_get ts (ro_uuid r) db = Inr r"
proof (cases "List.find (\<lambda>x. ro_tenant_uuid x \<in> set ts \<and> ro_uuid x = ro_uuid r) (rooms db)")
  case None
  with assms show ?thesis by (auto simp: find_None_iff)
next
  case (Some x)
  then have "x \<in> set (rooms db)" and "ro_uuid x = ro_uuid r" by (auto simp: find_Some_iff)
  with assms(1,2) have "x = r" by (auto dest: keyed_inj)
  with Some show ?thesis by (simp add: room_get_def)
qed

lemma fresh_message_valid:
  assumes "rm_uuid m \<notin> rm_uuid ` set (room_messages db)" and "rm_room_uuid m \<in> ro_uuid ` set (rooms db)"
  shows "violates_message m None db = None"
  using assms by (simp add: violates_message_def)

lemma fresh_message_no_meta:
  assumes "rm_uuid m \<notin> rm_uuid ` set (room_messages db)" and "chat_ok db"
  shows "meta_of db (rm_uuid m) = None"
  using assms by (auto simp: meta_of_def find_row_None_iff integrity_defs refs_def)

text \<open>
  C32: \<open>POST /users/me/rooms/{uuid}/messages\<close> does not ask whether the user
  of the token is in the room, as \<open>GET\<close> does: any user of the tenant posts into any room
  without external participants. The message is stored under its author, shown to the participants
  and announced to all of them, while the author is told that the room does not exist.
\<close>

theorem outsider_posts_message:
  assumes "chat_ok (sv_db s)" and "room_get [tenant] room_uuid (sv_db s) = Inr r"
    and "user \<notin> ru_uuid ` set (ro_users r)" and "\<forall>u \<in> set (ro_users r). \<not> is_external u"
    and "load_message (ap_parse_uuid env) b = Inr (content, alias, None)"
    and "ap_new_uuid env \<notin> rm_uuid ` set (room_messages (sv_db s))"
  shows "\<exists>m s'. message_post env (connector_hooks env) tenant user room_uuid b s =
       (Inr (dump_message (sv_db s') m, 201), s') \<and>
     room_messages (sv_db s') = room_messages (sv_db s) @ [m] \<and>
     rm_user_uuid m = user \<and> rm_content m = Some content \<and>
     sv_events s' = sv_events s @ map (message_event (sv_db s') r m) (ro_users r) \<and>
     (viewer \<in> ru_uuid ` set (ro_users r) \<longrightarrow>
        m \<in> set (list_messages like room_uuid (Some viewer) default_message_filter (sv_db s'))) \<and>
     room_messages_get like tenant user room_uuid f (sv_db s') = Inl (UnknownRoomException room_uuid)"
proof -
  let ?m = "\<lparr>rm_uuid = ap_new_uuid env, rm_room_uuid = ro_uuid r, rm_content = Some content,
      rm_alias = alias, rm_user_uuid = user, rm_tenant_uuid = tenant, rm_wazo_uuid = ap_wazo_uuid env,
      rm_created_at = se_now env\<rparr>"
  let ?db = "store_message (se_now env) ?m None (sv_db s)"
  let ?s' = "publish_events (rooms_message_created ?db r ?m) (s\<lparr>sv_db := ?db\<rparr>)"
  note room = room_get_Inr [OF assms(2)]
  have "violates_message ?m None (sv_db s) = None"
    using assms(6) room by (intro fresh_message_valid) auto
  then have ins: "room_add_message (se_now env) r ?m None (sv_db s) = Inr ?db"
    by (simp add: room_add_message_def insert_message_def)
  have "create_message env (connector_hooks env) r
      \<lparr>rm_uuid = ap_new_uuid env, rm_room_uuid = [], rm_content = Some content, rm_alias = alias,
       rm_user_uuid = user, rm_tenant_uuid = tenant, rm_wazo_uuid = [], rm_created_at = se_now env\<rparr> None s =
      (Inr ?m, ?s')"
    using assms(4) ins
    by (simp add: create_message_def connector_hooks_def dispatch_single prepare_outbound_def Let_def)
  then have post: "message_post env (connector_hooks env) tenant user room_uuid b s =
      (Inr (dump_message (sv_db ?s') ?m, 201), ?s')"
    using assms(2,5) by (simp add: message_post_def)
  have meta: "meta_of ?db (rm_uuid ?m) = None"
    using fresh_message_no_meta [where m = ?m and db = "sv_db s"] assms(1,6)
    by (simp add: store_message_def meta_of_def)
  have "filter (\<lambda>u. \<not> is_external u) (ro_users r) = ro_users r"
    using assms(4) by simp
  then have "rooms_message_created ?db r ?m = map (message_event ?db r ?m) (ro_users r)"
    using meta by (simp add: rooms_message_created_def)
  moreover have "?m \<in> set (list_messages like room_uuid (Some viewer) default_message_filter ?db)"
    using meta room by (auto simp: list_messages_def paginate_def list_filter_def default_message_filter_def
        room_messages_query_def visible_to_def store_message_fields)
  moreover have "room_messages_get like tenant user room_uuid f ?db = Inl (UnknownRoomException room_uuid)"
    using assms(2,3) by (simp add: room_messages_get_def room_get_def store_message_fields)
  ultimately show ?thesis
    using post by (intro exI [of _ ?m] exI [of _ ?s']) (simp add: publish_events_def store_message_fields)
qed

section \<open>Messages with a sender identity\<close>










section \<open>Rooms with an external participant\<close>

lemma required_uuids_Inr: "required_uuids us = Inr xs \<Longrightarrow> xs = map (ru_uuid \<circ> room_user) us"
  by (induction us arbitrary: xs)
    (auto simp: room_user_def map_sum_def split: option.splits sum.splits)

lemma validate_participants_Inr:
  assumes "validate_participants user us = Inr vs"
  shows "2 \<le> length vs \<and> distinct (map (ru_uuid \<circ> room_user) vs) \<and>
    user \<in> (ru_uuid \<circ> room_user) ` set vs"
proof -
  obtain xs where xs: "required_uuids us = Inr xs" "distinct xs"
    and vs: "vs = (if user \<in> set xs then us else us @ [new_participant user])" and "2 \<le> length vs"
    using assms by (auto simp: validate_participants_def Let_def split: sum.splits if_splits)
  then show ?thesis
    using required_uuids_Inr [OF xs(1)] by (auto simp: room_user_def new_participant_def)
qed

lemma default_values_participants:
  "map ru_uuid (ro_users (set_default_room_values wazo r)) = map ru_uuid (ro_users r)"
  "ro_uuid (set_default_room_values wazo r) = ro_uuid r"
  "ro_tenant_uuid (set_default_room_values wazo r) = ro_tenant_uuid r"
  by (simp_all add: set_default_room_values_def comp_def)

lemma room_created:
  assumes "room_post env (connector_hooks env) tenant user b s = (Inr (r, code), s')"
    and "r \<notin> set (rooms (sv_db s))"
  obtains s2 db where "validate_room_reachability r s = (Inr (), s2)" and "insert_room r (sv_db s2) = Inr db"
    and "s' = publish_events (notify_room_created r) (s2\<lparr>sv_db := db\<rparr>)"
    and "ro_tenant_uuid r = tenant" and "2 \<le> length (ro_users r)"
    and "distinct (map ru_uuid (ro_users r))" and "user \<in> ru_uuid ` set (ro_users r)"
proof -
  let ?raw = "resolve_room_participants env tenant (rb_users b) (sv_db s)"
  have prep: "prepare_room_request (connector_hooks env) tenant (rb_users b) s = (Inr ?raw, s)"
    by (simp add: prepare_room_request_def connector_hooks_def dispatch_single resolve_participants_hook_def)
  obtain loaded us where l: "load_users (ap_parse_uuid env) ?raw = Inr loaded"
    and us: "validate_participants user loaded = Inr us"
    using assms(1) prep by (auto simp: room_post_def split: sum.splits)
  let ?r0 = "\<lparr>ro_uuid = ap_new_uuid env, ro_name = rb_name b, ro_tenant_uuid = tenant, ro_users = map room_user us\<rparr>"
  let ?found = "list_rooms (Some [tenant]) (Some (map (ru_uuid \<circ> room_user) us)) True (sv_db s)"
  have "?found = []"
  proof (rule ccontr)
    assume "?found \<noteq> []"
    then obtain x xs where f: "?found = x # xs" by (cases ?found) auto
    then have "r = x" using assms(1) prep l us by (simp add: room_post_def)
    moreover have "set ?found \<subseteq> set (rooms (sv_db s))"
      by (auto simp: list_rooms_def Let_def split: list.splits)
    then have "x \<in> set (rooms (sv_db s))" by (simp add: f)
    ultimately show False using assms(2) by simp
  qed
  then have c: "room_create (ap_wazo_uuid env) (connector_hooks env) ?r0 s = (Inr r, s')"
    using assms(1) prep l us by (auto simp: room_post_def and_then_Inr)
  let ?r1 = "set_default_room_values (ap_wazo_uuid env) ?r0"
  obtain s2 where v: "validate_room_reachability ?r1 s = (Inr (), s2)"
    using c by (auto simp: room_create_def connector_hooks_def dispatch_single validate_room_hook_def
        split: prod.splits sum.splits)
  then obtain db where db: "insert_room ?r1 (sv_db s2) = Inr db" and r: "r = ?r1"
    and s': "s' = publish_events (notify_room_created ?r1) (s2\<lparr>sv_db := db\<rparr>)"
    using c by (auto simp: room_create_def connector_hooks_def dispatch_single validate_room_hook_def
        split: sum.splits)
  note p = validate_participants_Inr [OF us]
  have users: "map ru_uuid (ro_users r) = map (ru_uuid \<circ> room_user) us"
    by (simp add: r default_values_participants)
  have len: "length (ro_users r) = length us" using arg_cong [OF users, where f = length] by simp
  have dist: "distinct (map ru_uuid (ro_users r))" unfolding users using p by blast
  have "user \<in> set (map ru_uuid (ro_users r))" unfolding users using p by simp
  then have mem: "user \<in> ru_uuid ` set (ro_users r)" by (simp only: set_map)
  have t: "ro_tenant_uuid r = tenant" by (simp add: r default_values_participants)
  show ?thesis
    using that [of s2 db] v [folded r] db [folded r] s' [folded r] t len p dist mem by metis
qed

lemma two_participants:
  assumes "length us = 2" and "filter p us \<noteq> []" and "x \<in> set us" and "\<not> p x"
  obtains y where "filter p us = [y]" and "filter (\<lambda>u. \<not> p u) us = [x]" and "set us = {x, y}"
proof -
  obtain a b where us: "us = [a, b]"
    using assms(1) by (auto simp: numeral_2_eq_2 length_Suc_conv)
  with assms(2-4) show ?thesis by (auto split: if_splits intro: that)
qed

text \<open>
  A room that can be created can be used. When \<open>POST /users/me/rooms\<close> opens a
  room with an external participant no user of the tenant owns the number of, the room has exactly
  the author and that participant, and the identities the author is offered for it are not empty
  (unless an identity of the author is on a backend that is not installed): together with what a
  listed identity does, the author can message the number at once.
\<close>

theorem created_room_offers_identity:
  assumes "registry_good (sv_registry s)" and "chat_ok (sv_db s)"
    and "room_post env (connector_hooks env) tenant user b s = (Inr (r, code), s')"
    and "r \<notin> set (rooms (sv_db s))" and "filter is_external (ro_users r) \<noteq> []"
    and "\<forall>u \<in> set (ro_users r). is_external u \<longrightarrow>
      ru_uuid u \<noteq> user \<and> identity_text u \<notin> list_bound_identities [identity_text u] [tenant] (sv_db s)"
    and "\<forall>i \<in> set (user_identities (sv_db s)).
      ui_user_uuid i = user \<longrightarrow> ui_backend i \<in> set (available_backends (sv_registry s))"
  shows "\<exists>u i listed s''. filter (\<lambda>x. ru_uuid x \<noteq> user) (ro_users r) = [u] \<and> is_external u \<and>
      list_room_identities lenv [tenant] (ro_uuid r) user s' = (Inr listed, s'') \<and> i \<in> set listed \<and>
      chat_ok (sv_db s') \<and> sv_events s' = sv_events s @ notify_room_created r"
proof -
  obtain s2 db where v: "validate_room_reachability r s = (Inr (), s2)" and ins: "insert_room r (sv_db s2) = Inr db"
    and s': "s' = publish_events (notify_room_created r) (s2\<lparr>sv_db := db\<rparr>)"
    and t: "ro_tenant_uuid r = tenant" and len: "2 \<le> length (ro_users r)"
    and dist: "distinct (map ru_uuid (ro_users r))" and mem: "user \<in> ru_uuid ` set (ro_users r)"
    using room_created [OF assms(3,4)] by metis
  have "length (ro_users r) = 2"
    using v len assms(5) by (auto simp: validate_room_reachability_def Let_def split: if_splits)
  moreover obtain me where me: "me \<in> set (ro_users r)" "ru_uuid me = user" "\<not> is_external me"
    using mem assms(6) by auto
  ultimately obtain u where u: "filter is_external (ro_users r) = [u]" and int: "filter (\<lambda>u. \<not> is_external u) (ro_users r) = [me]"
    and us: "set (ro_users r) = {me, u}"
    using assms(5) by (metis two_participants)
  have ext: "is_external u" using u by (metis filter_eq_ConsD)
  then have ne: "ru_uuid u \<noteq> ru_uuid me"
    and unbound: "identity_text u \<notin> list_bound_identities [identity_text u] [ro_tenant_uuid r] (sv_db s)"
    using assms(6) us me t by auto
  have "filter (\<lambda>x. ru_uuid x \<noteq> user) (ro_users r) = filter is_external (ro_users r)"
    using us me ext ne by (intro filter_cong) auto
  then have others: "filter (\<lambda>x. ru_uuid x \<noteq> user) (ro_users r) = [u]" using u by simp
  obtain s3 res where "validate_room_reachability r s = (res, s3)" and m: "memo_step s s3"
    and "res = Inr () \<longleftrightarrow>
      registry_types (sv_registry s) (identity_text u) \<inter> user_types (sv_db s) (ru_uuid me) \<noteq> {}"
    by (rule validate_room_pair [OF assms(1) \<open>length (ro_users r) = 2\<close> u int ne unbound])
  with v have m: "memo_step s s2"
    and common: "registry_types (sv_registry s) (identity_text u) \<inter> user_types (sv_db s) user \<noteq> {}"
    using me(2) by auto
  note frame = memo_frame [OF m]
  have db: "db = (sv_db s)\<lparr>rooms := rooms (sv_db s) @ [r]\<rparr>" and ok: "chat_ok db"
    using ins insert_room_ok [OF ins] assms(2) by (auto simp: insert_room_def frame split: option.splits)
  have good: "registry_good (sv_registry s')" and db': "sv_db s' = db"
    using frame by (simp_all add: s' publish_events_def)
  have get: "room_get [tenant] (ro_uuid r) (sv_db s') = Inr r"
    unfolding db' using ok t by (intro room_get_keyed) (simp_all add: db integrity_defs)
  obtain s4 listed where l: "list_room_identities lenv [tenant] (ro_uuid r) user s' = (Inr listed, s4)"
    and "memo_step s' s4"
    and set: "set listed = {i \<in> set (user_identities (sv_db s')). ui_user_uuid i = user \<and>
           ui_type i \<in> participant_capability [tenant] (sv_db s') (sv_registry s') u \<and>
           ui_backend i \<in> set (available_backends (sv_registry s'))}"
    by (rule list_room_identities_single [OF good get mem others, where env = lenv])
  have cap: "participant_capability [tenant] (sv_db s') (sv_registry s') u =
      registry_types (sv_registry s) (identity_text u)"
    using ext unbound frame t
    by (simp add: participant_capability_def db' db list_bound_identities_def s' publish_events_def)
  obtain i where "i \<in> set (user_identities (sv_db s))" and "ui_user_uuid i = user"
    and "ui_type i \<in> registry_types (sv_registry s) (identity_text u)"
    using common by (auto simp: user_types_def)
  then have "i \<in> set listed"
    unfolding set cap using assms(7) frame by (simp add: db' db s' publish_events_def)
  with others ext l ok db' frame show ?thesis
    by (intro exI [of _ u] exI [of _ i] exI [of _ listed] exI [of _ s4]) (simp add: s' publish_events_def)
qed

section \<open>Witnesses\<close>

lemma hook_registry_good: "registry_good hook_registry"
proof -
  have "registry_ok hook_registry"
    by (simp add: registry_ok_def hook_registry_def sms_registry_def hook_class_def sms_class_def dict_wf_def
        entry_ok_def cache_coherent_def)
  moreover have "only_rejects i e" if "e \<in> set (map snd (rg_backends hook_registry))" for i e
    using that by (auto simp: only_rejects_def hook_registry_def hook_class_def sms_class_def split: list.splits)
  ultimately show ?thesis by (simp add: registry_good_def)
qed

definition plain_room :: Room where
  "plain_room = \<lparr>ro_uuid = ''plain'', ro_name = None, ro_tenant_uuid = ''t'',
     ro_users = [\<lparr>ru_uuid = ''bob'', ru_tenant_uuid = Some ''t'', ru_wazo_uuid = Some ''w'', ru_identity = None\<rparr>,
                 \<lparr>ru_uuid = ''carol'', ru_tenant_uuid = Some ''t'', ru_wazo_uuid = Some ''w'', ru_identity = None\<rparr>]\<rparr>"

definition sample_body :: "string option \<Rightarrow> message_body" where
  "sample_body sender = \<lparr>mb_content = Some [72, 105], mb_alias = None, mb_sender_identity_uuid = sender\<rparr>"


lemma plain_room_ok: "chat_ok (sample_chat\<lparr>rooms := [plain_room]\<rparr>)"
  by (simp add: sample_chat_def plain_room_def empty_db_def integrity_defs room_ok_def participant_key_def keyed_def refs_def refs_opt_def)

lemma load_sample_body:
  "load_message (ap_parse_uuid sample_api) (sample_body sender) = Inr ([72, 105], None, sender)"
  by (simp add: load_message_def sample_api_def sample_body_def load_uuid_def split: option.split)

theorem outsider_posts_message_witness:
  "\<exists>m s'. message_post sample_api (connector_hooks sample_api) ''t'' ''alice'' ''plain'' (sample_body None)
       (sample_router\<lparr>sv_db := sample_chat\<lparr>rooms := [plain_room]\<rparr>\<rparr>) = (Inr (dump_message (sv_db s') m, 201), s') \<and>
     rm_user_uuid m = ''alice'' \<and>
     m \<in> set (list_messages (\<lambda>_ _. True) ''plain'' (Some ''bob'') default_message_filter (sv_db s'))"
proof -
  let ?s = "sample_router\<lparr>sv_db := sample_chat\<lparr>rooms := [plain_room]\<rparr>\<rparr>"
  have get: "room_get [''t''] ''plain'' (sv_db ?s) = Inr plain_room"
    by (simp add: room_get_def plain_room_def)
  have out: "''alice'' \<notin> ru_uuid ` set (ro_users plain_room)"
    and int: "\<forall>u \<in> set (ro_users plain_room). \<not> is_external u"
    and bob: "''bob'' \<in> ru_uuid ` set (ro_users plain_room)"
    by (simp_all add: plain_room_def is_external_def)
  have fresh: "ap_new_uuid sample_api \<notin> rm_uuid ` set (room_messages (sv_db ?s))"
    by (simp add: sample_chat_def empty_db_def)
  have chat: "chat_ok (sv_db ?s)" using plain_room_ok by simp
  show ?thesis
    using outsider_posts_message [OF chat get out int load_sample_body fresh, where viewer = "''bob''" and like = "\<lambda>_ _. True"] bob
    by blast
qed





lemma empty_rooms_ok: "chat_ok (sample_chat\<lparr>rooms := []\<rparr>)"
  by (simp add: sample_chat_def empty_db_def integrity_defs refs_def refs_opt_def)

theorem created_room_offers_identity_witness:
  "\<exists>r code s' u listed s'' i.
     room_post sample_api (connector_hooks sample_api) ''t'' ''alice''
       \<lparr>rb_name = None, rb_users = [(new_participant [])\<lparr>ua_uuid := None, ua_identity := Some ''+1777''\<rparr>]\<rparr>
       (sample_router\<lparr>sv_db := sample_chat\<lparr>rooms := []\<rparr>\<rparr>) = (Inr (r, code), s') \<and>
     filter (\<lambda>x. ru_uuid x \<noteq> ''alice'') (ro_users r) = [u] \<and> ru_identity u = Some ''+1777'' \<and>
     list_room_identities sample_api [''t''] (ro_uuid r) ''alice'' s' = (Inr listed, s'') \<and> i \<in> set listed"
proof -
  let ?s = "sample_router\<lparr>sv_db := sample_chat\<lparr>rooms := []\<rparr>\<rparr>"
  let ?b = "\<lparr>rb_name = None, rb_users = [(new_participant [])\<lparr>ua_uuid := None, ua_identity := Some ''+1777''\<rparr>]\<rparr>"
  let ?me = "\<lparr>ru_uuid = ''alice'', ru_tenant_uuid = Some ''t'', ru_wazo_uuid = Some ''w'', ru_identity = None\<rparr>"
  let ?ext = "\<lparr>ru_uuid = ''ext-+1777'', ru_tenant_uuid = Some ''t'', ru_wazo_uuid = Some ''w'', ru_identity = Some ''+1777''\<rparr>"
  let ?r = "\<lparr>ro_uuid = ''i2'', ro_name = None, ro_tenant_uuid = ''t'', ro_users = [?ext, ?me]\<rparr>"
  have good: "registry_good (sv_registry ?s)" and chat: "chat_ok (sv_db ?s)"
    using hook_registry_good empty_rooms_ok by (simp_all add: sample_router_def)
  have "length (ro_users ?r) = 2" and "filter is_external (ro_users ?r) = [?ext]"
    and "filter (\<lambda>u. \<not> is_external u) (ro_users ?r) = [?me]" and "ru_uuid ?ext \<noteq> ru_uuid ?me"
    and "identity_text ?ext \<notin> list_bound_identities [identity_text ?ext] [ro_tenant_uuid ?r] (sv_db ?s)"
    by (auto simp: is_external_def identity_text_def list_bound_identities_def sample_chat_def)
  then obtain s2 res where v: "validate_room_reachability ?r ?s = (res, s2)" and m: "memo_step ?s s2"
    and res: "res = Inr () \<longleftrightarrow>
      registry_types (sv_registry ?s) (identity_text ?ext) \<inter> user_types (sv_db ?s) (ru_uuid ?me) \<noteq> {}"
    by (rule validate_room_pair [OF good])
  have "''sms'' \<in> registry_types (sv_registry ?s) (identity_text ?ext)"
    by (simp add: identity_text_def registry_types_def accepts_def sample_router_def hook_registry_def
        sms_registry_def hook_class_def sms_class_def)
  moreover have "''sms'' \<in> user_types (sv_db ?s) (ru_uuid ?me)"
    by (auto simp: user_types_def sample_chat_def image_iff)
  ultimately have ok: "res = Inr ()" using res by blast
  have db: "sv_db s2 = sv_db ?s" using memo_frame [OF m] by simp
  have "insert_room ?r (sv_db ?s) = Inr ((sv_db ?s)\<lparr>rooms := [?r]\<rparr>)"
    by (simp add: insert_room_def violates_room_def sample_chat_def empty_db_def keyed_def participant_key_def)
  then have c: "room_create ''w'' (connector_hooks sample_api)
      (?r\<lparr>ro_users := map (\<lambda>u. u\<lparr>ru_tenant_uuid := None, ru_wazo_uuid := None\<rparr>) [?ext, ?me]\<rparr>) ?s =
      (Inr ?r, publish_events (notify_room_created ?r) (s2\<lparr>sv_db := (sv_db ?s)\<lparr>rooms := [?r]\<rparr>\<rparr>))"
    using v ok db by (simp add: room_create_def connector_hooks_def dispatch_single validate_room_hook_def
        set_default_room_values_def)
  have "resolve_room_participants sample_api ''t'' (rb_users ?b) (sv_db ?s) =
      [(new_participant ''ext-+1777'')\<lparr>ua_identity := Some ''+1777''\<rparr>]"
    by (simp add: resolve_room_participants_def resolve_participant_def needs_resolution_def new_participant_def
        sample_api_def sample_chat_def resolve_users_by_identities_def List.map_filter_def
        resolve_rows_def IdentityQueries.dict_of_def)
  then obtain s' where post: "room_post sample_api (connector_hooks sample_api) ''t'' ''alice'' ?b ?s = (Inr (?r, 201), s')"
    using c
    by (simp add: room_post_def prepare_room_request_def connector_hooks_def dispatch_single
        resolve_participants_hook_def load_user_def load_uuid_def sample_api_def new_participant_def
        validate_participants_def room_user_def list_rooms_def sample_chat_def)
  have new: "?r \<notin> set (rooms (sv_db ?s))" by simp
  have ext: "filter is_external (ro_users ?r) \<noteq> []" by (simp add: is_external_def)
  have unbound: "\<forall>u \<in> set (ro_users ?r). is_external u \<longrightarrow>
      ru_uuid u \<noteq> ''alice'' \<and> identity_text u \<notin> list_bound_identities [identity_text u] [''t''] (sv_db ?s)"
    by (auto simp: is_external_def identity_text_def list_bound_identities_def sample_chat_def)
  have installed: "\<forall>i \<in> set (user_identities (sv_db ?s)).
      ui_user_uuid i = ''alice'' \<longrightarrow> ui_backend i \<in> set (available_backends (sv_registry ?s))"
    by (simp add: sample_router_def sample_chat_def hook_registry_def available_backends_def)
  obtain u i listed s'' where "filter (\<lambda>x. ru_uuid x \<noteq> ''alice'') (ro_users ?r) = [u]"
    and "list_room_identities sample_api [''t''] (ro_uuid ?r) ''alice'' s' = (Inr listed, s'')" and "i \<in> set listed"
    using created_room_offers_identity [OF good chat post new ext unbound installed, where lenv = sample_api] by blast
  moreover from this(1) have "ru_identity u = Some ''+1777''" by auto
  ultimately show ?thesis using post by blast
qed

end
