(* ===== verification/TeamsSubscriptions.thy ===== *)
theory TeamsSubscriptions
  imports Errors
begin

text \<open>
  \<open>plugins/teams_presence/subscriptions.py\<close> with the events of \<open>notifier.py\<close> and the
  presence resource of \<open>schemas.py\<close>. A renewer is the coroutine \<open>_run\<close> cut at its awaits: its
  phase names what it waits for, \<open>resume\<close> runs it up to the next await and returns the requests
  and events it emits on the way. Microsoft Graph, wazo-auth and the clock are arguments: an
  \<open>exchange\<close> holds what the service answers, as the code parses it. Times are seconds.
\<close>

definition DEFAULT_EXPIRATION :: real where "DEFAULT_EXPIRATION = 3600"

definition DEFAULT_LEEWAY :: int where "DEFAULT_LEEWAY = 600"

abbreviation CancelledError :: exn where
  "CancelledError \<equiv> OtherException ''CancelledError''"

abbreviation UnboundLocalError :: exn where
  "UnboundLocalError \<equiv> OtherException ''UnboundLocalError''"

text \<open>
  \<open>ValidationError\<close>, and the errors of \<open>json\<close> and \<open>iso8601\<close>, are \<open>ValueError\<close>s.
\<close>

fun is_http_error :: "exn \<Rightarrow> bool" where
  "is_http_error (HTTPError _) = True"
| "is_http_error _ = False"

definition is_value_error :: "exn \<Rightarrow> bool" where
  "is_value_error e \<longleftrightarrow> e = ValidationError \<or> (\<exists>m. e = ValueError m)"

section \<open>Data\<close>

record microsoft_ids =
  ms_tenant_id :: string
  ms_app_id :: string
  ms_user_id :: string

record teams_config =
  tc_domain :: string
  tc_microsoft :: microsoft_ids
  tc_tenant_uuid :: uuid
  tc_token :: string
  tc_user_uuid :: uuid

record remote_subscription =
  su_id :: string
  su_resource :: string
  su_change_type :: string
  su_expiration :: "exn + real"

record presence_resource =
  px_id :: "string option"
  px_activity :: "string option"
  px_availability :: "string option"

record response =
  rs_status :: int
  rs_subscription :: "exn + remote_subscription"
  rs_subscriptions :: "exn + remote_subscription list"
  rs_presence :: "exn + presence_resource"

definition raise_for_status :: "response \<Rightarrow> exn + unit" where
  "raise_for_status r =
     (if 400 \<le> rs_status r \<and> rs_status r < 600 then Inl (HTTPError (Some (rs_status r))) else Inr ())"

section \<open>HTTP with one retry\<close>

type_synonym headers = "(string, string) dict"

record exchange =
  xc_first :: "headers \<Rightarrow> exn + response"
  xc_refresh :: "uuid \<Rightarrow> uuid \<Rightarrow> exn + string"
  xc_second :: "headers \<Rightarrow> exn + response"

record http_helper =
  hh_config :: teams_config
  hh_token :: string

definition new_http_helper :: "teams_config \<Rightarrow> http_helper" where
  "new_http_helper c = \<lparr>hh_config = c, hh_token = tc_token c\<rparr>"

definition http_headers :: "http_helper \<Rightarrow> headers" where
  "http_headers h = [(''Authorization'', ''Bearer '' @ hh_token h), (''Accept'', ''application/json''),
     (''Content-Type'', ''application/json'')]"

definition refresh_token :: "(uuid \<Rightarrow> uuid \<Rightarrow> exn + string) \<Rightarrow> http_helper \<Rightarrow> (exn + unit) \<times> http_helper" where
  "refresh_token ask h =
     (case ask (tc_user_uuid (hh_config h)) (tc_tenant_uuid (hh_config h)) of
        Inl e \<Rightarrow> (if is_http_error e then Inr () else Inl e, h)
      | Inr token \<Rightarrow> (Inr (), h\<lparr>hh_token := token\<rparr>))"

definition execute_with_retry :: "exchange \<Rightarrow> http_helper \<Rightarrow> (exn + response) \<times> http_helper" where
  "execute_with_retry x h =
     (case xc_first x (http_headers h) of
        Inl e \<Rightarrow> (Inl e, h)
      | Inr r \<Rightarrow>
          if rs_status r \<noteq> 401 then (Inr r, h)
          else (case refresh_token (xc_refresh x) h of
                  (Inl e, h1) \<Rightarrow> (Inl e, h1)
                | (Inr _, h1) \<Rightarrow> (xc_second x (http_headers h1), h1)))"

section \<open>The renewer\<close>

datatype phase =
    Starting
  | Creating
  | Finding
  | Announcing
  | Sleeping real
  | Renewing
  | Deleting
  | Unannouncing
  | Ended "exn option"

record SubscriptionRenewer =
  sr_config :: teams_config
  sr_expiration :: "real option"
  sr_id :: "string option"
  sr_http :: http_helper
  sr_phase :: phase
  sr_cancelled :: bool

record subscription_payload =
  sp_change_type :: string
  sp_resource :: string
  sp_notification_url :: string
  sp_expiration :: real
  sp_client_state :: string

datatype teams_request =
    CreateSubscription subscription_payload
  | FindSubscriptions
  | RenewSubscription string real
  | DeleteSubscription string

datatype teams_event = SynchronizationStarted uuid uuid | SynchronizationStopped uuid uuid

datatype teams_action = Send teams_request | Publish teams_event

datatype wakeup = Elapsed | Exchanged exchange | Published "exn + unit"

definition teams_user_id :: "SubscriptionRenewer \<Rightarrow> string" where
  "teams_user_id rw = ms_user_id (tc_microsoft (sr_config rw))"

abbreviation renewer_user :: "SubscriptionRenewer \<Rightarrow> uuid" where
  "renewer_user rw \<equiv> tc_user_uuid (sr_config rw)"

abbreviation renewer_tenant :: "SubscriptionRenewer \<Rightarrow> uuid" where
  "renewer_tenant rw \<equiv> tc_tenant_uuid (sr_config rw)"

text \<open>\<open>start\<close> creates the task; it first runs at the next turn of the loop.\<close>

definition new_renewer :: "teams_config \<Rightarrow> SubscriptionRenewer" where
  "new_renewer c = \<lparr>sr_config = c, sr_expiration = None, sr_id = None, sr_http = new_http_helper c,
     sr_phase = Starting, sr_cancelled = False\<rparr>"

definition running :: "SubscriptionRenewer \<Rightarrow> bool" where
  "running rw \<longleftrightarrow> (\<forall>r. sr_phase rw \<noteq> Ended r)"

definition stop_renewer :: "SubscriptionRenewer \<Rightarrow> SubscriptionRenewer" where
  "stop_renewer rw = (case sr_phase rw of Ended _ \<Rightarrow> rw | _ \<Rightarrow> rw\<lparr>sr_cancelled := True\<rparr>)"

text \<open>\<open>int(...)\<close> truncates towards zero.\<close>

definition to_int :: "real \<Rightarrow> int" where
  "to_int x = (if x < 0 then \<lceil>x\<rceil> else \<lfloor>x\<rfloor>)"

definition remaining_time :: "real \<Rightarrow> SubscriptionRenewer \<Rightarrow> int" where
  "remaining_time now rw = (case sr_expiration rw of None \<Rightarrow> 0 | Some e \<Rightarrow> to_int (e - now))"

definition contains_scheme :: "string \<Rightarrow> bool" where
  "contains_scheme d \<longleftrightarrow> (\<exists>i \<le> length d. take 3 (drop i d) = ''://'')"

definition build_notification_url :: "teams_config \<Rightarrow> string" where
  "build_notification_url c =
     (if contains_scheme (tc_domain c) then tc_domain c else ''https://'' @ tc_domain c) @
     ''/api/chatd/1.0/users/'' @ tc_user_uuid c @ ''/teams/presence''"

definition presence_path :: "SubscriptionRenewer \<Rightarrow> string" where
  "presence_path rw = ''/communications/presences/'' @ teams_user_id rw"

definition create_payload :: "real \<Rightarrow> SubscriptionRenewer \<Rightarrow> subscription_payload" where
  "create_payload now rw =
     \<lparr>sp_change_type = ''updated'', sp_resource = presence_path rw,
      sp_notification_url = build_notification_url (sr_config rw),
      sp_expiration = now + DEFAULT_EXPIRATION, sp_client_state = ''wazo-teams-integration''\<rparr>"

section \<open>The steps of \<open>_run\<close>\<close>

definition finish :: "exn option \<Rightarrow> SubscriptionRenewer \<Rightarrow> SubscriptionRenewer \<times> teams_action list" where
  "finish e rw = (rw\<lparr>sr_phase := Ended e\<rparr>, [])"

definition creation_failed :: "exn \<Rightarrow> SubscriptionRenewer \<Rightarrow> SubscriptionRenewer \<times> teams_action list" where
  "creation_failed e rw = finish (if is_value_error e \<or> is_http_error e then None else Some e) rw"

text \<open>The end of \<open>_create_subscription\<close>: the id is kept even when the date does not parse.\<close>

definition adopt_subscription ::
  "remote_subscription \<Rightarrow> SubscriptionRenewer \<Rightarrow> SubscriptionRenewer \<times> teams_action list" where
  "adopt_subscription su rw =
     (let rw1 = rw\<lparr>sr_id := Some (su_id su)\<rparr>
      in case su_expiration su of
           Inl e \<Rightarrow> creation_failed e rw1
         | Inr x \<Rightarrow> (rw1\<lparr>sr_expiration := Some x, sr_phase := Announcing\<rparr>,
                     [Publish (SynchronizationStarted (renewer_tenant rw) (renewer_user rw))]))"

definition create_replied :: "exn + response \<Rightarrow> SubscriptionRenewer \<Rightarrow> SubscriptionRenewer \<times> teams_action list" where
  "create_replied res rw =
     (case res of
        Inl e \<Rightarrow> creation_failed e rw
      | Inr r \<Rightarrow>
          if rs_status r = 409 then (rw\<lparr>sr_phase := Finding\<rparr>, [Send FindSubscriptions])
          else if rs_status r = 400 then creation_failed UnboundLocalError rw
          else case raise_for_status r of
                 Inl e \<Rightarrow> creation_failed e rw
               | Inr _ \<Rightarrow>
                   (case rs_subscription r of
                      Inl e \<Rightarrow> creation_failed e rw | Inr su \<Rightarrow> adopt_subscription su rw))"

definition find_subscription :: "SubscriptionRenewer \<Rightarrow> remote_subscription list \<Rightarrow> exn + remote_subscription" where
  "find_subscription rw sus =
     (case List.find (\<lambda>su. su_resource su = presence_path rw \<and> su_change_type su = ''updated'') sus of
        None \<Rightarrow> Inl (ValueError ''no compatible subscription'') | Some su \<Rightarrow> Inr su)"

definition find_replied :: "exn + response \<Rightarrow> SubscriptionRenewer \<Rightarrow> SubscriptionRenewer \<times> teams_action list" where
  "find_replied res rw =
     (case res of
        Inl e \<Rightarrow> creation_failed e rw
      | Inr r \<Rightarrow>
          (case raise_for_status r of
             Inl e \<Rightarrow> creation_failed e rw
           | Inr _ \<Rightarrow>
               (case rs_subscriptions r of
                  Inl e \<Rightarrow> creation_failed e rw
                | Inr sus \<Rightarrow>
                    (case find_subscription rw sus of
                       Inl e \<Rightarrow> creation_failed e rw | Inr su \<Rightarrow> adopt_subscription su rw))))"

text \<open>\<open>_renew_subscription\<close> up to its request; a \<open>ValueError\<close> there is not caught.\<close>

definition start_renewing :: "real \<Rightarrow> SubscriptionRenewer \<Rightarrow> SubscriptionRenewer \<times> teams_action list" where
  "start_renewing now rw =
     (if sr_id rw \<in> {None, Some []} then finish (Some (ValueError ''must have a valid subscription to renew'')) rw
      else (rw\<lparr>sr_phase := Renewing\<rparr>,
            [Send (RenewSubscription (the (sr_id rw)) (now + DEFAULT_EXPIRATION))]))"

text \<open>The top of the loop.\<close>

definition begin_turn :: "real \<Rightarrow> SubscriptionRenewer \<Rightarrow> SubscriptionRenewer \<times> teams_action list" where
  "begin_turn now rw =
     (let duration = remaining_time now rw - DEFAULT_LEEWAY
      in if duration > 0 then (rw\<lparr>sr_phase := Sleeping (now + of_int duration)\<rparr>, [])
         else start_renewing now rw)"

definition unannounce :: "SubscriptionRenewer \<Rightarrow> SubscriptionRenewer \<times> teams_action list" where
  "unannounce rw = (rw\<lparr>sr_phase := Unannouncing\<rparr>,
     [Publish (SynchronizationStopped (renewer_tenant rw) (renewer_user rw))])"

text \<open>What follows the loop.\<close>

definition start_deleting :: "SubscriptionRenewer \<Rightarrow> SubscriptionRenewer \<times> teams_action list" where
  "start_deleting rw =
     (if sr_id rw \<in> {None, Some []} then unannounce rw
      else (rw\<lparr>sr_phase := Deleting\<rparr>, [Send (DeleteSubscription (the (sr_id rw)))]))"

definition renewal_failed :: "exn \<Rightarrow> SubscriptionRenewer \<Rightarrow> SubscriptionRenewer \<times> teams_action list" where
  "renewal_failed e rw = (if is_http_error e then start_deleting rw else finish (Some e) rw)"

definition renew_replied ::
  "real \<Rightarrow> exn + response \<Rightarrow> SubscriptionRenewer \<Rightarrow> SubscriptionRenewer \<times> teams_action list" where
  "renew_replied now res rw =
     (case res of
        Inl e \<Rightarrow> renewal_failed e rw
      | Inr r \<Rightarrow>
          (case raise_for_status r of
             Inl e \<Rightarrow> renewal_failed e rw
           | Inr _ \<Rightarrow>
               (case rs_subscription r of
                  Inl e \<Rightarrow> renewal_failed e rw
                | Inr su \<Rightarrow>
                    (case su_expiration su of
                       Inl e \<Rightarrow> renewal_failed e rw
                     | Inr x \<Rightarrow> begin_turn now (rw\<lparr>sr_expiration := Some x\<rparr>)))))"

definition delete_replied :: "exn + response \<Rightarrow> SubscriptionRenewer \<Rightarrow> SubscriptionRenewer \<times> teams_action list" where
  "delete_replied res rw =
     (case (case res of Inl e \<Rightarrow> Inl e | Inr r \<Rightarrow> raise_for_status r) of
        Inl e \<Rightarrow> if is_http_error e then unannounce rw else finish (Some e) rw
      | Inr _ \<Rightarrow> unannounce rw)"

text \<open>
  \<open>CancelledError\<close> is raised at the await: the loop breaks on it, everywhere else it ends the
  task.
\<close>

definition interrupt :: "SubscriptionRenewer \<Rightarrow> SubscriptionRenewer \<times> teams_action list" where
  "interrupt rw0 =
     (let rw = rw0\<lparr>sr_cancelled := False\<rparr>
      in case sr_phase rw of
           Sleeping _ \<Rightarrow> start_deleting rw
         | Renewing \<Rightarrow> start_deleting rw
         | Ended _ \<Rightarrow> (rw, [])
         | _ \<Rightarrow> finish (Some CancelledError) rw)"

definition exchanged ::
  "(exn + response \<Rightarrow> SubscriptionRenewer \<Rightarrow> SubscriptionRenewer \<times> teams_action list) \<Rightarrow>
   exchange \<Rightarrow> SubscriptionRenewer \<Rightarrow> SubscriptionRenewer \<times> teams_action list" where
  "exchanged k x rw = (case execute_with_retry x (sr_http rw) of (res, h) \<Rightarrow> k res (rw\<lparr>sr_http := h\<rparr>))"

text \<open>One resumption; a wake-up the task does not wait for leaves it as it is.\<close>

definition resume :: "real \<Rightarrow> wakeup \<Rightarrow> SubscriptionRenewer \<Rightarrow> SubscriptionRenewer \<times> teams_action list" where
  "resume now w rw =
     (if sr_cancelled rw then interrupt rw
      else case (sr_phase rw, w) of
             (Starting, _) \<Rightarrow> (rw\<lparr>sr_phase := Creating\<rparr>, [Send (CreateSubscription (create_payload now rw))])
           | (Creating, Exchanged x) \<Rightarrow> exchanged create_replied x rw
           | (Finding, Exchanged x) \<Rightarrow> exchanged find_replied x rw
           | (Announcing, Published res) \<Rightarrow>
               (case res of Inl e \<Rightarrow> finish (Some e) rw | Inr _ \<Rightarrow> begin_turn now rw)
           | (Sleeping t, Elapsed) \<Rightarrow> if now < t then (rw, []) else start_renewing now rw
           | (Renewing, Exchanged x) \<Rightarrow> exchanged (renew_replied now) x rw
           | (Deleting, Exchanged x) \<Rightarrow> exchanged delete_replied x rw
           | (Unannouncing, Published res) \<Rightarrow>
               finish (case res of Inl e \<Rightarrow> Some e | Inr _ \<Rightarrow> None) rw
           | _ \<Rightarrow> (rw, []))"

section \<open>The presence of a Teams user\<close>

definition AVAILABILITIES :: "string list" where
  "AVAILABILITIES = [''Available'', ''AvailableIdle'', ''Away'', ''BeRightBack'', ''Busy'', ''BusyIdle'',
     ''DoNotDisturb'', ''Offline'', ''PresenceUnknown'']"

text \<open>\<open>PresenceResourceSchema\<close>: only the availability is used.\<close>

definition load_presence_resource :: "presence_resource \<Rightarrow> exn + string" where
  "load_presence_resource p =
     (case (px_id p, px_availability p) of
        (Some _, Some a) \<Rightarrow> if a \<in> set AVAILABILITIES then Inr a else Inl ValidationError
      | _ \<Rightarrow> Inl ValidationError)"

definition fetch_teams_presence :: "exchange \<Rightarrow> SubscriptionRenewer \<Rightarrow> (exn + string) \<times> SubscriptionRenewer" where
  "fetch_teams_presence x rw =
     (case execute_with_retry x (sr_http rw) of (res, h) \<Rightarrow>
        (case res of
           Inl e \<Rightarrow> Inl e
         | Inr r \<Rightarrow>
             (case raise_for_status r of
                Inl e \<Rightarrow> Inl e
              | Inr _ \<Rightarrow> (case rs_presence r of Inl e \<Rightarrow> Inl e | Inr p \<Rightarrow> load_presence_resource p)),
         rw\<lparr>sr_http := h\<rparr>))"

section \<open>What a resumption keeps\<close>

lemma to_int_bounds: "0 \<le> x \<Longrightarrow> of_int (to_int x) \<le> x \<and> x < of_int (to_int x) + 1"
  by (simp add: to_int_def)

lemma to_int_negative: "x < 0 \<Longrightarrow> to_int x \<le> 0"
  by (simp add: to_int_def ceiling_le_iff)

lemma execute_config: "execute_with_retry x h = (res, h') \<Longrightarrow> hh_config h' = hh_config h"
  by (auto simp: execute_with_retry_def refresh_token_def split: sum.splits if_splits)

lemmas run_defs = finish_def creation_failed_def adopt_subscription_def create_replied_def find_replied_def
  unannounce_def start_deleting_def delete_replied_def Let_def

lemma finish_config [simp]:
  "sr_config (fst (finish e rw)) = sr_config rw"
  "sr_cancelled (fst (finish e rw)) = sr_cancelled rw" "sr_config (fst (creation_failed err rw)) = sr_config rw"
  "sr_cancelled (fst (creation_failed err rw)) = sr_cancelled rw"
  by (simp_all add: finish_def creation_failed_def)

lemma adopt_config [simp]: "sr_config (fst (adopt_subscription su rw)) = sr_config rw"
  "sr_cancelled (fst (adopt_subscription su rw)) = sr_cancelled rw"
  by (simp_all add: adopt_subscription_def Let_def split: sum.split)

lemma create_config [simp]: "sr_config (fst (create_replied res rw)) = sr_config rw"
  "sr_cancelled (fst (create_replied res rw)) = sr_cancelled rw"
  by (simp_all add: create_replied_def split: sum.split)

lemma find_config [simp]: "sr_config (fst (find_replied res rw)) = sr_config rw"
  "sr_cancelled (fst (find_replied res rw)) = sr_cancelled rw"
  by (simp_all add: find_replied_def split: sum.split)

lemma turn_config [simp]:
  "sr_config (fst (start_renewing now rw)) = sr_config rw"
  "sr_cancelled (fst (start_renewing now rw)) = sr_cancelled rw" "sr_config (fst (begin_turn now rw)) = sr_config rw"
  "sr_cancelled (fst (begin_turn now rw)) = sr_cancelled rw"
  by (simp_all add: start_renewing_def begin_turn_def Let_def)

lemma delete_config [simp]:
  "sr_config (fst (unannounce rw)) = sr_config rw"
  "sr_cancelled (fst (unannounce rw)) = sr_cancelled rw" "sr_config (fst (start_deleting rw)) = sr_config rw"
  "sr_cancelled (fst (start_deleting rw)) = sr_cancelled rw"
  "sr_config (fst (renewal_failed e rw)) = sr_config rw"
  "sr_cancelled (fst (renewal_failed e rw)) = sr_cancelled rw" "sr_config (fst (delete_replied res rw)) = sr_config rw"
  "sr_cancelled (fst (delete_replied res rw)) = sr_cancelled rw"
  by (simp_all add: unannounce_def start_deleting_def renewal_failed_def delete_replied_def split: sum.split)

lemma renew_config [simp]: "sr_config (fst (renew_replied now res rw)) = sr_config rw"
  "sr_cancelled (fst (renew_replied now res rw)) = sr_cancelled rw"
  by (simp_all add: renew_replied_def split: sum.split)

lemma interrupt_config [simp]: "sr_config (fst (interrupt rw)) = sr_config rw"
  by (simp add: interrupt_def Let_def split: phase.split)

lemma resume_config [simp]: "sr_config (fst (resume now w rw)) = sr_config rw"
  by (cases "sr_phase rw"; cases w) (simp_all add: resume_def exchanged_def split: sum.split prod.split)

lemma resume_uncancelled: "\<not> sr_cancelled rw \<Longrightarrow> \<not> sr_cancelled (fst (resume now w rw))"
  by (cases "sr_phase rw"; cases w) (simp_all add: resume_def exchanged_def split: sum.split prod.split)

text \<open>
  A renewer that is cancelled or past its loop is retired: it stays so, and all it may still send
  is the removal of its own subscription.
\<close>

definition retired :: "SubscriptionRenewer \<Rightarrow> bool" where
  "retired rw \<longleftrightarrow> sr_cancelled rw \<or> sr_phase rw \<in> {Deleting, Unannouncing} \<union> range Ended"

lemma retired_resume:
  assumes "retired rw"
  shows "retired (fst (resume now w rw))" and "sr_id (fst (resume now w rw)) = sr_id rw"
    and "Send r \<in> set (snd (resume now w rw)) \<Longrightarrow> \<exists>x. sr_id rw = Some x \<and> r = DeleteSubscription x"
proof -
  have "retired (fst (resume now w rw)) \<and> sr_id (fst (resume now w rw)) = sr_id rw \<and>
      (Send r \<in> set (snd (resume now w rw)) \<longrightarrow> (\<exists>x. sr_id rw = Some x \<and> r = DeleteSubscription x))"
  proof (cases "sr_cancelled rw")
    case True
    then show ?thesis
      by (cases "sr_phase rw")
        (auto simp: retired_def resume_def interrupt_def finish_def start_deleting_def unannounce_def Let_def)
  next
    case False
    with assms show ?thesis
      by (cases "sr_phase rw"; cases w)
        (auto simp: retired_def resume_def exchanged_def delete_replied_def finish_def unannounce_def
          split: sum.split prod.split)
  qed
  then show "retired (fst (resume now w rw))" and "sr_id (fst (resume now w rw)) = sr_id rw"
    and "Send r \<in> set (snd (resume now w rw)) \<Longrightarrow> \<exists>x. sr_id rw = Some x \<and> r = DeleteSubscription x"
    by simp_all
qed

lemma retired_stop: "retired (stop_renewer rw)"
  by (auto simp: retired_def stop_renewer_def split: phase.splits)

lemma stop_fields [simp]: "sr_config (stop_renewer rw) = sr_config rw" "sr_id (stop_renewer rw) = sr_id rw"
  by (auto simp: stop_renewer_def split: phase.splits)

section \<open>When a subscription is renewed\<close>

text \<open>A renewer sleeps until the leeway begins, at most a second earlier.\<close>

definition timely :: "SubscriptionRenewer \<Rightarrow> bool" where
  "timely rw \<longleftrightarrow>
     (case sr_phase rw of
        Announcing \<Rightarrow> sr_expiration rw \<noteq> None
      | Sleeping t \<Rightarrow> \<exists>e. sr_expiration rw = Some e \<and> e - 601 < t \<and> t \<le> e - 600
      | _ \<Rightarrow> True)"

definition renewal_due :: "real \<Rightarrow> SubscriptionRenewer \<Rightarrow> bool" where
  "renewal_due now rw \<longleftrightarrow> (\<exists>e. sr_expiration rw = Some e \<and> e - 601 < now)"

definition on_time :: "real \<Rightarrow> SubscriptionRenewer \<times> teams_action list \<Rightarrow> bool" where
  "on_time now p \<longleftrightarrow> timely (fst p) \<and>
     (\<forall>i x. Send (RenewSubscription i x) \<in> set (snd p) \<longrightarrow>
        renewal_due now (fst p) \<and> sr_id (fst p) = Some i \<and> x = now + DEFAULT_EXPIRATION)"

lemmas on_time_defs = on_time_def timely_def renewal_due_def

lemma on_time_finish [simp]: "on_time now (finish e rw)" "on_time now (creation_failed err rw)"
  by (simp_all add: on_time_defs finish_def creation_failed_def)

lemma on_time_create [simp]: "on_time now (create_replied res rw)" "on_time now (find_replied res rw)"
  by (auto simp: create_replied_def find_replied_def adopt_subscription_def Let_def split: sum.split)
    (simp_all add: on_time_defs)

lemma on_time_delete [simp]:
  "on_time now (unannounce rw)" "on_time now (start_deleting rw)" "on_time now (renewal_failed err rw)"
  "on_time now (delete_replied res rw)"
  by (auto simp: start_deleting_def renewal_failed_def delete_replied_def split: sum.split)
    (simp_all add: on_time_defs unannounce_def)

lemma on_time_renewing: "renewal_due now rw \<Longrightarrow> on_time now (start_renewing now rw)"
  by (auto simp: start_renewing_def) (auto simp: on_time_defs)

lemma on_time_turn:
  assumes "sr_expiration rw = Some e"
  shows "on_time now (begin_turn now rw)"
proof (cases "0 < remaining_time now rw - DEFAULT_LEEWAY")
  case True
  then have "0 \<le> e - now"
    using to_int_negative [of "e - now"] assms by (force simp: remaining_time_def DEFAULT_LEEWAY_def)
  with True assms show ?thesis
    using to_int_bounds [of "e - now"]
    by (simp add: begin_turn_def on_time_defs remaining_time_def DEFAULT_LEEWAY_def)
next
  case False
  then have "e - 601 < now"
    using to_int_bounds [of "e - now"] assms
    by (cases "e < now") (force simp: remaining_time_def DEFAULT_LEEWAY_def)+
  then show ?thesis
    using False assms by (simp add: begin_turn_def on_time_renewing renewal_due_def Let_def)
qed

lemma on_time_renew [simp]: "on_time now (renew_replied now res rw)"
  by (auto simp: renew_replied_def on_time_turn split: sum.split)

lemma on_time_interrupt: "on_time now (interrupt rw)"
  by (auto simp: interrupt_def Let_def split: phase.split) (simp add: on_time_defs)

lemma on_time_resume:
  assumes "timely rw"
  shows "on_time now (resume now w rw)"
proof (cases "sr_cancelled rw")
  case True
  then show ?thesis by (simp add: resume_def on_time_interrupt)
next
  case False
  show ?thesis
  proof (cases "sr_phase rw")
    case Announcing
    with assms obtain e where "sr_expiration rw = Some e" by (auto simp: timely_def)
    with Announcing False assms show ?thesis
      by (cases w) (auto simp: resume_def on_time_turn split: sum.split, simp_all add: on_time_def)
  next
    case (Sleeping t)
    with assms obtain e where "sr_expiration rw = Some e" and "e - 601 < t" by (auto simp: timely_def)
    with Sleeping False assms show ?thesis
      by (cases w) (auto simp: resume_def on_time_renewing renewal_due_def, simp_all add: on_time_def)
  qed (use False assms in \<open>cases w; simp add: resume_def exchanged_def split: prod.split;
        simp add: on_time_defs\<close>)+
qed

end
