(* ===== verification/Teams.thy ===== *)
theory Teams
  imports TeamsSubscriptions Presence
begin

text \<open>
  \<open>plugins/teams_presence/services.py\<close>, \<open>bus_consume.py\<close> and \<open>http.py\<close>: the
  renewers of the connected users and the notifications of Microsoft. All tasks run on one event
  loop, so a state of the service is what holds between two awaits and a run is a list of inputs:
  bus messages, answers to \<open>_fetch_configuration\<close>, resumptions of renewers, time. The log
  \<open>ts_actions\<close> of what the renewers sent and published is not a variable of the code.
\<close>

section \<open>Configuration of a user\<close>

text \<open>\<open>_retry_fetch\<close>: the answers of the attempts and the number of them made.\<close>

definition FETCH_RETRIES :: nat where "FETCH_RETRIES = 3"

fun retry_attempts :: "nat \<Rightarrow> (nat \<Rightarrow> exn + 'a) \<Rightarrow> nat \<Rightarrow> exn \<Rightarrow> (exn + 'a) \<times> nat" where
  "retry_attempts 0 ask done err = (Inl err, done)"
| "retry_attempts (Suc left) ask done err =
     (case ask done of
        Inr v \<Rightarrow> (Inr v, Suc done)
      | Inl e \<Rightarrow> if is_http_error e then retry_attempts left ask (Suc done) e else (Inl e, Suc done))"

definition retry_fetch :: "(nat \<Rightarrow> exn + 'a) \<Rightarrow> (exn + 'a) \<times> nat" where
  "retry_fetch ask = retry_attempts (FETCH_RETRIES + 1) ask 0 UnboundLocalError"

fun split_dots :: "string \<Rightarrow> string list" where
  "split_dots [] = [[]]"
| "split_dots (c # s) =
     (if c = CHR ''.'' then [] # split_dots s
      else case split_dots s of [] \<Rightarrow> [[c]] | p # ps \<Rightarrow> (c # p) # ps)"

text \<open>Base64 and JSON are the argument \<open>decode\<close>.\<close>

definition decode_jwt :: "(string \<Rightarrow> exn + (string, string) dict) \<Rightarrow> string \<Rightarrow> exn + microsoft_ids" where
  "decode_jwt decode token =
     (case split_dots token of
        _ # payload # _ \<Rightarrow>
          (case decode (payload @ ''==='') of
             Inl e \<Rightarrow> Inl e
           | Inr d \<Rightarrow>
               (case (dict_get d ''tid'', dict_get d ''appid'', dict_get d ''oid'') of
                  (Some t, Some a, Some u) \<Rightarrow> Inr \<lparr>ms_tenant_id = t, ms_app_id = a, ms_user_id = u\<rparr>
                | _ \<Rightarrow> Inl (KeyError ''tid'')))
      | _ \<Rightarrow> Inl (OtherException ''IndexError''))"

record config_env =
  ce_token :: "uuid \<Rightarrow> uuid \<Rightarrow> nat \<Rightarrow> exn + string"
  ce_domains :: "uuid \<Rightarrow> nat \<Rightarrow> exn + string option list"
  ce_decode :: "string \<Rightarrow> exn + (string, string) dict"

text \<open>When both requests of the \<open>gather\<close> fail the error of the first stands for either.\<close>

definition fetch_configuration :: "config_env \<Rightarrow> uuid \<Rightarrow> database \<Rightarrow> exn + teams_config" where
  "fetch_configuration env user_uuid db =
     (case user_list None [user_uuid] db of
        [] \<Rightarrow> Inl (ValueError ''unable to retrieve user'')
      | u # _ \<Rightarrow>
          let tenant = us_tenant_uuid u
          in case fst (retry_fetch (ce_token env user_uuid tenant)) of
               Inl e \<Rightarrow> Inl e
             | Inr token \<Rightarrow>
                 (case fst (retry_fetch (ce_domains env tenant)) of
                    Inl e \<Rightarrow> Inl e
                  | Inr domains \<Rightarrow>
                      if domains = [] then Inl (ValueError ''no domain configured for this tenant'')
                      else let uris = List.map_filter id domains
                           in if uris = [] then Inl (OtherException ''IndexError'')
                              else map_sum id (\<lambda>ids. \<lparr>tc_domain = last uris, tc_microsoft = ids,
                                     tc_tenant_uuid = tenant, tc_token = token, tc_user_uuid = user_uuid\<rparr>)
                                   (decode_jwt (ce_decode env) token)))"

section \<open>The service\<close>

record teams_state =
  ts_now :: real
  ts_synchronizers :: "(uuid, nat) dict"
  ts_renewers :: "SubscriptionRenewer list"
  ts_connecting :: "uuid list"
  ts_actions :: "(nat \<times> teams_action) list"

definition new_teams :: teams_state where
  "new_teams = \<lparr>ts_now = 0, ts_synchronizers = [], ts_renewers = [], ts_connecting = [], ts_actions = []\<rparr>"

definition service_is_connected :: "uuid \<Rightarrow> teams_state \<Rightarrow> bool" where
  "service_is_connected u s \<longleftrightarrow> u \<in> set (dict_keys (ts_synchronizers s))"

text \<open>\<open>create_subscription\<close> once the configuration is there.\<close>

definition add_renewer :: "teams_config \<Rightarrow> teams_state \<Rightarrow> (exn + unit) \<times> teams_state" where
  "add_renewer c s =
     (if service_is_connected (tc_user_uuid c) s
      then (Inl (ValueError ''user is already being synchronized''), s)
      else (Inr (), s\<lparr>ts_synchronizers := dict_set (tc_user_uuid c) (length (ts_renewers s)) (ts_synchronizers s),
                      ts_renewers := ts_renewers s @ [new_renewer c]\<rparr>))"

definition create_subscription :: "exn + teams_config \<Rightarrow> teams_state \<Rightarrow> (exn + unit) \<times> teams_state" where
  "create_subscription res s =
     (case res of
        Inl e \<Rightarrow> (if is_value_error e \<or> is_http_error e then Inr () else Inl e, s)
      | Inr c \<Rightarrow> add_renewer c s)"

definition delete_subscription :: "uuid \<Rightarrow> teams_state \<Rightarrow> teams_state" where
  "delete_subscription u s =
     (case dict_get (ts_synchronizers s) u of
        None \<Rightarrow> s
      | Some i \<Rightarrow> s\<lparr>ts_synchronizers := dict_pop u (ts_synchronizers s),
                   ts_renewers := (ts_renewers s)[i := stop_renewer (ts_renewers s ! i)]\<rparr>)"

definition resume_task :: "nat \<Rightarrow> wakeup \<Rightarrow> teams_state \<Rightarrow> teams_state" where
  "resume_task i w s =
     (if i < length (ts_renewers s)
      then case resume (ts_now s) w (ts_renewers s ! i) of
             (rw, acts) \<Rightarrow> s\<lparr>ts_renewers := (ts_renewers s)[i := rw], ts_actions := ts_actions s @ map (Pair i) acts\<rparr>
      else s)"

text \<open>
  Inputs: time passes; a user connects (\<open>on_external_auth_added\<close>, one of the users of
  \<open>_initialize\<close>), the configuration of a connecting user is there, a user disconnects
  (\<open>on_external_auth_deleted\<close>), a renewer is resumed. The exceptions of the handlers are logged.
\<close>

datatype teams_input =
    Pass real
  | Connect uuid string
  | Initialize "uuid list"
  | Configured uuid config_env database
  | Disconnect uuid string
  | Wake nat wakeup

definition teams_apply :: "teams_input \<Rightarrow> teams_state \<Rightarrow> teams_state" where
  "teams_apply inp s =
     (case inp of
        Pass d \<Rightarrow> if 0 \<le> d then s\<lparr>ts_now := ts_now s + d\<rparr> else s
      | Connect u auth_name \<Rightarrow>
          if auth_name \<noteq> ''microsoft'' then s else s\<lparr>ts_connecting := ts_connecting s @ [u]\<rparr>
      | Initialize us \<Rightarrow> s\<lparr>ts_connecting := ts_connecting s @ us\<rparr>
      | Configured u env db \<Rightarrow>
          if u \<notin> set (ts_connecting s) then s
          else snd (create_subscription (fetch_configuration env u db) (s\<lparr>ts_connecting := remove1 u (ts_connecting s)\<rparr>))
      | Disconnect u auth_name \<Rightarrow> if auth_name \<noteq> ''microsoft'' then s else delete_subscription u s
      | Wake i w \<Rightarrow> resume_task i w s)"

definition teams_run :: "teams_input list \<Rightarrow> teams_state \<Rightarrow> teams_state" where
  "teams_run inputs s = fold teams_apply inputs s"

section \<open>Notifications of Microsoft\<close>

text \<open>\<open>NotImplemented\<close> is \<open>None\<close>.\<close>

definition PRESENCES_MAP :: "(string, user_state option) dict" where
  "PRESENCES_MAP =
     [(''Available'', Some UserAvailable), (''AvailableIdle'', Some UserAvailable), (''Away'', Some UserAway),
      (''BeRightBack'', Some UserAway), (''Busy'', Some UserUnavailable), (''BusyIdle'', Some UserUnavailable),
      (''DoNotDisturb'', Some UserUnavailable), (''Offline'', None), (''PresenceUnknown'', None)]"

record notification_state =
  nt_teams :: teams_state
  nt_db :: database
  nt_events :: "presence_event list"
  nt_dnd :: "(uuid \<times> bool) list"

definition synchronizers :: "teams_state \<Rightarrow> SubscriptionRenewer list" where
  "synchronizers s = map (\<lambda>(_, i). ts_renewers s ! i) (ts_synchronizers s)"

definition find_synchronizer :: "string \<Rightarrow> teams_state \<Rightarrow> nat option" where
  "find_synchronizer teams_id s =
     map_option snd (List.find (\<lambda>(_, i). teams_user_id (ts_renewers s ! i) = teams_id) (ts_synchronizers s))"

definition user_uuid_from_teams :: "string \<Rightarrow> teams_state \<Rightarrow> uuid option" where
  "user_uuid_from_teams teams_id s =
     map_option (\<lambda>i. renewer_user (ts_renewers s ! i)) (find_synchronizer teams_id s)"

definition service_fetch_presence ::
  "(nat \<Rightarrow> exchange) \<Rightarrow> string \<Rightarrow> teams_state \<Rightarrow> (exn + user_state option) \<times> teams_state" where
  "service_fetch_presence ask teams_id s =
     (case find_synchronizer teams_id s of
        None \<Rightarrow> (Inr None, s)
      | Some i \<Rightarrow>
          (case fetch_teams_presence (ask i) (ts_renewers s ! i) of
             (res, rw) \<Rightarrow>
               (case res of
                  Inl e \<Rightarrow> if is_value_error e then Inr None else Inl e
                | Inr availability \<Rightarrow> Inr (case dict_get PRESENCES_MAP availability of None \<Rightarrow> None | Some st \<Rightarrow> st),
                s\<lparr>ts_renewers := (ts_renewers s)[i := rw]\<rparr>)))"

text \<open>The update of the \<open>dnd\<close> service in wazo-confd is scheduled: \<open>nt_dnd\<close>.\<close>

definition update_presence ::
  "int \<Rightarrow> user_state \<Rightarrow> uuid \<Rightarrow> notification_state \<Rightarrow> (exn + unit) \<times> notification_state" where
  "update_presence now state user_uuid s =
     (case dict_get (ts_synchronizers (nt_teams s)) user_uuid of
        None \<Rightarrow> (Inl (KeyError user_uuid), s)
      | Some i \<Rightarrow>
          (case user_get [renewer_tenant (ts_renewers (nt_teams s) ! i)] user_uuid (nt_db s) of
             Inl e \<Rightarrow> (Inl e, s)
           | Inr u \<Rightarrow>
               let dnd = (state = UserUnavailable);
                   (events, db) = presence_update now (u\<lparr>us_state := state, us_do_not_disturb := dnd\<rparr>) (nt_db s)
               in (Inr (), s\<lparr>nt_db := db, nt_events := nt_events s @ events, nt_dnd := nt_dnd s @ [(user_uuid, dnd)]\<rparr>)))"

text \<open>\<open>_update_confd_dnd\<close>: what it sends when the service answers \<open>enabled\<close>.\<close>

definition update_confd_dnd :: "exn + bool \<Rightarrow> bool \<Rightarrow> exn + bool option" where
  "update_confd_dnd answer state =
     map_sum id (\<lambda>enabled. if enabled \<noteq> state then Some state else None) answer"

fun apply_notifications ::
  "(nat \<Rightarrow> nat \<Rightarrow> exchange) \<Rightarrow> int \<Rightarrow> string list \<Rightarrow> notification_state \<Rightarrow> (exn + unit) \<times> notification_state" where
  "apply_notifications ask now [] s = (Inr (), s)"
| "apply_notifications ask now (teams_id # rest) s =
     (let user = user_uuid_from_teams teams_id (nt_teams s)
      in case service_fetch_presence (ask (length rest)) teams_id (nt_teams s) of
           (Inl e, t) \<Rightarrow> (Inl e, s\<lparr>nt_teams := t\<rparr>)
         | (Inr None, t) \<Rightarrow> apply_notifications ask now rest (s\<lparr>nt_teams := t\<rparr>)
         | (Inr (Some state), t) \<Rightarrow>
             (case user of
                None \<Rightarrow> (Inl (KeyError ''None''), s\<lparr>nt_teams := t\<rparr>)
              | Some u \<Rightarrow>
                  (case update_presence now state u (s\<lparr>nt_teams := t\<rparr>) of
                     (Inl e, s1) \<Rightarrow> (Inl e, s1)
                   | (Inr _, s1) \<Rightarrow> apply_notifications ask now rest s1)))"

text \<open>
  \<open>POST /users/{uuid}/teams/presence\<close>: the body of the answer and its status. The request body
  is the list of the \<open>resourceData\<close> ids, or the error of the schema.
\<close>

definition teams_post ::
  "(nat \<Rightarrow> nat \<Rightarrow> exchange) \<Rightarrow> int \<Rightarrow> uuid \<Rightarrow> string option \<Rightarrow> exn + string list \<Rightarrow> notification_state \<Rightarrow>
   (exn + string \<times> nat) \<times> notification_state" where
  "teams_post ask now user_uuid validation_token body s =
     (if \<not> service_is_connected user_uuid (nt_teams s) then (Inr ([], 404), s)
      else if validation_token \<notin> {None, Some []} then (Inr (the validation_token, 200), s)
      else case body of
             Inl e \<Rightarrow> (Inl e, s)
           | Inr ids \<Rightarrow>
               (case apply_notifications ask now ids s of
                  (Inl e, s1) \<Rightarrow> (Inl e, s1) | (Inr _, s1) \<Rightarrow> (Inr ([], 200), s1)))"

lemma retry_fetch_first: "ask 0 = Inr v \<Longrightarrow> retry_fetch ask = (Inr v, 1)"
  by (simp add: retry_fetch_def FETCH_RETRIES_def numeral_eq_Suc)

lemma retry_attempts_bound: "snd (retry_attempts n ask k e) \<le> n + k"
  by (induction n ask k e rule: retry_attempts.induct) (auto split: sum.split)

text \<open>Four attempts at most, and an HTTP error every time is the error of the last attempt.\<close>

lemma retry_fetch_bound:
  "snd (retry_fetch ask) \<le> 4"
  "(\<And>k. ask k = Inl (HTTPError (status k))) \<Longrightarrow> retry_fetch ask = (Inl (HTTPError (status 3)), 4)"
  using retry_attempts_bound [of 4 ask 0] by (simp_all add: retry_fetch_def FETCH_RETRIES_def numeral_eq_Suc)

section \<open>Every connected user has one renewer\<close>

definition teams_ok :: "teams_state \<Rightarrow> bool" where
  "teams_ok s \<longleftrightarrow> dict_wf (ts_synchronizers s) \<and>
     (\<forall>(u, i) \<in> set (ts_synchronizers s). i < length (ts_renewers s) \<and>
        renewer_user (ts_renewers s ! i) = u \<and> \<not> sr_cancelled (ts_renewers s ! i)) \<and>
     (\<forall>i < length (ts_renewers s). i \<notin> snd ` set (ts_synchronizers s) \<longrightarrow> retired (ts_renewers s ! i)) \<and>
     (\<forall>i < length (ts_renewers s). timely (ts_renewers s ! i)) \<and>
     (\<forall>(i, a) \<in> set (ts_actions s). i < length (ts_renewers s))"

inductive teams_step :: "teams_state \<Rightarrow> teams_state \<Rightarrow> bool" where
  teams_input: "teams_step s (teams_apply inp s)"

lemma teams_run_reaches: "reaches teams_step s (teams_run inputs s)"
proof (induction inputs rule: rev_induct)
  case Nil
  then show ?case by (simp add: teams_run_def reaches_refl)
next
  case (snoc inp inputs)
  then show ?case
    using reaches_step [OF snoc teams_input, of inp] by (simp add: teams_run_def)
qed

lemma configured_user: "fetch_configuration env u db = Inr c \<Longrightarrow> tc_user_uuid c = u"
  by (auto simp: fetch_configuration_def Let_def map_sum_def split: list.splits sum.splits if_splits)

lemma timely_stop: "timely rw \<Longrightarrow> timely (stop_renewer rw)"
  by (auto simp: timely_def stop_renewer_def split: phase.splits)

lemma timely_new [simp]: "timely (new_renewer c)" "\<not> sr_cancelled (new_renewer c)"
  "renewer_user (new_renewer c) = tc_user_uuid c"
  by (simp_all add: timely_def new_renewer_def)

lemma teams_ok_fields:
  "teams_ok (s\<lparr>ts_connecting := us\<rparr>) \<longleftrightarrow> teams_ok s" "teams_ok (s\<lparr>ts_now := t\<rparr>) \<longleftrightarrow> teams_ok s"
  by (simp_all add: teams_ok_def)

lemma add_renewer_ok:
  assumes "teams_ok s"
  shows "teams_ok (snd (add_renewer c s))"
proof (cases "service_is_connected (tc_user_uuid c) s")
  case True
  with assms show ?thesis by (simp add: add_renewer_def)
next
  case False
  then have none: "dict_get (ts_synchronizers s) (tc_user_uuid c) = None"
    by (simp add: service_is_connected_def dict_mem_keys [symmetric] map_of_eq_None_iff)
  let ?d = "dict_set (tc_user_uuid c) (length (ts_renewers s)) (ts_synchronizers s)"
  have d: "set ?d = insert (tc_user_uuid c, length (ts_renewers s)) (set (ts_synchronizers s))"
    using False by (auto simp: service_is_connected_def dict_set_new)
  show ?thesis
    using assms False unfolding teams_ok_def
    by (auto simp: add_renewer_def d nth_append less_Suc_eq)
qed

lemma nth_update_at: "i < length xs \<Longrightarrow> xs[j := v] ! i = (if i = j then v else xs ! i)"
  by (cases "i = j") simp_all

lemma resume_task_ok:
  assumes "teams_ok s"
  shows "teams_ok (resume_task i w s)"
proof (cases "i < length (ts_renewers s)")
  case True
  let ?rw = "ts_renewers s ! i"
  obtain rw acts where r: "resume (ts_now s) w ?rw = (rw, acts)" by fastforce
  have "sr_config rw = sr_config ?rw" and "retired ?rw \<Longrightarrow> retired rw" and "timely rw"
    and "\<not> sr_cancelled ?rw \<Longrightarrow> \<not> sr_cancelled rw"
    using resume_config [of "ts_now s" w ?rw] retired_resume(1) [of ?rw "ts_now s" w]
      on_time_resume [of ?rw "ts_now s" w] resume_uncancelled [of ?rw "ts_now s" w] assms True r
    by (auto simp: teams_ok_def on_time_def)
  then have new: "renewer_user ((ts_renewers s)[i := rw] ! j) = renewer_user (ts_renewers s ! j) \<and>
      (retired (ts_renewers s ! j) \<longrightarrow> retired ((ts_renewers s)[i := rw] ! j)) \<and>
      (timely (ts_renewers s ! j) \<longrightarrow> timely ((ts_renewers s)[i := rw] ! j)) \<and>
      (\<not> sr_cancelled (ts_renewers s ! j) \<longrightarrow> \<not> sr_cancelled ((ts_renewers s)[i := rw] ! j))"
    if "j < length (ts_renewers s)" for j
    using that by (simp add: nth_update_at)
  have "resume_task i w s = s\<lparr>ts_renewers := (ts_renewers s)[i := rw], ts_actions := ts_actions s @ map (Pair i) acts\<rparr>"
    using True by (simp add: resume_task_def r)
  then show ?thesis
    using assms True new unfolding teams_ok_def by auto
qed (use assms in \<open>simp add: resume_task_def\<close>)

lemma delete_subscription_ok:
  assumes "teams_ok s"
  shows "teams_ok (delete_subscription u s)"
proof (cases "dict_get (ts_synchronizers s) u")
  case None
  with assms show ?thesis by (simp add: delete_subscription_def)
next
  case (Some i)
  have wf: "dict_wf (ts_synchronizers s)" using assms by (simp add: teams_ok_def)
  have i: "(u, i) \<in> set (ts_synchronizers s)" using Some by (rule map_of_SomeD)
  have d: "set (dict_pop u (ts_synchronizers s)) = {p \<in> set (ts_synchronizers s). fst p \<noteq> u}"
    by (auto simp: AList.delete_eq)
  have reg: "renewer_user (ts_renewers s ! j) = v" if "(v, j) \<in> set (ts_synchronizers s)" for v j
    using that assms by (auto simp: teams_ok_def)
  have other: "j \<noteq> i" if "(v, j) \<in> set (ts_synchronizers s)" "v \<noteq> u" for v j
    using reg [OF that(1)] reg [OF i] that(2) by auto
  have gone: "k \<in> snd ` set (dict_pop u (ts_synchronizers s))"
    if "k \<in> snd ` set (ts_synchronizers s)" "k \<noteq> i" for k
    using that wf i dict_items_iff [OF wf] by (fastforce simp: d)
  have ret: "retired (ts_renewers s ! k)"
    if "k < length (ts_renewers s)" "k \<notin> snd ` {p \<in> set (ts_synchronizers s). fst p \<noteq> u}" "k \<noteq> i" for k
    using that gone [of k] assms unfolding teams_ok_def d by blast
  show ?thesis
    using assms other ret unfolding teams_ok_def
    by (auto simp: delete_subscription_def Some nth_update_at d retired_stop timely_stop dict_wf_pop)
qed

lemma teams_apply_ok:
  assumes "teams_ok s"
  shows "teams_ok (teams_apply inp s)"
  using assms add_renewer_ok resume_task_ok delete_subscription_ok
  by (cases inp) (auto simp: teams_apply_def teams_ok_fields create_subscription_def split: sum.split)

interpretation teams: invariant_system teams_step teams_ok
  by unfold_locales (auto elim: teams_step.cases intro: teams_apply_ok)

lemma new_teams_ok: "teams_ok new_teams"
  by (simp add: teams_ok_def new_teams_def dict_wf_def)

lemma teams_run_ok: "teams_ok (teams_run inputs new_teams)"
  by (rule teams.reaches_inv [OF teams_run_reaches new_teams_ok])

lemma teams_run_simps [simp]: "teams_run [] s = s" "teams_run (inp # inputs) s = teams_run inputs (teams_apply inp s)"
  by (simp_all add: teams_run_def)

section \<open>A disconnected user\<close>

lemma add_renewer_frame:
  assumes "i < length (ts_renewers s)"
  shows "i < length (ts_renewers (snd (add_renewer c s)))"
    and "ts_renewers (snd (add_renewer c s)) ! i = ts_renewers s ! i"
    and "ts_actions (snd (add_renewer c s)) = ts_actions s"
    and "i \<notin> snd ` set (ts_synchronizers s) \<Longrightarrow> i \<notin> snd ` set (ts_synchronizers (snd (add_renewer c s)))"
  using assms by (auto simp: add_renewer_def nth_append service_is_connected_def dict_set_new)

lemma apply_unregistered:
  assumes "teams_ok s" and "i < length (ts_renewers s)" and "i \<notin> snd ` set (ts_synchronizers s)"
  shows "i < length (ts_renewers (teams_apply inp s)) \<and> i \<notin> snd ` set (ts_synchronizers (teams_apply inp s)) \<and>
    sr_id (ts_renewers (teams_apply inp s) ! i) = sr_id (ts_renewers s ! i) \<and>
    (\<exists>acts. ts_actions (teams_apply inp s) = ts_actions s @ acts \<and>
       (\<forall>r. (i, Send r) \<in> set acts \<longrightarrow> (\<exists>x. sr_id (ts_renewers s ! i) = Some x \<and> r = DeleteSubscription x)))"
proof (cases inp)
  case (Configured u env db)
  then show ?thesis
    using add_renewer_frame [of i "s\<lparr>ts_connecting := remove1 u (ts_connecting s)\<rparr>"] assms
    by (auto simp: teams_apply_def create_subscription_def split: sum.split)
next
  case (Disconnect u a)
  have "dict_pop u d = filter (\<lambda>p. fst p \<noteq> u) d" for d :: "(uuid, nat) dict"
    by (auto simp: AList.delete_eq intro: filter_cong)
  then show ?thesis
    using assms Disconnect
    by (auto simp: teams_apply_def delete_subscription_def nth_update_at split: option.split)
next
  case (Wake j w)
  have "retired (ts_renewers s ! i)" using assms by (simp add: teams_ok_def)
  note r = retired_resume [OF this, where now = "ts_now s" and w = w]
  show ?thesis
    using assms Wake r(2,3)
    by (cases "j < length (ts_renewers s)"; cases "j = i")
      (auto simp: teams_apply_def resume_task_def split: prod.split)
qed (use assms in \<open>simp_all add: teams_apply_def\<close>)

lemma run_unregistered:
  assumes "teams_ok s" and "i < length (ts_renewers s)" and "i \<notin> snd ` set (ts_synchronizers s)"
  shows "i \<notin> snd ` set (ts_synchronizers (teams_run inputs s)) \<and>
    (\<exists>acts. ts_actions (teams_run inputs s) = ts_actions s @ acts \<and>
       (\<forall>r. (i, Send r) \<in> set acts \<longrightarrow> (\<exists>x. sr_id (ts_renewers s ! i) = Some x \<and> r = DeleteSubscription x)))"
  using assms
proof (induction inputs arbitrary: s)
  case (Cons inp inputs)
  from apply_unregistered [OF Cons.prems, of inp] obtain acts where
    step: "i < length (ts_renewers (teams_apply inp s))" "i \<notin> snd ` set (ts_synchronizers (teams_apply inp s))"
    "sr_id (ts_renewers (teams_apply inp s) ! i) = sr_id (ts_renewers s ! i)"
    and acts: "ts_actions (teams_apply inp s) = ts_actions s @ acts"
    "\<forall>r. (i, Send r) \<in> set acts \<longrightarrow> (\<exists>x. sr_id (ts_renewers s ! i) = Some x \<and> r = DeleteSubscription x)"
    by blast
  from Cons.IH [OF teams_apply_ok [OF Cons.prems(1)] step(1,2)] step(3) obtain more where
    "i \<notin> snd ` set (ts_synchronizers (teams_run inputs (teams_apply inp s)))"
    "ts_actions (teams_run inputs (teams_apply inp s)) = ts_actions (teams_apply inp s) @ more"
    "\<forall>r. (i, Send r) \<in> set more \<longrightarrow> (\<exists>x. sr_id (ts_renewers s ! i) = Some x \<and> r = DeleteSubscription x)"
    by auto
  then show ?case using acts by (auto intro!: exI [of _ "acts @ more"])
qed simp

text \<open>
  C33: whatever happens, in whatever order, a user has at most one renewer that is not retired, and
  it is the one registered for the user. Once a renewer is no longer registered, because its user
  disconnected, it never creates, looks for or renews a subscription again: the one request it may
  still send is the removal of the subscription it held.
\<close>

theorem one_renewer_per_user:
  assumes "s = teams_run before new_teams" and "t = teams_run inputs s" and "i < length (ts_renewers s)"
  shows "(\<not> retired (ts_renewers s ! i) \<longrightarrow>
       dict_get (ts_synchronizers s) (renewer_user (ts_renewers s ! i)) = Some i) \<and>
    (i \<notin> snd ` set (ts_synchronizers s) \<longrightarrow>
       i \<notin> snd ` set (ts_synchronizers t) \<and>
       (\<exists>acts. ts_actions t = ts_actions s @ acts \<and>
          (\<forall>r. (i, Send r) \<in> set acts \<longrightarrow>
             (\<exists>x. sr_id (ts_renewers s ! i) = Some x \<and> r = DeleteSubscription x))))"
proof -
  have ok: "teams_ok s" using teams_run_ok assms(1) by simp
  have "dict_get (ts_synchronizers s) (renewer_user (ts_renewers s ! i)) = Some i" if "\<not> retired (ts_renewers s ! i)"
  proof -
    have "i \<in> snd ` set (ts_synchronizers s)" using ok that assms(3) by (auto simp: teams_ok_def)
    then obtain u where "(u, i) \<in> set (ts_synchronizers s)" by auto
    moreover from this have "renewer_user (ts_renewers s ! i) = u" using ok by (auto simp: teams_ok_def)
    moreover have "dict_wf (ts_synchronizers s)" using ok by (simp add: teams_ok_def)
    ultimately show ?thesis using dict_items_iff by fastforce
  qed
  with run_unregistered [OF ok assms(3)] assms(2) show ?thesis by blast
qed

section \<open>Renewals\<close>

text \<open>
  C34: the renewal of a subscription is asked for before it expires and not much too early.
  A renewer sleeps until the last ten minutes of its subscription, waking up at most a second
  earlier; when it is woken after that time it asks for one more hour from then on; and whenever a
  renewal is sent, at most 601 seconds of the subscription are left and it is for the id the
  renewer holds.
\<close>

theorem renewals_on_time:
  assumes "s = teams_run before new_teams" and "i < length (ts_renewers s)"
  shows "(\<forall>w. sr_phase (ts_renewers s ! i) = Sleeping w \<longrightarrow>
       (\<exists>e. sr_expiration (ts_renewers s ! i) = Some e \<and> e - 601 < w \<and> w \<le> e - 600) \<and>
       (w \<le> ts_now s \<and> \<not> sr_cancelled (ts_renewers s ! i) \<and> sr_id (ts_renewers s ! i) = Some (c # x) \<longrightarrow>
          ts_actions (teams_apply (Wake i Elapsed) s) =
            ts_actions s @ [(i, Send (RenewSubscription (c # x) (ts_now s + 3600)))])) \<and>
    (\<forall>inp acts y z. ts_actions (teams_apply inp s) = ts_actions s @ acts \<and>
       (i, Send (RenewSubscription y z)) \<in> set acts \<longrightarrow>
         z = ts_now s + 3600 \<and> sr_id (ts_renewers (teams_apply inp s) ! i) = Some y \<and>
         (\<exists>e. sr_expiration (ts_renewers (teams_apply inp s) ! i) = Some e \<and> e - 601 < ts_now s))"
proof (intro conjI allI impI)
  have ok: "teams_ok s" using teams_run_ok assms(1) by simp
  then have time: "timely (ts_renewers s ! i)" using assms(2) by (simp add: teams_ok_def)
  fix w assume w: "sr_phase (ts_renewers s ! i) = Sleeping w"
  with time show "\<exists>e. sr_expiration (ts_renewers s ! i) = Some e \<and> e - 601 < w \<and> w \<le> e - 600"
    by (simp add: timely_def)
  assume "w \<le> ts_now s \<and> \<not> sr_cancelled (ts_renewers s ! i) \<and> sr_id (ts_renewers s ! i) = Some (c # x)"
  with w assms(2) show "ts_actions (teams_apply (Wake i Elapsed) s) =
      ts_actions s @ [(i, Send (RenewSubscription (c # x) (ts_now s + 3600)))]"
    by (simp add: teams_apply_def resume_task_def resume_def start_renewing_def DEFAULT_EXPIRATION_def)
next
  fix inp acts y z
  assume a: "ts_actions (teams_apply inp s) = ts_actions s @ acts \<and> (i, Send (RenewSubscription y z)) \<in> set acts"
  have "timely (ts_renewers s ! i)" using teams_run_ok [of before] assms by (simp add: teams_ok_def)
  then have on: "on_time (ts_now s) (resume (ts_now s) w (ts_renewers s ! i))" for w by (rule on_time_resume)
  obtain w where w: "inp = Wake i w" "Send (RenewSubscription y z) \<in> set (snd (resume (ts_now s) w (ts_renewers s ! i)))"
  proof (cases inp)
    case (Wake j w)
    with a assms(2) show ?thesis
      by (intro that [of w]) (auto simp: teams_apply_def resume_task_def split: if_splits prod.splits)
  qed (use a in \<open>auto simp: teams_apply_def delete_subscription_def create_subscription_def add_renewer_def
      split: if_splits option.splits sum.splits\<close>)
  then have "ts_renewers (teams_apply inp s) ! i = fst (resume (ts_now s) w (ts_renewers s ! i))"
    using assms(2) by (simp add: teams_apply_def resume_task_def split: prod.split)
  with on [of w] w(2) show "z = ts_now s + 3600" and "sr_id (ts_renewers (teams_apply inp s) ! i) = Some y"
    and "\<exists>e. sr_expiration (ts_renewers (teams_apply inp s) ! i) = Some e \<and> e - 601 < ts_now s"
    by (auto simp: on_time_def renewal_due_def DEFAULT_EXPIRATION_def)
qed

section \<open>A renewer that ended\<close>

lemma resume_ended:
  "sr_phase rw = Ended r \<Longrightarrow> \<not> sr_cancelled rw \<Longrightarrow> resume now w rw = (rw, [])"
  by (cases w) (simp_all add: resume_def)

lemma registered:
  assumes "teams_ok s" and "dict_get (ts_synchronizers s) u = Some i"
  shows "i < length (ts_renewers s) \<and> renewer_user (ts_renewers s ! i) = u \<and> \<not> sr_cancelled (ts_renewers s ! i)"
proof -
  have "\<forall>(u, i) \<in> set (ts_synchronizers s). i < length (ts_renewers s) \<and>
      renewer_user (ts_renewers s ! i) = u \<and> \<not> sr_cancelled (ts_renewers s ! i)"
    using assms(1) by (simp add: teams_ok_def)
  from bspec [OF this map_of_SomeD [OF assms(2)]] show ?thesis by simp
qed

lemma dict_get_mem: "dict_get d k = Some v \<Longrightarrow> k \<in> fst ` set d"
  by (drule map_of_SomeD) force

lemma ended_stays:
  assumes "teams_ok s" and "dict_get (ts_synchronizers s) u = Some i" and "sr_phase (ts_renewers s ! i) = Ended r"
    and "Disconnect u ''microsoft'' \<notin> set inputs"
  shows "dict_get (ts_synchronizers (teams_run inputs s)) u = Some i \<and>
    sr_phase (ts_renewers (teams_run inputs s) ! i) = Ended r \<and>
    filter (\<lambda>p. fst p = i) (ts_actions (teams_run inputs s)) = filter (\<lambda>p. fst p = i) (ts_actions s)"
  using assms
proof (induction inputs arbitrary: s)
  case (Cons inp inputs)
  have i: "i < length (ts_renewers s)" and c: "\<not> sr_cancelled (ts_renewers s ! i)"
    using registered [OF Cons.prems(1,2)] by simp_all
  have "dict_get (ts_synchronizers (teams_apply inp s)) u = Some i \<and>
      sr_phase (ts_renewers (teams_apply inp s) ! i) = Ended r \<and>
      filter (\<lambda>p. fst p = i) (ts_actions (teams_apply inp s)) = filter (\<lambda>p. fst p = i) (ts_actions s)"
  proof (cases inp)
    case (Configured v env db)
    then show ?thesis
      using Cons.prems(2,3) i
      by (auto simp: teams_apply_def create_subscription_def add_renewer_def nth_append service_is_connected_def
          dest: dict_get_mem split: sum.split)
  next
    case (Disconnect v a)
    with Cons.prems(4) have v: "a = ''microsoft'' \<Longrightarrow> v \<noteq> u" by auto
    then show ?thesis
      using Cons.prems(2,3) Disconnect i registered [OF Cons.prems(1,2)] registered [OF Cons.prems(1), of v i]
      by (auto simp: teams_apply_def delete_subscription_def nth_update_at split: option.split)
  next
    case (Wake j w)
    then show ?thesis
      using Cons.prems(2,3) i resume_ended [OF Cons.prems(3) c]
      by (cases "j = i") (auto simp: teams_apply_def resume_task_def filter_map comp_def split: prod.split)
  qed (use Cons.prems in \<open>simp_all add: teams_apply_def\<close>)
  then show ?case
    using Cons.IH [OF teams_apply_ok [OF Cons.prems(1)], of inp] Cons.prems(4) by simp
qed simp

text \<open>
  C35: a user whose subscription Microsoft refuses stays connected in the eyes of the
  service. When the request that creates the subscription is answered by an error other than 401
  and 409, the renewer ends without an event, but its user stays registered: until a disconnection
  is received, whatever else happens, the user counts as connected, nothing is requested any more,
  and connecting again is refused as already synchronised.
\<close>

theorem refused_subscription_stays_connected:
  assumes "s = teams_run before new_teams" and "\<not> service_is_connected u s" and "u \<in> set (ts_connecting s)"
    and "fetch_configuration env u db = Inr c"
    and "\<And>h. xc_first x h = Inr r" and "400 \<le> rs_status r" and "rs_status r < 600" and "rs_status r \<notin> {401, 409}"
    and "Disconnect u ''microsoft'' \<notin> set inputs"
    and "i = length (ts_renewers s)"
    and "t = teams_run (Configured u env db # Wake i Elapsed # Wake i (Exchanged x) # inputs) s"
  shows "service_is_connected u t \<and>
    create_subscription (Inr c) t = (Inl (ValueError ''user is already being synchronized''), t) \<and>
    (\<exists>p. filter (\<lambda>a. fst a = i) (ts_actions t) = [(i, Send (CreateSubscription p))])"
proof -
  have ok: "teams_ok s" using teams_run_ok assms(1) by simp
  have user: "tc_user_uuid c = u" by (rule configured_user [OF assms(4)])
  let ?rw = "new_renewer c" and ?p = "create_payload (ts_now s) (new_renewer c)"
  let ?s1 = "teams_apply (Configured u env db) s"
  let ?s2 = "teams_apply (Wake i Elapsed) ?s1"
  let ?s3 = "teams_apply (Wake i (Exchanged x)) ?s2"
  have s1: "?s1 = s\<lparr>ts_connecting := remove1 u (ts_connecting s),
      ts_synchronizers := ts_synchronizers s @ [(u, i)], ts_renewers := ts_renewers s @ [?rw]\<rparr>"
    using assms(2,3,4,10) user
    by (simp add: teams_apply_def create_subscription_def add_renewer_def service_is_connected_def dict_set_new)
  have s2: "?s2 = ?s1\<lparr>ts_renewers := ts_renewers s @ [?rw\<lparr>sr_phase := Creating\<rparr>],
      ts_actions := ts_actions s @ [(i, Send (CreateSubscription ?p))]\<rparr>"
    unfolding s1 using assms(10) by (simp add: teams_apply_def resume_task_def resume_def new_renewer_def)
  have "\<exists>o'. resume (ts_now s) (Exchanged x) (?rw\<lparr>sr_phase := Creating\<rparr>) = (?rw\<lparr>sr_phase := Ended o'\<rparr>, [])"
    using assms(5-8)
    by (auto simp: resume_def exchanged_def execute_with_retry_def create_replied_def creation_failed_def finish_def
        raise_for_status_def new_renewer_def)
  then obtain o' where "resume (ts_now s) (Exchanged x) (?rw\<lparr>sr_phase := Creating\<rparr>) = (?rw\<lparr>sr_phase := Ended o'\<rparr>, [])" ..
  then have s3: "?s3 = ?s2\<lparr>ts_renewers := ts_renewers s @ [?rw\<lparr>sr_phase := Ended o'\<rparr>]\<rparr>"
    unfolding s2 unfolding s1 using assms(10) by (simp add: teams_apply_def resume_task_def)
  have t: "t = teams_run inputs ?s3" using assms(11) by simp
  have "dict_get (ts_synchronizers ?s3) u = Some i" and "sr_phase (ts_renewers ?s3 ! i) = Ended o'"
    unfolding s3 unfolding s2 unfolding s1 using assms(2,10)
    by (simp_all add: service_is_connected_def map_add_Some_iff map_of_eq_None_iff)
  from ended_stays [OF _ this assms(9)] ok
  have stays: "dict_get (ts_synchronizers t) u = Some i"
    "filter (\<lambda>a. fst a = i) (ts_actions t) = filter (\<lambda>a. fst a = i) (ts_actions ?s3)"
    unfolding t by (simp_all add: teams_apply_ok)
  have "filter (\<lambda>a. fst a = i) (ts_actions s) = []"
    using ok assms(10) by (auto simp: teams_ok_def filter_empty_conv)
  then have "filter (\<lambda>a. fst a = i) (ts_actions t) = [(i, Send (CreateSubscription ?p))]"
    unfolding stays(2) unfolding s3 unfolding s2 by simp
  moreover have "service_is_connected u t" using dict_get_mem [OF stays(1)] by (simp add: service_is_connected_def)
  ultimately show ?thesis by (simp add: create_subscription_def add_renewer_def user)
qed

section \<open>A notification\<close>

lemma fetch_config: "fetch_teams_presence x rw = (res, rw') \<Longrightarrow> sr_config rw' = sr_config rw"
  by (auto simp: fetch_teams_presence_def split: prod.splits)

lemma fetch_answered:
  assumes "\<And>h. xc_first x h = Inr r" and "rs_status r = 200" and "rs_presence r = Inr p"
    and "px_id p = Some pid" and "px_availability p = Some a" and "dict_get PRESENCES_MAP a = Some st"
  shows "\<exists>rw'. fetch_teams_presence x rw = (Inr a, rw') \<and> sr_config rw' = sr_config rw"
proof -
  have "a \<in> fst ` set PRESENCES_MAP" using assms(6) by (rule dict_get_mem)
  then have "a \<in> set AVAILABILITIES" by (simp add: PRESENCES_MAP_def AVAILABILITIES_def)
  with assms(1-5) show ?thesis
    by (simp add: fetch_teams_presence_def execute_with_retry_def raise_for_status_def load_presence_resource_def)
qed

lemma find_synchronizer_registered:
  assumes "teams_ok s" and "find_synchronizer teams_id s = Some i"
  shows "dict_get (ts_synchronizers s) (renewer_user (ts_renewers s ! i)) = Some i"
proof -
  obtain u where "(u, i) \<in> set (ts_synchronizers s)"
    using assms(2) by (auto simp: find_synchronizer_def find_Some_iff dest!: nth_mem)
  then have "dict_get (ts_synchronizers s) u = Some i"
    using assms(1) dict_items_iff by (fastforce simp: teams_ok_def)
  with registered [OF assms(1) this] show ?thesis by simp
qed

text \<open>
  A notification about a Teams user updates the presence of the user that is synchronised with
  it. Microsoft is asked for the availability; \<open>Offline\<close> and \<open>PresenceUnknown\<close> change
  nothing, any other gives the user the state it maps to, do-not-disturb exactly when that state is
  unavailable, and the time of the update; the new presence is announced, wazo-confd is told the same
  do-not-disturb, every other user is untouched and the tables stay valid. The user named by the URL
  only has to be connected: the update goes to the one the notification names.
\<close>

theorem teams_notification_applied:
  assumes "nt_teams s = teams_run before new_teams" and "presence_ok (nt_db s)" and "chat_ok (nt_db s)"
    and "service_is_connected v (nt_teams s)" and "find_synchronizer teams_id (nt_teams s) = Some i"
    and "rw = ts_renewers (nt_teams s) ! i"
    and "row \<in> set (users (nt_db s))" and "us_uuid row = renewer_user rw" and "us_tenant_uuid row = renewer_tenant rw"
    and "\<And>h. xc_first (ask 0 i) h = Inr r" and "rs_status r = 200" and "rs_presence r = Inr p"
    and "px_id p = Some pid" and "px_availability p = Some a" and "dict_get PRESENCES_MAP a = Some st"
  shows "\<exists>s'. teams_post ask now v None (Inr [teams_id]) s = (Inr ([], 200), s') \<and>
    (case st of
       None \<Rightarrow> nt_db s' = nt_db s \<and> nt_events s' = nt_events s \<and> nt_dnd s' = nt_dnd s
     | Some state \<Rightarrow>
         \<exists>row'. row' = row\<lparr>us_state := state, us_do_not_disturb := (state = UserUnavailable), us_last_activity := Some now\<rparr> \<and>
           user_get [renewer_tenant rw] (renewer_user rw) (nt_db s') = Inr row' \<and>
           users (nt_db s') = update_rows (\<lambda>w. us_uuid w = us_uuid row) (\<lambda>_. row') (users (nt_db s)) \<and>
           nt_events s' = nt_events s @ [presence_updated (nt_db s') row'] \<and>
           nt_dnd s' = nt_dnd s @ [(us_uuid row, us_do_not_disturb row')] \<and>
           presence_ok (nt_db s') \<and> chat_ok (nt_db s'))"
proof -
  let ?t = "nt_teams s"
  have ok: "teams_ok ?t" using teams_run_ok assms(1) by simp
  note reg = find_synchronizer_registered [OF ok assms(5), folded assms(6)]
  have i: "i < length (ts_renewers ?t)" using registered [OF ok reg] by simp
  have u: "user_uuid_from_teams teams_id ?t = Some (renewer_user rw)"
    using assms(5,6) by (simp add: user_uuid_from_teams_def)
  obtain rw' where f: "fetch_teams_presence (ask 0 i) rw = (Inr a, rw')" and c: "sr_config rw' = sr_config rw"
    using fetch_answered [OF assms(10-15), of rw] by blast
  let ?t' = "?t\<lparr>ts_renewers := (ts_renewers ?t)[i := rw']\<rparr>"
  have fetch: "service_fetch_presence (ask 0) teams_id ?t = (Inr st, ?t')"
    using assms(5,15) f by (simp add: service_fetch_presence_def assms(6) [symmetric])
  show ?thesis
  proof (cases st)
    case None
    then show ?thesis
      using assms(4) fetch by (simp add: teams_post_def u)
  next
    case (Some state)
    let ?row = "row\<lparr>us_state := state, us_do_not_disturb := (state = UserUnavailable), us_last_activity := Some now\<rparr>"
    let ?db = "user_update ?row (nt_db s)"
    have get: "user_get [renewer_tenant rw] (renewer_user rw) (nt_db s) = Inr row"
      using user_get_Inr [OF assms(2)] assms(7-9) by simp
    have "update_presence now state (renewer_user rw) (s\<lparr>nt_teams := ?t'\<rparr>) =
        (Inr (), s\<lparr>nt_teams := ?t', nt_db := ?db, nt_events := nt_events s @ [presence_updated ?db ?row],
          nt_dnd := nt_dnd s @ [(renewer_user rw, state = UserUnavailable)]\<rparr>)"
      using reg get i c by (simp add: update_presence_def presence_update_def Let_def)
    then have post: "teams_post ask now v None (Inr [teams_id]) s = (Inr ([], 200),
        s\<lparr>nt_teams := ?t', nt_db := ?db, nt_events := nt_events s @ [presence_updated ?db ?row],
          nt_dnd := nt_dnd s @ [(renewer_user rw, state = UserUnavailable)]\<rparr>)"
      using assms(4) fetch Some by (simp add: teams_post_def u)
    have "us_uuid ?row = us_uuid row" and "us_tenant_uuid ?row = us_tenant_uuid row" by simp_all
    note upd = user_update_ok [OF assms(2,3,7) this]
    have "user_get [renewer_tenant rw] (renewer_user rw) ?db = Inr ?row"
      using user_get_Inr [OF upd(1)] upd(3) assms(8,9) by simp
    moreover have "users ?db = update_rows (\<lambda>w. us_uuid w = us_uuid row) (\<lambda>_. ?row) (users (nt_db s))"
      by (simp add: user_update_def)
    ultimately show ?thesis
      using post upd(1,2) Some assms(8) by simp
  qed
qed

section \<open>Witnesses\<close>

definition teams_env :: config_env where
  "teams_env = \<lparr>ce_token = (\<lambda>_ _ _. Inr ''h.p.s''), ce_domains = (\<lambda>_ _. Inr [Some ''wazo.example'']),
     ce_decode = (\<lambda>_. Inr [(''tid'', ''mt''), (''appid'', ''app''), (''oid'', ''ms1'')])\<rparr>"

definition teams_user :: teams_config where
  "teams_user = \<lparr>tc_domain = ''wazo.example'', tc_microsoft = \<lparr>ms_tenant_id = ''mt'', ms_app_id = ''app'', ms_user_id = ''ms1''\<rparr>,
     tc_tenant_uuid = ''t1'', tc_token = ''h.p.s'', tc_user_uuid = ''u1''\<rparr>"

definition graph_answer :: "int \<Rightarrow> exchange" where
  "graph_answer status =
     (let r = \<lparr>rs_status = status, rs_subscription = Inr \<lparr>su_id = ''s1'', su_resource = ''/communications/presences/ms1'',
            su_change_type = ''updated'', su_expiration = Inr 3600\<rparr>,
          rs_subscriptions = Inr [],
          rs_presence = Inr \<lparr>px_id = Some ''ms1'', px_activity = None, px_availability = Some ''DoNotDisturb''\<rparr>\<rparr>
      in \<lparr>xc_first = (\<lambda>_. Inr r), xc_refresh = (\<lambda>_ _. Inr ''h.p2.s''), xc_second = (\<lambda>_. Inr r)\<rparr>)"

definition connected_inputs :: "teams_input list" where
  "connected_inputs = [Connect ''u1'' ''microsoft'', Configured ''u1'' teams_env presence_db]"

definition sleeping_inputs :: "teams_input list" where
  "sleeping_inputs = connected_inputs @
     [Wake 0 Elapsed, Wake 0 (Exchanged (graph_answer 201)), Wake 0 (Published (Inr ())), Pass 3000]"

lemma teams_configured: "fetch_configuration teams_env ''u1'' presence_db = Inr teams_user"
  by (simp add: fetch_configuration_def teams_env_def teams_user_def presence_db_def user_list_def users_query_def
      retry_fetch_first decode_jwt_def Let_def List.map_filter_def)

lemma connected_state:
  "teams_run connected_inputs new_teams =
     new_teams\<lparr>ts_synchronizers := [(''u1'', 0)], ts_renewers := [new_renewer teams_user]\<rparr>"
  by (simp add: connected_inputs_def teams_apply_def new_teams_def teams_configured create_subscription_def
      add_renewer_def service_is_connected_def teams_user_def)

lemma teams_run_append: "teams_run (xs @ ys) s = teams_run ys (teams_run xs s)"
  by (simp add: teams_run_def)

lemma begin_turn_hour: "sr_expiration rw = Some 3600 \<Longrightarrow> begin_turn 0 rw = (rw\<lparr>sr_phase := Sleeping 3000\<rparr>, [])"
  by (simp add: begin_turn_def remaining_time_def to_int_def DEFAULT_LEEWAY_def Let_def)

lemma sleeping_state:
  "\<exists>rw acts. teams_run sleeping_inputs new_teams =
     new_teams\<lparr>ts_now := 3000, ts_synchronizers := [(''u1'', 0)], ts_renewers := [rw], ts_actions := acts\<rparr> \<and>
     sr_phase rw = Sleeping 3000 \<and> sr_id rw = Some ''s1'' \<and> \<not> sr_cancelled rw"
  unfolding sleeping_inputs_def teams_run_append connected_state
  by (simp add: teams_apply_def new_teams_def resume_task_def resume_def new_renewer_def exchanged_def
      execute_with_retry_def graph_answer_def Let_def create_replied_def raise_for_status_def adopt_subscription_def
      begin_turn_hour)

theorem one_renewer_per_user_witness:
  "0 \<notin> snd ` set (ts_synchronizers (teams_run [Wake 0 Elapsed]
     (teams_run (connected_inputs @ [Disconnect ''u1'' ''microsoft'']) new_teams)))"
proof -
  let ?s = "teams_run (connected_inputs @ [Disconnect ''u1'' ''microsoft'']) new_teams"
  have "0 < length (ts_renewers ?s)" and "0 \<notin> snd ` set (ts_synchronizers ?s)"
    unfolding teams_run_append connected_state by (simp_all add: teams_apply_def delete_subscription_def)
  with one_renewer_per_user [OF refl refl, of 0 "connected_inputs @ [Disconnect ''u1'' ''microsoft'']" "[Wake 0 Elapsed]"]
  show ?thesis by blast
qed

theorem renewals_on_time_witness:
  "ts_actions (teams_apply (Wake 0 Elapsed) (teams_run sleeping_inputs new_teams)) =
     ts_actions (teams_run sleeping_inputs new_teams) @ [(0, Send (RenewSubscription ''s1'' 6600))]"
proof -
  obtain rw acts where s: "teams_run sleeping_inputs new_teams =
      new_teams\<lparr>ts_now := 3000, ts_synchronizers := [(''u1'', 0)], ts_renewers := [rw], ts_actions := acts\<rparr>"
    and rw: "sr_phase rw = Sleeping 3000" "sr_id rw = Some ''s1''" "\<not> sr_cancelled rw"
    using sleeping_state by blast
  have "0 < length (ts_renewers (teams_run sleeping_inputs new_teams))" by (simp add: s)
  from renewals_on_time [OF refl this, of "CHR ''s''" "''1''"] rw show ?thesis by (simp add: s)
qed

theorem refused_subscription_stays_connected_witness:
  "service_is_connected ''u1'' (teams_run
     [Configured ''u1'' teams_env presence_db, Wake 0 Elapsed, Wake 0 (Exchanged (graph_answer 403)), Pass 86400]
     (teams_run [Connect ''u1'' ''microsoft''] new_teams))"
proof -
  let ?s = "teams_run [Connect ''u1'' ''microsoft''] new_teams"
  have "\<not> service_is_connected ''u1'' ?s" and "''u1'' \<in> set (ts_connecting ?s)" and "0 = length (ts_renewers ?s)"
    by (simp_all add: teams_apply_def new_teams_def service_is_connected_def)
  moreover obtain r where r: "xc_first (graph_answer 403) h = Inr r" "rs_status r = 403" for h
    by (simp add: graph_answer_def Let_def)
  moreover have "Disconnect ''u1'' ''microsoft'' \<notin> set [Pass 86400]" by simp
  ultimately show ?thesis
    using refused_subscription_stays_connected [OF refl _ _ teams_configured, of "[Connect ''u1'' ''microsoft'']"
        "graph_answer 403" r "[Pass 86400]" 0] by simp
qed

theorem teams_notification_applied_witness:
  "\<exists>s' row. teams_post (\<lambda>_ _. graph_answer 200) 9 ''u1'' None (Inr [''ms1''])
       \<lparr>nt_teams = teams_run connected_inputs new_teams, nt_db = presence_db, nt_events = [], nt_dnd = []\<rparr> =
       (Inr ([], 200), s') \<and>
     user_get [''t1''] ''u1'' (nt_db s') = Inr row \<and> us_state row = UserUnavailable \<and> us_do_not_disturb row \<and>
     nt_dnd s' = [(''u1'', True)]"
proof -
  let ?s = "\<lparr>nt_teams = teams_run connected_inputs new_teams, nt_db = presence_db, nt_events = [], nt_dnd = []\<rparr>"
  let ?row = "\<lparr>us_uuid = ''u1'', us_tenant_uuid = ''t1'', us_state = UserAvailable, us_status = Some ''lunch'',
      us_do_not_disturb = False, us_last_activity = Some 7\<rparr>"
  have "presence_ok (nt_db ?s)" and "chat_ok (nt_db ?s)" using presence_db_ok by simp_all
  moreover have "service_is_connected ''u1'' (nt_teams ?s)" and "find_synchronizer ''ms1'' (nt_teams ?s) = Some 0"
    and "new_renewer teams_user = ts_renewers (nt_teams ?s) ! 0"
    by (simp_all add: connected_state service_is_connected_def find_synchronizer_def teams_user_id_def new_renewer_def
        teams_user_def)
  moreover have "?row \<in> set (users (nt_db ?s))" and "us_uuid ?row = renewer_user (new_renewer teams_user)"
    and "us_tenant_uuid ?row = renewer_tenant (new_renewer teams_user)"
    by (simp_all add: presence_db_def teams_user_def new_renewer_def)
  moreover obtain r p where "xc_first (graph_answer 200) h = Inr r" and "rs_status r = 200" and "rs_presence r = Inr p"
    and "px_id p = Some ''ms1''" and "px_availability p = Some ''DoNotDisturb''" for h
    by (simp add: graph_answer_def Let_def)
  moreover have "dict_get PRESENCES_MAP ''DoNotDisturb'' = Some (Some UserUnavailable)"
    by (simp add: PRESENCES_MAP_def)
  ultimately show ?thesis
    using teams_notification_applied [of ?s connected_inputs "''u1''" "''ms1''" 0 "new_renewer teams_user" ?row
        "\<lambda>_ _. graph_answer 200" r p "''ms1''" "''DoNotDisturb''" "Some UserUnavailable" 9]
    by (fastforce simp: teams_user_def new_renewer_def)
qed

end
