(* ===== verification/AsyncLock.thy ===== *)
theory AsyncLock
  imports Prelude
begin

text \<open>
  \<open>plugin_helpers/async_lock.py\<close>: one \<open>asyncio.Lock\<close> per key, created on demand. A task is
  a number; what runs between two awaits is one step. The lock objects live in a heap, because a
  guard keeps its lock whatever happens to the table. \<open>asyncio.Lock\<close> is modelled as the standard
  library has it: the queue of waiters with the state of their futures.
\<close>

section \<open>The lock of the standard library\<close>

datatype waiter = Pending | Woken | Gone

record async_lock =
  al_locked :: bool
  al_waiters :: "(nat \<times> waiter) list"

definition free_lock :: async_lock where
  "free_lock = \<lparr>al_locked = False, al_waiters = []\<rparr>"

definition wake_up_first :: "async_lock \<Rightarrow> async_lock" where
  "wake_up_first lk =
     (case al_waiters lk of
        (t, Pending) # ws \<Rightarrow> lk\<lparr>al_waiters := (t, Woken) # ws\<rparr>
      | _ \<Rightarrow> lk)"

definition lock_release :: "async_lock \<Rightarrow> async_lock" where
  "lock_release lk = wake_up_first (lk\<lparr>al_locked := False\<rparr>)"

text \<open>\<open>acquire\<close> up to its await: whether the lock was free for the task.\<close>

definition lock_acquire :: "nat \<Rightarrow> async_lock \<Rightarrow> bool \<times> async_lock" where
  "lock_acquire t lk =
     (if \<not> al_locked lk \<and> list_all (\<lambda>w. snd w = Gone) (al_waiters lk) then (True, lk\<lparr>al_locked := True\<rparr>)
      else (False, lk\<lparr>al_waiters := al_waiters lk @ [(t, Pending)]\<rparr>))"

definition future_of :: "nat \<Rightarrow> async_lock \<Rightarrow> waiter option" where
  "future_of t lk = map_of (al_waiters lk) t"

definition cancel_future :: "nat \<Rightarrow> async_lock \<Rightarrow> async_lock" where
  "cancel_future t lk = lk\<lparr>al_waiters := map (\<lambda>(u, w). (u, if u = t \<and> w = Pending then Gone else w)) (al_waiters lk)\<rparr>"

text \<open>The rest of \<open>acquire\<close>, with \<open>CancelledError\<close> when the task was cancelled.\<close>

definition lock_resume :: "nat \<Rightarrow> bool \<Rightarrow> async_lock \<Rightarrow> async_lock" where
  "lock_resume t cancelled lk =
     (let lk1 = lk\<lparr>al_waiters := filter (\<lambda>w. fst w \<noteq> t) (al_waiters lk)\<rparr>
      in if cancelled then (if al_locked lk1 then lk1 else wake_up_first lk1)
         else lk1\<lparr>al_locked := True\<rparr>)"

section \<open>The keyed lock\<close>

text \<open>\<open>Queued k l c\<close> waits in \<open>__aenter__\<close>; \<open>c\<close> says that the task was cancelled.\<close>

datatype 'k guard = Outside | Queued 'k nat bool | Inside 'k nat

record 'k keyed_lock =
  kl_locks :: "('k, nat) dict"
  kl_heap :: "async_lock list"
  kl_guards :: "nat \<Rightarrow> 'k guard"

definition new_keyed_lock :: "'k keyed_lock" where
  "new_keyed_lock = \<lparr>kl_locks = [], kl_heap = [], kl_guards = (\<lambda>_. Outside)\<rparr>"

definition get_lock :: "'k \<Rightarrow> 'k keyed_lock \<Rightarrow> nat \<times> 'k keyed_lock" where
  "get_lock k s =
     (case dict_get (kl_locks s) k of
        Some l \<Rightarrow> (l, s)
      | None \<Rightarrow> (length (kl_heap s), s\<lparr>kl_locks := dict_set k (length (kl_heap s)) (kl_locks s),
                                     kl_heap := kl_heap s @ [free_lock]\<rparr>))"

definition maybe_drop :: "'k \<Rightarrow> 'k keyed_lock \<Rightarrow> 'k keyed_lock" where
  "maybe_drop k s =
     (case dict_get (kl_locks s) k of
        None \<Rightarrow> s
      | Some l \<Rightarrow>
          if \<not> al_locked (kl_heap s ! l) \<and> al_waiters (kl_heap s ! l) = []
          then s\<lparr>kl_locks := dict_pop k (kl_locks s)\<rparr> else s)"

definition aenter :: "nat \<Rightarrow> 'k \<Rightarrow> 'k keyed_lock \<Rightarrow> 'k keyed_lock" where
  "aenter t k s =
     (case get_lock k s of (l, s1) \<Rightarrow>
        case lock_acquire t (kl_heap s1 ! l) of (acquired, lk) \<Rightarrow>
          s1\<lparr>kl_heap := (kl_heap s1)[l := lk],
             kl_guards := (kl_guards s1)(t := if acquired then Inside k l else Queued k l False)\<rparr>)"

definition cancel_waiter :: "nat \<Rightarrow> 'k keyed_lock \<Rightarrow> 'k keyed_lock" where
  "cancel_waiter t s =
     (case kl_guards s t of
        Queued k l _ \<Rightarrow>
          s\<lparr>kl_heap := (kl_heap s)[l := cancel_future t (kl_heap s ! l)],
            kl_guards := (kl_guards s)(t := Queued k l True)\<rparr>
      | _ \<Rightarrow> s)"

definition ready :: "nat \<Rightarrow> 'k keyed_lock \<Rightarrow> bool" where
  "ready t s \<longleftrightarrow>
     (case kl_guards s t of
        Queued k l _ \<Rightarrow> future_of t (kl_heap s ! l) \<in> {Some Woken, Some Gone} | _ \<Rightarrow> False)"

definition resume_waiter :: "nat \<Rightarrow> 'k keyed_lock \<Rightarrow> 'k keyed_lock" where
  "resume_waiter t s =
     (case kl_guards s t of
        Queued k l c \<Rightarrow>
          s\<lparr>kl_heap := (kl_heap s)[l := lock_resume t c (kl_heap s ! l)],
            kl_guards := (kl_guards s)(t := if c then Outside else Inside k l)\<rparr>
      | _ \<Rightarrow> s)"

definition aexit :: "nat \<Rightarrow> 'k keyed_lock \<Rightarrow> 'k keyed_lock" where
  "aexit t s =
     (case kl_guards s t of
        Inside k l \<Rightarrow>
          maybe_drop k (s\<lparr>kl_heap := (kl_heap s)[l := lock_release (kl_heap s ! l)],
            kl_guards := (kl_guards s)(t := Outside)\<rparr>)
      | _ \<Rightarrow> s)"

inductive lock_step :: "'k keyed_lock \<Rightarrow> 'k keyed_lock \<Rightarrow> bool" where
  enter: "kl_guards s t = Outside \<Longrightarrow> lock_step s (aenter t k s)"
| cancel: "kl_guards s t = Queued k l c \<Longrightarrow> lock_step s (cancel_waiter t s)"
| resume: "ready t s \<Longrightarrow> lock_step s (resume_waiter t s)"
| leave: "kl_guards s t = Inside k l \<Longrightarrow> lock_step s (aexit t s)"

section \<open>Mutual exclusion\<close>

text \<open>
  A lock is consistent with the tasks that hold it and that wait for it: at most one holds it,
  exactly when it is locked; only the first waiter may be woken, only while the lock is free, and
  the first waiter of a free lock is never left pending.
\<close>

fun agree :: "bool option \<Rightarrow> waiter option \<Rightarrow> bool" where
  "agree None None = True"
| "agree (Some c) (Some w) = (case w of Pending \<Rightarrow> \<not> c | Woken \<Rightarrow> True | Gone \<Rightarrow> c)"
| "agree _ _ = False"

definition lock_ok :: "(nat \<Rightarrow> bool) \<Rightarrow> (nat \<Rightarrow> bool option) \<Rightarrow> async_lock \<Rightarrow> bool" where
  "lock_ok holds waits lk \<longleftrightarrow>
     (al_locked lk \<longleftrightarrow> (\<exists>t. holds t)) \<and> (\<forall>t u. holds t \<and> holds u \<longrightarrow> t = u) \<and>
     dict_wf (al_waiters lk) \<and>
     (\<forall>t. agree (waits t) (future_of t lk)) \<and>
     (\<forall>w \<in> set (tl (al_waiters lk)). snd w \<noteq> Woken) \<and>
     (\<forall>w \<in> set (al_waiters lk). snd w = Woken \<longrightarrow> \<not> al_locked lk) \<and>
     (\<not> al_locked lk \<and> al_waiters lk \<noteq> [] \<longrightarrow> snd (hd (al_waiters lk)) \<noteq> Pending)"

definition holds :: "'k keyed_lock \<Rightarrow> nat \<Rightarrow> nat \<Rightarrow> bool" where
  "holds s l t \<longleftrightarrow> (\<exists>k. kl_guards s t = Inside k l)"

definition waits :: "'k keyed_lock \<Rightarrow> nat \<Rightarrow> nat \<Rightarrow> bool option" where
  "waits s l t = (case kl_guards s t of Queued k l' c \<Rightarrow> if l' = l then Some c else None | _ \<Rightarrow> None)"

definition keyed_ok :: "'k keyed_lock \<Rightarrow> bool" where
  "keyed_ok s \<longleftrightarrow>
     (\<forall>j k l. dict_get (kl_locks s) j = Some l \<and> dict_get (kl_locks s) k = Some l \<longrightarrow> j = k) \<and>
     (\<forall>k l. dict_get (kl_locks s) k = Some l \<longrightarrow> l < length (kl_heap s)) \<and>
     (\<forall>t k l. kl_guards s t = Inside k l \<longrightarrow> dict_get (kl_locks s) k = Some l) \<and>
     (\<forall>t k l c. kl_guards s t = Queued k l c \<longrightarrow> dict_get (kl_locks s) k = Some l) \<and>
     (\<forall>l < length (kl_heap s). lock_ok (holds s l) (waits s l) (kl_heap s ! l))"

lemma map_of_filter_ne: "map_of (filter (\<lambda>w. fst w \<noteq> t) ws) u = (if u = t then None else map_of ws u)"
  by (induction ws) auto

lemma map_of_map_values: "map_of (map (\<lambda>(u, w). (u, f u w)) ws) u = map_option (f u) (map_of ws u)"
  by (induction ws) auto

lemma future_cancel: "future_of u (cancel_future t lk) =
    map_option (\<lambda>w. if u = t \<and> w = Pending then Gone else w) (future_of u lk)"
  by (simp add: future_of_def cancel_future_def map_of_map_values)

lemma agree_None [simp]: "agree None w \<longleftrightarrow> w = None" "agree c None \<longleftrightarrow> c = None"
  by (cases w; simp) (cases c; simp)

lemma agree_Woken [simp]: "agree c (Some Woken) \<longleftrightarrow> c \<noteq> None"
  by (cases c) simp_all

lemma lock_agree: "lock_ok H W lk \<Longrightarrow> agree (W t) (future_of t lk)"
  by (simp add: lock_ok_def)

lemma lock_acquired:
  assumes "lock_ok H W lk" and "lock_acquire t lk = (True, lk')"
  shows "lock_ok (H(t := True)) W lk'"
proof -
  have lk': "lk' = lk\<lparr>al_locked := True\<rparr>" and free: "\<not> al_locked lk" and gone: "\<forall>w \<in> set (al_waiters lk). snd w = Gone"
    using assms(2) by (auto simp: lock_acquire_def list_all_iff split: if_splits)
  have "\<not> H u" for u using assms(1) free by (auto simp: lock_ok_def)
  moreover have "\<forall>w \<in> set (al_waiters lk). snd w \<noteq> Woken" using gone by fastforce
  ultimately show ?thesis
    using assms(1) unfolding lock_ok_def lk' by (auto simp: future_of_def)
qed

lemma lock_queued:
  assumes "lock_ok H W lk" and "lock_acquire t lk = (False, lk')" and "W t = None"
  shows "lock_ok H (W(t := Some False)) lk'"
proof -
  have lk': "lk' = lk\<lparr>al_waiters := al_waiters lk @ [(t, Pending)]\<rparr>"
    and busy: "al_locked lk \<or> al_waiters lk \<noteq> []"
    using assms(2) by (auto simp: lock_acquire_def split: if_splits)
  have none: "future_of t lk = None" using lock_agree [OF assms(1), of t] assms(3) by simp
  then have new: "t \<notin> fst ` set (al_waiters lk)" by (simp add: future_of_def map_of_eq_None_iff)
  then have fut: "future_of u lk' = (if u = t then Some Pending else future_of u lk)" for u
    using none by (auto simp: future_of_def lk' map_add_def split: option.split)
  have tl: "set (tl (al_waiters lk')) \<subseteq> insert (t, Pending) (set (tl (al_waiters lk)))"
    by (cases "al_waiters lk") (auto simp: lk')
  have hd: "\<not> al_locked lk \<Longrightarrow> hd (al_waiters lk') = hd (al_waiters lk) \<and> al_waiters lk \<noteq> []"
    using busy by (auto simp: lk')
  show ?thesis
    using assms(1) fut tl hd new unfolding lock_ok_def
    by (auto simp: lk' dict_wf_def)
qed

lemma lock_cancelled:
  assumes "lock_ok H W lk" and "W t = Some c"
  shows "lock_ok H (W(t := Some True)) (cancel_future t lk)"
proof -
  let ?f = "\<lambda>(u, w). (u, if u = t \<and> w = Pending then Gone else w)"
  have ws: "al_waiters (cancel_future t lk) = map ?f (al_waiters lk)" and locked: "al_locked (cancel_future t lk) = al_locked lk"
    by (simp_all add: cancel_future_def)
  have keys: "map fst (map ?f (al_waiters lk)) = map fst (al_waiters lk)" by (simp add: case_prod_beta comp_def)
  have wf: "dict_wf (al_waiters (cancel_future t lk))"
    unfolding dict_wf_def ws keys using assms(1) by (simp add: lock_ok_def dict_wf_def)
  have woken: "\<forall>w \<in> set ys. snd w \<noteq> Woken \<Longrightarrow> \<forall>w \<in> set (map ?f ys). snd w \<noteq> Woken" for ys
    by (auto split: if_splits)
  have w1: "\<forall>w \<in> set (tl (al_waiters (cancel_future t lk))). snd w \<noteq> Woken"
    using assms(1) woken [of "tl (al_waiters lk)"] by (simp add: ws map_tl lock_ok_def)
  have w2: "\<forall>w \<in> set (al_waiters (cancel_future t lk)). snd w = Woken \<longrightarrow> \<not> al_locked lk"
    using assms(1) woken [of "al_waiters lk"] by (fastforce simp: ws lock_ok_def split: if_splits)
  have w3: "\<not> al_locked lk \<and> al_waiters lk \<noteq> [] \<longrightarrow> snd (hd (al_waiters (cancel_future t lk))) \<noteq> Pending"
    using assms(1) by (auto simp: ws lock_ok_def hd_map case_prod_beta)
  have "agree ((W(t := Some True)) u) (future_of u (cancel_future t lk))" for u
    using lock_agree [OF assms(1), of u] assms(2)
    by (cases "future_of u lk") (auto simp: future_cancel split: waiter.splits)
  moreover have "al_waiters (cancel_future t lk) = [] \<longleftrightarrow> al_waiters lk = []" by (simp add: ws)
  ultimately show ?thesis using assms(1) wf w1 w2 w3 unfolding lock_ok_def locked by blast
qed

lemma woken_first:
  assumes "lock_ok H W lk" and "W t = Some False" and "future_of t lk \<in> {Some Woken, Some Gone}"
  shows "\<exists>ws. al_waiters lk = (t, Woken) # ws \<and> t \<notin> fst ` set ws \<and> \<not> al_locked lk"
proof -
  have "future_of t lk = Some Woken" using lock_agree [OF assms(1), of t] assms(2,3) by auto
  then have "(t, Woken) \<in> set (al_waiters lk)" by (simp add: future_of_def map_of_SomeD)
  moreover obtain w ws where ws: "al_waiters lk = w # ws" using calculation by (cases "al_waiters lk") auto
  ultimately have "w = (t, Woken)" using assms(1) by (auto simp: lock_ok_def)
  then show ?thesis using assms(1) by (auto simp: lock_ok_def dict_wf_def ws)
qed

lemma lock_taken:
  assumes "lock_ok H W lk" and "W t = Some False" and "future_of t lk \<in> {Some Woken, Some Gone}"
  shows "lock_ok (H(t := True)) (W(t := None)) (lock_resume t False lk)"
proof -
  obtain ws where ws: "al_waiters lk = (t, Woken) # ws" and new: "t \<notin> fst ` set ws" and free: "\<not> al_locked lk"
    using woken_first [OF assms] by blast
  have "filter (\<lambda>w. fst w \<noteq> t) ws = ws" using new by (auto intro!: filter_True)
  then have lk': "lock_resume t False lk = \<lparr>al_locked = True, al_waiters = ws\<rparr>"
    by (simp add: lock_resume_def ws Let_def)
  have none: "\<not> H u" for u using assms(1) free by (auto simp: lock_ok_def)
  have fut: "future_of u \<lparr>al_locked = True, al_waiters = ws\<rparr> = (if u = t then None else future_of u lk)" for u
    using new by (auto simp: future_of_def ws map_of_eq_None_iff)
  have "\<forall>w \<in> set ws. snd w \<noteq> Woken" using assms(1) by (simp add: lock_ok_def ws)
  moreover have "\<forall>w \<in> set (tl ws). snd w \<noteq> Woken" using calculation by (cases ws) auto
  ultimately show ?thesis
    using assms(1) none fut unfolding lock_ok_def lk'
    by (auto simp: ws dict_wf_def split: if_splits)
qed

lemma wake_up_first_cases:
  obtains "wake_up_first lk = lk" "al_waiters lk \<noteq> [] \<longrightarrow> snd (hd (al_waiters lk)) \<noteq> Pending"
  | t ws where "al_waiters lk = (t, Pending) # ws" and "wake_up_first lk = lk\<lparr>al_waiters := (t, Woken) # ws\<rparr>"
proof (cases "al_waiters lk")
  case Nil
  with that(1) show ?thesis by (simp add: wake_up_first_def)
next
  case (Cons w ws)
  with that show ?thesis by (cases w; cases "snd w") (auto simp: wake_up_first_def)
qed

text \<open>What a free lock needs before its first waiter is woken.\<close>

lemma lock_woken:
  assumes "\<not> al_locked lk" and "\<And>t. \<not> H t" and "dict_wf (al_waiters lk)"
    and "\<And>t. agree (W t) (future_of t lk)"
    and "\<forall>w \<in> set (tl (al_waiters lk)). snd w \<noteq> Woken"
  shows "lock_ok H W (wake_up_first lk)"
proof (cases rule: wake_up_first_cases [of lk])
  case 1
  then show ?thesis using assms unfolding lock_ok_def by auto
next
  case (2 t ws)
  have fut: "future_of u (lk\<lparr>al_waiters := (t, Woken) # ws\<rparr>) = (if u = t then Some Woken else future_of u lk)" for u
    by (simp add: future_of_def 2(1))
  have "W t \<noteq> None" using assms(4) [of t] by (cases "W t") (simp_all add: future_of_def 2(1))
  then show ?thesis
    using assms fut unfolding lock_ok_def 2(2) by (auto simp: 2(1) dict_wf_def split: if_splits)
qed

lemma lock_released:
  assumes "lock_ok H W lk" and "H t"
  shows "lock_ok (H(t := False)) W (lock_release lk)"
proof -
  have "\<not> (H(t := False)) u" for u using assms by (auto simp: lock_ok_def)
  with assms(1) show ?thesis
    unfolding lock_release_def by (intro lock_woken) (simp_all add: lock_ok_def future_of_def)
qed

lemma lock_abandoned:
  assumes "lock_ok H W lk" and "W t = Some True"
  shows "lock_ok H (W(t := None)) (lock_resume t True lk)"
proof -
  let ?lk = "lk\<lparr>al_waiters := filter (\<lambda>w. fst w \<noteq> t) (al_waiters lk)\<rparr>"
  have wf: "dict_wf (al_waiters ?lk)" using assms(1) by (simp add: lock_ok_def dict_wf_def distinct_map_filter)
  have fut: "agree ((W(t := None)) u) (future_of u ?lk)" for u
    using lock_agree [OF assms(1), of u] by (simp add: future_of_def map_of_filter_ne)
  have "set (tl (filter P xs)) \<subseteq> set (tl xs)" for P and xs :: "(nat \<times> waiter) list"
  proof (induction xs)
    case (Cons x xs)
    have "set (tl xs) \<subseteq> set xs" by (cases xs) auto
    with Cons show ?case by auto
  qed simp
  then have tl: "\<forall>w \<in> set (tl (al_waiters ?lk)). snd w \<noteq> Woken"
    using assms(1) by (fastforce simp: lock_ok_def)
  show ?thesis
  proof (cases "al_locked lk")
    case True
    with assms(1) wf fut tl show ?thesis by (simp add: lock_resume_def lock_ok_def)
  next
    case False
    then have "\<not> H u" for u using assms(1) by (auto simp: lock_ok_def)
    with False wf fut tl show ?thesis by (simp add: lock_resume_def lock_woken)
  qed
qed

lemma keyed_lock_ok: "keyed_ok s \<Longrightarrow> dict_get (kl_locks s) k = Some l \<Longrightarrow> lock_ok (holds s l) (waits s l) (kl_heap s ! l)"
  by (simp add: keyed_ok_def)

lemma guard_lock:
  "keyed_ok s \<Longrightarrow> kl_guards s t = Inside k l \<Longrightarrow> dict_get (kl_locks s) k = Some l \<and> l < length (kl_heap s)"
  "keyed_ok s \<Longrightarrow> kl_guards s t = Queued k l c \<Longrightarrow> dict_get (kl_locks s) k = Some l \<and> l < length (kl_heap s)"
  unfolding keyed_ok_def by blast+

lemma keyed_okI:
  assumes "\<And>i j m. dict_get (kl_locks s) i = Some m \<Longrightarrow> dict_get (kl_locks s) j = Some m \<Longrightarrow> i = j"
    and "\<And>k l. dict_get (kl_locks s) k = Some l \<Longrightarrow> l < length (kl_heap s)"
    and "\<And>t k l. kl_guards s t = Inside k l \<Longrightarrow> dict_get (kl_locks s) k = Some l"
    and "\<And>t k l c. kl_guards s t = Queued k l c \<Longrightarrow> dict_get (kl_locks s) k = Some l"
    and "\<And>l. l < length (kl_heap s) \<Longrightarrow> lock_ok (holds s l) (waits s l) (kl_heap s ! l)"
  shows "keyed_ok s"
  unfolding keyed_ok_def using assms by blast

lemma keyed_okD:
  assumes "keyed_ok s"
  shows "dict_get (kl_locks s) i = Some m \<Longrightarrow> dict_get (kl_locks s) j = Some m \<Longrightarrow> i = j"
    and "dict_get (kl_locks s) i = Some m \<Longrightarrow> m < length (kl_heap s)"
    and "m < length (kl_heap s) \<Longrightarrow> lock_ok (holds s m) (waits s m) (kl_heap s ! m)"
  using assms unfolding keyed_ok_def by blast+

lemma get_lock_ok:
  assumes "keyed_ok s" and "get_lock k s = (l, s1)"
  shows "keyed_ok s1" and "dict_get (kl_locks s1) k = Some l" and "kl_guards s1 = kl_guards s"
proof -
  show "keyed_ok s1"
  proof (cases "dict_get (kl_locks s) k")
    case None
    let ?n = "length (kl_heap s)"
    have s1: "s1 = s\<lparr>kl_locks := dict_set k ?n (kl_locks s), kl_heap := kl_heap s @ [free_lock]\<rparr>"
      using assms(2) None by (auto simp: get_lock_def)
    have same: "holds s1 = holds s" "waits s1 = waits s" by (auto simp: s1 fun_eq_iff holds_def waits_def)
    have "holds s ?n t = False" and "waits s ?n t = None" for t
      using guard_lock [OF assms(1), of t] by (auto simp: holds_def waits_def split: guard.split)
    then have free: "lock_ok (holds s ?n) (waits s ?n) free_lock"
      by (simp add: lock_ok_def free_lock_def future_of_def dict_wf_def)
    show ?thesis
    proof (rule keyed_okI)
      fix i j m assume "dict_get (kl_locks s1) i = Some m" and "dict_get (kl_locks s1) j = Some m"
      then show "i = j"
        using keyed_okD(1) [OF assms(1), of i m j] keyed_okD(2) [OF assms(1), of i m] keyed_okD(2) [OF assms(1), of j m]
        by (simp add: s1 split: if_splits)
    next
      fix i m assume "dict_get (kl_locks s1) i = Some m"
      then show "m < length (kl_heap s1)" using keyed_okD(2) [OF assms(1), of i m] by (simp add: s1 split: if_splits)
    next
      fix t i m assume "kl_guards s1 t = Inside i m"
      then show "dict_get (kl_locks s1) i = Some m" using guard_lock(1) [OF assms(1), of t i m] None by (auto simp: s1)
    next
      fix t i m c assume "kl_guards s1 t = Queued i m c"
      then show "dict_get (kl_locks s1) i = Some m" using guard_lock(2) [OF assms(1), of t i m c] None by (auto simp: s1)
    next
      fix m assume "m < length (kl_heap s1)"
      then show "lock_ok (holds s1 m) (waits s1 m) (kl_heap s1 ! m)"
        unfolding same using keyed_okD(3) [OF assms(1), of m] free by (cases "m = ?n") (simp_all add: s1 nth_append)
    qed
  qed (use assms in \<open>simp add: get_lock_def\<close>)
  show "dict_get (kl_locks s1) k = Some l" and "kl_guards s1 = kl_guards s"
    using assms(2) by (auto simp: get_lock_def split: option.splits)
qed

lemma guard_update:
  assumes "keyed_ok s" and "dict_get (kl_locks s) k = Some l"
    and "kl_guards s t \<in> {Outside, Inside k l} \<union> range (Queued k l)" and "g \<in> {Outside, Inside k l} \<union> range (Queued k l)"
    and "s' = s\<lparr>kl_heap := (kl_heap s)[l := lk], kl_guards := (kl_guards s)(t := g)\<rparr>"
    and "lock_ok ((holds s l)(t := (g = Inside k l)))
      ((waits s l)(t := (case g of Queued _ _ c \<Rightarrow> Some c | _ \<Rightarrow> None))) lk"
  shows "keyed_ok s'"
proof -
  have l: "l < length (kl_heap s)" using assms(1,2) by (auto simp: keyed_ok_def)
  have same: "holds s' l = (holds s l)(t := (g = Inside k l))"
    "waits s' l = (waits s l)(t := (case g of Queued _ _ c \<Rightarrow> Some c | _ \<Rightarrow> None))"
    using assms(4) by (auto simp: assms(5) holds_def waits_def fun_eq_iff)
  have other: "holds s' j = holds s j" "waits s' j = waits s j" if "j \<noteq> l" for j
    using assms(3,4) that by (auto simp: assms(5) holds_def waits_def fun_eq_iff)
  have locks: "lock_ok (holds s' j) (waits s' j) (kl_heap s' ! j)" if "j < length (kl_heap s)" for j
    using that assms(1,6) l same other by (cases "j = l") (auto simp: assms(5) keyed_ok_def)
  show ?thesis
  proof (rule keyed_okI)
    fix u i m assume "kl_guards s' u = Inside i m"
    then show "dict_get (kl_locks s') i = Some m"
      using guard_lock(1) [OF assms(1), of u i m] assms(2,4) by (auto simp: assms(5) split: if_splits)
  next
    fix u i m c assume "kl_guards s' u = Queued i m c"
    then show "dict_get (kl_locks s') i = Some m"
      using guard_lock(2) [OF assms(1), of u i m c] assms(2,4) by (auto simp: assms(5) split: if_splits)
  qed (use locks keyed_okD(1,2) [OF assms(1)] in \<open>auto simp: assms(5)\<close>)
qed

lemma aenter_ok:
  assumes "keyed_ok s" and "kl_guards s t = Outside"
  shows "keyed_ok (aenter t k s)"
proof -
  obtain l s1 where g: "get_lock k s = (l, s1)" by fastforce
  note s1 = get_lock_ok [OF assms(1) g]
  obtain acquired lk where a: "lock_acquire t (kl_heap s1 ! l) = (acquired, lk)" by fastforce
  have out: "kl_guards s1 t = Outside" using assms(2) s1(3) by simp
  then have none: "waits s1 l t = None" "\<not> holds s1 l t" by (simp_all add: waits_def holds_def)
  note lk = keyed_lock_ok [OF s1(1,2)]
  let ?g = "if acquired then Inside k l else Queued k l False"
  have "lock_ok ((holds s1 l)(t := (?g = Inside k l)))
      ((waits s1 l)(t := (case ?g of Queued _ _ c \<Rightarrow> Some c | _ \<Rightarrow> None))) lk"
  proof (cases acquired)
    case True
    then have "lock_ok ((holds s1 l)(t := True)) (waits s1 l) lk" using lock_acquired [OF lk] a by simp
    moreover have "(waits s1 l)(t := None) = waits s1 l" using none(1) by auto
    ultimately show ?thesis using True by simp
  next
    case False
    then have "lock_ok (holds s1 l) ((waits s1 l)(t := Some False)) lk" using lock_queued [OF lk] a none(1) by simp
    moreover have "(holds s1 l)(t := False) = holds s1 l" using none(2) by (auto simp: fun_eq_iff)
    ultimately show ?thesis using False by simp
  qed
  moreover have "aenter t k s = s1\<lparr>kl_heap := (kl_heap s1)[l := lk], kl_guards := (kl_guards s1)(t := ?g)\<rparr>"
    by (simp add: aenter_def g a)
  ultimately show ?thesis using out by (intro guard_update [OF s1(1,2)]) auto
qed

lemma cancel_ok:
  assumes "keyed_ok s" and w: "kl_guards s t = Queued k l c"
  shows "keyed_ok (cancel_waiter t s)"
proof -
  have l: "dict_get (kl_locks s) k = Some l" using guard_lock(2) [OF assms] by simp
  have "waits s l t = Some c" and "\<not> holds s l t" using w by (simp_all add: waits_def holds_def)
  moreover from this have "(holds s l)(t := False) = holds s l" by (auto simp: fun_eq_iff)
  ultimately have "lock_ok ((holds s l)(t := (Queued k l True = Inside k l)))
      ((waits s l)(t := (case Queued k l True of Queued _ _ c \<Rightarrow> Some c | _ \<Rightarrow> None))) (cancel_future t (kl_heap s ! l))"
    using lock_cancelled [OF keyed_lock_ok [OF assms(1) l]] by simp
  then show ?thesis
    using w by (intro guard_update [OF assms(1) l]) (auto simp: cancel_waiter_def)
qed

lemma resume_ok:
  assumes "keyed_ok s" and "ready t s"
  shows "keyed_ok (resume_waiter t s)"
proof -
  obtain k l c where w: "kl_guards s t = Queued k l c" and f: "future_of t (kl_heap s ! l) \<in> {Some Woken, Some Gone}"
    using assms(2) by (auto simp: ready_def split: guard.splits)
  have l: "dict_get (kl_locks s) k = Some l" using guard_lock(2) [OF assms(1) w] by simp
  note lk = keyed_lock_ok [OF assms(1) l]
  have h: "waits s l t = Some c" "(holds s l)(t := False) = holds s l"
    using w by (auto simp: waits_def holds_def fun_eq_iff)
  let ?g = "if c then Outside else Inside k l"
  have "lock_ok ((holds s l)(t := (?g = Inside k l)))
      ((waits s l)(t := (case ?g of Queued _ _ c \<Rightarrow> Some c | _ \<Rightarrow> None))) (lock_resume t c (kl_heap s ! l))"
    using h f lock_taken [OF lk] lock_abandoned [OF lk] by (cases c) simp_all
  then show ?thesis
    using w by (intro guard_update [OF assms(1) l]) (auto simp: resume_waiter_def)
qed

lemma maybe_drop_ok:
  assumes "keyed_ok s"
  shows "keyed_ok (maybe_drop k s)"
proof (cases "maybe_drop k s = s")
  case False
  then obtain l where l: "dict_get (kl_locks s) k = Some l" and free: "\<not> al_locked (kl_heap s ! l)"
    and none: "al_waiters (kl_heap s ! l) = []" and d: "maybe_drop k s = s\<lparr>kl_locks := dict_pop k (kl_locks s)\<rparr>"
    by (auto simp: maybe_drop_def split: option.splits if_splits)
  note lk = keyed_lock_ok [OF assms l]
  have "\<not> holds s l t" "waits s l t = None" for t
    using lk free none lock_agree [OF lk, of t] by (auto simp: lock_ok_def future_of_def)
  then have unused: "kl_guards s t \<noteq> Inside k l" "kl_guards s t \<noteq> Queued k l c" for t c
    using \<open>\<And>t. waits s l t = None\<close> [of t] by (cases "kl_guards s t"; force simp: holds_def waits_def)+
  have used: "kl_guards s t \<noteq> Inside k j" "kl_guards s t \<noteq> Queued k j c" for t j c
    using guard_lock [OF assms, of t k j] l unused by auto
  have same: "holds (s\<lparr>kl_locks := x\<rparr>) = holds s" "waits (s\<lparr>kl_locks := x\<rparr>) = waits s" for x
    by (auto simp: fun_eq_iff holds_def waits_def)
  show ?thesis
    unfolding d
  proof (rule keyed_okI)
    fix t i m assume g: "kl_guards (s\<lparr>kl_locks := dict_pop k (kl_locks s)\<rparr>) t = Inside i m"
    then show "dict_get (kl_locks (s\<lparr>kl_locks := dict_pop k (kl_locks s)\<rparr>)) i = Some m"
      using guard_lock(1) [OF assms, of t i m] used(1) [of t m] by (cases "i = k") simp_all
  next
    fix t i m c assume g: "kl_guards (s\<lparr>kl_locks := dict_pop k (kl_locks s)\<rparr>) t = Queued i m c"
    then show "dict_get (kl_locks (s\<lparr>kl_locks := dict_pop k (kl_locks s)\<rparr>)) i = Some m"
      using guard_lock(2) [OF assms, of t i m c] used(2) [of t m c] by (cases "i = k") simp_all
  qed (use keyed_okD [OF assms] same in \<open>auto split: if_splits\<close>)
qed (use assms in simp)

lemma aexit_ok:
  assumes "keyed_ok s" and h: "kl_guards s t = Inside k l"
  shows "keyed_ok (aexit t s)"
proof -
  have l: "dict_get (kl_locks s) k = Some l" using guard_lock(1) [OF assms] by simp
  have "holds s l t" and "(waits s l)(t := None) = waits s l" using h by (auto simp: holds_def waits_def)
  then have "lock_ok ((holds s l)(t := (Outside = Inside k l)))
      ((waits s l)(t := (case Outside of Queued _ _ c \<Rightarrow> Some c | _ \<Rightarrow> None))) (lock_release (kl_heap s ! l))"
    using lock_released [OF keyed_lock_ok [OF assms(1) l]] by simp
  then have "keyed_ok (s\<lparr>kl_heap := (kl_heap s)[l := lock_release (kl_heap s ! l)], kl_guards := (kl_guards s)(t := Outside)\<rparr>)"
    using h by (intro guard_update [OF assms(1) l]) auto
  then show ?thesis using h by (simp add: aexit_def maybe_drop_ok)
qed

interpretation keyed_life: invariant_system lock_step keyed_ok
  by unfold_locales (auto elim!: lock_step.cases intro: aenter_ok cancel_ok resume_ok aexit_ok)

lemma new_keyed_lock_ok: "keyed_ok new_keyed_lock"
  by (simp add: keyed_ok_def new_keyed_lock_def)

text \<open>
  C36: the lock excludes per key and loses no wake-up. However tasks enter, are cancelled,
  resume and leave, two tasks are never inside with the same key; a key somebody holds or waits for
  keeps its lock in the table, so everybody uses the same one; and while a task waits for a key,
  some task holds the key or a waiter of the key is ready to run.
\<close>

theorem keyed_lock_exclusive:
  assumes "reaches lock_step new_keyed_lock s"
  shows "(kl_guards s t = Inside k l \<and> kl_guards s u = Inside k m \<longrightarrow> t = u) \<and>
    (kl_guards s t = Inside k l \<or> kl_guards s t = Queued k l c \<longrightarrow> dict_get (kl_locks s) k = Some l) \<and>
    (kl_guards s t = Queued k l c \<longrightarrow>
       (\<exists>v. kl_guards s v = Inside k l \<or> (\<exists>c'. kl_guards s v = Queued k l c') \<and> ready v s))"
proof (intro conjI impI)
  have ok: "keyed_ok s" using assms new_keyed_lock_ok by (rule keyed_life.reaches_inv)
  note inj = keyed_okD(1) [OF ok]
  {
    assume h: "kl_guards s t = Inside k l \<and> kl_guards s u = Inside k m"
    then have "l = m" "l < length (kl_heap s)" using guard_lock(1) [OF ok, of t k l] guard_lock(1) [OF ok, of u k m] by auto
    with h have "holds s l t" and "holds s l u" by (auto simp: holds_def)
    with keyed_okD(3) [OF ok \<open>l < length (kl_heap s)\<close>] show "t = u" by (auto simp: lock_ok_def)
  next
    assume "kl_guards s t = Inside k l \<or> kl_guards s t = Queued k l c"
    then show "dict_get (kl_locks s) k = Some l" using guard_lock [OF ok, of t k l] by auto
  next
    assume w: "kl_guards s t = Queued k l c"
    note g = guard_lock(2) [OF ok w]
    then have lk: "lock_ok (holds s l) (waits s l) (kl_heap s ! l)" using keyed_okD(3) [OF ok] by simp
    show "\<exists>v. kl_guards s v = Inside k l \<or> (\<exists>c'. kl_guards s v = Queued k l c') \<and> ready v s"
    proof (cases "al_locked (kl_heap s ! l)")
      case True
      then obtain v i where v: "kl_guards s v = Inside i l" using lk by (auto simp: lock_ok_def holds_def)
      then have "i = k" using guard_lock(1) [OF ok v] g inj by blast
      with v show ?thesis by blast
    next
      case False
      have "waits s l t = Some c" using w by (simp add: waits_def)
      then have "al_waiters (kl_heap s ! l) \<noteq> []"
        using lock_agree [OF lk, of t] by (auto simp: future_of_def)
      then obtain v x ws where ws: "al_waiters (kl_heap s ! l) = (v, x) # ws" by (cases "al_waiters (kl_heap s ! l)") auto
      then have "x \<noteq> Pending" using False lk by (auto simp: lock_ok_def)
      then have f: "future_of v (kl_heap s ! l) \<in> {Some Woken, Some Gone}" by (cases x) (simp_all add: future_of_def ws)
      then have "waits s l v \<noteq> None" using lock_agree [OF lk, of v] by (cases "waits s l v") auto
      then obtain i c' where v: "kl_guards s v = Queued i l c'" by (auto simp: waits_def split: guard.splits if_splits)
      then have "i = k" using guard_lock(2) [OF ok v] g inj by blast
      with v f show ?thesis by (auto simp: ready_def)
    qed
  }
qed

lemma two_entered:
  assumes "t \<noteq> u"
  shows "reaches lock_step new_keyed_lock (aenter u k (aenter t k new_keyed_lock))"
proof -
  have "reaches lock_step new_keyed_lock (aenter t k new_keyed_lock)"
    by (rule reaches_step, rule reaches_refl) (rule lock_step.enter, simp add: new_keyed_lock_def)
  then show ?thesis
    by (rule reaches_step) (rule lock_step.enter, use assms in \<open>simp add: new_keyed_lock_def aenter_def get_lock_def
        lock_acquire_def free_lock_def\<close>)
qed

text \<open>
  An entry can outlive its users: a waiter that is cancelled after it was woken leaves without
  \<open>_maybe_drop\<close>, and the one who released the lock saw a waiter.
\<close>

lemma cancelled_waiter_keeps_entry:
  "\<exists>s. reaches lock_step (new_keyed_lock :: string keyed_lock) s \<and> (\<forall>t. kl_guards s t = Outside) \<and>
     kl_locks s = [(k, 0)] \<and> kl_heap s = [free_lock]"
proof -
  let ?lk = "\<lambda>locked ws g. \<lparr>kl_locks = [(k, 0)], kl_heap = [\<lparr>al_locked = locked, al_waiters = ws\<rparr>],
      kl_guards = (\<lambda>t. if t = 1 then g else Outside)\<rparr>"
  let ?s1 = "aenter 0 k (new_keyed_lock :: string keyed_lock)"
  let ?s2 = "aenter 1 k ?s1"
  have s2: "?s2 = \<lparr>kl_locks = [(k, 0)], kl_heap = [\<lparr>al_locked = True, al_waiters = [(1, Pending)]\<rparr>],
      kl_guards = (\<lambda>_. Outside)(0 := Inside k 0, 1 := Queued k 0 False)\<rparr>"
    by (simp add: aenter_def get_lock_def new_keyed_lock_def lock_acquire_def free_lock_def)
  have s3: "aexit 0 ?s2 = ?lk False [(1, Woken)] (Queued k 0 False)"
    unfolding s2 by (auto simp: aexit_def lock_release_def wake_up_first_def maybe_drop_def)
  have s4: "cancel_waiter 1 (?lk False [(1, Woken)] (Queued k 0 False)) = ?lk False [(1, Woken)] (Queued k 0 True)"
    by (auto simp: cancel_waiter_def cancel_future_def)
  have s5: "resume_waiter 1 (?lk False [(1, Woken)] (Queued k 0 True)) = ?lk False [] Outside"
    by (auto simp: resume_waiter_def lock_resume_def wake_up_first_def)
  have "reaches lock_step new_keyed_lock ?s2" by (rule two_entered) simp
  then have "reaches lock_step new_keyed_lock (aexit 0 ?s2)"
    by (rule reaches_step) (rule leave [of _ _ k 0], unfold s2, simp)
  then have "reaches lock_step new_keyed_lock (?lk False [(1, Woken)] (Queued k 0 True))"
    unfolding s3 s4 [symmetric] by (rule reaches_step) (rule cancel [of _ _ k 0 False], simp)
  then have "reaches lock_step new_keyed_lock (?lk False [] Outside)"
    unfolding s5 [symmetric] by (rule reaches_step) (rule resume, simp add: ready_def future_of_def)
  then show ?thesis by (intro exI [of _ "?lk False [] Outside"]) (simp add: free_lock_def)
qed

theorem keyed_lock_exclusive_witness:
  "\<exists>v. kl_guards (aenter 1 ''k'' (aenter 0 ''k'' new_keyed_lock)) v = Inside ''k'' 0 \<or>
     ready v (aenter 1 ''k'' (aenter 0 ''k'' (new_keyed_lock :: string keyed_lock)))"
proof -
  let ?s = "aenter 1 ''k'' (aenter 0 ''k'' (new_keyed_lock :: string keyed_lock))"
  have "reaches lock_step new_keyed_lock ?s" by (rule two_entered) simp
  from keyed_lock_exclusive [OF this, of 1 "''k''" 0 0 0 False] show ?thesis
    by (auto simp: aenter_def get_lock_def new_keyed_lock_def lock_acquire_def free_lock_def)
qed

end
