(* ===== verification/RoomCreation.thy ===== *)
theory RoomCreation
  imports AsyncLock Inbound "HOL-Library.List_Lexorder" "HOL-Library.Char_ord"
begin

text \<open>
  \<open>DeliveryExecutor._get_or_create_room\<close> (\<open>plugins/connectors/executor.py\<close>) run by several
  inbound messages at once. Each message has its own database session: the search and the flush of
  a new room happen inside the keyed lock, the commit when the message has been handled
  (\<open>database/async_helpers.py\<close>). Under PostgreSQL's default isolation a session sees what is
  committed and what it flushed itself.
\<close>

record creation_request =
  cq_tenant :: uuid
  cq_participants :: "RoomUser list"
  cq_new_uuid :: uuid

definition room_lock_key :: "creation_request \<Rightarrow> uuid \<times> uuid list" where
  "room_lock_key q = (cq_tenant q, sort (map ru_uuid (cq_participants q)))"

text \<open>What runs inside the lock: the answer and the room it flushed.\<close>

definition search_or_create :: "creation_request \<Rightarrow> database \<Rightarrow> (exn + Room) \<times> Room list" where
  "search_or_create q db =
     (case find_room (cq_tenant q) (cq_participants q) db of
        Inl e \<Rightarrow> (Inl e, [])
      | Inr (Some r) \<Rightarrow> (Inr r, [])
      | Inr None \<Rightarrow>
          (case create_room (cq_new_uuid q) (cq_tenant q) (cq_participants q) db of
             Inl e \<Rightarrow> (Inl e, []) | Inr (r, _) \<Rightarrow> (Inr r, [r])))"

record inbound_sessions =
  is_committed :: database
  is_lock :: "(uuid \<times> uuid list) keyed_lock"
  is_answer :: "nat \<Rightarrow> (exn + Room) option"
  is_flushed :: "nat \<Rightarrow> Room list"

definition open_sessions :: "database \<Rightarrow> inbound_sessions" where
  "open_sessions db = \<lparr>is_committed = db, is_lock = new_keyed_lock, is_answer = (\<lambda>_. None), is_flushed = (\<lambda>_. [])\<rparr>"

definition session_view :: "nat \<Rightarrow> inbound_sessions \<Rightarrow> database" where
  "session_view t w = (is_committed w)\<lparr>rooms := rooms (is_committed w) @ is_flushed w t\<rparr>"

inductive session_step :: "(nat \<Rightarrow> creation_request) \<Rightarrow> inbound_sessions \<Rightarrow> inbound_sessions \<Rightarrow> bool"
  for request where
  session_enter: "kl_guards (is_lock w) t = Outside \<Longrightarrow> is_answer w t = None \<Longrightarrow>
    session_step request w (w\<lparr>is_lock := aenter t (room_lock_key (request t)) (is_lock w)\<rparr>)"
| session_cancel: "kl_guards (is_lock w) t = Queued k l c \<Longrightarrow>
    session_step request w (w\<lparr>is_lock := cancel_waiter t (is_lock w)\<rparr>)"
| session_resume: "ready t (is_lock w) \<Longrightarrow>
    session_step request w (w\<lparr>is_lock := resume_waiter t (is_lock w)\<rparr>)"
| session_search: "kl_guards (is_lock w) t = Inside k l \<Longrightarrow> is_answer w t = None \<Longrightarrow>
    search_or_create (request t) (session_view t w) = (res, new) \<Longrightarrow>
    session_step request w (w\<lparr>is_answer := (is_answer w)(t := Some res), is_flushed := (is_flushed w)(t := new)\<rparr>)"
| session_leave: "kl_guards (is_lock w) t = Inside k l \<Longrightarrow> is_answer w t = Some res \<Longrightarrow>
    session_step request w (w\<lparr>is_lock := aexit t (is_lock w)\<rparr>)"
| session_commit: "kl_guards (is_lock w) t = Outside \<Longrightarrow> is_answer w t = Some (Inr r) \<Longrightarrow>
    session_step request w (w\<lparr>is_committed := session_view t w, is_flushed := (is_flushed w)(t := [])\<rparr>)"
| session_rollback: "kl_guards (is_lock w) t = Outside \<Longrightarrow> is_answer w t \<noteq> None \<Longrightarrow>
    session_step request w (w\<lparr>is_flushed := (is_flushed w)(t := [])\<rparr>)"

text \<open>The lock works as the lock of its own theory: the sessions only choose when it steps.\<close>

lemma session_lock_step:
  "session_step request w w' \<Longrightarrow> is_lock w' = is_lock w \<or> lock_step (is_lock w) (is_lock w')"
  by (induction rule: session_step.induct)
    (auto intro: lock_step.enter lock_step.cancel lock_step.resume lock_step.leave)

lemma sessions_exclusive:
  "reaches (session_step request) (open_sessions db) w \<Longrightarrow> reaches lock_step new_keyed_lock (is_lock w)"
proof (induction "open_sessions db" w rule: reaches.induct)
  case reaches_refl
  then show ?case by (simp add: open_sessions_def reaches.reaches_refl)
next
  case (reaches_step w w')
  then show ?case using session_lock_step [of request w w'] by (auto intro: reaches.reaches_step)
qed

section \<open>The lock ends before the commit\<close>

definition created_room :: "creation_request \<Rightarrow> Room" where
  "created_room q = \<lparr>ro_uuid = cq_new_uuid q, ro_name = None, ro_tenant_uuid = cq_tenant q, ro_users = cq_participants q\<rparr>"

lemma search_creates:
  assumes "find_room (cq_tenant q) (cq_participants q) db = Inr None" and "violates_room (created_room q) db = None"
  shows "search_or_create q db = (Inr (created_room q), [created_room q])"
  using assms by (simp add: search_or_create_def create_room_def insert_room_def created_room_def Let_def)

lemma exact_room_created: "cq_participants q \<noteq> [] \<Longrightarrow>
    exact_room (cq_tenant q) (map ru_uuid (cq_participants q)) (created_room q)"
  by (simp add: exact_room_def created_room_def)

lemma enter_free:
  "kl_locks s = [] \<Longrightarrow> kl_guards s = (\<lambda>_. Outside) \<Longrightarrow>
   kl_guards (aenter t k s) = (\<lambda>_. Outside)(t := Inside k (length (kl_heap s))) \<and>
   kl_locks (aexit t (aenter t k s)) = [] \<and> kl_guards (aexit t (aenter t k s)) = (\<lambda>_. Outside)"
  by (auto simp: aenter_def get_lock_def lock_acquire_def free_lock_def aexit_def lock_release_def wake_up_first_def
      maybe_drop_def)

text \<open>One pass through the lock when nobody is in it.\<close>

lemma session_pass:
  assumes "kl_locks (is_lock w) = []" and "kl_guards (is_lock w) = (\<lambda>_. Outside)" and "is_answer w t = None"
    and "search_or_create (request t) (session_view t w) = (res, new)"
  obtains w' where "reaches (session_step request) w w'" and "kl_locks (is_lock w') = []"
    and "kl_guards (is_lock w') = (\<lambda>_. Outside)" and "is_committed w' = is_committed w"
    and "is_answer w' = (is_answer w)(t := Some res)" and "is_flushed w' = (is_flushed w)(t := new)"
proof -
  let ?k = "room_lock_key (request t)"
  note free = enter_free [OF assms(1,2), of t ?k]
  let ?w1 = "w\<lparr>is_lock := aenter t ?k (is_lock w)\<rparr>"
  let ?w2 = "?w1\<lparr>is_answer := (is_answer w)(t := Some res), is_flushed := (is_flushed w)(t := new)\<rparr>"
  let ?w3 = "?w2\<lparr>is_lock := aexit t (aenter t ?k (is_lock w))\<rparr>"
  have "session_step request w ?w1" by (rule session_enter) (use assms(2,3) in simp_all)
  then have "reaches (session_step request) w ?w1" by (rule reaches_step [OF reaches_refl])
  moreover have "session_step request ?w1 ?w2"
    using session_search [of ?w1 t ?k "length (kl_heap (is_lock w))" request res new] assms(3,4) free
    by (simp add: session_view_def)
  ultimately have "reaches (session_step request) w ?w2" by (rule reaches_step)
  moreover have "session_step request ?w2 ?w3"
    using session_leave [of ?w2 t ?k "length (kl_heap (is_lock w))" res request] free by simp
  ultimately have "reaches (session_step request) w ?w3" by (rule reaches_step)
  with that free show ?thesis by simp
qed

text \<open>
  C37: the lock does not keep two messages from opening the same room twice. When two
  inbound messages need a room that does not exist yet, the second can search after the first left
  the lock and before it committed: both create a room for the same participants, both commit, and
  from then on every search for these participants raises \<open>MultipleResultsFound\<close>, so no further
  inbound message between them can be stored.
\<close>

theorem concurrent_inbound_duplicates_room:
  assumes "cq_participants (request 0) \<noteq> []" and "cq_tenant (request 1) = cq_tenant (request 0)"
    and "cq_participants (request 1) = cq_participants (request 0)"
    and "find_room (cq_tenant (request 0)) (cq_participants (request 0)) db = Inr None"
    and "violates_room (created_room (request 0)) db = None" and "violates_room (created_room (request 1)) db = None"
  shows "\<exists>w. reaches (session_step request) (open_sessions db) w \<and>
    is_committed w = db\<lparr>rooms := rooms db @ [created_room (request 0), created_room (request 1)]\<rparr> \<and>
    (\<forall>s new_uuid again. rooms (es_db s) = rooms (is_committed w) \<and>
       map ru_uuid again = map ru_uuid (cq_participants (request 0)) \<longrightarrow>
       get_or_create_room new_uuid (cq_tenant (request 0)) again s =
         (Inl (OtherException ''MultipleResultsFound''), s))"
proof -
  let ?q0 = "request 0" and ?q1 = "request 1"
  have start: "kl_locks (is_lock (open_sessions db)) = []" "kl_guards (is_lock (open_sessions db)) = (\<lambda>_. Outside)"
    "is_answer (open_sessions db) 0 = None"
    by (simp_all add: open_sessions_def new_keyed_lock_def)
  have "search_or_create ?q0 (session_view 0 (open_sessions db)) = (Inr (created_room ?q0), [created_room ?q0])"
    by (intro search_creates) (use assms in \<open>simp_all add: session_view_def open_sessions_def\<close>)
  then obtain w1 where w1: "reaches (session_step request) (open_sessions db) w1" "kl_locks (is_lock w1) = []"
    "kl_guards (is_lock w1) = (\<lambda>_. Outside)" "is_committed w1 = db"
    "is_answer w1 = (\<lambda>_. None)(0 := Some (Inr (created_room ?q0)))" "is_flushed w1 = (\<lambda>_. [])(0 := [created_room ?q0])"
    by (rule session_pass [OF start]) (simp add: open_sessions_def)
  have s1: "search_or_create ?q1 (session_view 1 w1) = (Inr (created_room ?q1), [created_room ?q1])"
    by (intro search_creates) (use assms in \<open>simp_all add: session_view_def w1\<close>)
  have a1: "is_answer w1 1 = None" by (simp add: w1)
  obtain w2 where w2: "reaches (session_step request) w1 w2" "kl_locks (is_lock w2) = []" "kl_guards (is_lock w2) = (\<lambda>_. Outside)"
    "is_committed w2 = db" "is_answer w2 = (is_answer w1)(1 := Some (Inr (created_room ?q1)))"
    "is_flushed w2 = (is_flushed w1)(1 := [created_room ?q1])"
    by (rule session_pass [where request = request and t = 1, OF w1(2,3) a1 s1]) (simp add: w1)
  let ?w3 = "w2\<lparr>is_committed := session_view 0 w2, is_flushed := (is_flushed w2)(0 := [])\<rparr>"
  let ?w4 = "?w3\<lparr>is_committed := session_view 1 ?w3, is_flushed := (is_flushed ?w3)(1 := [])\<rparr>"
  have "session_step request w2 ?w3" by (rule session_commit) (simp_all add: w2 w1)
  with reaches_trans [OF w2(1) w1(1)] have "reaches (session_step request) (open_sessions db) ?w3" by (rule reaches_step)
  moreover have "session_step request ?w3 ?w4" by (rule session_commit) (simp_all add: w2 w1)
  ultimately have "reaches (session_step request) (open_sessions db) ?w4" by (rule reaches_step)
  moreover have c: "is_committed ?w4 = db\<lparr>rooms := rooms db @ [created_room ?q0, created_room ?q1]\<rparr>"
    by (simp add: session_view_def w2 w1)
  moreover have "get_or_create_room new_uuid (cq_tenant ?q0) again s = (Inl (OtherException ''MultipleResultsFound''), s)"
    if "rooms (es_db s) = rooms (is_committed ?w4)" "map ru_uuid again = map ru_uuid (cq_participants ?q0)"
    for s new_uuid again
  proof -
    have "filter (exact_room (cq_tenant ?q0) (map ru_uuid (cq_participants ?q0))) (rooms db) = []"
      using assms(4) by (simp add: find_room_def split: list.splits)
    then have "filter (exact_room (cq_tenant ?q0) (map ru_uuid (cq_participants ?q0))) (rooms (es_db s)) =
        [created_room ?q0, created_room ?q1]"
      using that(1) exact_room_created [OF assms(1)] exact_room_created [of ?q1] assms(1,2,3) unfolding c by simp
    then show ?thesis by (simp add: get_or_create_room_def find_room_def that(2))
  qed
  ultimately show ?thesis by blast
qed

theorem concurrent_inbound_duplicates_room_witness:
  "\<exists>w. reaches (session_step (\<lambda>t. \<lparr>cq_tenant = ''t'', cq_participants = ro_users sample_room,
         cq_new_uuid = (if t = 0 then ''new0'' else ''new1'')\<rparr>))
       (open_sessions (sample_chat\<lparr>rooms := []\<rparr>)) w \<and>
     map ro_uuid (rooms (is_committed w)) = [''new0'', ''new1'']"
proof -
  let ?q = "\<lambda>t :: nat. \<lparr>cq_tenant = ''t'', cq_participants = ro_users sample_room,
      cq_new_uuid = (if t = 0 then ''new0'' else ''new1'')\<rparr>"
  let ?db = "sample_chat\<lparr>rooms := []\<rparr>"
  have some: "cq_participants (?q 0) \<noteq> []" by (simp add: sample_room_def)
  have same: "cq_tenant (?q 1) = cq_tenant (?q 0)" "cq_participants (?q 1) = cq_participants (?q 0)" by simp_all
  have none: "find_room (cq_tenant (?q 0)) (cq_participants (?q 0)) ?db = Inr None" by (simp add: find_room_def)
  have valid: "violates_room (created_room (?q t)) ?db = None" for t
    by (simp add: violates_room_def created_room_def sample_room_def sample_chat_def keyed_def participant_key_def)
  obtain w where "reaches (session_step ?q) (open_sessions ?db) w"
    and "is_committed w = ?db\<lparr>rooms := rooms ?db @ [created_room (?q 0), created_room (?q 1)]\<rparr>"
    using concurrent_inbound_duplicates_room [of ?q ?db, OF some same none valid [of 0] valid [of 1]] by blast
  then show ?thesis by (intro exI [of _ w]) (simp add: created_room_def)
qed

end
