(* ===== verification/RunnerLife.thy ===== *)
theory RunnerLife
  imports Pollers
begin

text \<open>
  The life of the two runners (\<open>plugins/connectors/runner.py\<close>, started and stopped by
  \<open>plugins/connectors/router.py\<close>): the thread that runs the loop again after a crash, what one
  run of each runner sets up and tears down, and what a restart of the delivery runner keeps.
\<close>

section \<open>The thread\<close>

datatype thread_phase =
    NotStarted
  | Serving          \<comment> \<open>\<open>asyncio.run(self._entrypoint())\<close>\<close>
  | BackingOff int   \<comment> \<open>\<open>_wait_backoff\<close>, waiting for the closing signal this many seconds\<close>
  | Exited

record runner_thread = restart_state +
  th_phase :: thread_phase
  th_closing :: bool

definition new_thread :: runner_thread where
  "new_thread = \<lparr>rs_backoff = exponential_backoff, rs_healthy = False, rs_restart_count = 0,
     th_phase = NotStarted, th_closing = False\<rparr>"

text \<open>The state of a task when \<open>asyncio.wait\<close> returns.\<close>

datatype task_end = TaskPending | TaskCancelled | TaskRaised exn | TaskReturned

text \<open>
  \<open>_entrypoint\<close> once \<open>_run\<close> or the closing future is done: it raises what \<open>_run\<close>
  raised; a pending run is cancelled and its exceptions swallowed.
\<close>

definition entrypoint :: "task_end \<Rightarrow> exn + unit" where
  "entrypoint run = (case run of TaskRaised e \<Rightarrow> Inl e | _ \<Rightarrow> Inr ())"

definition thread_runs :: "runner_thread \<Rightarrow> bool" where
  "thread_runs t \<longleftrightarrow> th_phase t = Serving"

text \<open>
  \<open>start\<close>: \<open>ready\<close> tells whether the loop came up within \<open>start_timeout\<close>; when it
  did not the caller gets a RuntimeError and the thread goes on.
\<close>

definition runner_start :: "bool \<Rightarrow> runner_thread \<Rightarrow> (exn + unit) \<times> runner_thread" where
  "runner_start ready t =
     (if th_phase t \<noteq> NotStarted then (Inl (RuntimeError ''already started''), t)
      else (if ready then Inr () else Inl (RuntimeError ''failed to start''), t\<lparr>th_phase := Serving\<rparr>))"

text \<open>\<open>shutdown\<close>: joining a thread that was never started raises.\<close>

definition runner_shutdown :: "runner_thread \<Rightarrow> (exn + unit) \<times> runner_thread" where
  "runner_shutdown t =
     (if th_phase t = NotStarted then Inl (RuntimeError ''cannot join thread before it is started'') else Inr (),
      t\<lparr>th_closing := True\<rparr>)"

text \<open>The two points where \<open>_thread_target\<close> goes on: the run ended, the back-off ended.\<close>

definition run_ended :: "task_end \<Rightarrow> runner_thread \<Rightarrow> runner_thread" where
  "run_ended run t =
     (case entrypoint run of
        Inr _ \<Rightarrow> t\<lparr>th_phase := Exited\<rparr>
      | Inl _ \<Rightarrow> (case wait_backoff t of (d, t1) \<Rightarrow> t1\<lparr>th_phase := BackingOff d\<rparr>))"

definition backoff_ended :: "runner_thread \<Rightarrow> runner_thread" where
  "backoff_ended t = t\<lparr>th_phase := (if th_closing t then Exited else Serving)\<rparr>"

inductive thread_step :: "runner_thread \<Rightarrow> runner_thread \<Rightarrow> bool" where
  start: "thread_step t (snd (runner_start ready t))"
| shutdown: "thread_step t (snd (runner_shutdown t))"
| run_end: "th_phase t = Serving \<Longrightarrow> run \<noteq> TaskPending \<or> th_closing t \<Longrightarrow> thread_step t (run_ended run t)"
| backoff_end: "th_phase t = BackingOff d \<Longrightarrow> thread_step t (backoff_ended t)"
| task_end: "th_phase t = Serving \<Longrightarrow> thread_step t (mark_healthy cancelled failed t)"

inductive_cases thread_stepE: "thread_step t t'"

section \<open>The router's two runners\<close>

text \<open>\<open>ConnectorRouter.start\<close> and \<open>stop\<close>; the first exception ends either.\<close>

definition router_start ::
  "bool \<Rightarrow> bool \<Rightarrow> runner_thread \<times> runner_thread \<Rightarrow> (exn + unit) \<times> runner_thread \<times> runner_thread" where
  "router_start delivery_ready listener_ready ts =
     (case runner_start delivery_ready (fst ts) of
        (Inl e, t) \<Rightarrow> (Inl e, t, snd ts)
      | (Inr _, t) \<Rightarrow> (case runner_start listener_ready (snd ts) of (r, u) \<Rightarrow> (r, t, u)))"

definition router_stop :: "runner_thread \<times> runner_thread \<Rightarrow> (exn + unit) \<times> runner_thread \<times> runner_thread" where
  "router_stop ts =
     (case runner_shutdown (snd ts) of
        (Inl e, u) \<Rightarrow> (Inl e, fst ts, u)
      | (Inr _, u) \<Rightarrow> (case runner_shutdown (fst ts) of (r, t) \<Rightarrow> (r, t, u)))"

section \<open>One run of the delivery runner\<close>

record delivery_state =
  ds_runner :: runner
  ds_pollers :: task_table
  ds_engine_open :: bool

text \<open>
  \<open>_run\<close> up to its wait: a new loop, fresh tables, and the pollers of the store; an unregistered
  backend in the store makes it raise.
\<close>

definition delivery_run :: "ConnectorRegistry \<Rightarrow> Connector ConnectorStore \<Rightarrow> delivery_state \<Rightarrow> (exn + unit) \<times> delivery_state" where
  "delivery_run rg st d =
     (case synchronize_pollers rg st [] of
        (r, pollers) \<Rightarrow> (r, d\<lparr>ds_runner := reset_loop_state (new_loop (ds_runner d)), ds_pollers := pollers\<rparr>))"

text \<open>Its wait: \<open>done\<close> lists the critical tasks that ended.\<close>

fun critical_failure :: "task_end list \<Rightarrow> exn + unit" where
  "critical_failure [] = Inr ()"
| "critical_failure (TaskRaised e # done) = Inl e"
| "critical_failure (_ # done) = critical_failure done"

datatype task_outcome = OutboundOutcome string "real option" | InboundOutcome event nat "real option"

text \<open>
  \<open>_shutdown\<close>: timers are cancelled first, then the tasks in flight run to their end (a task
  that waits for the semaphore gets it as the others finish), whatever they schedule.
\<close>

fun finish_task :: "task_outcome \<Rightarrow> runner \<Rightarrow> runner" where
  "finish_task (OutboundOutcome i r) rn = finish_outbound i r (acquire (OutboundKey i) rn)"
| "finish_task (InboundOutcome m attempt r) rn = finish_inbound m attempt r (acquire (event_key m attempt) rn)"

definition delivery_shutdown :: "bool \<Rightarrow> task_outcome list \<Rightarrow> delivery_state \<Rightarrow> delivery_state" where
  "delivery_shutdown closing outcomes d =
     d\<lparr>ds_runner := shutdown_tasks (fold finish_task outcomes (shutdown_timers (ds_runner d))),
       ds_pollers := [], ds_engine_open := ds_engine_open d \<and> \<not> closing\<rparr>"

section \<open>One run of the listener runner\<close>

definition listener_run :: "ConnectorRegistry \<Rightarrow> Connector ConnectorStore \<Rightarrow> task_table \<Rightarrow> (exn + unit) \<times> task_table" where
  "listener_run rg st listeners =
     (case build_desired rg Listen (st_cache st) of
        Inl e \<Rightarrow> (Inl e, listeners)
      | Inr desired \<Rightarrow> (Inr (), reconcile desired listeners))"

definition listener_shutdown :: "task_table \<Rightarrow> task_table" where
  "listener_shutdown listeners = []"

section \<open>Shutdown ends the thread\<close>

definition ending :: "runner_thread \<Rightarrow> runner_thread \<Rightarrow> bool" where
  "ending t t' \<longleftrightarrow> th_closing t' \<and> th_phase t' \<noteq> NotStarted \<and>
     (th_phase t' = Serving \<longrightarrow> th_phase t = Serving \<and> rs_restart_count t' = rs_restart_count t) \<and>
     rs_restart_count t' \<le> Suc (rs_restart_count t)"

lemma wait_backoff_frame [simp]:
  "th_closing (snd (wait_backoff t)) = th_closing t"
  "rs_restart_count (snd (wait_backoff t)) = Suc (rs_restart_count t)"
  by (simp_all add: wait_backoff_def Let_def)

lemma mark_healthy_frame [simp]:
  "th_closing (mark_healthy c f t) = th_closing t" "th_phase (mark_healthy c f t) = th_phase t"
  "rs_restart_count (mark_healthy c f t) = rs_restart_count t"
  by (simp_all add: mark_healthy_def)

lemma run_ended_cases:
  "run_ended run t = t\<lparr>th_phase := Exited\<rparr> \<or>
   run_ended run t = (snd (wait_backoff t))\<lparr>th_phase := BackingOff (fst (wait_backoff t))\<rparr>"
  by (cases run) (simp_all add: run_ended_def entrypoint_def case_prod_beta)

lemma ending_step:
  assumes "thread_step t' t''" and "ending t t'"
  shows "ending t t''"
  using assms(1)
proof cases
  case (start ready)
  then show ?thesis using assms(2) by (simp add: ending_def runner_start_def)
next
  case shutdown
  then show ?thesis using assms(2) by (simp add: ending_def runner_shutdown_def)
next
  case (run_end run)
  then have "rs_restart_count t' = rs_restart_count t" using assms(2) by (simp add: ending_def)
  with run_end run_ended_cases [of run t'] assms(2) show ?thesis by (auto simp: ending_def)
next
  case (backoff_end d)
  then show ?thesis using assms(2) by (simp add: ending_def backoff_ended_def)
next
  case (task_end cancelled failed)
  then show ?thesis using assms(2) by (simp add: ending_def)
qed

interpretation thread_ending: invariant_system thread_step "ending t" for t
  by unfold_locales (rule ending_step)

lemma ending_exits:
  assumes "ending t t'"
  shows "\<exists>u. reaches thread_step t' u \<and> th_phase u = Exited"
proof (cases "th_phase t'")
  case Serving
  then have "thread_step t' (run_ended TaskCancelled t')" by (rule run_end) simp
  then have "reaches thread_step t' (run_ended TaskCancelled t')" by (rule reaches_step [OF reaches_refl])
  moreover have "th_phase (run_ended TaskCancelled t') = Exited" by (simp add: run_ended_def entrypoint_def)
  ultimately show ?thesis by blast
next
  case (BackingOff d)
  then have "thread_step t' (backoff_ended t')" by (rule backoff_end)
  then have "reaches thread_step t' (backoff_ended t')" by (rule reaches_step [OF reaches_refl])
  moreover have "th_phase (backoff_ended t') = Exited" using assms by (simp add: backoff_ended_def ending_def)
  ultimately show ?thesis by blast
next
  case Exited
  then show ?thesis by (blast intro: reaches_refl)
qed (use assms in \<open>simp add: ending_def\<close>)

text \<open>
  C20: shutdown ends a runner. Once \<open>shutdown\<close> was called on a started runner its thread starts
  no further run, whatever crashes meanwhile: it serves only as long as the run that was under
  way, backs off at most once more, and can always reach its exit.
\<close>

theorem shutdown_ends_runner:
  assumes "reaches thread_step new_thread t" and "th_closing t" and "th_phase t \<noteq> NotStarted"
    and "reaches thread_step t t'"
  shows "th_closing t' \<and> (th_phase t' = Serving \<longrightarrow> th_phase t = Serving \<and> rs_restart_count t' = rs_restart_count t) \<and>
     rs_restart_count t' \<le> Suc (rs_restart_count t) \<and> (\<exists>u. reaches thread_step t' u \<and> th_phase u = Exited)"
proof -
  have "ending t t" using assms(2,3) by (simp add: ending_def)
  with assms(4) have "ending t t'" by (rule thread_ending.reaches_inv)
  then show ?thesis using ending_exits [of t t'] by (simp add: ending_def)
qed

theorem shutdown_ends_runner_witness:
  "\<exists>u. reaches thread_step (run_ended (TaskRaised OSError) (snd (runner_shutdown (snd (runner_start True new_thread))))) u \<and>
     th_phase u = Exited"
proof -
  let ?t = "snd (runner_start True new_thread)"
  let ?u = "snd (runner_shutdown ?t)"
  have u: "th_phase ?u = Serving" "th_closing ?u"
    by (simp_all add: runner_shutdown_def runner_start_def new_thread_def)
  have "reaches thread_step new_thread ?u"
    by (meson reaches.intros start shutdown)
  moreover have "reaches thread_step ?u (run_ended (TaskRaised OSError) ?u)"
    using u by (meson reaches.intros run_end)
  ultimately show ?thesis
    using shutdown_ends_runner [of ?u] u by simp
qed

section \<open>What a restart keeps\<close>

lemma finish_task_queue: "rn_queue (finish_task oc rn) = rn_queue rn"
  by (cases oc) (simp_all add: finish_outbound_def finish_inbound_def acquire_def mark_healthy_def
      schedule_outbound_delivery_later_def schedule_inbound_later_def call_later_def cancel_handle_def
      Let_def case_prod_beta split: option.split)

lemma finish_tasks_queue: "rn_queue (fold finish_task outcomes rn) = rn_queue rn"
  by (induction outcomes arbitrary: rn) (simp_all add: finish_task_queue)

text \<open>
  A run that follows a crash starts without tasks and without timers, and with the events of the
  queue: an inbound event that was waiting for its retry is in none of them and is gone, while
  an outbound delivery comes back from the database.
\<close>

lemma restart_keeps_queue:
  "q_items (rn_queue (ds_runner (snd (delivery_run rg st (delivery_shutdown closing outcomes d))))) =
     q_items (rn_queue (ds_runner d))"
  "rn_tasks (ds_runner (snd (delivery_run rg st (delivery_shutdown closing outcomes d)))) = []"
  "rn_handles (ds_runner (snd (delivery_run rg st (delivery_shutdown closing outcomes d)))) = []"
  by (simp_all add: delivery_run_def delivery_shutdown_def reset_loop_state_def new_loop_def
      shutdown_tasks_def shutdown_timers_def finish_tasks_queue MessageQueue.reset_def case_prod_beta)

end
