(* ===== verification/Owed.thy ===== *)
theory Owed
  imports Runner
begin

text \<open>
  The deliveries the executor still owes, those a recovery scan returns
  (\<open>recover_pending_deliveries\<close> of \<open>plugins/connectors/executor.py\<close> over
  \<open>get_recoverable_deliveries\<close>), and what each session does to them: an attempt that asks for a
  retry leaves its delivery owed, one that ends it takes it off, and nothing an inbound message
  or a status report does makes a delivery owed.
\<close>

section \<open>The recovery list\<close>

definition owed :: "database \<Rightarrow> nat set" where
  "owed db = fst ` set (recover_pending_deliveries db)"

fun open_status :: "DeliveryStatus \<Rightarrow> bool" where
  "open_status PENDING = True"
| "open_status RETRYING = True"
| "open_status _ = False"

lemma open_status_iff: "open_status st \<longleftrightarrow> st \<in> {PENDING, RETRYING}"
  by (cases st) simp_all

lemma recoverable_open:
  "recoverable db d \<noteq> None \<longleftrightarrow> (\<exists>r. latest_by_id db (md_id d) = Some r \<and> open_status (dr_status r))"
  by (cases "latest_by_id db (md_id d)") (simp_all add: recoverable_def open_status_iff)

lemma recoverable_fst: "recoverable db d = Some p \<Longrightarrow> fst p = d"
  by (auto simp: recoverable_def split: option.splits if_splits)

lemma owed_image: "owed db = md_id ` {d \<in> set (message_deliveries db). recoverable db d \<noteq> None}"
proof -
  have "owed db = (md_id \<circ> fst) ` set (List.map_filter (recoverable db) (message_deliveries db))"
    by (auto simp: owed_def recover_pending_deliveries_def get_recoverable_deliveries_def image_image case_prod_beta)
  also have "set (List.map_filter (recoverable db) (message_deliveries db)) =
      the ` recoverable db ` {d \<in> set (message_deliveries db). recoverable db d \<noteq> None}"
    by (auto simp: List.map_filter_def)
  finally show ?thesis
    by (auto simp: image_image recoverable_fst intro!: image_cong)
qed

lemma owed_iff:
  "i \<in> owed db \<longleftrightarrow> i \<in> md_id ` set (message_deliveries db) \<and>
     (\<exists>r. latest_by_id db i = Some r \<and> open_status (dr_status r))"
  unfolding owed_image recoverable_open by blast

lemma owed_cong:
  assumes "md_id ` set (message_deliveries db') = md_id ` set (message_deliveries db)"
    and "delivery_records db' = delivery_records db"
  shows "owed db' = owed db"
proof -
  have "latest_by_id db' = latest_by_id db"
    using assms(2) by (simp add: fun_eq_iff latest_by_id_def delivery_log_def)
  with assms(1) show ?thesis by (simp add: set_eq_iff owed_iff)
qed

lemma owed_delivery_frame [simp]:
  "owed (set_external_id j x db) = owed db" "owed (set_retry_count j n db) = owed db"
  by (intro owed_cong; simp add: set_external_id_def set_retry_count_def)+

lemma insort_key_snoc: "f x \<le> f r \<Longrightarrow> insort_key f x (ys @ [r]) = insort_key f x ys @ [r]"
  by (induction ys) auto

lemma sort_key_snoc: "(\<And>x. x \<in> set xs \<Longrightarrow> f x \<le> f r) \<Longrightarrow> sort_key f (xs @ [r]) = sort_key f xs @ [r]"
  by (induction xs) (auto simp: insort_key_snoc)

lemma latest_after_record:
  assumes "ids_below db"
  shows "latest_by_id (snd (add_delivery_record now i status reason db)) j =
     (if j = i then Some (fst (add_delivery_record now i status reason db)) else latest_by_id db j)"
proof (cases "j = i")
  case True
  have "dr_id r \<le> dr_id (fst (add_delivery_record now i status reason db))" if "r \<in> set (delivery_log db i)" for r
    using that assms by (auto simp: add_delivery_record_def Let_def delivery_log_def ids_below_def less_imp_le)
  then show ?thesis
    using True by (simp add: latest_by_id_def add_delivery_record_log sort_key_snoc)
qed (simp add: latest_by_id_def add_delivery_record_log)

lemma owed_record:
  assumes "ids_below db" and "i \<in> md_id ` set (message_deliveries db)"
  shows "owed (snd (add_delivery_record now i status reason db)) =
     (if open_status status then insert i (owed db) else owed db - {i})"
proof -
  have "message_deliveries (snd (add_delivery_record now i status reason db)) = message_deliveries db"
    "dr_status (fst (add_delivery_record now i status reason db)) = status"
    by (simp_all add: add_delivery_record_def Let_def)
  note new = this
  have "j \<in> owed (snd (add_delivery_record now i status reason db)) \<longleftrightarrow>
      j \<in> (if open_status status then insert i (owed db) else owed db - {i})" for j
    using assms(2) by (cases "j = i") (simp_all add: owed_iff latest_after_record [OF assms(1)] new)
  then show ?thesis by blast
qed

section \<open>What an attempt does to it\<close>

text \<open>\<open>settled i db db' r\<close>: the result \<open>r\<close> of an attempt agrees with what it recorded.\<close>

definition settled :: "nat \<Rightarrow> database \<Rightarrow> database \<Rightarrow> exn + real option \<Rightarrow> bool" where
  "settled i db db' r \<longleftrightarrow>
     (case r of
        Inl _ \<Rightarrow> True
      | Inr None \<Rightarrow> owed db' = owed db - {i}
      | Inr (Some _) \<Rightarrow> owed db' = insert i (owed db))"

lemma settled_simps [simp]:
  "settled i db db' (Inl e)"
  "settled i db db' (Inr None) \<longleftrightarrow> owed db' = owed db - {i}"
  "settled i db db' (Inr (Some delay)) \<longleftrightarrow> owed db' = insert i (owed db)"
  by (simp_all add: settled_def)

lemma ids_below_frame [simp]:
  "ids_below (set_external_id j x db) = ids_below db" "ids_below (set_retry_count j n db) = ids_below db"
proof -
  have "(\<forall>r \<in> set (update_rows p f rows). md_id r < k) \<longleftrightarrow> (\<forall>r \<in> set rows. md_id r < k)"
    if "\<And>r. md_id (f r) = md_id r" for p :: "MessageDelivery \<Rightarrow> bool" and f rows k
    using that by (induction rows) simp_all
  then show "ids_below (set_external_id j x db) = ids_below db" "ids_below (set_retry_count j n db) = ids_below db"
    by (simp_all add: ids_below_def set_external_id_def set_retry_count_def)
qed

lemma md_ids_frame [simp]:
  "md_id ` set (message_deliveries (set_external_id j x db)) = md_id ` set (message_deliveries db)"
  "md_id ` set (message_deliveries (set_retry_count j n db)) = md_id ` set (message_deliveries db)"
  by (simp_all add: set_external_id_def set_retry_count_def)

lemma persist_status_owed:
  assumes "ids_below (es_db s)" and "md_id d \<in> md_id ` set (message_deliveries (es_db s))"
    and "persist_status now d status reason x s = (Inr rec, s')"
  shows "owed (es_db s') = (if open_status status then insert (md_id d) (owed (es_db s)) else owed (es_db s) - {md_id d})"
proof (cases x)
  case None
  with assms show ?thesis by (auto simp: persist_status_plain owed_record)
next
  case (Some y)
  with assms show ?thesis
    by (auto simp: persist_status_def case_prod_beta owed_record split: if_splits)
qed

lemma give_up_settled:
  assumes "ids_below (es_db s)" and "md_id d \<in> md_id ` set (message_deliveries (es_db s))" and "\<not> open_status status"
  shows "settled (md_id d) (es_db s) (es_db (snd (persist_status now d status reason x s)))
     (fst (give_up (persist_status now d status reason x s)))"
proof (cases "persist_status now d status reason x s")
  case (Pair r s')
  show ?thesis
  proof (cases r)
    case (Inr rec)
    with Pair persist_status_owed [OF assms(1,2)] assms(3) show ?thesis by (simp add: give_up_def)
  qed (use Pair in \<open>simp add: give_up_def\<close>)
qed

lemma send_failure_settled:
  assumes "ids_below (es_db s)" and "md_id d \<in> md_id ` set (message_deliveries (es_db s))"
  shows "settled (md_id d) (es_db s) (es_db (snd (record_send_failure now d reason retry_after s)))
     (fst (record_send_failure now d reason retry_after s))"
  using assms by (simp add: record_send_failure_plain persist_status_plain owed_record Let_def)

lemma send_settled:
  assumes "ids_below (es_db s)" and "md_id d \<in> md_id ` set (message_deliveries (es_db s))"
  shows "settled (md_id d) (es_db s) (es_db (snd (send_outbound env d c m s))) (fst (send_outbound env d c m s))"
  using assms by (simp add: send_outbound_def give_up_settled send_failure_settled split: sum.split exn.split)

lemma loaded_delivery:
  assumes "chat_ok db" and "delivery_of db i = Some d"
  obtains mm m r where "meta_of db (md_message_uuid d) = Some mm" "message_of db (mm_message_uuid mm) = Some m"
    "room_of db (rm_room_uuid m) = Some r"
proof -
  have "md_message_uuid d \<in> mm_message_uuid ` set (message_metas db)"
    using assms delivery_of_in [OF assms(2)] by (auto simp: integrity_defs refs_def)
  then obtain mm where mm: "meta_of db (md_message_uuid d) = Some mm"
    by (cases "meta_of db (md_message_uuid d)") (auto simp: meta_of_def find_row_None_iff)
  then have "mm \<in> set (message_metas db)" unfolding meta_of_def by (auto dest: find_row_Some_in)
  then have "mm_message_uuid mm \<in> rm_uuid ` set (room_messages db)"
    using assms(1) by (auto simp: integrity_defs refs_def)
  then obtain m where m: "message_of db (mm_message_uuid mm) = Some m"
    by (cases "message_of db (mm_message_uuid mm)") (auto simp: message_of_def find_row_None_iff)
  then have "m \<in> set (room_messages db)" unfolding message_of_def by (auto dest: find_row_Some_in)
  then have "rm_room_uuid m \<in> ro_uuid ` set (rooms db)"
    using assms(1) by (auto simp: integrity_defs refs_def)
  then obtain r where "room_of db (rm_room_uuid m) = Some r"
    by (cases "room_of db (rm_room_uuid m)") (auto simp: room_of_def find_row_None_iff)
  with mm m show ?thesis by (rule that)
qed

lemma find_connector_None:
  "find_connector env backend tenant s = (c, s1) \<Longrightarrow> es_db s1 = es_db s \<and> es_base s1 = es_base s"
  by (metis find_connector_frame snd_conv)

lemma route_outbound_base: "es_base (snd (route_outbound_delivery env i s)) = es_base s"
proof (cases rule: route_outbound_cases [of env i s])
  case (failed d reason s1)
  then show ?thesis by (simp add: record_send_failure_plain Let_def)
next
  case (attempt d c m s1)
  then show ?thesis
    by (simp add: send_outbound_def record_send_failure_plain Let_def split: sum.split exn.split)
qed simp_all

lemma route_outbound_settled:
  assumes "chat_ok (es_db s)" and "\<not> oe_locked env i"
  shows "settled i (es_db s) (es_db (snd (route_outbound_delivery env i s))) (fst (route_outbound_delivery env i s))"
proof (cases "delivery_of (es_db s) i")
  case None
  then have "i \<notin> owed (es_db s)" by (simp add: owed_iff delivery_of_def find_row_None_iff)
  with None assms(2) show ?thesis by (simp add: route_outbound_delivery_def get_message_delivery_def)
next
  case (Some d)
  note below = assms(1) [unfolded chat_ok_def, THEN conjunct2, THEN conjunct2, THEN conjunct1]
  have d: "md_id d = i" "i \<in> md_id ` set (message_deliveries (es_db s))"
    using delivery_of_in [OF Some] by auto
  obtain mm m r where loaded: "meta_of (es_db s) (md_message_uuid d) = Some mm"
      "message_of (es_db s) (mm_message_uuid mm) = Some m" "room_of (es_db s) (rm_room_uuid m) = Some r"
    by (rule loaded_delivery [OF assms(1) Some])
  note route = route_outbound_delivery_def get_message_delivery_def assms(2) Some loaded
  show ?thesis
  proof (cases "sender_record (es_db s) mm")
    case None
    with d below route show ?thesis using give_up_settled [of s d DEAD_LETTER] by simp
  next
    case sender: (Some u)
    obtain c s1 where find: "find_connector env (ui_backend u) (ui_tenant_uuid u) s = (c, s1)"
      by (metis surj_pair)
    note frame = find_connector_None [OF find]
    show ?thesis
    proof (cases c)
      case (Inr conn)
      with d below route sender find frame show ?thesis using send_settled [of s1 d env conn] by simp
    next
      case (Inl e)
      with d below route sender find frame show ?thesis
        using give_up_settled [of s1 d DEAD_LETTER] send_failure_settled [of s1 d]
        by (simp split: exn.split)
    qed
  qed
qed

text \<open>The whole session: a raise rolls it back, a locked row is left alone.\<close>

definition attempt_lost :: "OutboundEnv \<Rightarrow> nat \<Rightarrow> exec_state \<Rightarrow> bool" where
  "attempt_lost env i s \<longleftrightarrow> oe_locked env i \<or>
     (case fst (session_scope (route_outbound_delivery env i) s) of Inl _ \<Rightarrow> True | Inr _ \<Rightarrow> False)"

lemma attempt_lost_unchanged:
  assumes "attempt_lost env i s"
  shows "es_db (snd (session_scope (route_outbound_delivery env i) s)) = es_db s"
    and "\<exists>r. fst (session_scope (route_outbound_delivery env i) s) = r \<and> (r = Inr None \<or> (\<exists>e. r = Inl e))"
proof -
  obtain r s1 where run: "route_outbound_delivery env i (begin_session s) = (r, s1)" by (metis surj_pair)
  have base: "es_base s1 = es_db s" using route_outbound_base [of env i "begin_session s"] run by simp
  have "es_db (snd (session_scope (route_outbound_delivery env i) s)) = es_db s \<and>
     (fst (session_scope (route_outbound_delivery env i) s) = Inr None \<or>
      (\<exists>e. fst (session_scope (route_outbound_delivery env i) s) = Inl e))"
  proof (cases "oe_locked env i")
    case True
    then show ?thesis
      by (simp add: session_scope_def route_outbound_delivery_def get_message_delivery_def)
  next
    case False
    with assms run base show ?thesis by (auto simp: attempt_lost_def session_scope_def split: sum.splits)
  qed
  then show "es_db (snd (session_scope (route_outbound_delivery env i) s)) = es_db s"
    and "\<exists>r. fst (session_scope (route_outbound_delivery env i) s) = r \<and> (r = Inr None \<or> (\<exists>e. r = Inl e))"
    by blast+
qed

lemma outbound_session_settled:
  assumes "chat_ok (es_db s)" and "\<not> attempt_lost env i s"
  shows "\<exists>r. fst (session_scope (route_outbound_delivery env i) s) = Inr r \<and>
     settled i (es_db s) (es_db (snd (session_scope (route_outbound_delivery env i) s))) (Inr r)"
proof -
  obtain r s1 where run: "route_outbound_delivery env i (begin_session s) = (r, s1)" by (metis surj_pair)
  have "settled i (es_db s) (es_db s1) r"
    using route_outbound_settled [of "begin_session s" env i] assms run by (simp add: attempt_lost_def)
  with assms(2) run show ?thesis
    by (auto simp: attempt_lost_def session_scope_def split: sum.splits)
qed

section \<open>What messages and status reports do to it\<close>

definition new_owed :: "uuid \<Rightarrow> NewDelivery list \<Rightarrow> database \<Rightarrow> nat set" where
  "new_owed m ds db = (if \<exists>d \<in> set ds. open_status (nd_status d) then md_id ` set (delivery_rows m ds db) else {})"

lemma store_message_latest:
  assumes "chat_ok db" and "i < next_delivery_id db"
  shows "latest_by_id (store_message now m (Some nm) db) i = latest_by_id db i"
proof -
  have "dr_delivery_id rec \<noteq> i" if "rec \<in> set (record_rows now (nm_deliveries nm) db)" for rec
    using record_rows_in(2) [OF that] delivery_rows_id_in assms(2) by fastforce
  then show ?thesis
    by (simp add: latest_by_id_def delivery_log_def store_message_fields filter_empty_conv)
qed

lemma store_message_owed:
  assumes "chat_ok db"
  shows "owed (store_message now m (Some nm) db) \<subseteq> owed db \<union> new_owed (rm_uuid m) (nm_deliveries nm) db"
proof
  fix i
  let ?db' = "store_message now m (Some nm) db"
  assume "i \<in> owed ?db'"
  then obtain d r where d: "d \<in> set (message_deliveries ?db')" "md_id d = i"
    and r: "latest_by_id ?db' i = Some r" "open_status (dr_status r)" by (auto simp: owed_iff)
  show "i \<in> owed db \<union> new_owed (rm_uuid m) (nm_deliveries nm) db"
  proof (cases "d \<in> set (message_deliveries db)")
    case True
    then have "i < next_delivery_id db" using assms d(2) by (auto simp: integrity_defs)
    with True d r store_message_latest [OF assms] show ?thesis by (auto simp: owed_iff)
  next
    case False
    then have new: "d \<in> set (delivery_rows (rm_uuid m) (nm_deliveries nm) db)"
      using d(1) by (simp add: store_message_fields)
    then have "next_delivery_id db \<le> i" using delivery_rows_id_in d(2) by blast
    moreover have "\<forall>rec \<in> set (delivery_records db). dr_delivery_id rec < next_delivery_id db"
      using assms by (fastforce simp: integrity_defs refs_def)
    moreover have "r \<in> set (delivery_log ?db' i)"
      using r(1) by (auto simp: latest_by_id_def last_opt_def split: if_splits)
        (metis last_in_set set_empty set_sort)
    ultimately have "r \<in> set (record_rows now (nm_deliveries nm) db)"
      by (auto simp: delivery_log_def store_message_fields)
    then have "\<exists>x \<in> set (nm_deliveries nm). open_status (nd_status x)"
      using r(2) record_rows_status by force
    with new d(2) show ?thesis by (auto simp: new_owed_def)
  qed
qed

lemma prepare_owed:
  assumes "prepare_pending_delivery now m recipients backend ty sender extra db = Inr (db', ids)" and "chat_ok db"
  shows "owed db' \<subseteq> owed db \<union> set ids" and "chat_ok db'"
proof -
  let ?nm = "pending_meta recipients backend ty sender extra"
  have ins: "insert_message now m (Some ?nm) db = Inr db'"
    and ids: "ids = map md_id (delivery_rows (rm_uuid m) (nm_deliveries ?nm) db)"
    using assms(1) by (auto simp: prepare_pending_delivery_def Let_def split: sum.splits)
  show "chat_ok db'" using ins assms(2) by (rule insert_message_ok)
  show "owed db' \<subseteq> owed db \<union> set ids"
    using store_message_owed [OF assms(2), of now m ?nm] ins ids
    by (auto simp: insert_message_Inr new_owed_def split: if_splits)
qed

lemma inbound_owed:
  assumes "chat_ok (es_db s)"
  shows "owed (es_db (snd (session_scope (route_inbound env inbound attempt) s))) \<subseteq> owed (es_db s)"
proof -
  have same: "owed (es_db s1) = owed (es_db s) \<and> chat_ok (es_db s1)"
    if "inbound_room env inbound (begin_session s) sender recipient su r s1" for sender recipient su r s1
  proof
    show "owed (es_db s1) = owed (es_db s)"
      by (rule owed_cong) (simp_all add: inbound_room_frame(3,4) [OF that])
    show "chat_ok (es_db s1)"
      by (rule inbound_room_ok [OF that]) (simp add: assms)
  qed
  show ?thesis
  proof (cases rule: inbound_session_cases [of env inbound attempt s])
    case (only_room sender recipient su r s1)
    with same [OF only_room(1)] show ?thesis by simp
  next
    case (confirmed sender recipient su r s1 meta d)
    with same [OF confirmed(1)] show ?thesis
      by (auto simp: owed_record chat_ok_def)
  next
    case (stored sender recipient su r s1 sp)
    let ?meta = "inbound_meta inbound (idempotency_key inbound)"
    have "owed (store_message (ie_now env) m (Some ?meta) (es_db s1)) \<subseteq> owed (es_db s)" for m
      using store_message_owed [of "es_db s1" "ie_now env" m ?meta] same [OF stored(1)]
      by (simp add: new_owed_def inbound_meta_def)
    with stored(5) show ?thesis by (simp add: inbound_message_of_def)
  qed simp
qed

text \<open>
  A backend's \<open>status_map\<close> names final or progress statuses (the connector protocol asks to leave
  transient ones out); one that maps a report to PENDING or RETRYING makes the delivery owed again.
\<close>

definition reports_closed :: "ConnectorRegistry \<Rightarrow> bool" where
  "reports_closed rg \<longleftrightarrow> (\<forall>backend cls code status. get_backend rg backend = Inr cls \<longrightarrow>
     dict_get (cc_status_map cls) code = Some status \<longrightarrow> \<not> open_status status)"

lemma status_owed:
  assumes "chat_ok (es_db s)" and "reports_closed (ie_registry env)"
  shows "owed (es_db (snd (session_scope (route_status_update env u attempt) s))) \<subseteq> owed (es_db s)"
proof (cases rule: status_session_cases [of env u attempt s])
  case (recorded d status reason cls)
  then have "\<not> open_status status" using assms(2) by (auto simp: reports_closed_def)
  with recorded assms(1) show ?thesis by (auto simp: owed_record chat_ok_def)
qed simp

lemma event_owed:
  assumes "process_event env m attempt s = (r, s')" and "chat_ok (es_db s)" and "reports_closed (ie_registry env)"
  shows "owed (es_db s') \<subseteq> owed (es_db s) \<and> chat_ok (es_db s')"
proof (cases m)
  case (Inbound x)
  then have "s' = snd (session_scope (route_inbound env x attempt) s)"
    using assms(1) by (auto simp: process_event_def split: prod.splits sum.splits)
  with assms show ?thesis by (simp add: inbound_owed inbound_session_ok)
next
  case (Status u)
  then have "s' = snd (session_scope (route_status_update env u attempt) s)"
    using assms(1) by (auto simp: process_event_def split: prod.splits sum.splits)
  with assms show ?thesis by (simp add: status_owed status_session_ok)
qed

end
