(* ===== verification/Listen.thy ===== *)
theory Listen
  imports Owed
begin

text \<open>
  The LISTEN task of \<open>plugins/connectors/runner.py\<close> (\<open>_listen_for_deliveries\<close>,
  \<open>_monitor_listen_connection\<close>, \<open>_recover\<close>) together with the database whose
  notifications it receives, the runner it feeds and the sessions the tasks run. Connections
  break, notifications sent meanwhile are lost, and the recovery scan after each LISTEN makes up
  for them; the theory shows what that order guarantees and where it repeats work.
\<close>

section \<open>Noticing a dead connection\<close>

definition LISTEN_PING_INTERVAL :: real where
  "LISTEN_PING_INTERVAL = 30"

definition LISTEN_PING_TIMEOUT :: real where
  "LISTEN_PING_TIMEOUT = 10"

text \<open>The fate of a \<open>SELECT 1\<close> sent on the connection, with the seconds it takes.\<close>

datatype ping = Answered real | Failed real | Unanswered

datatype monitor_end = Returned real | Broken real

primrec ended_at :: "monitor_end \<Rightarrow> real" where
  "ended_at (Returned t) = t"
| "ended_at (Broken t) = t"

text \<open>
  \<open>_monitor_listen_connection\<close> from the time \<open>now\<close>: \<open>closing\<close> is when shutdown is
  requested, if it is, and \<open>ping t\<close> the fate of the ping sent at \<open>t\<close>. The loop may run
  for ever, which is the value None.
\<close>

partial_function (option) monitor_listen_connection ::
  "real option \<Rightarrow> (real \<Rightarrow> ping) \<Rightarrow> real \<Rightarrow> monitor_end option" where
  "monitor_listen_connection closing ping now =
     (case (case closing of None \<Rightarrow> None
            | Some c \<Rightarrow> if c \<le> now + LISTEN_PING_INTERVAL then Some (max now c) else None) of
        Some t \<Rightarrow> Some (Returned t)
      | None \<Rightarrow>
          (case ping (now + LISTEN_PING_INTERVAL) of
             Answered d \<Rightarrow>
               if d < LISTEN_PING_TIMEOUT
               then monitor_listen_connection closing ping (now + LISTEN_PING_INTERVAL + d)
               else Some (Broken (now + LISTEN_PING_INTERVAL + LISTEN_PING_TIMEOUT))
           | Failed d \<Rightarrow> Some (Broken (now + LISTEN_PING_INTERVAL + min d LISTEN_PING_TIMEOUT))
           | Unanswered \<Rightarrow> Some (Broken (now + LISTEN_PING_INTERVAL + LISTEN_PING_TIMEOUT))))"

definition dead_from :: "real \<Rightarrow> (real \<Rightarrow> ping) \<Rightarrow> bool" where
  "dead_from T ping \<longleftrightarrow> (\<forall>t d. ping t = Answered d \<longrightarrow> 0 \<le> d) \<and> (\<forall>t \<ge> T. \<forall>d. ping t \<noteq> Answered d)"

lemma monitor_ends:
  assumes "dead_from T ping" and "now \<le> T + 10" and "T - now \<le> 30 * real n"
  shows "\<exists>r. monitor_listen_connection closing ping now = Some r \<and> ended_at r \<le> T + 50"
  using assms(2,3)
proof (induction n arbitrary: now)
  case 0
  then have "\<forall>d. ping (now + 30) \<noteq> Answered d" using assms(1) by (simp add: dead_from_def)
  with 0 show ?case
    by (subst monitor_listen_connection.simps)
      (auto simp: LISTEN_PING_INTERVAL_def LISTEN_PING_TIMEOUT_def split: option.split ping.split)
next
  case (Suc n)
  show ?case
  proof (cases "\<exists>d. ping (now + 30) = Answered d \<and> d < 10")
    case True
    then obtain d where d: "ping (now + 30) = Answered d" "d < 10" "0 \<le> d"
      using assms(1) by (auto simp: dead_from_def)
    then have "now + 30 < T" using assms(1) by (meson dead_from_def not_le)
    with d Suc.prems have "\<exists>r. monitor_listen_connection closing ping (now + 30 + d) = Some r \<and> ended_at r \<le> T + 50"
      by (intro Suc.IH) simp_all
    with d Suc.prems \<open>now + 30 < T\<close> show ?thesis
      by (subst monitor_listen_connection.simps)
        (auto simp: LISTEN_PING_INTERVAL_def LISTEN_PING_TIMEOUT_def split: option.split)
  next
    case False
    with Suc.prems show ?thesis
      by (subst monitor_listen_connection.simps)
        (auto simp: LISTEN_PING_INTERVAL_def LISTEN_PING_TIMEOUT_def split: option.split ping.split)
  qed
qed

text \<open>
  C18: the monitor returns once the connection is dead. If from some time on no ping is
  answered, the loop ends within 50 seconds of that time (an answer under way, one interval
  and one timeout), and the listener reconnects unless the runner is closing.
\<close>

theorem dead_connection_noticed:
  assumes "dead_from T ping" and "now \<le> T"
  shows "\<exists>r. monitor_listen_connection closing ping now = Some r \<and> ended_at r \<le> T + 50"
proof -
  obtain n :: nat where "(T - now) / 30 \<le> real n" using real_arch_simple by blast
  then have "T - now \<le> 30 * real n" by simp
  with assms show ?thesis by (intro monitor_ends) simp_all
qed

theorem dead_connection_noticed_witness:
  "\<exists>r. monitor_listen_connection None (\<lambda>t. if t < 100 then Answered 1 else Unanswered) 0 = Some r \<and>
     ended_at r \<le> 150"
  using dead_connection_noticed [of 100 "\<lambda>t. if t < 100 then Answered 1 else Unanswered" 0 None]
  by (simp add: dead_from_def)

section \<open>The listening task\<close>

text \<open>
  \<open>ln_connected\<close>: the server still sends to this connection; a broken one is only noticed by
  the monitor. \<open>ln_inbox\<close> holds the payloads that were sent and not handled yet. A scan
  reads the database in one transaction, and the coroutine resumes after other callbacks
  have run: \<open>Scanned\<close> keeps what was read. \<open>Monitoring\<close> remembers whether the scan
  succeeded. \<open>ln_lost\<close> is a ghost: the deliveries whose attempt raised or found the
  row locked since the last scan.
\<close>

datatype listen_phase =
    Offline
  | Listening
  | Scanned "(nat \<times> real) list"
  | Monitoring bool
  | Stopped

record listen_machine =
  ln_phase :: listen_phase
  ln_connected :: bool
  ln_backoff :: "int stream"
  ln_inbox :: "string list"
  ln_runner :: runner
  ln_exec :: exec_state
  ln_lost :: "nat set"

definition new_listen_machine :: "nat \<Rightarrow> exec_state \<Rightarrow> listen_machine" where
  "new_listen_machine max_tasks s =
     \<lparr>ln_phase = Offline, ln_connected = False, ln_backoff = exponential_backoff, ln_inbox = [],
      ln_runner = new_runner max_tasks, ln_exec = s, ln_lost = {}\<rparr>"

text \<open>One turn of \<open>_listen_for_deliveries\<close>: the connection, then \<open>_recover\<close> in its two halves.\<close>

definition listen_registered :: "listen_machine \<Rightarrow> listen_machine" where
  "listen_registered M = M\<lparr>ln_phase := Listening, ln_connected := True,
     ln_backoff := exponential_backoff, ln_inbox := []\<rparr>"

definition recovery_scan :: "bool \<Rightarrow> listen_machine \<Rightarrow> listen_machine" where
  "recovery_scan failed M =
     (if failed then M\<lparr>ln_phase := Monitoring False\<rparr>
      else M\<lparr>ln_phase := Scanned (recover_pending_deliveries (es_db (ln_exec M))), ln_lost := {}\<rparr>)"

definition recovery_schedule :: "listen_machine \<Rightarrow> listen_machine" where
  "recovery_schedule M =
     (case ln_phase M of
        Scanned items \<Rightarrow> M\<lparr>ln_phase := Monitoring True, ln_runner := recover items (ln_runner M),
          ln_lost := ln_lost M - fst ` set items\<rparr>
      | _ \<Rightarrow> M)"

text \<open>Any exception on the connection: the seconds to sleep, and the state to reconnect from.\<close>

definition connection_lost :: "listen_machine \<Rightarrow> int \<times> listen_machine" where
  "connection_lost M = (shd (ln_backoff M),
     M\<lparr>ln_phase := Offline, ln_connected := False, ln_backoff := stl (ln_backoff M), ln_inbox := []\<rparr>)"

definition connection_broken :: "listen_machine \<Rightarrow> listen_machine" where
  "connection_broken M = M\<lparr>ln_connected := False, ln_inbox := []\<rparr>"

definition listening_stopped :: "listen_machine \<Rightarrow> listen_machine" where
  "listening_stopped M = M\<lparr>ln_phase := Stopped, ln_connected := False, ln_inbox := []\<rparr>"

definition receive_notification :: "listen_machine \<Rightarrow> listen_machine" where
  "receive_notification M =
     (case ln_inbox M of
        [] \<Rightarrow> M
      | payload # rest \<Rightarrow> M\<lparr>ln_inbox := rest, ln_runner := on_delivery_notify payload (ln_runner M)\<rparr>)"

text \<open>A request commits an outbound message: PostgreSQL sends the NOTIFY to whoever listens.\<close>

definition commit_outbound :: "database \<Rightarrow> nat list \<Rightarrow> listen_machine \<Rightarrow> listen_machine" where
  "commit_outbound db ids M = M\<lparr>ln_exec := (ln_exec M)\<lparr>es_db := db\<rparr>,
     ln_inbox := ln_inbox M @ (if ln_connected M then [join_commas (map str_of_nat ids)] else [])\<rparr>"

definition commit_request :: "database \<Rightarrow> listen_machine \<Rightarrow> listen_machine" where
  "commit_request db M = M\<lparr>ln_exec := (ln_exec M)\<lparr>es_db := db\<rparr>\<rparr>"

definition attempt_done :: "OutboundEnv \<Rightarrow> string \<Rightarrow> listen_machine \<Rightarrow> listen_machine" where
  "attempt_done env i M =
     (case process_outbound_delivery env i (ln_exec M) of
        (r, s) \<Rightarrow> M\<lparr>ln_runner := finish_outbound i r (ln_runner M), ln_exec := s,
          ln_lost := ln_lost M \<union>
            (case nat_of_str i of None \<Rightarrow> {} | Some n \<Rightarrow> if attempt_lost env n (ln_exec M) then {n} else {})\<rparr>)"

definition event_done :: "InboundEnv \<Rightarrow> event \<Rightarrow> nat \<Rightarrow> listen_machine \<Rightarrow> listen_machine" where
  "event_done env m attempt M =
     (case process_event env m attempt (ln_exec M) of
        (r, s) \<Rightarrow> M\<lparr>ln_runner := finish_inbound m attempt r (ln_runner M), ln_exec := s\<rparr>)"

definition listen_restarted :: "listen_machine \<Rightarrow> listen_machine" where
  "listen_restarted M = M\<lparr>ln_phase := Offline, ln_connected := False, ln_backoff := exponential_backoff,
     ln_inbox := [], ln_runner := reset_loop_state (new_loop (snd (wait_backoff
       (shutdown_tasks (shutdown_timers (ln_runner M))))))\<rparr>"

definition on_runner :: "(runner \<Rightarrow> runner) \<Rightarrow> listen_machine \<Rightarrow> listen_machine" where
  "on_runner f M = M\<lparr>ln_runner := f (ln_runner M)\<rparr>"

text \<open>
  Requests of the REST API commit what they like as long as the schema holds, but only an
  outbound message creates deliveries to send.
\<close>

inductive listen_step :: "listen_machine \<Rightarrow> listen_machine \<Rightarrow> bool" where
  registered: "ln_phase M = Offline \<Longrightarrow> listen_step M (listen_registered M)"
| refused: "ln_phase M = Offline \<Longrightarrow> listen_step M (snd (connection_lost M))"
| scanned: "ln_phase M = Listening \<Longrightarrow> listen_step M (recovery_scan failed M)"
| scheduled: "listen_step M (recovery_schedule M)"
| received: "listen_step M (receive_notification M)"
| broken: "listen_step M (connection_broken M)"
| noticed: "ln_phase M = Monitoring scan_ok \<Longrightarrow> listen_step M (snd (connection_lost M))"
| closing: "ln_phase M = Monitoring scan_ok \<Longrightarrow> listen_step M (listening_stopped M)"
| posted: "prepare_pending_delivery now m recipients backend ty sender extra (es_db (ln_exec M)) = Inr (db, ids) \<Longrightarrow>
    listen_step M (commit_outbound db ids M)"
| requested: "chat_ok db \<Longrightarrow> owed db \<subseteq> owed (es_db (ln_exec M)) \<Longrightarrow> listen_step M (commit_request db M)"
| queued: "listen_step M (on_runner (enqueue_message m) M)"
| taken: "listen_step M (on_runner dispatch_event M)"
| due: "listen_step M (on_runner (fire_timer h) M)"
| admitted: "listen_step M (on_runner (acquire k) M)"
| attempted: "dict_get (rn_tasks (ln_runner M)) (OutboundKey i) = Some Processing \<Longrightarrow>
    listen_step M (attempt_done env i M)"
| handled: "dict_get (rn_tasks (ln_runner M)) (event_key m attempt) = Some Processing \<Longrightarrow>
    reports_closed (ie_registry ienv) \<Longrightarrow> listen_step M (event_done ienv m attempt M)"
| restarted: "listen_step M (listen_restarted M)"

section \<open>Nothing owed escapes\<close>

definition announced :: "listen_machine \<Rightarrow> nat set" where
  "announced M = {i. \<exists>p \<in> set (ln_inbox M). str_of_nat i \<in> set (split_commas p)}"

definition watched :: "listen_machine \<Rightarrow> nat set" where
  "watched M = {i. str_of_nat i \<in> tracked (ln_runner M)} \<union> announced M \<union> ln_lost M"

fun scanned_ids :: "listen_phase \<Rightarrow> nat set" where
  "scanned_ids (Scanned items) = fst ` set items"
| "scanned_ids _ = {}"

fun scan_holds :: "listen_phase \<Rightarrow> bool" where
  "scan_holds (Scanned _) = True"
| "scan_holds (Monitoring scan_ok) = scan_ok"
| "scan_holds _ = False"

definition covers :: "listen_machine \<Rightarrow> bool" where
  "covers M \<longleftrightarrow> (ln_connected M \<and> scan_holds (ln_phase M) \<longrightarrow>
     owed (es_db (ln_exec M)) \<subseteq> scanned_ids (ln_phase M) \<union> watched M)"

definition canonical :: "listen_machine \<Rightarrow> bool" where
  "canonical M \<longleftrightarrow> tracked (ln_runner M) \<subseteq> range str_of_nat \<and>
     (\<forall>p \<in> set (ln_inbox M). \<exists>ids. p = join_commas (map str_of_nat ids))"

definition listen_inv :: "listen_machine \<Rightarrow> bool" where
  "listen_inv M \<longleftrightarrow> runner_inv (ln_runner M) \<and> canonical M \<and> chat_ok (es_db (ln_exec M)) \<and> covers M"

lemma payload_ids: "{j \<in> set (split_commas (join_commas (map str_of_nat ids))). j \<noteq> []} = str_of_nat ` set ids"
proof (cases "ids = []")
  case True
  then show ?thesis by (auto simp: split_commas_def)
next
  case False
  then have "split_commas (join_commas (map str_of_nat ids)) = map str_of_nat ids"
    by (intro split_join_commas) (auto simp: str_of_nat_no_comma)
  then show ?thesis by auto
qed

lemma str_of_nat_inj [simp]: "str_of_nat i = str_of_nat j \<longleftrightarrow> i = j"
  by (metis nat_of_str_of_nat option.inject)

lemma payload_announces: "str_of_nat i \<in> set (split_commas (join_commas (map str_of_nat ids))) \<longleftrightarrow> i \<in> set ids"
proof -
  have "str_of_nat i \<in> {j \<in> set (split_commas (join_commas (map str_of_nat ids))). j \<noteq> []} \<longleftrightarrow> i \<in> set ids"
    unfolding payload_ids by (simp add: image_iff)
  then show ?thesis by simp
qed

section \<open>What the callbacks track\<close>

lemma event_key_not_outbound [simp]: "event_key m n \<noteq> OutboundKey i" "OutboundKey i \<noteq> event_key m n"
  by (cases m; simp)+

lemma fire_timer_tracked:
  assumes "runner_inv rn"
  shows "tracked (fire_timer h rn) = tracked rn"
proof -
  have own: "dict_get (rn_handles rn) h = Some (OutboundTimer i) \<Longrightarrow> i \<in> tracked rn" for i
    using assms by (auto simp: runner_inv_def tracked_def timers_owner)
  have "tracked (fire_timer h rn) \<subseteq> tracked rn"
    using own by (auto simp: fire_timer_def schedule_outbound_delivery_def schedule_inbound_def
        create_task_def tracked_def split: option.splits timer.splits if_splits)
  with fire_timer_inv(2) [OF assms] show ?thesis by blast
qed

lemma acquire_tracked: "tracked (acquire k rn) = tracked rn"
  by (auto simp: acquire_def tracked_def)

lemma dispatch_tracked: "tracked (dispatch_event rn) = tracked rn"
  by (auto simp: dispatch_event_def schedule_inbound_def queue_frame create_task_tracked
      split: prod.split option.split)

lemma finish_outbound_tracked: "tracked (finish_outbound i r rn) \<subseteq> insert i (tracked rn)"
  by (cases r) (auto simp: finish_outbound_def tracked_def mark_healthy_def
      schedule_outbound_delivery_later_def Let_def case_prod_beta split: option.splits if_splits)

section \<open>The invariant\<close>

lemma on_runner_inv:
  assumes "listen_inv M" and "runner_inv (f (ln_runner M))" and "tracked (f (ln_runner M)) = tracked (ln_runner M)"
  shows "listen_inv (on_runner f M)"
  using assms by (simp add: listen_inv_def on_runner_def canonical_def covers_def watched_def announced_def)

lemma offline_inv:
  assumes "runner_inv (ln_runner M)" and "chat_ok (es_db (ln_exec M))"
    and "tracked (ln_runner M) \<subseteq> range str_of_nat" and "ln_inbox M = []"
    and "ln_connected M \<Longrightarrow> \<not> scan_holds (ln_phase M)"
  shows "listen_inv M"
  using assms by (auto simp: listen_inv_def canonical_def covers_def)

lemma registered_inv: "listen_inv M \<Longrightarrow> listen_inv (listen_registered M)"
  by (rule offline_inv) (auto simp: listen_registered_def listen_inv_def canonical_def)

lemma disconnected_inv:
  assumes "listen_inv M"
  shows "listen_inv (snd (connection_lost M))" and "listen_inv (connection_broken M)"
    and "listen_inv (listening_stopped M)"
  using assms
  by (simp_all add: connection_lost_def connection_broken_def listening_stopped_def
      listen_inv_def canonical_def covers_def)

lemma restarted_listen_inv:
  assumes "listen_inv M"
  shows "listen_inv (listen_restarted M)"
proof (rule offline_inv)
  have "tracked (reset_loop_state rn) = {}" for rn by (simp add: reset_loop_state_def tracked_def)
  then show "tracked (ln_runner (listen_restarted M)) \<subseteq> range str_of_nat" by (simp add: listen_restarted_def)
qed (use assms in \<open>simp_all add: listen_restarted_def listen_inv_def restarted_inv\<close>)

lemma scan_inv: "listen_inv M \<Longrightarrow> listen_inv (recovery_scan failed M)"
  by (auto simp: recovery_scan_def listen_inv_def canonical_def covers_def owed_def)

lemma schedule_inv:
  assumes "listen_inv M"
  shows "listen_inv (recovery_schedule M)"
proof (cases "ln_phase M")
  case (Scanned items)
  have inv: "runner_inv (ln_runner M)" using assms by (simp add: listen_inv_def)
  note run = recover_inv [OF inv]
  have "covers (recovery_schedule M)"
    using assms run(2) [of items] Scanned
    by (auto simp: listen_inv_def covers_def recovery_schedule_def watched_def announced_def)
  moreover have "canonical (recovery_schedule M)"
    using assms run(2) [of items] Scanned
    by (auto simp: listen_inv_def canonical_def recovery_schedule_def)
  ultimately show ?thesis
    using assms run(1) Scanned by (simp add: listen_inv_def recovery_schedule_def)
qed (use assms in \<open>simp_all add: recovery_schedule_def\<close>)

lemma receive_inv:
  assumes "listen_inv M"
  shows "listen_inv (receive_notification M)"
proof (cases "ln_inbox M")
  case (Cons p ps)
  have inv: "runner_inv (ln_runner M)" using assms by (simp add: listen_inv_def)
  obtain ids where p: "p = join_commas (map str_of_nat ids)"
    using assms Cons by (auto simp: listen_inv_def canonical_def)
  have run: "tracked (on_delivery_notify p (ln_runner M)) = tracked (ln_runner M) \<union> str_of_nat ` set ids"
    using on_delivery_notify_inv(2) [OF inv, of p] by (simp add: p payload_ids)
  have "watched (receive_notification M) = watched M"
    using Cons run by (auto simp: watched_def announced_def receive_notification_def p payload_announces)
  then have "covers (receive_notification M)"
    using assms Cons by (simp add: listen_inv_def covers_def receive_notification_def)
  moreover have "canonical (receive_notification M)"
    using assms Cons run by (auto simp: listen_inv_def canonical_def receive_notification_def)
  ultimately show ?thesis
    using assms Cons on_delivery_notify_inv(1) [OF inv] by (simp add: listen_inv_def receive_notification_def)
qed (use assms in \<open>simp add: receive_notification_def\<close>)

lemma posted_inv:
  assumes "listen_inv M"
    and "prepare_pending_delivery now m recipients backend ty sender extra (es_db (ln_exec M)) = Inr (db, ids)"
  shows "listen_inv (commit_outbound db ids M)"
proof -
  have new: "owed db \<subseteq> owed (es_db (ln_exec M)) \<union> set ids" and ok: "chat_ok db"
    using prepare_owed [OF assms(2)] assms(1) by (simp_all add: listen_inv_def)
  have w: "watched (commit_outbound db ids M) = watched M \<union> (if ln_connected M then set ids else {})"
    by (auto simp: watched_def announced_def commit_outbound_def payload_announces)
  have "covers (commit_outbound db ids M)"
    using assms(1) new unfolding covers_def w listen_inv_def
    by (simp add: commit_outbound_def) blast
  moreover have "canonical (commit_outbound db ids M)"
    using assms(1) by (auto simp: listen_inv_def canonical_def commit_outbound_def)
  ultimately show ?thesis
    using assms(1) ok by (simp add: listen_inv_def commit_outbound_def)
qed

lemma requested_inv:
  assumes "listen_inv M" and "chat_ok db" and "owed db \<subseteq> owed (es_db (ln_exec M))"
  shows "listen_inv (commit_request db M)"
  using assms by (auto simp: listen_inv_def covers_def canonical_def watched_def announced_def commit_request_def)

lemma attempt_inv:
  assumes "listen_inv M" and "dict_get (rn_tasks (ln_runner M)) (OutboundKey key) = Some Processing"
  shows "listen_inv (attempt_done env key M)"
proof -
  let ?s = "ln_exec M"
  have inv: "runner_inv (ln_runner M)" and ok: "chat_ok (es_db ?s)" and canon: "canonical M"
    using assms(1) by (simp_all add: listen_inv_def)
  have "key \<in> tracked (ln_runner M)" using assms(2) by (simp add: tracked_def)
  then obtain i where i: "key = str_of_nat i" using canon by (auto simp: canonical_def)
  obtain r s' where run: "session_scope (route_outbound_delivery env i) ?s = (r, s')" by (metis surj_pair)
  let ?r = "case r of Inl _ \<Rightarrow> None | Inr d \<Rightarrow> d"
  have p: "process_outbound_delivery env key ?s = (?r, s')"
    using run by (simp add: process_outbound_delivery_def i split: sum.split)
  note fin = finish_outbound_inv [OF inv, where i = key and r = ?r]
  let ?L = "ln_lost M \<union> (if attempt_lost env i ?s then {i} else {})"
  have M': "attempt_done env key M = M\<lparr>ln_runner := finish_outbound key ?r (ln_runner M), ln_exec := s', ln_lost := ?L\<rparr>"
    by (simp add: attempt_done_def p [unfolded i] i)
  have owed: "owed (es_db s') \<subseteq> owed (es_db ?s) - (if ?r = None then {i} else {}) \<union> (if ?r = None then {} else {i}) \<union> ?L"
  proof (cases "attempt_lost env i ?s")
    case True
    then show ?thesis using attempt_lost_unchanged(1) [OF True] run by (auto split: if_splits)
  next
    case False
    obtain r' where "r = Inr r'" "settled i (es_db ?s) (es_db s') (Inr r')"
      using outbound_session_settled [OF ok False] run by auto
    then show ?thesis by (cases r') auto
  qed
  have w1: "watched M \<subseteq> watched (attempt_done env key M) \<union> (if ?r = None then {i} else {})"
    using fin(2) unfolding M' unfolding i by (auto simp: watched_def announced_def split: if_splits)
  have w2: "i \<in> watched (attempt_done env key M)" if "?r \<noteq> None"
    using fin(2) that \<open>key \<in> tracked (ln_runner M)\<close> unfolding M' unfolding i by (auto simp: watched_def)
  have w3: "?L \<subseteq> watched (attempt_done env key M)"
    unfolding M' by (simp add: watched_def)
  have "owed (es_db s') \<subseteq> scanned_ids (ln_phase M) \<union> watched (attempt_done env key M)"
    if "owed (es_db ?s) \<subseteq> scanned_ids (ln_phase M) \<union> watched M"
  proof (cases "?r = None")
    case True
    with that owed w1 w3 show ?thesis by (simp only: if_True simp_thms) blast
  next
    case False
    with that owed w1 w2 w3 show ?thesis by (simp only: if_False simp_thms) blast
  qed
  then have "covers (attempt_done env key M)"
    using assms(1) unfolding covers_def listen_inv_def by (simp add: M')
  moreover have "canonical (attempt_done env key M)"
    using canon finish_outbound_tracked [of key ?r "ln_runner M"] unfolding M' unfolding i
    by (auto simp: canonical_def)
  moreover have "chat_ok (es_db s')"
    using outbound_session_ok [OF ok, of env i] run by simp
  ultimately show ?thesis
    using fin(1) unfolding listen_inv_def M' by simp
qed

lemma event_inv:
  assumes "listen_inv M" and "reports_closed (ie_registry env)"
  shows "listen_inv (event_done env m attempt M)"
proof -
  have inv: "runner_inv (ln_runner M)" and ok: "chat_ok (es_db (ln_exec M))"
    using assms(1) by (simp_all add: listen_inv_def)
  obtain r s' where run: "process_event env m attempt (ln_exec M) = (r, s')" by (metis surj_pair)
  have "r \<noteq> None \<Longrightarrow> attempt < INBOUND_MAX_RETRIES"
    using inbound_delay [of env m attempt "ln_exec M"] run by auto
  then have "runner_inv (finish_inbound m attempt r (ln_runner M))"
    "tracked (finish_inbound m attempt r (ln_runner M)) = tracked (ln_runner M)"
    using finish_inbound_inv [OF inv] by blast+
  with run event_owed [OF run ok assms(2)] assms(1) show ?thesis
    by (auto simp: listen_inv_def event_done_def canonical_def covers_def watched_def announced_def)
qed

lemma listen_step_inv: "listen_step M M' \<Longrightarrow> listen_inv M \<Longrightarrow> listen_inv M'"
proof (induction rule: listen_step.induct)
  case (taken M)
  then show ?case by (intro on_runner_inv) (simp_all add: listen_inv_def dispatch_event_inv dispatch_tracked)
next
  case (due M h)
  then show ?case by (intro on_runner_inv) (simp_all add: listen_inv_def fire_timer_inv fire_timer_tracked)
next
  case (admitted M k)
  then show ?case by (intro on_runner_inv) (simp_all add: listen_inv_def acquire_inv acquire_tracked)
next
  case (queued M m)
  then show ?case by (intro on_runner_inv) (simp_all add: listen_inv_def enqueue_message_inv)
qed (simp_all add: registered_inv disconnected_inv scan_inv schedule_inv receive_inv posted_inv
    requested_inv attempt_inv event_inv restarted_listen_inv)

interpretation listen_life: invariant_system listen_step listen_inv
  by unfold_locales (rule listen_step_inv)

lemma new_listen_inv: "chat_ok (es_db s) \<Longrightarrow> listen_inv (new_listen_machine max_tasks s)"
  by (rule offline_inv) (simp_all add: new_listen_machine_def new_runner_def runner_inv_def runner_defs processing_def)

text \<open>
  C16: no owed delivery escapes the runner. While the connection lives and the scan that
  followed its LISTEN succeeded, every delivery the database still owes has a task, a pending
  timer, or a notification to handle; the one exception is a delivery whose last
  attempt raised or found its row locked, which waits for the next scan.
\<close>

theorem owed_deliveries_watched:
  assumes "reaches listen_step (new_listen_machine max_tasks s) M" and "chat_ok (es_db s)"
    and "ln_phase M = Monitoring True" and "ln_connected M" and "i \<in> owed (es_db (ln_exec M))"
  shows "dict_get (rn_tasks (ln_runner M)) (OutboundKey (str_of_nat i)) \<noteq> None \<or>
     (\<exists>h. dict_get (rn_handles (ln_runner M)) h = Some (OutboundTimer (str_of_nat i))) \<or>
     (\<exists>p \<in> set (ln_inbox M). str_of_nat i \<in> set (split_commas p)) \<or> i \<in> ln_lost M"
proof -
  have inv: "listen_inv M"
    using assms(1) new_listen_inv [OF assms(2)] by (rule listen_life.reaches_inv)
  then have own: "timers_ok (ln_runner M)" by (simp add: listen_inv_def runner_inv_def)
  have "i \<in> watched M" using inv assms(3-5) by (auto simp: listen_inv_def covers_def)
  then show ?thesis by (auto simp: watched_def announced_def tracked_def timers_owner [OF own])
qed

definition recovered_machine :: "nat \<Rightarrow> exec_state \<Rightarrow> listen_machine" where
  "recovered_machine n s = recovery_schedule (recovery_scan False (listen_registered (new_listen_machine n s)))"

lemma recovered_machine_reached:
  "reaches listen_step (new_listen_machine n s) (recovered_machine n s)"
proof -
  let ?M = "new_listen_machine n s"
  have "listen_step ?M (listen_registered ?M)"
    by (rule registered) (simp add: new_listen_machine_def)
  moreover have "listen_step (listen_registered ?M) (recovery_scan False (listen_registered ?M))"
    by (rule scanned) (simp add: listen_registered_def)
  ultimately show ?thesis
    unfolding recovered_machine_def by (meson reaches.intros scheduled)
qed

lemma recovered_machine_fields:
  "ln_phase (recovered_machine n s) = Monitoring True" "ln_connected (recovered_machine n s)"
  "ln_lost (recovered_machine n s) = {}" "ln_inbox (recovered_machine n s) = []"
  "ln_exec (recovered_machine n s) = s"
  by (simp_all add: recovered_machine_def recovery_schedule_def recovery_scan_def listen_registered_def
      new_listen_machine_def)

lemma sample_owed: "1 \<in> owed sample_db" "(1, 0) \<in> set (recover_pending_deliveries sample_db)"
proof -
  show "(1, 0) \<in> set (recover_pending_deliveries sample_db)"
    by (simp add: recover_pending_deliveries_def get_recoverable_deliveries_def List.map_filter_def
        recoverable_def latest_by_id_def delivery_log_def sample_defs store_message_def pending_meta_def
        delivery_rows_def record_rows_def last_opt_def)
  then show "1 \<in> owed sample_db" by (force simp: owed_def)
qed

theorem owed_deliveries_watched_witness:
  "OutboundKey (str_of_nat 1) \<in> fst ` set (rn_tasks (ln_runner (recovered_machine 1 sample_exec))) \<or>
   (\<exists>h. dict_get (rn_handles (ln_runner (recovered_machine 1 sample_exec))) h = Some (OutboundTimer (str_of_nat 1)))"
proof -
  have "es_db sample_exec = sample_db" by (simp add: sample_exec_def)
  with owed_deliveries_watched [OF recovered_machine_reached [of 1 sample_exec], of 1] show ?thesis
    by (simp del: One_nat_def add: recovered_machine_fields sample_owed sample_db_ok map_of_eq_None_iff)
qed

section \<open>What the order repeats\<close>

text \<open>An attempt that succeeds, whatever the delivery's status was before.\<close>

lemma accepted_attempt:
  assumes ready: "outbound_ready s i d c out" and "\<not> oe_locked env i"
    and "oe_send env c out = Inr x" and "\<not> external_id_taken d x (es_db s)"
  shows "\<exists>s'. session_scope (route_outbound_delivery env i) s = (Inr None, s') \<and>
     outbound_ready s' i (d\<lparr>md_external_id := Some x\<rparr>) c out \<and>
     message_deliveries (es_db s') = message_deliveries (set_external_id i x (es_db s)) \<and>
     map dr_status (delivery_log (es_db s') i) = map dr_status (delivery_log (es_db s) i) @ [ACCEPTED]"
proof -
  let ?s = "begin_session s"
  have "outbound_ready ?s i d c out" using ready by (simp add: outbound_ready_def)
  then have route: "route_outbound_delivery env i ?s =
      give_up (persist_status (oe_now env) d ACCEPTED None (Some x) ?s)"
    using assms by (simp add: outbound_ready_sends send_outbound_def)
  have i: "md_id d = i" "delivery_of (es_db s) i = Some d"
    using ready delivery_of_in unfolding outbound_ready_def by blast+
  let ?db = "set_external_id i x (es_db s)"
  let ?rec = "fst (add_delivery_record (oe_now env) i ACCEPTED None ?db)"
  let ?db' = "snd (add_delivery_record (oe_now env) i ACCEPTED None ?db)"
  let ?s' = "publish (delivery_status_updated ?db' d ?rec) (?s\<lparr>es_db := ?db'\<rparr>)"
  have "persist_status (oe_now env) d ACCEPTED None (Some x) ?s = (Inr ?rec, ?s')"
    using assms(4) i by (simp add: persist_status_def case_prod_beta)
  then have "session_scope (route_outbound_delivery env i) s = (Inr None, ?s')"
    by (simp add: session_scope_def route give_up_def)
  moreover have "delivery_of ?db i = Some (d\<lparr>md_external_id := Some x\<rparr>)"
    using i by (simp add: delivery_of_def set_external_id_def find_row_update)
  moreover have "meta_of ?db = meta_of (es_db s)" "message_of ?db = message_of (es_db s)"
    "room_of ?db = room_of (es_db s)" "sender_record ?db = sender_record (es_db s)"
    by (simp_all add: fun_eq_iff meta_of_def message_of_def room_of_def sender_record_def set_external_id_def
        split: option.split)
  moreover have "build_outbound m r u (d\<lparr>md_external_id := Some x\<rparr>) = build_outbound m r u d" for m r u
    by (simp add: build_outbound_def)
  moreover have "map dr_status (delivery_log ?db' i) = map dr_status (delivery_log (es_db s) i) @ [ACCEPTED]"
    by (simp add: add_delivery_record_log) (simp add: add_delivery_record_def Let_def delivery_log_def set_external_id_def)
  moreover have "message_deliveries ?db' = message_deliveries ?db"
    by (simp add: add_delivery_record_def Let_def)
  ultimately show ?thesis
    using ready by (intro exI [of _ ?s']) (auto simp: outbound_ready_def)
qed

lemma recover_tasks:
  "dict_get (rn_tasks (recover items rn)) k =
     (if dict_get (rn_tasks rn) k = None \<and> (\<exists>(i, delay) \<in> set items. delay \<le> 0 \<and> k = OutboundKey (str_of_nat i))
      then Some Created else dict_get (rn_tasks rn) k)"
proof (induction items arbitrary: rn)
  case (Cons p items)
  obtain i delay where p: "p = (i, delay)" by fastforce
  have rec: "recover (p # items) rn = recover items
      (if delay > 0 then schedule_outbound_delivery_later (str_of_nat i) rn else schedule_outbound_delivery (str_of_nat i) rn)"
    by (simp add: recover_def p)
  show ?case
    unfolding rec Cons.IH by (auto simp: p schedule_outbound_delivery_def create_task_def)
qed (simp add: recover_def)

lemma processing_eq:
  assumes "tasks_ok rn" and "tasks_ok rn'"
    and "\<And>k. dict_get (rn_tasks rn') k = Some Processing \<longleftrightarrow> dict_get (rn_tasks rn) k = Some Processing"
  shows "length (processing rn') = length (processing rn)"
  using assms by (simp add: tasks_ok_def processing_card)

lemma finished_frees:
  assumes "runner_inv rn" and "dict_get (rn_tasks rn) (OutboundKey key) = Some Processing"
  shows "length (processing (finish_outbound key None rn)) < rn_max_tasks rn"
    and "dict_get (rn_tasks (finish_outbound key None rn)) (OutboundKey key) = None"
proof -
  let ?rn' = "finish_outbound key None rn"
  have t: "rn_tasks ?rn' = dict_pop (OutboundKey key) (rn_tasks rn)"
    using assms(2) by (simp add: finish_outbound_def mark_healthy_def)
  then show "dict_get (rn_tasks ?rn') (OutboundKey key) = None" by simp
  have wf: "dict_wf (rn_tasks rn)" "length (processing rn) \<le> rn_max_tasks rn"
    using assms(1) by (simp_all add: runner_inv_def tasks_ok_def)
  have wf': "dict_wf (rn_tasks ?rn')" using wf(1) by (simp add: t dict_wf_pop)
  have "{k. dict_get (rn_tasks ?rn') k = Some Processing} \<subset> {k. dict_get (rn_tasks rn) k = Some Processing}"
    using assms(2) by (auto simp: t)
  then have "length (processing ?rn') < length (processing rn)"
    unfolding processing_card [OF wf(1)] processing_card [OF wf'] by (rule psubset_card_mono [OF processing_finite])
  with wf(2) show "length (processing ?rn') < rn_max_tasks rn" by simp
qed

lemma two_attempts_send:
  fixes env1 env2 :: OutboundEnv
  assumes "chat_ok (es_db s)" and "outbound_ready s i d c out" and "\<not> oe_locked env1 i \<and> \<not> oe_locked env2 i"
    and "oe_send env1 c out = Inr x" and "oe_send env2 c out = Inr y"
    and "\<not> external_id_taken d x (es_db s)" and "\<not> external_id_taken d y (es_db s)"
  obtains s1 s2 where "process_outbound_delivery env1 (str_of_nat i) s = (None, s1)"
    "process_outbound_delivery env2 (str_of_nat i) s1 = (None, s2)" "i \<notin> owed (es_db s1)"
    "map dr_status (delivery_log (es_db s2) i) = map dr_status (delivery_log (es_db s) i) @ [ACCEPTED, ACCEPTED]"
proof -
  obtain s1 where s1: "session_scope (route_outbound_delivery env1 i) s = (Inr None, s1)"
      "outbound_ready s1 i (d\<lparr>md_external_id := Some x\<rparr>) c out"
      "message_deliveries (es_db s1) = message_deliveries (set_external_id i x (es_db s))"
      "map dr_status (delivery_log (es_db s1) i) = map dr_status (delivery_log (es_db s) i) @ [ACCEPTED]"
    using accepted_attempt [OF assms(2)] assms(3,4,6) by blast
  have "md_id d = i" using assms(2) delivery_of_in unfolding outbound_ready_def by blast
  then have free: "\<not> external_id_taken (d\<lparr>md_external_id := Some x\<rparr>) y (es_db s1)"
    using assms(7) by (auto simp: external_id_taken_def s1(3) set_external_id_def set_update_rows)
  obtain s2 where s2: "session_scope (route_outbound_delivery env2 i) s1 = (Inr None, s2)"
      "map dr_status (delivery_log (es_db s2) i) = map dr_status (delivery_log (es_db s1) i) @ [ACCEPTED]"
    using accepted_attempt [OF s1(2) _ assms(5) free] assms(3) by blast
  have "\<not> attempt_lost env1 i s" using assms(3) s1(1) by (simp add: attempt_lost_def)
  from outbound_session_settled [OF assms(1) this] s1(1) have "i \<notin> owed (es_db s1)" by simp
  then show ?thesis
    using that [of s1 s2] s1(1,4) s2 by (simp add: process_outbound_delivery_def)
qed

text \<open>
  C17: the scan can repeat a send. When the connection was lost while an attempt was
  under way, the scan of the new connection still reads the delivery as PENDING; if the
  attempt ends before the coroutine resumes, the delivery is scheduled again although it was
  accepted, and since an attempt never looks at the status the same message (with the
  same idempotency key) goes out twice.
\<close>

theorem recovery_race_sends_twice:
  fixes env1 env2 :: OutboundEnv
  assumes "reaches listen_step (new_listen_machine max_tasks s) M" and "chat_ok (es_db s)"
    and "ln_phase M = Listening" and "(i, 0) \<in> set (recover_pending_deliveries (es_db (ln_exec M)))"
    and "dict_get (rn_tasks (ln_runner M)) (OutboundKey (str_of_nat i)) = Some Processing"
    and "outbound_ready (ln_exec M) i d c out" and "\<not> oe_locked env1 i \<and> \<not> oe_locked env2 i"
    and "oe_send env1 c out = Inr x" and "oe_send env2 c out = Inr y"
    and "\<not> external_id_taken d x (es_db (ln_exec M))" and "\<not> external_id_taken d y (es_db (ln_exec M))"
  shows "\<exists>M1 M2. reaches listen_step M M1 \<and> reaches listen_step M1 M2 \<and>
     i \<notin> owed (es_db (ln_exec M1)) \<and>
     map dr_status (delivery_log (es_db (ln_exec M2)) i) =
       map dr_status (delivery_log (es_db (ln_exec M)) i) @ [ACCEPTED, ACCEPTED]"
proof -
  let ?key = "str_of_nat i"
  let ?items = "recover_pending_deliveries (es_db (ln_exec M))"
  have inv: "listen_inv M"
    using assms(1) new_listen_inv [OF assms(2)] by (rule listen_life.reaches_inv)
  then have rinv: "runner_inv (ln_runner M)" and ok: "chat_ok (es_db (ln_exec M))" by (simp_all add: listen_inv_def)
  obtain s1 s2 where s1: "process_outbound_delivery env1 ?key (ln_exec M) = (None, s1)" "i \<notin> owed (es_db s1)"
      and s2: "process_outbound_delivery env2 ?key s1 = (None, s2)" "map dr_status (delivery_log (es_db s2) i) =
        map dr_status (delivery_log (es_db (ln_exec M)) i) @ [ACCEPTED, ACCEPTED]"
    using ok assms(6-11) by (rule two_attempts_send)
  define A where "A = recovery_scan False M"
  define B where "B = attempt_done env1 ?key A"
  define C where "C = recovery_schedule B"
  define D where "D = on_runner (acquire (OutboundKey ?key)) C"
  define E where "E = attempt_done env2 ?key D"
  have A: "ln_runner A = ln_runner M" "ln_exec A = ln_exec M" "ln_phase A = Scanned ?items"
    by (simp_all add: A_def recovery_scan_def)
  have B: "ln_runner B = finish_outbound ?key None (ln_runner M)" "ln_exec B = s1" "ln_phase B = Scanned ?items"
    by (simp_all add: B_def attempt_done_def A s1(1))
  have C: "ln_runner C = recover ?items (ln_runner B)" "ln_exec C = s1"
    by (simp_all add: C_def recovery_schedule_def B)
  have fin: "length (processing (ln_runner B)) < rn_max_tasks (ln_runner M)"
      "dict_get (rn_tasks (ln_runner B)) (OutboundKey ?key) = None" "runner_inv (ln_runner B)"
    using finished_frees [OF rinv assms(5)] finish_outbound_inv(1) [OF rinv] by (simp_all add: B)
  have "runner_inv (ln_runner C)" using recover_inv(1) [OF fin(3)] by (simp add: C)
  have "length (processing (ln_runner C)) = length (processing (ln_runner B))"
    using fin(3) \<open>runner_inv (ln_runner C)\<close>
    by (intro processing_eq) (auto simp: runner_inv_def C recover_tasks)
  moreover have "rn_max_tasks (ln_runner C) = rn_max_tasks (ln_runner M)" by (simp add: C B)
  moreover have "dict_get (rn_tasks (ln_runner C)) (OutboundKey ?key) = Some Created"
    using assms(4) fin(2) by (auto simp: C recover_tasks)
  ultimately have D: "dict_get (rn_tasks (ln_runner D)) (OutboundKey ?key) = Some Processing" "ln_exec D = s1"
    using fin(1) by (simp_all add: D_def on_runner_def acquire_def C(2))
  have "ln_exec E = s2"
    by (simp add: E_def attempt_done_def D s2(1))
  have "listen_step M A" unfolding A_def by (rule scanned [OF assms(3)])
  moreover have "listen_step A B" unfolding B_def by (rule attempted) (simp add: A assms(5))
  ultimately have MB: "reaches listen_step M B" by (meson reaches.intros)
  have "listen_step B C" "listen_step C D" unfolding C_def D_def by (rule scheduled, rule admitted)
  moreover have "listen_step D E" unfolding E_def by (rule attempted [OF D(1)])
  ultimately have BE: "reaches listen_step B E" by (meson reaches.intros)
  show ?thesis
    using MB BE \<open>ln_exec E = s2\<close> s1(2) s2(2) by (intro exI [of _ B] exI [of _ E]) (simp add: B)
qed

text \<open>The connection is lost while the only delivery's first attempt is under way.\<close>

definition relistened_machine :: listen_machine where
  "relistened_machine = listen_registered (snd (connection_lost
     (on_runner (acquire (OutboundKey (str_of_nat 1))) (recovered_machine 1 sample_exec))))"

lemma relistened_machine_reached: "reaches listen_step (new_listen_machine 1 sample_exec) relistened_machine"
proof -
  let ?A = "on_runner (acquire (OutboundKey (str_of_nat 1))) (recovered_machine 1 sample_exec)"
  have "listen_step (recovered_machine 1 sample_exec) ?A" by (rule admitted)
  moreover have "listen_step ?A (snd (connection_lost ?A))"
    by (rule noticed [of _ True]) (simp add: on_runner_def recovered_machine_fields)
  moreover have "listen_step (snd (connection_lost ?A)) relistened_machine"
    unfolding relistened_machine_def by (rule registered) (simp add: connection_lost_def)
  ultimately show ?thesis
    using recovered_machine_reached [of 1 sample_exec] by (meson reaches.intros)
qed

lemma relistened_machine_fields:
  "ln_phase relistened_machine = Listening" "ln_exec relistened_machine = sample_exec"
  "dict_get (rn_tasks (ln_runner relistened_machine)) (OutboundKey (str_of_nat 1)) = Some Processing"
proof -
  show "ln_phase relistened_machine = Listening" "ln_exec relistened_machine = sample_exec"
    by (simp_all add: relistened_machine_def listen_registered_def connection_lost_def on_runner_def
        recovered_machine_fields)
  let ?rn = "ln_runner (recovered_machine 1 sample_exec)"
  have rn: "?rn = recover (recover_pending_deliveries (es_db sample_exec)) (new_runner 1)"
    by (simp add: recovered_machine_def recovery_schedule_def recovery_scan_def listen_registered_def
        new_listen_machine_def)
  have new: "rn_tasks (new_runner 1) = []" "runner_inv (new_runner 1)" "rn_max_tasks (new_runner 1) = 1"
    by (simp_all add: new_runner_def runner_inv_def runner_defs processing_def)
  have "dict_get (rn_tasks ?rn) k \<noteq> Some Processing" for k
    by (simp del: One_nat_def add: rn recover_tasks new)
  moreover have "runner_inv ?rn" using recover_inv(1) [OF new(2)] by (simp del: One_nat_def add: rn)
  ultimately have "length (processing ?rn) = 0"
    by (simp add: runner_inv_def tasks_ok_def processing_card)
  moreover have "dict_get (rn_tasks ?rn) (OutboundKey (str_of_nat 1)) = Some Created"
  proof -
    have "es_db sample_exec = sample_db" by (simp add: sample_exec_def)
    with sample_owed(2) show ?thesis
      by (auto simp del: One_nat_def simp: rn recover_tasks new)
  qed
  moreover have "rn_max_tasks ?rn = 1" by (simp del: One_nat_def add: rn new)
  ultimately show "dict_get (rn_tasks (ln_runner relistened_machine)) (OutboundKey (str_of_nat 1)) = Some Processing"
    by (simp del: One_nat_def add: relistened_machine_def listen_registered_def connection_lost_def
        on_runner_def acquire_def)
qed

theorem recovery_race_sends_twice_witness:
  "\<exists>M1 M2. reaches listen_step relistened_machine M1 \<and> reaches listen_step M1 M2 \<and>
     1 \<notin> owed (es_db (ln_exec M1)) \<and>
     map dr_status (delivery_log (es_db (ln_exec M2)) 1) = [PENDING, ACCEPTED, ACCEPTED]"
proof -
  let ?env = "\<lambda>x. sample_env (\<lambda>_ _. Inr x)"
  have db: "es_db sample_exec = sample_db" by (simp add: sample_exec_def)
  have "\<not> external_id_taken sample_delivery x sample_db" for x
    by (simp add: external_id_taken_def sample_defs store_message_def pending_meta_def delivery_rows_def)
  moreover have "map dr_status (delivery_log sample_db 1) = [PENDING]"
    by (simp add: delivery_log_def sample_defs store_message_def pending_meta_def record_rows_def)
  ultimately show ?thesis
    using recovery_race_sends_twice [OF relistened_machine_reached, of 1 sample_delivery sample_connector
        sample_outbound "?env ''a''" "?env ''b''" "''a''" "''b''"]
    by (simp del: One_nat_def add: relistened_machine_fields sample_ready sample_owed sample_db_ok db)
      (simp add: sample_env_def)
qed

section \<open>What a refused record strands\<close>

text \<open>
  C38: a sent message whose record is refused is forgotten until the next scan. When the external id
  the backend answers is taken on that backend, the flush raises an IntegrityError after the
  message went out; the task takes it for a deleted delivery: nothing is recorded, no retry is
  scheduled, and the delivery stays owed, so that the next recovery scan sends it again.
\<close>

theorem refused_record_strands_delivery:
  fixes env :: OutboundEnv
  assumes "outbound_ready (ln_exec M) i d c out" and "\<not> oe_locked env i" and "oe_send env c out = Inr x"
    and "external_id_taken d x (es_db (ln_exec M))" and "i \<in> owed (es_db (ln_exec M))"
    and "dict_get (rn_tasks (ln_runner M)) (OutboundKey (str_of_nat i)) = Some Processing"
    and "dict_get (rn_outbound_timers (ln_runner M)) (str_of_nat i) = None"
  shows "listen_step M (attempt_done env (str_of_nat i) M) \<and>
     es_db (ln_exec (attempt_done env (str_of_nat i) M)) = es_db (ln_exec M) \<and>
     str_of_nat i \<notin> tracked (ln_runner (attempt_done env (str_of_nat i) M)) \<and>
     i \<in> fst ` set (recover_pending_deliveries (es_db (ln_exec (attempt_done env (str_of_nat i) M))))"
proof -
  let ?s = "begin_session (ln_exec M)"
  have "outbound_ready ?s i d c out" using assms(1) by (simp add: outbound_ready_def)
  then have "route_outbound_delivery env i ?s = (Inl (IntegrityError True), ?s)"
    using assms(2-4) by (simp add: outbound_ready_sends send_outbound_def persist_status_def give_up_def)
  then have run: "process_outbound_delivery env (str_of_nat i) (ln_exec M) = (None, rollback ?s)"
    by (simp add: process_outbound_delivery_def session_scope_def)
  have "str_of_nat i \<notin> tracked (finish_outbound (str_of_nat i) None (ln_runner M))"
    using assms(6,7) by (simp add: finish_outbound_def tracked_def mark_healthy_def Let_def)
  with run assms(5) show ?thesis
    using attempted [OF assms(6), of env] by (simp add: attempt_done_def owed_def)
qed

text \<open>Another delivery of the backend has the external id the send answers.\<close>

definition taken_exec :: exec_state where
  "taken_exec = sample_exec\<lparr>es_db := sample_db\<lparr>message_deliveries := [sample_delivery,
     sample_delivery\<lparr>md_id := 2, md_recipient_identity := ''+1888'', md_external_id := Some ''a''\<rparr>]\<rparr>\<rparr>"

definition taken_machine :: listen_machine where
  "taken_machine = (new_listen_machine 1 taken_exec)
     \<lparr>ln_runner := (new_runner 1)\<lparr>rn_tasks := [(OutboundKey (str_of_nat 1), Processing)]\<rparr>\<rparr>"

lemma taken_ready: "outbound_ready taken_exec 1 sample_delivery sample_connector sample_outbound"
  unfolding outbound_ready_def
  by (simp add: taken_exec_def sample_exec_def sample_defs store_message_def pending_meta_def delivery_rows_def
      record_rows_def delivery_of_def meta_of_def message_of_def room_of_def find_row_def
      sender_record_def peek_def build_outbound_def new_store_def)

lemma taken_owed: "1 \<in> owed (es_db taken_exec)"
proof -
  have "delivery_records (es_db taken_exec) = delivery_records sample_db"
    "md_id ` set (message_deliveries (es_db taken_exec)) = {1, 2}"
    by (simp_all add: taken_exec_def sample_delivery_def)
  moreover from this(1) have "latest_by_id (es_db taken_exec) = latest_by_id sample_db"
    by (simp add: fun_eq_iff latest_by_id_def delivery_log_def)
  ultimately show ?thesis using sample_owed(1) by (simp add: owed_iff)
qed

theorem refused_record_strands_delivery_witness:
  "1 \<in> fst ` set (recover_pending_deliveries (es_db (ln_exec
     (attempt_done (sample_env (\<lambda>_ _. Inr ''a'')) (str_of_nat 1) taken_machine))))"
proof -
  have "external_id_taken sample_delivery ''a'' (es_db taken_exec)"
    by (simp add: external_id_taken_def taken_exec_def sample_delivery_def)
  moreover have "ln_exec taken_machine = taken_exec"
    "rn_tasks (ln_runner taken_machine) = [(OutboundKey (str_of_nat 1), Processing)]"
    "rn_outbound_timers (ln_runner taken_machine) = []"
    by (simp_all add: taken_machine_def new_listen_machine_def new_runner_def)
  moreover have "\<not> oe_locked (sample_env (\<lambda>_ _. Inr ''a'')) 1"
    "oe_send (sample_env (\<lambda>_ _. Inr ''a'')) sample_connector sample_outbound = Inr ''a''"
    by (simp_all add: sample_env_def)
  ultimately show ?thesis
    by (intro conjunct2 [OF conjunct2 [OF conjunct2 [OF refused_record_strands_delivery
          [where i = 1 and x = "''a''" and d = sample_delivery and c = sample_connector and out = sample_outbound]]]])
      (simp_all del: One_nat_def add: taken_ready taken_owed)
qed

end
