(* ===== verification/History.thy ===== *)
theory History
  imports Owed
begin

text \<open>
  The life of the chat tables under the executor of \<open>plugins/connectors/executor.py\<close> and the
  service that posts messages: outbound attempts, inbound messages, status reports, posted messages
  and removed tenants in any order. What is kept is the schema of \<open>Integrity\<close> together with the
  history of every delivery, its records against its retry count.
\<close>

section \<open>The history of a delivery\<close>

definition delivery_statuses :: "database \<Rightarrow> nat \<Rightarrow> DeliveryStatus list" where
  "delivery_statuses db i = map dr_status (delivery_log db i)"

text \<open>
  A history starts PENDING (posted) or DELIVERED (received); PENDING never comes back; RETRYING is there
  once for each of the first three failures and every failure after them is a DEAD_LETTER; only
  the executor itself, sending again, writes after DELIVERED.
\<close>

definition after_delivered :: "DeliveryStatus \<Rightarrow> DeliveryStatus \<Rightarrow> bool" where
  "after_delivered a b \<longleftrightarrow> (a = DELIVERED \<longrightarrow> b \<in> {ACCEPTED, RETRYING, DEAD_LETTER})"

definition history_good :: "int \<Rightarrow> DeliveryStatus list \<Rightarrow> bool" where
  "history_good retries hist \<longleftrightarrow>
     hist \<noteq> [] \<and> hd hist \<in> {PENDING, DELIVERED} \<and> PENDING \<notin> set (tl hist) \<and> 0 \<le> retries \<and>
     int (count_list hist RETRYING) = min 3 retries \<and> retries - 3 \<le> int (count_list hist DEAD_LETTER) \<and>
     successively after_delivered hist"

definition history_ok :: "database \<Rightarrow> bool" where
  "history_ok db \<longleftrightarrow> chat_ok db \<and> log_ok db \<and>
     (\<forall>d \<in> set (message_deliveries db). history_good (md_retry_count d) (delivery_statuses db (md_id d)))"

lemma history_single: "st \<in> {PENDING, DELIVERED} \<Longrightarrow> history_good 0 [st]"
  by (auto simp: history_good_def)

lemma history_report:
  assumes "history_good n hist" and "st \<notin> {PENDING, RETRYING}" and "after_delivered (last hist) st"
  shows "history_good n (hist @ [st])"
  using assms by (auto simp: history_good_def successively_append_iff)

lemma history_failure:
  assumes "history_good n hist"
  shows "history_good (n + 1) (hist @ [if n < 3 then RETRYING else DEAD_LETTER])"
  using assms by (auto simp: history_good_def successively_append_iff after_delivered_def)

lemma statuses_record:
  "delivery_statuses (snd (add_delivery_record now i st reason db)) j =
     delivery_statuses db j @ (if j = i then [st] else [])"
  by (simp add: delivery_statuses_def add_delivery_record_log) (simp add: add_delivery_record_def Let_def)

lemma statuses_frame [simp]:
  "delivery_statuses (set_external_id j x db) i = delivery_statuses db i"
  "delivery_statuses (set_retry_count j n db) i = delivery_statuses db i"
  by (simp_all add: delivery_statuses_def)

lemma statuses_cong: "delivery_records db = delivery_records db' \<Longrightarrow> delivery_statuses db = delivery_statuses db'"
  by (simp add: delivery_statuses_def delivery_log_def fun_eq_iff)

lemma log_ok_frame [simp]:
  "log_ok (set_external_id j x db) = log_ok db" "log_ok (set_retry_count j n db) = log_ok db"
  by (simp_all add: log_ok_def set_external_id_def set_retry_count_def)

lemma clock_ok_frame [simp]:
  "clock_ok now (set_external_id j x db) = clock_ok now db" "clock_ok now (set_retry_count j n db) = clock_ok now db"
  by (simp_all add: clock_ok_def set_external_id_def set_retry_count_def)

lemma status_is_last:
  assumes "log_ok db" and "delivery_statuses db i \<noteq> []"
  shows "status_of db i = Some (last (delivery_statuses db i))"
  using assms by (simp add: status_of_log_ok delivery_statuses_def last_opt_def last_map)

lemma record_deliveries [simp]:
  "message_deliveries (snd (add_delivery_record now i st reason db)) = message_deliveries db"
  by (simp add: add_delivery_record_def Let_def)

section \<open>What each write does to it\<close>

lemma history_append:
  assumes "chat_ok db" and "log_ok db" and "clock_ok now db" and "i \<in> md_id ` set (message_deliveries db)"
    and "\<And>e. e \<in> set (message_deliveries db) \<Longrightarrow>
      history_good (md_retry_count e) (delivery_statuses db (md_id e) @ (if md_id e = i then [st] else []))"
  shows "history_ok (snd (add_delivery_record now i st reason db))"
proof -
  have "ids_below db" using assms(1) by (simp add: chat_ok_def)
  with assms show ?thesis
    by (simp add: history_ok_def statuses_record add_delivery_record_ok add_delivery_record_log_ok)
qed

lemma history_record:
  assumes ok: "history_ok db" and clock: "clock_ok now db" and d: "d \<in> set (message_deliveries db)"
    and st: "st \<notin> {PENDING, RETRYING}"
    and final: "status_of db (md_id d) = Some DELIVERED \<longrightarrow> st \<in> {ACCEPTED, DEAD_LETTER}"
  shows "history_ok (snd (add_delivery_record now (md_id d) st reason db))"
proof -
  have chat: "chat_ok db" and log: "log_ok db" using ok by (simp_all add: history_ok_def)
  have good: "history_good (md_retry_count e) (delivery_statuses db (md_id e))"
    if "e \<in> set (message_deliveries db)" for e
    using ok that by (simp add: history_ok_def)
  have "after_delivered (last (delivery_statuses db (md_id d))) st"
    using final status_is_last [OF log] good [OF d] by (auto simp: after_delivered_def history_good_def)
  then have "history_good (md_retry_count e) (delivery_statuses db (md_id d) @ [st])"
    if "e \<in> set (message_deliveries db)" "md_id e = md_id d" for e
    using good [OF that(1)] st that(2) by (intro history_report) simp_all
  with good chat log clock d show ?thesis by (intro history_append) simp_all
qed

lemma history_external:
  assumes "history_ok db" and "\<not> external_id_taken d x db" and "d \<in> set (message_deliveries db)"
  shows "history_ok (set_external_id (md_id d) x db)"
proof -
  have "chat_ok (set_external_id (md_id d) x db)"
    using assms by (intro set_external_id_ok) (simp_all add: history_ok_def)
  with assms(1) show ?thesis
    by (auto simp: history_ok_def) (auto simp: set_external_id_def set_update_rows)
qed

lemma history_send_failure:
  assumes ok: "history_ok db" and clock: "clock_ok now db" and d: "d \<in> set (message_deliveries db)"
  shows "history_ok (snd (add_delivery_record now (md_id d) (if md_retry_count d < 3 then RETRYING else DEAD_LETTER)
     reason (set_retry_count (md_id d) (md_retry_count d + 1) db)))"
    (is "history_ok (snd (add_delivery_record now _ ?st reason ?db))")
proof -
  have chat: "chat_ok ?db" "log_ok ?db" "clock_ok now ?db"
    using ok clock by (simp_all add: history_ok_def set_retry_count_ok)
  moreover have "md_id d \<in> md_id ` set (message_deliveries ?db)" using d by simp
  moreover have "history_good (md_retry_count e) (delivery_statuses db (md_id e) @ (if md_id e = md_id d then [?st] else []))"
    if e: "e \<in> set (message_deliveries ?db)" for e
  proof -
    obtain e0 where e0: "e0 \<in> set (message_deliveries db)"
        "e = (if md_id e0 = md_id d then e0\<lparr>md_retry_count := md_retry_count d + 1\<rparr> else e0)"
      using e by (auto simp: set_retry_count_def set_update_rows)
    have good: "history_good (md_retry_count e0) (delivery_statuses db (md_id e0))"
      using ok e0(1) by (simp add: history_ok_def)
    show ?thesis
    proof (cases "md_id e0 = md_id d")
      case True
      have "keyed md_id (message_deliveries db)" using ok by (simp add: history_ok_def integrity_defs)
      with True d e0(1) have "e0 = d" by (blast dest: keyed_inj)
      with good history_failure [of "md_retry_count d" "delivery_statuses db (md_id d)"] e0(2)
      show ?thesis by simp
    qed (use good e0(2) in simp)
  qed
  ultimately show ?thesis by (intro history_append) simp_all
qed

lemma keyed_filter_eq: "keyed key rows \<Longrightarrow> r \<in> set rows \<Longrightarrow> filter (\<lambda>x. key x = key r) rows = [r]"
proof (induction rows)
  case (Cons a rows)
  then have new: "key a \<notin> key ` set rows" and "keyed key rows" by (simp_all add: keyed_def)
  show ?case
  proof (cases "r = a")
    case True
    with new have "filter (\<lambda>x. key x = key r) rows = []" unfolding filter_empty_conv by (metis image_eqI)
    with True show ?thesis by simp
  next
    case False
    then have "r \<in> set rows" using Cons.prems(2) by simp
    with new \<open>keyed key rows\<close> Cons.IH show ?thesis by auto
  qed
qed simp

lemma fresh_delivery_history:
  assumes "d \<in> set (delivery_rows m ds db)" and "\<forall>x \<in> set ds. nd_status x \<in> {PENDING, DELIVERED}"
  shows "md_retry_count d = 0"
    and "\<exists>st \<in> {PENDING, DELIVERED}. map dr_status (filter (\<lambda>r. dr_delivery_id r = md_id d) (record_rows now ds db)) = [st]"
proof -
  show "md_retry_count d = 0" using assms(1) by (auto simp: delivery_rows_def)
  obtain k where k: "k < length ds" "md_id d = next_delivery_id db + k"
    using assms(1) by (auto simp: delivery_rows_def in_set_enumerate_eq) (metis add.commute le_add_diff_inverse less_diff_conv2)
  let ?r = "\<lparr>dr_id = next_record_id db + k, dr_delivery_id = next_delivery_id db + k,
      dr_status = nd_status (ds ! k), dr_reason = None, dr_timestamp = now\<rparr>"
  have "keyed dr_delivery_id (record_rows now ds db)"
    by (simp add: keyed_def record_rows_ids distinct_map)
  moreover have "?r \<in> set (record_rows now ds db)"
    using k(1) by (force simp: record_rows_def in_set_enumerate_eq)
  ultimately have "filter (\<lambda>r. dr_delivery_id r = dr_delivery_id ?r) (record_rows now ds db) = [?r]"
    by (rule keyed_filter_eq)
  with k assms(2) show "\<exists>st \<in> {PENDING, DELIVERED}.
      map dr_status (filter (\<lambda>r. dr_delivery_id r = md_id d) (record_rows now ds db)) = [st]"
    by (intro bexI [of _ "nd_status (ds ! k)"]) auto
qed

lemma record_rows_sorted:
  "sorted_wrt (\<lambda>r s. dr_id r < dr_id s \<and> dr_timestamp r \<le> dr_timestamp s) (record_rows now ds db)"
  by (simp add: record_rows_def sorted_wrt_iff_nth_less nth_enumerate_eq)

lemma store_message_log_ok:
  assumes "log_ok db" and "ids_below db" and "clock_ok now db"
  shows "log_ok (store_message now m (Some nm) db)"
proof -
  have "dr_timestamp r = now" if "r \<in> set (record_rows now (nm_deliveries nm) db)" for r
    using that by (auto simp: record_rows_def)
  then show ?thesis
    using assms record_rows_sorted [of now "nm_deliveries nm" db]
    by (auto simp: log_ok_def store_message_fields sorted_wrt_append ids_below_def clock_ok_def dest: record_rows_in(1))
      (meson leD linorder_not_le order_less_le_trans record_rows_in(1))
qed

lemma history_stored:
  assumes ok: "history_ok db" and clock: "clock_ok now db" and valid: "violates_message m (Some nm) db = None"
    and st: "\<forall>x \<in> set (nm_deliveries nm). nd_status x \<in> {PENDING, DELIVERED}"
  shows "history_ok (store_message now m (Some nm) db)"
proof -
  let ?rs = "record_rows now (nm_deliveries nm) db"
  have chat: "chat_ok db" and "log_ok db" using ok by (simp_all add: history_ok_def)
  have log: "delivery_log (store_message now m (Some nm) db) i =
      delivery_log db i @ filter (\<lambda>r. dr_delivery_id r = i) ?rs" for i
    by (simp add: delivery_log_def store_message_fields)
  have "history_good (md_retry_count d) (delivery_statuses (store_message now m (Some nm) db) (md_id d))"
    if "d \<in> set (message_deliveries db)" for d
  proof -
    have "md_id d < next_delivery_id db" using that chat by (auto simp: integrity_defs)
    then have "filter (\<lambda>r. dr_delivery_id r = md_id d) ?rs = []"
      using record_rows_in(2) delivery_rows_id_in by (fastforce simp: filter_empty_conv)
    with ok that show ?thesis by (simp add: history_ok_def delivery_statuses_def log)
  qed
  moreover have "history_good (md_retry_count d) (delivery_statuses (store_message now m (Some nm) db) (md_id d))"
    if new: "d \<in> set (delivery_rows (rm_uuid m) (nm_deliveries nm) db)" for d
  proof -
    have "delivery_log db (md_id d) = []"
      using chat delivery_rows_id_in [OF new]
      by (fastforce simp: delivery_log_def filter_empty_conv integrity_defs refs_def)
    then obtain st where "st \<in> {PENDING, DELIVERED}"
        "delivery_statuses (store_message now m (Some nm) db) (md_id d) = [st]"
      using fresh_delivery_history(2) [OF new st, of now] by (auto simp: delivery_statuses_def log)
    with fresh_delivery_history(1) [OF new st] show ?thesis by (metis history_single)
  qed
  ultimately show ?thesis
    using store_message_ok [OF valid chat] store_message_log_ok [OF \<open>log_ok db\<close> _ clock] chat
    by (auto simp: history_ok_def store_message_fields chat_ok_def)
qed

lemma history_rooms:
  assumes "history_ok db" and "chat_ok db'" and "message_deliveries db' = message_deliveries db"
    and "delivery_records db' = delivery_records db"
  shows "history_ok db'"
  using assms statuses_cong [OF assms(4)] by (simp add: history_ok_def log_ok_def)

text \<open>A removed message takes its deliveries and their whole logs along.\<close>

lemma history_cascade_messages:
  assumes "history_ok db"
  shows "history_ok (cascade_messages p db)"
proof -
  define gone where "gone = {d \<in> set (message_deliveries db). md_message_uuid d \<in> rm_uuid ` {m \<in> set (room_messages db). p m}}"
  have deliveries: "set (message_deliveries (cascade_messages p db)) = set (message_deliveries db) - gone"
    by (auto simp: cascade_messages_def Let_def gone_def)
  have records: "delivery_records (cascade_messages p db) =
      filter (\<lambda>r. dr_delivery_id r \<notin> md_id ` gone) (delivery_records db)"
    by (simp add: cascade_messages_def Let_def gone_def delete_rows_def)
  have "delivery_statuses (cascade_messages p db) (md_id d) = delivery_statuses db (md_id d)"
    if "d \<in> set (message_deliveries db) - gone" for d
  proof -
    have "keyed md_id (message_deliveries db)" using assms by (simp add: history_ok_def integrity_defs)
    then have "md_id d \<notin> md_id ` gone" using that by (auto simp: gone_def dest: keyed_inj)
    then show ?thesis
      by (auto simp: delivery_statuses_def delivery_log_def records intro!: arg_cong [where f = "map dr_status"] filter_cong)
        (metis image_eqI)
  qed
  with assms show ?thesis
    by (simp add: history_ok_def deliveries cascade_messages_chat) (simp add: log_ok_def records sorted_wrt_filter)
qed

lemma cascade_delivery_fields:
  "message_deliveries (cascade_identities p1 db) = message_deliveries db"
  "delivery_records (cascade_identities p1 db) = delivery_records db"
  "message_deliveries (cascade_users p2 db) = message_deliveries db"
  "delivery_records (cascade_users p2 db) = delivery_records db"
  by (simp_all add: cascade_identities_def cascade_users_def cascade_lines_def Let_def)

lemma history_cascade_rooms:
  assumes "history_ok db"
  shows "history_ok (cascade_rooms p db)"
proof -
  define q :: "RoomMessage \<Rightarrow> bool" where "q = (\<lambda>m. rm_room_uuid m \<in> ro_uuid ` {r \<in> set (rooms db). p r})"
  have same: "message_deliveries (cascade_rooms p db) = message_deliveries (cascade_messages q db)"
    "delivery_records (cascade_rooms p db) = delivery_records (cascade_messages q db)"
    by (simp_all add: cascade_rooms_def Let_def q_def)
  have "chat_ok (cascade_rooms p db)"
    using assms by (intro cascade_rooms_chat) (simp add: history_ok_def)
  then show ?thesis
    by (rule history_rooms [OF history_cascade_messages [OF assms, of q] _ same])
qed

lemma history_cascade_tenants:
  assumes "history_ok db" and "presence_ok db"
  shows "history_ok (cascade_tenants p db)"
proof -
  define q :: "Room \<Rightarrow> bool" where "q = (\<lambda>r. ro_tenant_uuid r \<in> tn_uuid ` {t \<in> set (tenants db). p t})"
  have same: "message_deliveries (cascade_tenants p db) = message_deliveries (cascade_rooms q db)"
    "delivery_records (cascade_tenants p db) = delivery_records (cascade_rooms q db)"
    unfolding cascade_tenants_def Let_def q_def [symmetric] by (simp_all add: cascade_delivery_fields)
  have "chat_ok (cascade_tenants p db)"
    using assms by (intro cascade_tenants_ok) (simp_all add: history_ok_def)
  then show ?thesis
    by (rule history_rooms [OF history_cascade_rooms [OF assms(1), of q] _ same])
qed

section \<open>What each session does to it\<close>

lemma prepare_history:
  assumes "prepare_pending_delivery now m recipients backend ty sender extra db = Inr (db', ids)"
    and "history_ok db" and "clock_ok now db"
  shows "history_ok db'"
proof -
  have "insert_message now m (Some (pending_meta recipients backend ty sender extra)) db = Inr db'"
    using assms(1) by (auto simp: prepare_pending_delivery_def Let_def split: sum.splits)
  with assms(2,3) show ?thesis
    by (auto simp: insert_message_Inr pending_meta_def intro!: history_stored split: option.splits)
qed

lemma inbound_history:
  assumes "history_ok (es_db s)" and "clock_ok (ie_now env) (es_db s)"
  shows "history_ok (es_db (snd (session_scope (route_inbound env inbound attempt) s)))"
proof -
  have same: "history_ok (es_db s1)" "clock_ok (ie_now env) (es_db s1)"
    if "inbound_room env inbound (begin_session s) sender recipient su r s1" for sender recipient su r s1
  proof -
    have "chat_ok (es_db s1)" by (rule inbound_room_ok [OF that]) (use assms in \<open>simp add: history_ok_def\<close>)
    with assms show "history_ok (es_db s1)" "clock_ok (ie_now env) (es_db s1)"
      using inbound_room_frame(3,4) [OF that] by (simp_all add: history_rooms clock_ok_def)
  qed
  show ?thesis
  proof (cases rule: inbound_session_cases [of env inbound attempt s])
    case (only_room sender recipient su r s1)
    with same [OF only_room(1)] show ?thesis by simp
  next
    case (confirmed sender recipient su r s1 meta d)
    with same [OF confirmed(1)] show ?thesis by (simp add: history_record)
  next
    case (stored sender recipient su r s1 sp)
    have "history_ok (inbound_message_of env inbound r sp (es_db s1))"
      unfolding inbound_message_of_def using stored(4) same [OF stored(1)]
      by (intro history_stored) (simp_all add: inbound_meta_def)
    with stored show ?thesis by simp
  qed (use assms in simp)
qed

lemma status_history:
  assumes "history_ok (es_db s)" and "clock_ok (ie_now env) (es_db s)" and "reports_closed (ie_registry env)"
  shows "history_ok (es_db (snd (session_scope (route_status_update env u attempt) s)))"
proof (cases rule: status_session_cases [of env u attempt s])
  case (recorded d status reason cls)
  then have "\<not> open_status status" using assms(3) by (auto simp: reports_closed_def)
  with recorded assms(1,2) show ?thesis by (simp add: history_record open_status_iff)
qed (use assms in simp)

lemma send_failure_history:
  assumes "history_ok (es_db s)" and "clock_ok now (es_db s)" and "d \<in> set (message_deliveries (es_db s))"
  shows "history_ok (es_db (snd (record_send_failure now d reason retry_after s)))"
  using history_send_failure [OF assms] 
  by (cases "md_retry_count d < 3") (simp_all add: record_send_failure_plain persist_status_plain Let_def)

lemma persist_history:
  assumes "history_ok (es_db s)" and "clock_ok now (es_db s)" and "d \<in> set (message_deliveries (es_db s))"
    and "status \<in> {ACCEPTED, DEAD_LETTER}"
  shows "history_ok (es_db (snd (persist_status now d status reason x s)))"
proof (cases x)
  case None
  with assms show ?thesis by (auto simp: persist_status_plain intro!: history_record)
next
  case (Some y)
  show ?thesis
  proof (cases "external_id_taken d y (es_db s)")
    case False
    have "md_id d \<in> md_id ` set (message_deliveries (set_external_id (md_id d) y (es_db s)))"
      using assms(3) by simp
    then obtain e where e: "e \<in> set (message_deliveries (set_external_id (md_id d) y (es_db s)))"
        "md_id e = md_id d" by force
    have "history_ok (set_external_id (md_id d) y (es_db s))"
      using assms(1) False assms(3) by (rule history_external)
    then have "history_ok (snd (add_delivery_record now (md_id e) status reason (set_external_id (md_id d) y (es_db s))))"
      using assms(2,4) e(1) by (intro history_record) auto
    with False Some e(2) show ?thesis by (simp add: persist_status_def case_prod_beta)
  qed (use assms Some in \<open>simp add: persist_status_def\<close>)
qed

lemma outbound_history:
  assumes "history_ok (es_db s)" and "clock_ok (oe_now env) (es_db s)"
  shows "history_ok (es_db (snd (session_scope (route_outbound_delivery env i) s)))"
proof -
  let ?run = "route_outbound_delivery env i (begin_session s)"
  have "history_ok (es_db (snd ?run))"
  proof (cases rule: route_outbound_cases [of env i "begin_session s"])
    case nothing
    with assms show ?thesis by simp
  next
    case (dead d reason s1)
    with assms delivery_of_in [of "es_db s" i d] show ?thesis by (simp add: persist_history)
  next
    case (failed d reason s1)
    with assms delivery_of_in [of "es_db s" i d] show ?thesis by (simp add: send_failure_history)
  next
    case (attempt d c m s1)
    with assms delivery_of_in [of "es_db s" i d] show ?thesis
      by (simp add: send_outbound_def persist_history send_failure_history split: sum.split exn.split)
  qed
  with assms show ?thesis
    using route_outbound_base [of env i "begin_session s"]
    by (cases "fst ?run") (auto simp: session_scope_def split: prod.splits)
qed

section \<open>The executor's life\<close>

text \<open>
  Steps in any order, on any input, whatever the outside answers. The clock of a step is not before the
  records already written, and the \<open>status_map\<close> of no backend names PENDING or RETRYING, which the
  executor writes itself. Posting is \<open>prepare_pending_delivery\<close>, called by the service; a tenant
  goes with everything that refers to it, from tables whose presence part is valid.
\<close>

inductive executor_step :: "exec_state \<Rightarrow> exec_state \<Rightarrow> bool" where
  outbound: "clock_ok (oe_now env) (es_db s) \<Longrightarrow>
    executor_step s (snd (session_scope (route_outbound_delivery env i) s))"
| inbound: "clock_ok (ie_now ienv) (es_db s) \<Longrightarrow>
    executor_step s (snd (session_scope (route_inbound ienv m attempt) s))"
| status: "clock_ok (ie_now ienv) (es_db s) \<Longrightarrow> reports_closed (ie_registry ienv) \<Longrightarrow>
    executor_step s (snd (session_scope (route_status_update ienv u attempt) s))"
| posted: "prepare_pending_delivery now msg recipients backend ty sender extra (es_db s) = Inr (db, ids) \<Longrightarrow>
    clock_ok now (es_db s) \<Longrightarrow> executor_step s (s\<lparr>es_db := db\<rparr>)"
| removed: "presence_ok (es_db s) \<Longrightarrow> executor_step s (s\<lparr>es_db := cascade_tenants gone (es_db s)\<rparr>)"

inductive_cases executor_stepE: "executor_step s s'"

interpretation executor_life: invariant_system executor_step "\<lambda>s. history_ok (es_db s)"
  by unfold_locales
    (erule executor_stepE; simp add: outbound_history inbound_history status_history prepare_history
      history_cascade_tenants)

text \<open>
  C5: the executor keeps the books. Start from tables that satisfy the schema and whose deliveries
  have consistent histories (an empty delivery table will do), and run outbound attempts, inbound
  messages, status reports, posted messages and removals of tenants (from valid presence tables) in any
  order, with a clock that does not go back behind the stored records and, for the reports,
  backends whose status maps never name PENDING or RETRYING. Afterwards the
  chat tables satisfy the schema, and for every delivery: the history starts PENDING or
  DELIVERED and never returns to PENDING; RETRYING is recorded exactly as often as failures were
  counted, three times at most; every counted failure above three has its DEAD_LETTER; and after DELIVERED
  the next record, if any, is ACCEPTED, RETRYING or DEAD_LETTER, that is the executor's own and no report's.
\<close>

theorem executor_keeps_history:
  assumes "reaches executor_step s s'" and "history_ok (es_db s)"
  shows "chat_ok (es_db s') \<and>
     (\<forall>d \<in> set (message_deliveries (es_db s')).
        history_good (md_retry_count d) (map dr_status (delivery_log (es_db s') (md_id d))))"
  using executor_life.reaches_inv [OF assms] by (simp add: history_ok_def delivery_statuses_def)

theorem executor_keeps_history_witness:
  "\<exists>s d. session_scope (route_outbound_delivery (sample_env (\<lambda>_ _. Inl (ConnectorSendError ''down''))) 1) sample_exec =
       (Inr (Some 30), s) \<and>
     d \<in> set (message_deliveries (es_db s)) \<and> md_retry_count d = 1 \<and>
     history_good (md_retry_count d) (map dr_status (delivery_log (es_db s) (md_id d)))"
proof -
  let ?env = "sample_env (\<lambda>_ _. Inl (ConnectorSendError ''down''))"
  let ?s = "sample_exec\<lparr>es_db := sample_chat\<rparr>"
  have ok: "history_ok (es_db ?s)"
    using sample_chat_ok by (simp add: history_ok_def) (simp add: sample_chat_def empty_db_def)
  have "executor_step ?s (?s\<lparr>es_db := sample_db\<rparr>)"
  proof (rule posted)
    show "prepare_pending_delivery 1000 sample_message [''+1777''] ''sms'' ''sms'' (Some ''i1'') [] (es_db ?s) =
        Inr (sample_db, [1])"
      using sample_prepared by (simp add: sample_db_def)
    show "clock_ok 1000 (es_db ?s)" by (simp add: clock_ok_def sample_chat_def empty_db_def)
  qed
  moreover have "?s\<lparr>es_db := sample_db\<rparr> = sample_exec" "es_db sample_exec = sample_db"
    by (simp_all add: sample_exec_def)
  moreover have "clock_ok (oe_now ?env) sample_db"
    by (simp add: clock_ok_def sample_env_def sample_defs store_message_def pending_meta_def record_rows_def)
  ultimately have run: "reaches executor_step ?s (snd (session_scope (route_outbound_delivery ?env 1) sample_exec))"
    by (metis outbound reaches_step reaches_refl)
  obtain s' where s': "session_scope (route_outbound_delivery ?env 1) sample_exec = (Inr (Some 30), s')"
      "outbound_ready s' 1 (sample_delivery\<lparr>md_retry_count := 1\<rparr>) sample_connector sample_outbound"
    using failing_attempt [OF sample_ready, of ?env "ConnectorSendError ''down''"]
    by (auto simp: sample_env_def sample_delivery_def failure_delay_def compute_outbound_retry_delay_values)
  then have "sample_delivery\<lparr>md_retry_count := 1\<rparr> \<in> set (message_deliveries (es_db s'))"
    using delivery_of_in by (auto simp: outbound_ready_def)
  with s'(1) executor_keeps_history [OF run ok] show ?thesis by force
qed

end
