(* ===== verification/Schema.thy ===== *)
theory Schema
  imports Integrity
begin

text \<open>
  The schema as data: what \<open>database/models.py\<close> declares (columns, keys, foreign keys, unique
  constraints, checks and indexes of every mapped class), the DDL of the Alembic
  scripts under \<open>alembic/versions\<close> (the SQL baseline and the connector models) as operations
  on a schema, and the meaning of the declared constraints on the tables of \<open>Models\<close>.
\<close>

section \<open>Schemas\<close>

datatype column_type =
    UuidType
  | StringType "nat option"
  | TextType
  | BooleanType
  | DateTimeType
  | IntegerType
  | SmallIntegerType
  | JsonbType

datatype on_delete = Cascade | SetNull

record column =
  co_name :: string
  co_type :: column_type
  co_nullable :: bool
  co_primary :: bool
  co_autoincrement :: bool
  co_references :: "(string \<times> string \<times> on_delete) option"
  co_default :: "string option"

text \<open>A partial index keeps the rows whose column is not null; the default access method is btree.\<close>

record index =
  ix_name :: string
  ix_columns :: "string list"
  ix_unique :: bool
  ix_not_null :: "string option"
  ix_using :: string

record table =
  tb_columns :: "column list"
  tb_uniques :: "(string option \<times> string list) list"
  tb_checks :: "(string \<times> string list) list"   \<comment> \<open>the column and the values it may have\<close>
  tb_indexes :: "index list"

type_synonym schema = "(string, table) dict"

text \<open>
  \<open>Column(...)\<close> with its options; a primary key column is never null. A server default is its
  SQL text, without the quotes of a leading literal.
\<close>

definition Column :: "string \<Rightarrow> column_type \<Rightarrow> column" where
  "Column name ty = \<lparr>co_name = name, co_type = ty, co_nullable = True, co_primary = False,
     co_autoincrement = False, co_references = None, co_default = None\<rparr>"

definition primary_key :: "column \<Rightarrow> column" where
  "primary_key c = c\<lparr>co_primary := True, co_nullable := False\<rparr>"

definition not_null :: "column \<Rightarrow> column" where
  "not_null c = c\<lparr>co_nullable := False\<rparr>"

definition autoincrement :: "column \<Rightarrow> column" where
  "autoincrement c = c\<lparr>co_autoincrement := True\<rparr>"

definition foreign_key :: "string \<Rightarrow> string \<Rightarrow> on_delete \<Rightarrow> column \<Rightarrow> column" where
  "foreign_key t col act c = c\<lparr>co_references := Some (t, col, act)\<rparr>"

definition server_default :: "string \<Rightarrow> column \<Rightarrow> column" where
  "server_default d c = c\<lparr>co_default := Some d\<rparr>"

definition Index :: "string \<Rightarrow> string list \<Rightarrow> index" where
  "Index name cols = \<lparr>ix_name = name, ix_columns = cols, ix_unique = False, ix_not_null = None,
     ix_using = ''btree''\<rparr>"

definition Table :: "column list \<Rightarrow> table" where
  "Table cols = \<lparr>tb_columns = cols, tb_uniques = [], tb_checks = [], tb_indexes = []\<rparr>"

section \<open>What the models declare (database/models.py)\<close>

definition Tenant_table :: table where
  "Tenant_table = Table [primary_key (Column ''uuid'' UuidType)]"

definition User_table :: table where
  "User_table = (Table [
     primary_key (Column ''uuid'' UuidType),
     not_null (foreign_key ''chatd_tenant'' ''uuid'' Cascade (Column ''tenant_uuid'' UuidType)),
     not_null (Column ''state'' (StringType (Some 24))),
     Column ''status'' TextType,
     server_default ''false'' (not_null (Column ''do_not_disturb'' BooleanType)),
     Column ''last_activity'' DateTimeType])
   \<lparr>tb_checks := [(''state'', [''available'', ''unavailable'', ''invisible'', ''away''])],
    tb_indexes := [Index ''chatd_user__idx__tenant_uuid'' [''tenant_uuid'']]\<rparr>"

definition Session_table :: table where
  "Session_table = (Table [
     primary_key (Column ''uuid'' UuidType),
     not_null (Column ''mobile'' BooleanType),
     not_null (foreign_key ''chatd_user'' ''uuid'' Cascade (Column ''user_uuid'' UuidType))])
   \<lparr>tb_indexes := [Index ''chatd_session__idx__user_uuid'' [''user_uuid'']]\<rparr>"

definition RefreshToken_table :: table where
  "RefreshToken_table = Table [
     primary_key (Column ''client_id'' TextType),
     primary_key (foreign_key ''chatd_user'' ''uuid'' Cascade (Column ''user_uuid'' UuidType)),
     not_null (Column ''mobile'' BooleanType)]"

definition Line_table :: table where
  "Line_table = (Table [
     autoincrement (primary_key (Column ''id'' IntegerType)),
     not_null (foreign_key ''chatd_user'' ''uuid'' Cascade (Column ''user_uuid'' UuidType)),
     foreign_key ''chatd_endpoint'' ''name'' SetNull (Column ''endpoint_name'' TextType),
     Column ''media'' (StringType (Some 24))])
   \<lparr>tb_checks := [(''media'', [''audio'', ''video''])],
    tb_indexes := [Index ''chatd_line__idx__user_uuid'' [''user_uuid''],
      Index ''chatd_line__idx__endpoint_name'' [''endpoint_name'']]\<rparr>"

definition Endpoint_table :: table where
  "Endpoint_table = (Table [
     primary_key (Column ''name'' TextType),
     not_null (Column ''state'' (StringType (Some 24)))])
   \<lparr>tb_checks := [(''state'', [''available'', ''unavailable''])]\<rparr>"

definition Channel_table :: table where
  "Channel_table = (Table [
     primary_key (Column ''name'' TextType),
     not_null (Column ''state'' (StringType (Some 24))),
     not_null (foreign_key ''chatd_line'' ''id'' Cascade (Column ''line_id'' IntegerType))])
   \<lparr>tb_checks := [(''state'', [''undefined'', ''holding'', ''ringing'', ''talking'', ''progressing''])],
    tb_indexes := [Index ''chatd_channel__idx__line_id'' [''line_id'']]\<rparr>"

definition Room_table :: table where
  "Room_table = (Table [
     server_default ''uuid_generate_v4()'' (primary_key (Column ''uuid'' UuidType)),
     Column ''name'' TextType,
     not_null (foreign_key ''chatd_tenant'' ''uuid'' Cascade (Column ''tenant_uuid'' UuidType))])
   \<lparr>tb_indexes := [Index ''chatd_room__idx__tenant_uuid'' [''tenant_uuid'']]\<rparr>"

definition RoomUser_table :: table where
  "RoomUser_table = (Table [
     primary_key (foreign_key ''chatd_room'' ''uuid'' Cascade (Column ''room_uuid'' UuidType)),
     primary_key (Column ''uuid'' UuidType),
     primary_key (Column ''tenant_uuid'' UuidType),
     primary_key (Column ''wazo_uuid'' UuidType),
     Column ''identity'' (StringType None)])
   \<lparr>tb_indexes := [Index ''chatd_room_user__idx__identity'' [''identity'']]\<rparr>"

definition RoomMessage_table :: table where
  "RoomMessage_table = (Table [
     server_default ''uuid_generate_v4()'' (primary_key (Column ''uuid'' UuidType)),
     not_null (foreign_key ''chatd_room'' ''uuid'' Cascade (Column ''room_uuid'' UuidType)),
     Column ''content'' TextType,
     Column ''alias'' (StringType (Some 256)),
     not_null (Column ''user_uuid'' UuidType),
     not_null (Column ''tenant_uuid'' UuidType),
     not_null (Column ''wazo_uuid'' UuidType),
     server_default ''(now() at time zone 'utc')'' (not_null (Column ''created_at'' DateTimeType))])
   \<lparr>tb_indexes := [Index ''chatd_room_message__idx__room_uuid'' [''room_uuid'']]\<rparr>"

definition UserIdentity_table :: table where
  "UserIdentity_table = (Table [
     server_default ''uuid_generate_v4()'' (primary_key (Column ''uuid'' UuidType)),
     not_null (foreign_key ''chatd_tenant'' ''uuid'' Cascade (Column ''tenant_uuid'' UuidType)),
     not_null (foreign_key ''chatd_user'' ''uuid'' Cascade (Column ''user_uuid'' UuidType)),
     not_null (Column ''backend'' (StringType None)),
     not_null (Column ''type'' (StringType None)),
     not_null (Column ''identity'' (StringType None)),
     server_default ''{}::jsonb'' (not_null (Column ''extra'' JsonbType))])
   \<lparr>tb_uniques := [(None, [''backend'', ''identity'', ''type''])],
    tb_indexes := [Index ''chatd_user_identity__idx__tenant_uuid'' [''tenant_uuid''],
      Index ''chatd_user_identity__idx__user_uuid'' [''user_uuid'']]\<rparr>"

definition MessageMeta_table :: table where
  "MessageMeta_table = (Table [
     primary_key (foreign_key ''chatd_room_message'' ''uuid'' Cascade (Column ''message_uuid'' UuidType)),
     foreign_key ''chatd_user_identity'' ''uuid'' SetNull (Column ''sender_identity_uuid'' UuidType),
     server_default ''{}::jsonb'' (not_null (Column ''extra'' JsonbType))])
   \<lparr>tb_indexes := [(Index ''chatd_message_meta__idx__extra'' [''extra''])\<lparr>ix_using := ''gin''\<rparr>]\<rparr>"

definition MessageDelivery_table :: table where
  "MessageDelivery_table = (Table [
     autoincrement (primary_key (Column ''id'' IntegerType)),
     not_null (foreign_key ''chatd_message_meta'' ''message_uuid'' Cascade (Column ''message_uuid'' UuidType)),
     not_null (Column ''recipient_identity'' (StringType None)),
     not_null (Column ''backend'' (StringType None)),
     not_null (Column ''type'' (StringType None)),
     Column ''external_id'' (StringType None),
     server_default ''0'' (not_null (Column ''retry_count'' SmallIntegerType))])
   \<lparr>tb_uniques := [(Some ''chatd_message_delivery__uq__msg_recipient'', [''message_uuid'', ''recipient_identity''])],
    tb_indexes := [(Index ''chatd_message_delivery__uq__external_id'' [''external_id'', ''backend''])
      \<lparr>ix_unique := True, ix_not_null := Some ''external_id''\<rparr>]\<rparr>"

definition DeliveryRecord_table :: table where
  "DeliveryRecord_table = (Table [
     autoincrement (primary_key (Column ''id'' IntegerType)),
     not_null (foreign_key ''chatd_message_delivery'' ''id'' Cascade (Column ''delivery_id'' IntegerType)),
     not_null (Column ''status'' (StringType None)),
     Column ''reason'' (StringType None),
     server_default ''(now() at time zone 'utc')'' (not_null (Column ''timestamp'' DateTimeType))])
   \<lparr>tb_indexes := [Index ''chatd_delivery_record__idx__delivery_id'' [''delivery_id'']]\<rparr>"

definition models_schema :: schema where
  "models_schema =
     [(''chatd_tenant'', Tenant_table), (''chatd_user'', User_table), (''chatd_session'', Session_table),
      (''chatd_refresh_token'', RefreshToken_table), (''chatd_line'', Line_table),
      (''chatd_endpoint'', Endpoint_table), (''chatd_channel'', Channel_table), (''chatd_room'', Room_table),
      (''chatd_room_user'', RoomUser_table), (''chatd_room_message'', RoomMessage_table),
      (''chatd_user_identity'', UserIdentity_table), (''chatd_message_meta'', MessageMeta_table),
      (''chatd_message_delivery'', MessageDelivery_table), (''chatd_delivery_record'', DeliveryRecord_table)]"

section \<open>Data definition statements\<close>

datatype ddl =
    CreateTable string table
  | AddColumn string column
  | AddPrimaryKey string "string list"
  | AddForeignKey string string "string \<times> string \<times> on_delete"
  | SetSequence string string                   \<comment> \<open>\<open>SET DEFAULT nextval(...)\<close>\<close>
  | CreateIndex string index
  | CreateUnique string string "string list"
  | DropTableCascade string                     \<comment> \<open>\<open>DROP TABLE IF EXISTS ... CASCADE\<close>\<close>
  | DropIndex string string
  | DropColumn string string

definition column_names :: "table \<Rightarrow> string list" where
  "column_names t = map co_name (tb_columns t)"

text \<open>Tables, indexes, named unique constraints and primary keys share one name space.\<close>

definition table_relations :: "string \<Rightarrow> table \<Rightarrow> string list" where
  "table_relations name t = name # map ix_name (tb_indexes t) @ List.map_filter fst (tb_uniques t) @
     (if list_ex co_primary (tb_columns t) then [name @ ''_pkey''] else [])"

definition relation_names :: "schema \<Rightarrow> string list" where
  "relation_names s = concat (map (\<lambda>(name, t). table_relations name t) s)"

text \<open>A foreign key needs a key to point to: the primary key or a unique column of its table.\<close>

definition primary_columns :: "table \<Rightarrow> string list" where
  "primary_columns t = map co_name (filter co_primary (tb_columns t))"

definition key_columns :: "table \<Rightarrow> string list list" where
  "key_columns t = primary_columns t # map snd (tb_uniques t) @
     map ix_columns (filter (\<lambda>i. ix_unique i \<and> ix_not_null i = None) (tb_indexes t))"

definition target_exists :: "schema \<Rightarrow> string \<times> string \<times> on_delete \<Rightarrow> bool" where
  "target_exists s ref =
     (case ref of (t, col, _) \<Rightarrow>
        (case dict_get s t of None \<Rightarrow> False | Some tb \<Rightarrow> [col] \<in> set (key_columns tb)))"

definition column_targets_exist :: "schema \<Rightarrow> column \<Rightarrow> bool" where
  "column_targets_exist s c = (case co_references c of None \<Rightarrow> True | Some ref \<Rightarrow> target_exists s ref)"

text \<open>Every foreign key of the schema has its target: what a drop without CASCADE must leave true.\<close>

definition references_kept :: "schema \<Rightarrow> bool" where
  "references_kept s = list_all (\<lambda>(_, t). list_all (column_targets_exist s) (tb_columns t)) s"

text \<open>
  The functions a default calls are the names in front of its parentheses. PostgreSQL brings
  \<open>now\<close>; \<open>uuid_generate_v4\<close> comes with the extension uuid-ossp.
\<close>

fun called_functions :: "string \<Rightarrow> string \<Rightarrow> string list" where
  "called_functions name [] = []"
| "called_functions name (c # cs) =
     (if c = CHR ''('' then (if name = [] then called_functions [] cs else name # called_functions [] cs)
      else if c \<in> set '' ):{}''  then called_functions [] cs
      else called_functions (name @ [c]) cs)"

definition extension_functions :: "string \<Rightarrow> string list" where
  "extension_functions e =
     (if e = ''uuid-ossp'' then [''uuid_generate_v1'', ''uuid_generate_v1mc'', ''uuid_generate_v3'',
        ''uuid_generate_v4'', ''uuid_generate_v5'']
      else if e = ''unaccent'' then [''unaccent'']
      else [])"

definition default_available :: "string list \<Rightarrow> column \<Rightarrow> bool" where
  "default_available extensions c =
     (case co_default c of
        None \<Rightarrow> True
      | Some d \<Rightarrow> set (called_functions [] d) \<subseteq> set (''now'' # concat (map extension_functions extensions)))"

definition column_accepted :: "string list \<Rightarrow> schema \<Rightarrow> column \<Rightarrow> bool" where
  "column_accepted extensions s c \<longleftrightarrow> column_targets_exist s c \<and> default_available extensions c"

definition change_column :: "string \<Rightarrow> (column \<Rightarrow> column) \<Rightarrow> table \<Rightarrow> table" where
  "change_column name f t = t\<lparr>tb_columns := map (\<lambda>c. if co_name c = name then f c else c) (tb_columns t)\<rparr>"

definition forget_references :: "string \<Rightarrow> table \<Rightarrow> table" where
  "forget_references gone t = t\<lparr>tb_columns := map (\<lambda>c.
     case co_references c of
       None \<Rightarrow> c
     | Some (target, _) \<Rightarrow> if target = gone then c\<lparr>co_references := None\<rparr> else c) (tb_columns t)\<rparr>"

definition ddl_error :: exn where
  "ddl_error = OtherException ''ProgrammingError''"

text \<open>A statement on the table it names: a missing table or a false condition is an error.\<close>

definition alter_table :: "string \<Rightarrow> (table \<Rightarrow> bool) \<Rightarrow> (table \<Rightarrow> table) \<Rightarrow> schema \<Rightarrow> exn + schema" where
  "alter_table name ok f s =
     (case dict_get s name of
        None \<Rightarrow> Inl ddl_error
      | Some t \<Rightarrow> if ok t then Inr (dict_set name (f t) s) else Inl ddl_error)"

text \<open>A drop without CASCADE is refused when a foreign key would lose its target.\<close>

definition unless_referenced :: "exn + schema \<Rightarrow> exn + schema" where
  "unless_referenced r =
     (case r of Inl e \<Rightarrow> Inl e | Inr s \<Rightarrow> if references_kept s then Inr s else Inl ddl_error)"

text \<open>
  Dropping a column drops the indexes and constraints it is part of, the primary key included. A
  column holds one foreign key here, so a second one on it is refused; no script adds one.
\<close>

definition drop_column :: "string \<Rightarrow> table \<Rightarrow> table" where
  "drop_column col t = t\<lparr>
     tb_columns := map (\<lambda>c. if col \<in> set (primary_columns t) then c\<lparr>co_primary := False\<rparr> else c)
       (filter (\<lambda>c. co_name c \<noteq> col) (tb_columns t)),
     tb_checks := filter (\<lambda>k. fst k \<noteq> col) (tb_checks t),
     tb_indexes := filter (\<lambda>x. col \<notin> set (ix_columns x) \<and> ix_not_null x \<noteq> Some col) (tb_indexes t),
     tb_uniques := filter (\<lambda>u. col \<notin> set (snd u)) (tb_uniques t)\<rparr>"

fun apply_ddl :: "string list \<Rightarrow> ddl \<Rightarrow> schema \<Rightarrow> exn + schema" where
  "apply_ddl ext (CreateTable name t) s =
     (if list_all (column_accepted ext s) (tb_columns t) \<and> distinct (column_names t) \<and>
         distinct (relation_names s @ table_relations name t)
      then Inr (dict_set name t s) else Inl ddl_error)"
| "apply_ddl ext (AddColumn name c) s =
     alter_table name (\<lambda>t. co_name c \<notin> set (column_names t) \<and> column_accepted ext s c \<and>
         (co_primary c \<longrightarrow> primary_columns t = []))
       (\<lambda>t. t\<lparr>tb_columns := tb_columns t @ [c]\<rparr>) s"
| "apply_ddl ext (AddPrimaryKey name cols) s =
     alter_table name (\<lambda>t. set cols \<subseteq> set (column_names t) \<and> distinct cols \<and> cols \<noteq> [] \<and>
         primary_columns t = [] \<and> name @ ''_pkey'' \<notin> set (relation_names s))
       (\<lambda>t. fold (\<lambda>col. change_column col primary_key) cols t) s"
| "apply_ddl ext (AddForeignKey name col ref) s =
     alter_table name (\<lambda>t. target_exists s ref \<and>
         list_ex (\<lambda>c. co_name c = col \<and> co_references c = None) (tb_columns t))
       (change_column col (\<lambda>c. c\<lparr>co_references := Some ref\<rparr>)) s"
| "apply_ddl ext (SetSequence name col) s =
     alter_table name (\<lambda>t. col \<in> set (column_names t)) (change_column col autoincrement) s"
| "apply_ddl ext (CreateIndex name i) s =
     alter_table name (\<lambda>t. set (ix_columns i) \<subseteq> set (column_names t) \<and> ix_name i \<notin> set (relation_names s))
       (\<lambda>t. t\<lparr>tb_indexes := tb_indexes t @ [i]\<rparr>) s"
| "apply_ddl ext (CreateUnique name constraint cols) s =
     alter_table name (\<lambda>t. set cols \<subseteq> set (column_names t) \<and> constraint \<notin> set (relation_names s))
       (\<lambda>t. t\<lparr>tb_uniques := tb_uniques t @ [(Some constraint, cols)]\<rparr>) s"
| "apply_ddl ext (DropTableCascade name) s =
     Inr (map (\<lambda>(n, t). (n, forget_references name t)) (dict_pop name s))"
| "apply_ddl ext (DropIndex i name) s =
     unless_referenced (alter_table name (\<lambda>t. i \<in> set (map ix_name (tb_indexes t)))
       (\<lambda>t. t\<lparr>tb_indexes := filter (\<lambda>x. ix_name x \<noteq> i) (tb_indexes t)\<rparr>) s)"
| "apply_ddl ext (DropColumn name col) s =
     unless_referenced (alter_table name (\<lambda>t. col \<in> set (column_names t)) (drop_column col) s)"

text \<open>Statements run in a database with the extensions \<open>ext\<close>.\<close>

fun run_ddl :: "string list \<Rightarrow> ddl list \<Rightarrow> schema \<Rightarrow> exn + schema" where
  "run_ddl ext [] s = Inr s"
| "run_ddl ext (op # ops) s = (case apply_ddl ext op s of Inl e \<Rightarrow> Inl e | Inr s1 \<Rightarrow> run_ddl ext ops s1)"

section \<open>The migrations (alembic/versions)\<close>

text \<open>\<open>e700870ac284\<close> runs \<open>baseline-2514.sql\<close>.\<close>

definition baseline_tables :: "ddl list" where
  "baseline_tables =
   [CreateTable ''chatd_channel'' ((Table [not_null (Column ''name'' TextType),
        not_null (Column ''state'' (StringType (Some 24))), not_null (Column ''line_id'' IntegerType)])
      \<lparr>tb_checks := [(''state'', [''undefined'', ''holding'', ''ringing'', ''talking'', ''progressing''])]\<rparr>),
    CreateTable ''chatd_endpoint'' ((Table [not_null (Column ''name'' TextType),
        not_null (Column ''state'' (StringType (Some 24)))])
      \<lparr>tb_checks := [(''state'', [''available'', ''unavailable''])]\<rparr>),
    CreateTable ''chatd_line'' ((Table [not_null (Column ''id'' IntegerType), not_null (Column ''user_uuid'' UuidType),
        Column ''media'' (StringType (Some 24)), Column ''endpoint_name'' TextType])
      \<lparr>tb_checks := [(''media'', [''audio'', ''video''])]\<rparr>),
    CreateTable ''chatd_refresh_token'' (Table [not_null (Column ''client_id'' TextType),
        not_null (Column ''user_uuid'' UuidType), not_null (Column ''mobile'' BooleanType)]),
    CreateTable ''chatd_room'' (Table [server_default ''uuid_generate_v4()'' (not_null (Column ''uuid'' UuidType)),
        Column ''name'' TextType, not_null (Column ''tenant_uuid'' UuidType)]),
    CreateTable ''chatd_room_message'' (Table [
        server_default ''uuid_generate_v4()'' (not_null (Column ''uuid'' UuidType)),
        not_null (Column ''room_uuid'' UuidType), Column ''content'' TextType,
        Column ''alias'' (StringType (Some 256)), not_null (Column ''user_uuid'' UuidType),
        not_null (Column ''tenant_uuid'' UuidType), not_null (Column ''wazo_uuid'' UuidType),
        not_null (Column ''created_at'' DateTimeType)]),
    CreateTable ''chatd_room_user'' (Table [not_null (Column ''room_uuid'' UuidType),
        not_null (Column ''uuid'' UuidType), not_null (Column ''tenant_uuid'' UuidType),
        not_null (Column ''wazo_uuid'' UuidType)]),
    CreateTable ''chatd_session'' (Table [not_null (Column ''uuid'' UuidType),
        not_null (Column ''mobile'' BooleanType), not_null (Column ''user_uuid'' UuidType)]),
    CreateTable ''chatd_tenant'' (Table [not_null (Column ''uuid'' UuidType)]),
    CreateTable ''chatd_user'' ((Table [not_null (Column ''uuid'' UuidType), not_null (Column ''tenant_uuid'' UuidType),
        not_null (Column ''state'' (StringType (Some 24))), Column ''status'' TextType,
        server_default ''false'' (not_null (Column ''do_not_disturb'' BooleanType)),
        Column ''last_activity'' DateTimeType])
      \<lparr>tb_checks := [(''state'', [''available'', ''unavailable'', ''invisible'', ''away''])]\<rparr>),
    SetSequence ''chatd_line'' ''id'']"

definition baseline_constraints :: "ddl list" where
  "baseline_constraints =
   [AddPrimaryKey ''chatd_channel'' [''name''], AddPrimaryKey ''chatd_endpoint'' [''name''],
    AddPrimaryKey ''chatd_line'' [''id''], AddPrimaryKey ''chatd_refresh_token'' [''client_id'', ''user_uuid''],
    AddPrimaryKey ''chatd_room_message'' [''uuid''], AddPrimaryKey ''chatd_room'' [''uuid''],
    AddPrimaryKey ''chatd_room_user'' [''room_uuid'', ''uuid'', ''tenant_uuid'', ''wazo_uuid''],
    AddPrimaryKey ''chatd_session'' [''uuid''], AddPrimaryKey ''chatd_tenant'' [''uuid''],
    AddPrimaryKey ''chatd_user'' [''uuid''],
    CreateIndex ''chatd_channel'' (Index ''chatd_channel__idx__line_id'' [''line_id'']),
    CreateIndex ''chatd_line'' (Index ''chatd_line__idx__endpoint_name'' [''endpoint_name'']),
    CreateIndex ''chatd_line'' (Index ''chatd_line__idx__user_uuid'' [''user_uuid'']),
    CreateIndex ''chatd_room'' (Index ''chatd_room__idx__tenant_uuid'' [''tenant_uuid'']),
    CreateIndex ''chatd_room_message'' (Index ''chatd_room_message__idx__room_uuid'' [''room_uuid'']),
    CreateIndex ''chatd_session'' (Index ''chatd_session__idx__user_uuid'' [''user_uuid'']),
    CreateIndex ''chatd_user'' (Index ''chatd_user__idx__tenant_uuid'' [''tenant_uuid'']),
    AddForeignKey ''chatd_channel'' ''line_id'' (''chatd_line'', ''id'', Cascade),
    AddForeignKey ''chatd_line'' ''endpoint_name'' (''chatd_endpoint'', ''name'', SetNull),
    AddForeignKey ''chatd_line'' ''user_uuid'' (''chatd_user'', ''uuid'', Cascade),
    AddForeignKey ''chatd_refresh_token'' ''user_uuid'' (''chatd_user'', ''uuid'', Cascade),
    AddForeignKey ''chatd_room_message'' ''room_uuid'' (''chatd_room'', ''uuid'', Cascade),
    AddForeignKey ''chatd_room'' ''tenant_uuid'' (''chatd_tenant'', ''uuid'', Cascade),
    AddForeignKey ''chatd_room_user'' ''room_uuid'' (''chatd_room'', ''uuid'', Cascade),
    AddForeignKey ''chatd_session'' ''user_uuid'' (''chatd_user'', ''uuid'', Cascade),
    AddForeignKey ''chatd_user'' ''tenant_uuid'' (''chatd_tenant'', ''uuid'', Cascade)]"

definition baseline_upgrade :: "ddl list" where
  "baseline_upgrade = baseline_tables @ baseline_constraints"

text \<open>\<open>4ca51d8f3bb2\<close> adds the connector models.\<close>

definition identity_upgrade :: "ddl list" where
  "identity_upgrade =
   [AddColumn ''chatd_room_user'' (Column ''identity'' (StringType None)),
    CreateIndex ''chatd_room_user'' (Index ''chatd_room_user__idx__identity'' [''identity'']),
    CreateTable ''chatd_user_identity'' (Table [
        server_default ''uuid_generate_v4()'' (primary_key (Column ''uuid'' UuidType)),
        not_null (foreign_key ''chatd_tenant'' ''uuid'' Cascade (Column ''tenant_uuid'' UuidType)),
        not_null (foreign_key ''chatd_user'' ''uuid'' Cascade (Column ''user_uuid'' UuidType)),
        not_null (Column ''backend'' (StringType None)),
        not_null (Column ''type'' (StringType None)),
        not_null (Column ''identity'' (StringType None)),
        server_default ''{}::jsonb'' (not_null (Column ''extra'' JsonbType))]),
    CreateUnique ''chatd_user_identity'' ''chatd_user_identity__uq__backend_identity_type''
      [''backend'', ''identity'', ''type''],
    CreateIndex ''chatd_user_identity'' (Index ''chatd_user_identity__idx__tenant_uuid'' [''tenant_uuid'']),
    CreateIndex ''chatd_user_identity'' (Index ''chatd_user_identity__idx__user_uuid'' [''user_uuid''])]"

definition delivery_upgrade :: "ddl list" where
  "delivery_upgrade =
   [CreateTable ''chatd_message_meta'' (Table [
        primary_key (foreign_key ''chatd_room_message'' ''uuid'' Cascade (Column ''message_uuid'' UuidType)),
        foreign_key ''chatd_user_identity'' ''uuid'' SetNull (Column ''sender_identity_uuid'' UuidType),
        server_default ''{}::jsonb'' (not_null (Column ''extra'' JsonbType))]),
    CreateIndex ''chatd_message_meta''
      ((Index ''chatd_message_meta__idx__extra'' [''extra''])\<lparr>ix_using := ''gin''\<rparr>),
    CreateTable ''chatd_message_delivery'' ((Table [
        autoincrement (primary_key (Column ''id'' IntegerType)),
        not_null (foreign_key ''chatd_message_meta'' ''message_uuid'' Cascade (Column ''message_uuid'' UuidType)),
        not_null (Column ''recipient_identity'' (StringType None)),
        not_null (Column ''backend'' (StringType None)),
        not_null (Column ''type'' (StringType None)),
        Column ''external_id'' (StringType None),
        server_default ''0'' (not_null (Column ''retry_count'' SmallIntegerType))])
      \<lparr>tb_uniques := [(Some ''chatd_message_delivery__uq__msg_recipient'', [''message_uuid'', ''recipient_identity''])]\<rparr>),
    CreateIndex ''chatd_message_delivery''
      ((Index ''chatd_message_delivery__uq__external_id'' [''external_id'', ''backend''])
        \<lparr>ix_unique := True, ix_not_null := Some ''external_id''\<rparr>),
    CreateTable ''chatd_delivery_record'' (Table [
        autoincrement (primary_key (Column ''id'' IntegerType)),
        not_null (foreign_key ''chatd_message_delivery'' ''id'' Cascade (Column ''delivery_id'' IntegerType)),
        not_null (Column ''status'' (StringType None)),
        Column ''reason'' (StringType None),
        server_default ''(now() at time zone 'utc')'' (not_null (Column ''timestamp'' DateTimeType))]),
    CreateIndex ''chatd_delivery_record'' (Index ''chatd_delivery_record__idx__delivery_id'' [''delivery_id''])]"

definition connector_upgrade :: "ddl list" where
  "connector_upgrade = identity_upgrade @ delivery_upgrade"

definition connector_downgrade :: "ddl list" where
  "connector_downgrade =
   [DropTableCascade ''chatd_delivery_record'', DropTableCascade ''chatd_message_delivery'',
    DropTableCascade ''chatd_message_meta'', DropTableCascade ''chatd_user_identity'',
    DropIndex ''chatd_room_user__idx__identity'' ''chatd_room_user'',
    DropColumn ''chatd_room_user'' ''identity'']"

section \<open>The migrations build what the models declare\<close>

datatype schema_fact =
    HasColumn column
  | HasUnique "string option" "string list"
  | HasCheck string "string list"
  | HasIndex index

definition table_facts :: "table \<Rightarrow> schema_fact list" where
  "table_facts t = map HasColumn (tb_columns t) @ map (\<lambda>(n, cols). HasUnique n cols) (tb_uniques t) @
     map (\<lambda>(c, vs). HasCheck c vs) (tb_checks t) @ map HasIndex (tb_indexes t)"

definition facts_in :: "schema \<Rightarrow> string \<Rightarrow> schema_fact list" where
  "facts_in s name = (case dict_get s name of None \<Rightarrow> [] | Some t \<Rightarrow> table_facts t)"

text \<open>What one schema has and another lacks, table by table, in whatever order they list it.\<close>

definition only_in :: "schema \<Rightarrow> schema \<Rightarrow> (string \<times> schema_fact) list" where
  "only_in a b =
     concat (map (\<lambda>(name, t). map (Pair name) (filter (\<lambda>f. f \<notin> set (facts_in b name)) (table_facts t))) a)"

text \<open>The extensions \<open>init_db.py\<close> creates before the scripts run.\<close>

definition init_extensions :: "string list" where
  "init_extensions = [''uuid-ossp'', ''unaccent'']"

definition baseline_schema :: schema where
  "baseline_schema = (case run_ddl init_extensions baseline_upgrade [] of Inl _ \<Rightarrow> [] | Inr s \<Rightarrow> s)"

definition migrated_schema :: schema where
  "migrated_schema = (case run_ddl init_extensions connector_upgrade baseline_schema of Inl _ \<Rightarrow> [] | Inr s \<Rightarrow> s)"

lemma run_ddl_append:
  "run_ddl ext (ops @ ops') s = (case run_ddl ext ops s of Inl e \<Rightarrow> Inl e | Inr s1 \<Rightarrow> run_ddl ext ops' s1)"
  by (induction ops arbitrary: s) (simp_all split: sum.split)

lemma baseline_runs: "run_ddl init_extensions baseline_upgrade [] = Inr baseline_schema"
proof -
  have "\<not> isl (run_ddl init_extensions baseline_upgrade [])" by code_simp
  then show ?thesis by (auto simp: baseline_schema_def split: sum.split)
qed

text \<open>Without uuid-ossp the baseline stops at the default of \<open>chatd_room\<close>.\<close>

lemma baseline_needs_extension: "run_ddl [''unaccent''] baseline_upgrade [] = Inl ddl_error"
  by code_simp

lemma connector_runs: "run_ddl init_extensions connector_upgrade baseline_schema = Inr migrated_schema"
proof -
  have "\<not> isl (run_ddl init_extensions connector_upgrade baseline_schema)" by code_simp
  then show ?thesis by (auto simp: migrated_schema_def split: sum.split)
qed

text \<open>
  The migrations build the schema the models declare. From an empty database with the
  extensions of \<open>init_db.py\<close> the baseline and the connector migration run without error, and the result has the columns,
  types, keys, foreign keys with their ON DELETE, checks, unique constraints and indexes of
  \<open>models.py\<close>, but for two things: \<open>chatd_room_message.created_at\<close> has no server default, and the unique
  constraint of the identities carries a name.
\<close>

lemma migrations_build_models:
  "run_ddl init_extensions (baseline_upgrade @ connector_upgrade) [] = Inr migrated_schema \<and>
   only_in migrated_schema models_schema =
     [(''chatd_room_message'', HasColumn (not_null (Column ''created_at'' DateTimeType))),
      (''chatd_user_identity'',
        HasUnique (Some ''chatd_user_identity__uq__backend_identity_type'') [''backend'', ''identity'', ''type''])] \<and>
   only_in models_schema migrated_schema =
     [(''chatd_room_message'', HasColumn (server_default ''(now() at time zone 'utc')''
        (not_null (Column ''created_at'' DateTimeType)))),
      (''chatd_user_identity'', HasUnique None [''backend'', ''identity'', ''type''])]"
proof (intro conjI)
  show "run_ddl init_extensions (baseline_upgrade @ connector_upgrade) [] = Inr migrated_schema"
    by (simp add: run_ddl_append baseline_runs connector_runs)
qed code_simp+

text \<open>
  The downgrade takes the connector migration back. Run after it, on the schema of the baseline,
  it restores exactly that schema.
\<close>

lemma downgrade_restores_baseline:
  "run_ddl init_extensions (connector_upgrade @ connector_downgrade) baseline_schema = Inr baseline_schema"
proof -
  have "run_ddl init_extensions connector_downgrade migrated_schema = Inr baseline_schema" by code_simp
  then show ?thesis by (simp add: run_ddl_append connector_runs)
qed

section \<open>What the constraints mean\<close>

text \<open>
  CHECK constraints hold by construction: the columns they restrict have the enumerations of
  \<open>Models\<close> as their types. A row gives each column a cell, with the values of the columns that no
  other constraint looks at left out.
\<close>

datatype cell = CNull | CText string | CInt int | CValue   \<comment> \<open>a value no constraint looks at\<close>

type_synonym row = "(string, cell) dict"

definition cell_of :: "row \<Rightarrow> string \<Rightarrow> cell" where
  "cell_of r col = (case dict_get r col of None \<Rightarrow> CNull | Some c \<Rightarrow> c)"

text \<open>\<open>UNIQUE\<close> and \<open>PRIMARY KEY\<close> ignore the rows with a null among the columns.\<close>

definition unique_holds :: "string list \<Rightarrow> row list \<Rightarrow> bool" where
  "unique_holds cols rows \<longleftrightarrow> keyed (\<lambda>r. map (cell_of r) cols) (filter (\<lambda>r. CNull \<notin> set (map (cell_of r) cols)) rows)"

definition column_holds :: "(string \<Rightarrow> row list) \<Rightarrow> row list \<Rightarrow> column \<Rightarrow> bool" where
  "column_holds data rows c \<longleftrightarrow>
     (\<forall>r \<in> set rows. (\<not> co_nullable c \<longrightarrow> cell_of r (co_name c) \<noteq> CNull) \<and>
        (case co_references c of
           None \<Rightarrow> True
         | Some (target, col, _) \<Rightarrow> cell_of r (co_name c) = CNull \<or>
             cell_of r (co_name c) \<in> (\<lambda>x. cell_of x col) ` set (data target)))"

definition index_holds :: "row list \<Rightarrow> index \<Rightarrow> bool" where
  "index_holds rows i \<longleftrightarrow> (ix_unique i \<longrightarrow> unique_holds (ix_columns i)
     (case ix_not_null i of None \<Rightarrow> rows | Some col \<Rightarrow> filter (\<lambda>r. cell_of r col \<noteq> CNull) rows))"

definition table_holds :: "(string \<Rightarrow> row list) \<Rightarrow> row list \<Rightarrow> table \<Rightarrow> bool" where
  "table_holds data rows t \<longleftrightarrow>
     unique_holds (primary_columns t) rows \<and> list_all (column_holds data rows) (tb_columns t) \<and>
     list_all (\<lambda>(_, cols). unique_holds cols rows) (tb_uniques t) \<and> list_all (index_holds rows) (tb_indexes t)"

definition schema_holds :: "schema \<Rightarrow> (string \<Rightarrow> row list) \<Rightarrow> bool" where
  "schema_holds s data \<longleftrightarrow> list_all (\<lambda>(name, t). table_holds data (data name) t) s"

section \<open>The tables of the model as rows\<close>

definition opt_text :: "string option \<Rightarrow> cell" where
  "opt_text x = (case x of None \<Rightarrow> CNull | Some t \<Rightarrow> CText t)"

definition opt_value :: "'a option \<Rightarrow> cell" where
  "opt_value x = (case x of None \<Rightarrow> CNull | Some _ \<Rightarrow> CValue)"

definition tenant_row :: "Tenant \<Rightarrow> row" where
  "tenant_row t = [(''uuid'', CText (tn_uuid t))]"

definition user_row :: "User \<Rightarrow> row" where
  "user_row u = [(''uuid'', CText (us_uuid u)), (''tenant_uuid'', CText (us_tenant_uuid u)), (''state'', CValue),
     (''status'', opt_value (us_status u)), (''do_not_disturb'', CValue), (''last_activity'', opt_value (us_last_activity u))]"

definition session_row :: "Session \<Rightarrow> row" where
  "session_row s = [(''uuid'', CText (se_uuid s)), (''mobile'', CValue), (''user_uuid'', CText (se_user_uuid s))]"

definition token_row :: "RefreshToken \<Rightarrow> row" where
  "token_row t = [(''client_id'', CText (rt_client_id t)), (''user_uuid'', CText (rt_user_uuid t)), (''mobile'', CValue)]"

definition line_row :: "Line \<Rightarrow> row" where
  "line_row l = [(''id'', CInt (ln_id l)), (''user_uuid'', CText (ln_user_uuid l)),
     (''endpoint_name'', opt_text (ln_endpoint_name l)), (''media'', opt_value (ln_media l))]"

definition endpoint_row :: "Endpoint \<Rightarrow> row" where
  "endpoint_row e = [(''name'', CText (ep_name e)), (''state'', CValue)]"

definition channel_row :: "Channel \<Rightarrow> row" where
  "channel_row c = [(''name'', CText (ch_name c)), (''state'', CValue), (''line_id'', CInt (ch_line_id c))]"

definition room_row :: "Room \<Rightarrow> row" where
  "room_row r = [(''uuid'', CText (ro_uuid r)), (''name'', opt_value (ro_name r)),
     (''tenant_uuid'', CText (ro_tenant_uuid r))]"

definition room_user_row :: "uuid \<Rightarrow> RoomUser \<Rightarrow> row" where
  "room_user_row room u = [(''room_uuid'', CText room), (''uuid'', CText (ru_uuid u)),
     (''tenant_uuid'', opt_text (ru_tenant_uuid u)), (''wazo_uuid'', opt_text (ru_wazo_uuid u)),
     (''identity'', opt_value (ru_identity u))]"

definition room_message_row :: "RoomMessage \<Rightarrow> row" where
  "room_message_row m = [(''uuid'', CText (rm_uuid m)), (''room_uuid'', CText (rm_room_uuid m)),
     (''content'', opt_value (rm_content m)), (''alias'', opt_value (rm_alias m)),
     (''user_uuid'', CText (rm_user_uuid m)), (''tenant_uuid'', CText (rm_tenant_uuid m)),
     (''wazo_uuid'', CText (rm_wazo_uuid m)), (''created_at'', CValue)]"

definition identity_row :: "UserIdentity \<Rightarrow> row" where
  "identity_row i = [(''uuid'', CText (ui_uuid i)), (''tenant_uuid'', CText (ui_tenant_uuid i)),
     (''user_uuid'', CText (ui_user_uuid i)), (''backend'', CText (ui_backend i)), (''type'', CText (ui_type i)),
     (''identity'', CText (ui_identity i)), (''extra'', CValue)]"

definition meta_row :: "MessageMeta \<Rightarrow> row" where
  "meta_row m = [(''message_uuid'', CText (mm_message_uuid m)),
     (''sender_identity_uuid'', opt_text (mm_sender_identity_uuid m)), (''extra'', CValue)]"

definition delivery_row :: "MessageDelivery \<Rightarrow> row" where
  "delivery_row d = [(''id'', CInt (int (md_id d))), (''message_uuid'', CText (md_message_uuid d)),
     (''recipient_identity'', CText (md_recipient_identity d)), (''backend'', CText (md_backend d)),
     (''type'', CText (md_type d)), (''external_id'', opt_text (md_external_id d)), (''retry_count'', CValue)]"

definition record_row :: "DeliveryRecord \<Rightarrow> row" where
  "record_row r = [(''id'', CInt (int (dr_id r))), (''delivery_id'', CInt (int (dr_delivery_id r))),
     (''status'', CValue), (''reason'', opt_value (dr_reason r)), (''timestamp'', CValue)]"

definition room_users :: "database \<Rightarrow> (uuid \<times> RoomUser) list" where
  "room_users db = concat (map (\<lambda>r. map (Pair (ro_uuid r)) (ro_users r)) (rooms db))"

definition rows_of :: "database \<Rightarrow> string \<Rightarrow> row list" where
  "rows_of db name =
     (if name = ''chatd_tenant'' then map tenant_row (tenants db)
      else if name = ''chatd_user'' then map user_row (users db)
      else if name = ''chatd_session'' then map session_row (sessions db)
      else if name = ''chatd_refresh_token'' then map token_row (refresh_tokens db)
      else if name = ''chatd_line'' then map line_row (lines db)
      else if name = ''chatd_endpoint'' then map endpoint_row (endpoints db)
      else if name = ''chatd_channel'' then map channel_row (channels db)
      else if name = ''chatd_room'' then map room_row (rooms db)
      else if name = ''chatd_room_user'' then map (\<lambda>(room, u). room_user_row room u) (room_users db)
      else if name = ''chatd_room_message'' then map room_message_row (room_messages db)
      else if name = ''chatd_user_identity'' then map identity_row (user_identities db)
      else if name = ''chatd_message_meta'' then map meta_row (message_metas db)
      else if name = ''chatd_message_delivery'' then map delivery_row (message_deliveries db)
      else if name = ''chatd_delivery_record'' then map record_row (delivery_records db)
      else [])"

text \<open>With distinct rooms, the rows of \<open>chatd_room_user\<close> are distinct when they are within each room.\<close>

definition room_user_key :: "uuid \<times> RoomUser \<Rightarrow> uuid \<times> uuid \<times> uuid option \<times> uuid option" where
  "room_user_key p = (fst p, participant_key (snd p))"

lemma room_users_keyed:
  assumes "keyed ro_uuid (rooms db)"
  shows "keyed room_user_key (room_users db) \<longleftrightarrow> (\<forall>r \<in> set (rooms db). keyed participant_key (ro_users r))"
proof -
  let ?rows = "\<lambda>rs. concat (map (\<lambda>r. map (Pair (ro_uuid r)) (ro_users r)) rs)"
  have "keyed ro_uuid rs \<Longrightarrow>
      keyed room_user_key (?rows rs) \<longleftrightarrow> (\<forall>r \<in> set rs. keyed participant_key (ro_users r))" for rs
  proof (induction rs)
    case (Cons r rs)
    have "map room_user_key (map (Pair (ro_uuid r)) us) = map (Pair (ro_uuid r)) (map participant_key us)" for us
      by (simp add: room_user_key_def)
    then have "keyed room_user_key (map (Pair (ro_uuid r)) (ro_users r)) = keyed participant_key (ro_users r)"
      by (simp add: keyed_def distinct_map del: map_map) (simp add: comp_def inj_on_def)
    moreover have "room_user_key ` set (map (Pair (ro_uuid r)) (ro_users r)) \<inter> room_user_key ` set (?rows rs) = {}"
      using Cons.prems by (auto simp: room_user_key_def keyed_def)
    moreover have "keyed ro_uuid rs" using Cons.prems by (simp add: keyed_def)
    ultimately show ?case
      using Cons.IH by (simp add: keyed_def image_image)
  qed simp
  with assms show ?thesis by (simp add: room_users_def)
qed

lemma keyed_map: "keyed key (map f rows) = keyed (\<lambda>r. key (f r)) rows"
  by (simp add: keyed_def o_def)

lemma keyed_same:
  assumes "\<And>r r'. key r = key r' \<longleftrightarrow> key' r = key' r'"
  shows "keyed key rows = keyed key' rows"
  using assms by (simp add: keyed_def distinct_map inj_on_def)

lemma keyed_cells:
  "keyed (\<lambda>r. [CText (f r)]) rows = keyed f rows"
  "keyed (\<lambda>r. [CInt (k r)]) rows = keyed k rows"
  "keyed (\<lambda>r. [CInt (int (n r))]) rows = keyed n rows"
  "keyed (\<lambda>r. [CText (f r), CText (g r)]) rows = keyed (\<lambda>r. (f r, g r)) rows"
  "keyed (\<lambda>r. [CText (f r), CText (g r), CText (h r)]) rows = keyed (\<lambda>r. (f r, g r, h r)) rows"
  by (rule keyed_same; simp)+

lemma opt_text_simps [simp]:
  "opt_text None = CNull" "opt_text (Some v) = CText v"
  "opt_text x = CNull \<longleftrightarrow> x = None" "CNull = opt_text x \<longleftrightarrow> x = None"
  "opt_text x = opt_text y \<longleftrightarrow> x = y"
  by (auto simp: opt_text_def split: option.splits)

lemma keyed_opt_cells:
  "keyed (\<lambda>r. [opt_text (h r), CText (g r)]) rows = keyed (\<lambda>r. (h r, g r)) rows"
  "keyed (\<lambda>r. [CText (f r), CText (g r), opt_text (h r), opt_text (k r)]) rows =
     keyed (\<lambda>r. (f r, g r, h r, k r)) rows"
  by (rule keyed_same; simp)+

lemma unique_holds_map:
  "unique_holds cols (map f rows) =
     keyed (\<lambda>r. map (cell_of (f r)) cols) (filter (\<lambda>r. CNull \<notin> set (map (cell_of (f r)) cols)) rows)"
  by (simp add: unique_holds_def filter_map keyed_map o_def)

lemma column_holds_map:
  "column_holds data (map f rows) c \<longleftrightarrow>
     (\<forall>r \<in> set rows. (\<not> co_nullable c \<longrightarrow> cell_of (f r) (co_name c) \<noteq> CNull) \<and>
        (case co_references c of
           None \<Rightarrow> True
         | Some (target, col, _) \<Rightarrow> cell_of (f r) (co_name c) = CNull \<or>
             cell_of (f r) (co_name c) \<in> (\<lambda>x. cell_of x col) ` set (data target)))"
  by (simp add: column_holds_def)

lemma index_holds_map:
  "index_holds (map f rows) i \<longleftrightarrow> (ix_unique i \<longrightarrow> unique_holds (ix_columns i) (map f
     (case ix_not_null i of None \<Rightarrow> rows | Some col \<Rightarrow> filter (\<lambda>r. cell_of (f r) col \<noteq> CNull) rows)))"
  by (simp add: index_holds_def filter_map o_def split: option.split)

lemma keyed_int: "keyed (\<lambda>r. int (n r)) rows = keyed n rows"
  by (rule keyed_same) simp

lemma int_in_range: "int k \<in> (\<lambda>r. int (n r)) ` A \<longleftrightarrow> k \<in> n ` A"
  by auto

lemmas table_defs = Tenant_table_def User_table_def Session_table_def RefreshToken_table_def Line_table_def
  Endpoint_table_def Channel_table_def Room_table_def RoomUser_table_def RoomMessage_table_def
  UserIdentity_table_def MessageMeta_table_def MessageDelivery_table_def DeliveryRecord_table_def

lemmas row_defs = tenant_row_def user_row_def session_row_def token_row_def line_row_def endpoint_row_def
  channel_row_def room_row_def room_user_row_def room_message_row_def identity_row_def meta_row_def
  delivery_row_def record_row_def

lemmas schema_syntax = Table_def Column_def primary_key_def not_null_def autoincrement_def foreign_key_def
  server_default_def Index_def primary_columns_def

lemmas holds_simps = table_holds_def unique_holds_map column_holds_map index_holds_map cell_of_def
  schema_syntax keyed_cells keyed_opt_cells refs_def refs_opt_def image_image

lemma text_in_image:
  "CText x \<in> (\<lambda>r. CText (f r)) ` A \<longleftrightarrow> x \<in> f ` A" "CInt k \<in> (\<lambda>r. CInt (n r)) ` A \<longleftrightarrow> k \<in> n ` A"
  by auto

lemma int_in_image: "CInt (int k) \<in> (\<lambda>r. CInt (int (n r))) ` A \<longleftrightarrow> k \<in> n ` A"
  by auto

lemma opt_text_in_image:
  "x = None \<or> opt_text x \<in> (\<lambda>r. CText (f r)) ` A \<longleftrightarrow> (case x of None \<Rightarrow> True | Some k \<Rightarrow> k \<in> f ` A)"
  by (auto split: option.split)

lemma presence_tables_hold:
  "table_holds (rows_of db) (map tenant_row (tenants db)) Tenant_table \<longleftrightarrow> keyed tn_uuid (tenants db)"
  "table_holds (rows_of db) (map user_row (users db)) User_table \<longleftrightarrow>
     keyed us_uuid (users db) \<and> refs us_tenant_uuid (users db) (tn_uuid ` set (tenants db))"
  "table_holds (rows_of db) (map session_row (sessions db)) Session_table \<longleftrightarrow>
     keyed se_uuid (sessions db) \<and> refs se_user_uuid (sessions db) (us_uuid ` set (users db))"
  by (simp_all add: holds_simps table_defs row_defs rows_of_def text_in_image)


lemma line_tables_hold:
  "table_holds (rows_of db) (map token_row (refresh_tokens db)) RefreshToken_table \<longleftrightarrow>
     keyed token_key (refresh_tokens db) \<and> refs rt_user_uuid (refresh_tokens db) (us_uuid ` set (users db))"
  "table_holds (rows_of db) (map line_row (lines db)) Line_table \<longleftrightarrow>
     keyed ln_id (lines db) \<and> refs ln_user_uuid (lines db) (us_uuid ` set (users db)) \<and>
     refs_opt ln_endpoint_name (lines db) (ep_name ` set (endpoints db))"
  "table_holds (rows_of db) (map endpoint_row (endpoints db)) Endpoint_table \<longleftrightarrow> keyed ep_name (endpoints db)"
  "table_holds (rows_of db) (map channel_row (channels db)) Channel_table \<longleftrightarrow>
     keyed ch_name (channels db) \<and> refs ch_line_id (channels db) (ln_id ` set (lines db))"
  by (auto simp: holds_simps table_defs row_defs rows_of_def text_in_image opt_text_in_image token_key_def [abs_def])

lemma room_tables_hold:
  "table_holds (rows_of db) (map room_row (rooms db)) Room_table \<longleftrightarrow>
     keyed ro_uuid (rooms db) \<and> refs ro_tenant_uuid (rooms db) (tn_uuid ` set (tenants db))"
  "table_holds (rows_of db) (map room_message_row (room_messages db)) RoomMessage_table \<longleftrightarrow>
     keyed rm_uuid (room_messages db) \<and> refs rm_room_uuid (room_messages db) (ro_uuid ` set (rooms db))"
  "table_holds (rows_of db) (map identity_row (user_identities db)) UserIdentity_table \<longleftrightarrow>
     keyed ui_uuid (user_identities db) \<and> keyed identity_key (user_identities db) \<and>
     refs ui_tenant_uuid (user_identities db) (tn_uuid ` set (tenants db)) \<and>
     refs ui_user_uuid (user_identities db) (us_uuid ` set (users db))"
  by (auto simp: holds_simps table_defs row_defs rows_of_def text_in_image opt_text_in_image identity_key_def [abs_def])

lemma delivery_tables_hold:
  "table_holds (rows_of db) (map meta_row (message_metas db)) MessageMeta_table \<longleftrightarrow>
     keyed mm_message_uuid (message_metas db) \<and>
     refs mm_message_uuid (message_metas db) (rm_uuid ` set (room_messages db)) \<and>
     refs_opt mm_sender_identity_uuid (message_metas db) (ui_uuid ` set (user_identities db))"
  "table_holds (rows_of db) (map delivery_row (message_deliveries db)) MessageDelivery_table \<longleftrightarrow>
     keyed md_id (message_deliveries db) \<and> keyed recipient_key (message_deliveries db) \<and>
     keyed external_key (filter (\<lambda>d. md_external_id d \<noteq> None) (message_deliveries db)) \<and>
     refs md_message_uuid (message_deliveries db) (mm_message_uuid ` set (message_metas db))"
  "table_holds (rows_of db) (map record_row (delivery_records db)) DeliveryRecord_table \<longleftrightarrow>
     keyed dr_id (delivery_records db) \<and> refs dr_delivery_id (delivery_records db) (md_id ` set (message_deliveries db))"
  by (auto simp: holds_simps table_defs row_defs rows_of_def text_in_image int_in_image keyed_int int_in_range opt_text_in_image
      recipient_key_def [abs_def] external_key_def [abs_def])

lemma participants_hold:
  assumes "keyed ro_uuid (rooms db)"
  shows "table_holds (rows_of db) (map (\<lambda>(room, u). room_user_row room u) (room_users db)) RoomUser_table \<longleftrightarrow>
     participants_ok db"
proof -
  define complete where "complete p \<longleftrightarrow> ru_tenant_uuid (snd p) \<noteq> None \<and> ru_wazo_uuid (snd p) \<noteq> None"
    for p :: "uuid \<times> RoomUser"
  have rooms: "refs fst (room_users db) (ro_uuid ` set (rooms db))"
    by (auto simp: refs_def room_users_def)
  have "table_holds (rows_of db) (map (\<lambda>(room, u). room_user_row room u) (room_users db)) RoomUser_table \<longleftrightarrow>
      keyed room_user_key (filter complete (room_users db)) \<and> (\<forall>p \<in> set (room_users db). complete p)"
    using rooms
    by (auto simp: holds_simps table_defs row_defs rows_of_def text_in_image case_prod_beta'
        room_user_key_def [abs_def] participant_key_def complete_def [abs_def])
  moreover have "filter complete (room_users db) = room_users db" if "\<forall>p \<in> set (room_users db). complete p"
    using that by (simp add: filter_id_conv)
  moreover have "(\<forall>p \<in> set (room_users db). complete p) \<longleftrightarrow> (\<forall>r \<in> set (rooms db). list_all
      (\<lambda>u. ru_tenant_uuid u \<noteq> None \<and> ru_wazo_uuid u \<noteq> None) (ro_users r))"
    by (auto simp: room_users_def complete_def list_all_iff)
  ultimately show ?thesis
    using room_users_keyed [OF assms] by (auto simp: participants_ok_def room_ok_def)
qed

text \<open>
  The invariants of \<open>Integrity\<close> are the declared constraints, no more and no less. The tables
  of a database satisfy every key, foreign key, unique constraint, unique index and NOT NULL
  of \<open>models.py\<close> exactly when its keys are distinct, its references resolve and the participants of
  its rooms are distinct and complete.
\<close>

lemma schema_holds_iff_invariants:
  "schema_holds models_schema (rows_of db) \<longleftrightarrow>
     presence_keys db \<and> presence_refs db \<and> chat_keys db \<and> chat_refs db \<and> participants_ok db"
proof -
  note tables_hold = presence_tables_hold line_tables_hold room_tables_hold delivery_tables_hold
  have rows: "rows_of db ''chatd_tenant'' = map tenant_row (tenants db)"
    "rows_of db ''chatd_user'' = map user_row (users db)"
    "rows_of db ''chatd_session'' = map session_row (sessions db)"
    "rows_of db ''chatd_refresh_token'' = map token_row (refresh_tokens db)"
    "rows_of db ''chatd_line'' = map line_row (lines db)"
    "rows_of db ''chatd_endpoint'' = map endpoint_row (endpoints db)"
    "rows_of db ''chatd_channel'' = map channel_row (channels db)"
    "rows_of db ''chatd_room'' = map room_row (rooms db)"
    "rows_of db ''chatd_room_user'' = map (\<lambda>(room, u). room_user_row room u) (room_users db)"
    "rows_of db ''chatd_room_message'' = map room_message_row (room_messages db)"
    "rows_of db ''chatd_user_identity'' = map identity_row (user_identities db)"
    "rows_of db ''chatd_message_meta'' = map meta_row (message_metas db)"
    "rows_of db ''chatd_message_delivery'' = map delivery_row (message_deliveries db)"
    "rows_of db ''chatd_delivery_record'' = map record_row (delivery_records db)"
    by (simp_all add: rows_of_def)
  have "schema_holds models_schema (rows_of db) \<longleftrightarrow> presence_keys db \<and> presence_refs db \<and> chat_keys db \<and> chat_refs db \<and>
      table_holds (rows_of db) (map (\<lambda>(room, u). room_user_row room u) (room_users db)) RoomUser_table"
    by (simp add: schema_holds_def models_schema_def rows tables_hold presence_keys_def presence_refs_def
        chat_keys_def chat_refs_def) argo
  then show ?thesis
    using participants_hold [of db] by (auto simp: chat_keys_def)
qed

end
