(* ===== verification/TestConnector.thy ===== *)
theory TestConnector
  imports Owed "HOL-Library.Sublist"
begin

text \<open>
  The one connector of the repository, the test connector of the integration suite
  (\<open>src/integration_tests/assets/connectors/test-connector/test_connector/connector.py\<close>): a
  concrete \<open>ConnectorClass\<close> and the methods that talk to its backend. The answers of the mock
  backend are an argument. The facts shown are the ones other theories assume of connectors.
\<close>

section \<open>The class\<close>

definition test_status_map :: "(string, DeliveryStatus) dict" where
  "test_status_map = [(''sent'', SENT), (''delivered'', DELIVERED), (''failed'', FAILED)]"

definition test_auth_schema :: "ConfigField list" where
  "test_auth_schema =
   [\<lparr>cf_name = ''api_key'', cf_label = [(''en_US'', ''API Key''), (''fr_FR'', ''Cl'' @ [CHR 0xE9] @ '' API'')],
      cf_type = FSecret, cf_required = True, cf_default = [], cf_choices = []\<rparr>,
    \<lparr>cf_name = ''region'', cf_label = [(''en_US'', ''Region'')], cf_type = FSelect, cf_required = True,
      cf_default = ''us'', cf_choices = [''us'', ''eu'']\<rparr>]"

text \<open>
  An instance keeps its tenant and the URL of the mock, which the provider configuration may
  replace; \<open>default_url\<close> is the value of the environment variable.
\<close>

definition test_mock_url :: "string \<Rightarrow> Connector \<Rightarrow> string" where
  "test_mock_url default_url c =
     (case dict_get (cn_provider_config c) ''mock_url'' of
        Some url \<Rightarrow> if url = [] then default_url else url
      | None \<Rightarrow> default_url)"

definition test_init :: "uuid \<Rightarrow> config \<Rightarrow> config \<Rightarrow> exn + Connector" where
  "test_init tenant provider connector =
     Inr \<lparr>cn_backend = ''test'', cn_tenant_uuid = tenant, cn_provider_config = provider, cn_connector_config = connector\<rparr>"

definition test_can_handle :: "WebhookData \<Rightarrow> exn + bool" where
  "test_can_handle data = Inr (dict_get (wd_headers data) ''X-Test-Connector'' \<noteq> None)"

text \<open>\<open>body.get(k, d)\<close>, and a Python string as code points.\<close>

definition get_default :: "(string, string) dict \<Rightarrow> string \<Rightarrow> string \<Rightarrow> string" where
  "get_default d k v = (case dict_get d k of None \<Rightarrow> v | Some x \<Rightarrow> x)"

definition code_points :: "string \<Rightarrow> body" where
  "code_points s = map of_char s"

definition parse_webhook :: "(string, string) dict \<Rightarrow> event option" where
  "parse_webhook body =
     (let content = get_default body ''body'' []; status = get_default body ''status'' [];
          external_id = get_default body ''external_id'' []
      in if content \<noteq> [] then
           Some (Inbound \<lparr>im_sender = get_default body ''from'' [], im_recipient = get_default body ''to'' [],
             im_body = code_points content, im_backend = ''test'',
             im_message_type = get_default body ''type'' ''test'',
             im_external_id = get_default body ''message_id'' [], im_metadata = body\<rparr>)
         else if status \<noteq> [] \<and> external_id \<noteq> [] then
           Some (Status \<lparr>su_external_id = external_id, su_status = status, su_backend = ''test'',
             su_error_code = get_default body ''error_code'' []\<rparr>)
         else None)"

definition test_on_event :: "WebhookData \<Rightarrow> exn + event option" where
  "test_on_event data = Inr (parse_webhook (wd_body data))"

definition starts_with :: "string \<Rightarrow> string \<Rightarrow> bool" where
  "starts_with p s \<longleftrightarrow> take (length p) s = p"

definition test_normalize_identity :: "string \<Rightarrow> exn + string" where
  "test_normalize_identity raw = (if starts_with ''test:'' raw then Inr raw else Inl (ValueError raw))"

definition test_backend_identities :: "BackendIdentity list" where
  "test_backend_identities =
     [\<lparr>bi_identity = ''test:backend-1'', bi_capabilities = [''test'']\<rparr>,
      \<lparr>bi_identity = ''test:backend-2'', bi_capabilities = [''test'']\<rparr>]"

text \<open>It does not verify signatures and has no such method: the field is never used.\<close>

definition test_class :: ConnectorClass where
  "test_class = \<lparr>cc_backend = ''test'', cc_supported_types = [''test'', ''test_alt''], cc_auth_scope = ''tenant'',
     cc_auth_schema = test_auth_schema, cc_status_map = test_status_map, cc_verifies_signatures = False,
     cc_init = test_init, cc_can_handle = test_can_handle, cc_verify_signature = (\<lambda>_ _. Inl (OtherException ''AttributeError'')),
     cc_on_event = test_on_event, cc_normalize_identity = test_normalize_identity,
     cc_list_backend_identities = Some (\<lambda>_. Inr test_backend_identities)\<rparr>"

section \<open>Talking to the backend\<close>

record mock_server =
  mo_config :: "exn + (string, string) dict"      \<comment> \<open>\<open>GET /config\<close>\<close>
  mo_sent :: "exn option"                         \<comment> \<open>\<open>POST /sent\<close>\<close>
  mo_scan :: "exn + (string, string) dict list"   \<comment> \<open>\<open>GET /scan\<close>\<close>
  mo_track :: "string \<Rightarrow> exn + (string, string) dict"

text \<open>A request error counts as an empty answer, any other exception escapes.\<close>

definition or_empty :: "'a \<Rightarrow> exn + 'a \<Rightarrow> exn + 'a" where
  "or_empty d answer = (case answer of Inl e \<Rightarrow> if is_request_exception e then Inr d else Inl e | Inr x \<Rightarrow> Inr x)"

definition test_get_config :: "mock_server \<Rightarrow> exn + (string, string) dict" where
  "test_get_config mo = or_empty [] (mo_config mo)"

definition report_sent :: "mock_server \<Rightarrow> exn + unit" where
  "report_sent mo = or_empty () (case mo_sent mo of None \<Rightarrow> Inr () | Some e \<Rightarrow> Inl e)"

text \<open>\<open>send\<close>: the result, and the messages posted to the backend.\<close>

definition test_send :: "mock_server \<Rightarrow> OutboundMessage \<Rightarrow> (exn + string) \<times> OutboundMessage list" where
  "test_send mo m =
     (case test_get_config mo of
        Inl e \<Rightarrow> (Inl e, [])
      | Inr config \<Rightarrow>
          (case report_sent mo of
             Inl e \<Rightarrow> (Inl e, [m])
           | Inr _ \<Rightarrow>
               (if get_default config ''send_behavior'' ''succeed'' = ''fail''
                then Inl (ConnectorSendError (get_default config ''error_message'' ''Test connector failure''))
                else Inr (get_default config ''external_id'' (''test-'' @ om_message_uuid m)), [m])))"

definition test_scan_inbound :: "mock_server \<Rightarrow> exn + InboundMessage list" where
  "test_scan_inbound mo =
     (case or_empty [] (mo_scan mo) of
        Inl e \<Rightarrow> Inl e
      | Inr payload \<Rightarrow> Inr (map (\<lambda>i.
          \<lparr>im_sender = get_default i ''from'' [], im_recipient = get_default i ''to'' [],
           im_body = code_points (get_default i ''body'' []), im_backend = ''test'',
           im_message_type = get_default i ''type'' ''test'',
           im_external_id = get_default i ''message_id'' [], im_metadata = i\<rparr>) payload))"

fun test_track_outbound :: "mock_server \<Rightarrow> string list \<Rightarrow> exn + StatusUpdate list" where
  "test_track_outbound mo [] = Inr []"
| "test_track_outbound mo (sid # sids) =
     (case or_empty [] (mo_track mo sid) of
        Inl e \<Rightarrow> Inl e
      | Inr data \<Rightarrow>
          (case test_track_outbound mo sids of
             Inl e \<Rightarrow> Inl e
           | Inr updates \<Rightarrow>
               Inr (if get_default data ''status'' [] = [] then updates
                    else \<lparr>su_external_id = sid, su_status = get_default data ''status'' [], su_backend = ''test'',
                      su_error_code = get_default data ''error_code'' []\<rparr> # updates)))"

section \<open>What the rest assumes of a connector\<close>

text \<open>
  What the services, the registry and the delivery loop rely on: a normalised identity is normal,
  an identity is refused with a ValueError, and no report makes a delivery owed again.
\<close>

locale connector_class =
  fixes cls :: ConnectorClass
  assumes normalize_idem: "cc_normalize_identity cls raw = Inr x \<Longrightarrow> cc_normalize_identity cls x = Inr x"
    and normalize_error: "cc_normalize_identity cls raw = Inl e \<Longrightarrow> normalize_rejects e"
    and status_final: "dict_get (cc_status_map cls) code = Some status \<Longrightarrow> \<not> open_status status"
    and schema_valid: "validate_auth_schema (cc_auth_scope cls) (cc_auth_schema cls) = Inr u"
begin

lemma registers:
  assumes "dict_get (rg_backends rg) (cc_backend cls) = None"
  shows "\<not> isl (register_backend serialize cls mode rg)"
  using assms schema_valid by (auto simp: register_backend_def Let_def split: sum.split)

text \<open>Alone in the registry it reaches what it normalises, and its reports close deliveries.\<close>

lemma alone:
  assumes "register_backend serialize cls mode empty_registry = Inr rg"
  shows "fst (resolve_reachable_types raw rg) =
      Inr (if isl (cc_normalize_identity cls raw) then {} else set (cc_supported_types cls))"
    and "reports_closed rg"
proof -
  have rg: "rg_reachable_types_cache rg = []"
    "\<exists>scope schema. rg_backends rg = [(cc_backend cls, \<lparr>rb_cls = cls, rb_auth_scope = scope,
       rb_auth_schema = schema, rb_mode = mode\<rparr>)]"
    using assms by (auto simp: register_backend_def empty_registry_def Let_def split: sum.splits)
  then show "fst (resolve_reachable_types raw rg) =
      Inr (if isl (cc_normalize_identity cls raw) then {} else set (cc_supported_types cls))"
    using normalize_error [of raw]
    by (cases "cc_normalize_identity cls raw") (auto simp: resolve_reachable_types_def)
  show "reports_closed rg"
    using rg(2) status_final by (auto simp: reports_closed_def get_backend_def get_entry_def split: if_splits)
qed

end

interpretation test_connector: connector_class test_class
proof
  fix raw x assume "cc_normalize_identity test_class raw = Inr x"
  then show "cc_normalize_identity test_class x = Inr x"
    by (auto simp: test_class_def test_normalize_identity_def split: if_splits)
next
  fix raw e assume "cc_normalize_identity test_class raw = Inl e"
  then show "normalize_rejects e"
    by (auto simp: test_class_def test_normalize_identity_def split: if_splits)
next
  fix code status assume "dict_get (cc_status_map test_class) code = Some status"
  then show "\<not> open_status status" by (auto simp: test_class_def test_status_map_def split: if_splits)
next
  fix u show "validate_auth_schema (cc_auth_scope test_class) (cc_auth_schema test_class) = Inr u"
    by (simp add: validate_auth_schema_ok test_class_def test_auth_schema_def)
qed

lemma test_fields_valid: "f \<in> set test_auth_schema \<Longrightarrow> make_ConfigField f = Inr f"
  by (auto simp: test_auth_schema_def make_ConfigField_def)

text \<open>
  The test connector is one the service can rely on. It registers, reaches both of its types
  through the identities with its prefix and nothing through others, normalises an accepted identity
  to itself, and none of its reports makes a delivery owed again.
\<close>

theorem test_connector_fits:
  "\<exists>rg. register_backend serialize test_class mode empty_registry = Inr rg \<and> registry_ok rg \<and> reports_closed rg \<and>
     (\<forall>raw. fst (resolve_reachable_types raw rg) =
        Inr (if starts_with ''test:'' raw then {''test'', ''test_alt''} else {}))"
proof -
  have "\<not> isl (register_backend serialize test_class mode empty_registry)"
    by (rule test_connector.registers) (simp add: empty_registry_def)
  then obtain rg where rg: "register_backend serialize test_class mode empty_registry = Inr rg"
    by (cases "register_backend serialize test_class mode empty_registry") auto
  moreover have "isl (cc_normalize_identity test_class raw) \<longleftrightarrow> \<not> starts_with ''test:'' raw" for raw
    by (simp add: test_class_def test_normalize_identity_def)
  moreover have "cc_supported_types test_class = [''test'', ''test_alt'']" by (simp add: test_class_def)
  ultimately show ?thesis
    using test_connector.alone [OF rg] register_backend_ok [OF rg empty_registry_ok] by auto
qed

text \<open>Tracking answers only for the ids it was asked for, each at most once, in their order.\<close>

lemma track_asked:
  "test_track_outbound mo sids = Inr updates \<Longrightarrow> subseq (map su_external_id updates) sids"
  by (induction sids arbitrary: updates) (auto split: sum.splits if_splits)

lemma failed_send_was_posted:
  "fst (test_send mo m) = Inl (ConnectorSendError msg) \<Longrightarrow> \<not> isl (mo_config mo) \<Longrightarrow> snd (test_send mo m) = [m]"
  by (auto simp: test_send_def test_get_config_def or_empty_def split: sum.splits)

lemma unreachable_backend_accepts:
  "mo_config mo = Inl RequestException \<Longrightarrow> mo_sent mo = Some RequestException \<Longrightarrow>
     fst (test_send mo m) = Inr (''test-'' @ om_message_uuid m)"
  by (simp add: test_send_def test_get_config_def or_empty_def report_sent_def get_default_def)

end
