(* ===== verification/Application.thy ===== *)
theory Application
  imports Errors
begin

text \<open>
  The process around the service: \<open>controller.py\<close> with \<open>thread_manager.py\<close>,
  \<open>asyncio_.py\<close>, the stop of \<open>http_server.py\<close>, the master tenant of \<open>auth.py\<close>, the
  subscriptions of \<open>bus.py\<close> and the threads the plugins hand to the thread manager. What a
  thread or a library context does when it starts and stops is an argument: the exception it
  raises, if any.
\<close>

section \<open>Threads and contexts\<close>

datatype resource = ThreadManager | TokenRenewer | BusConsumer | Aio | ServiceCatalog

datatype life_event =
    Start string
  | Stop string
  | Enter resource
  | Leave resource
  | Serve

record life_env =
  le_start :: "string \<Rightarrow> exn option"
  le_stop :: "string \<Rightarrow> exn option"
  le_enter :: "resource \<Rightarrow> exn option"
  le_leave :: "resource \<Rightarrow> exn option"
  le_serve :: "exn option"

text \<open>\<open>ThreadManager.start\<close> and \<open>stop\<close>: the first wrapper that raises ends the loop.\<close>

fun start_wrappers :: "life_env \<Rightarrow> string list \<Rightarrow> exn option \<times> life_event list" where
  "start_wrappers env [] = (None, [])"
| "start_wrappers env (w # ws) =
     (case le_start env w of
        Some e \<Rightarrow> (Some e, [])
      | None \<Rightarrow> (case start_wrappers env ws of (r, ev) \<Rightarrow> (r, Start w # ev)))"

fun stop_wrappers :: "life_env \<Rightarrow> string list \<Rightarrow> exn option \<times> life_event list" where
  "stop_wrappers env [] = (None, [])"
| "stop_wrappers env (w # ws) =
     (case le_stop env w of
        Some e \<Rightarrow> (Some e, [Stop w])
      | None \<Rightarrow> (case stop_wrappers env ws of (r, ev) \<Rightarrow> (r, Stop w # ev)))"

text \<open>\<open>__enter__\<close> and \<open>__exit__\<close> of a context; none of them suppresses an exception.\<close>

definition enter_context :: "life_env \<Rightarrow> string list \<Rightarrow> resource \<Rightarrow> exn option \<times> life_event list" where
  "enter_context env ws r =
     (if r = ThreadManager then
        (case start_wrappers env ws of (None, ev) \<Rightarrow> (None, ev @ [Enter r]) | (Some e, ev) \<Rightarrow> (Some e, ev))
      else case le_enter env r of Some e \<Rightarrow> (Some e, []) | None \<Rightarrow> (None, [Enter r]))"

definition exit_context :: "life_env \<Rightarrow> string list \<Rightarrow> resource \<Rightarrow> exn option \<times> life_event list" where
  "exit_context env ws r =
     (if r = ThreadManager then (case stop_wrappers env ws of (x, ev) \<Rightarrow> (x, Leave r # ev))
      else (le_leave env r, [Leave r]))"

text \<open>
  \<open>Controller.run\<close>: an \<open>ExitStack\<close> leaves what was entered, innermost first, whatever raises;
  the last exception is the one that gets out.
\<close>

fun unwind :: "life_env \<Rightarrow> string list \<Rightarrow> resource list \<Rightarrow> exn option \<Rightarrow> exn option \<times> life_event list" where
  "unwind env ws [] pending = (pending, [])"
| "unwind env ws (r # rs) pending =
     (case exit_context env ws r of
        (x, ev) \<Rightarrow>
          (case unwind env ws rs (case x of Some e \<Rightarrow> Some e | None \<Rightarrow> pending) of
             (q, ev') \<Rightarrow> (q, ev @ ev')))"

fun run_stack :: "life_env \<Rightarrow> string list \<Rightarrow> resource list \<Rightarrow> resource list \<Rightarrow> exn option \<times> life_event list" where
  "run_stack env ws [] stack = (case unwind env ws stack (le_serve env) of (q, ev) \<Rightarrow> (q, Serve # ev))"
| "run_stack env ws (r # rs) stack =
     (case enter_context env ws r of
        (Some e, ev) \<Rightarrow> (case unwind env ws stack (Some e) of (q, ev') \<Rightarrow> (q, ev @ ev'))
      | (None, ev) \<Rightarrow> (case run_stack env ws rs (r # stack) of (q, ev') \<Rightarrow> (q, ev @ ev')))"

definition contexts :: "resource list" where
  "contexts = [ThreadManager, TokenRenewer, BusConsumer, Aio, ServiceCatalog]"

definition controller_run :: "life_env \<Rightarrow> string list \<Rightarrow> exn option \<times> life_event list" where
  "controller_run env ws = run_stack env ws contexts []"

text \<open>The threads the plugins manage, in the order the plugins are loaded.\<close>

fun managed_by :: "bool \<Rightarrow> string \<Rightarrow> string list" where
  "managed_by initialization_enabled plugin =
     (if plugin = ''presences'' \<and> initialization_enabled then [''presence_initialization'']
      else if plugin = ''connectors'' then [''connector_router''] else [])"

definition managed_wrappers :: "bool \<Rightarrow> string list \<Rightarrow> string list" where
  "managed_wrappers initialization_enabled plugins = concat (map (managed_by initialization_enabled) plugins)"

section \<open>What a run enters, it leaves\<close>

fun entered :: "life_event list \<Rightarrow> resource list" where
  "entered [] = []"
| "entered (Enter r # ev) = r # entered ev"
| "entered (_ # ev) = entered ev"

fun left :: "life_event list \<Rightarrow> resource list" where
  "left [] = []"
| "left (Leave r # ev) = r # left ev"
| "left (_ # ev) = left ev"

lemma entered_append [simp]: "entered (a @ b) = entered a @ entered b"
  by (induction a rule: entered.induct) simp_all

lemma left_append [simp]: "left (a @ b) = left a @ left b"
  by (induction a rule: left.induct) simp_all

lemma start_wrappers_trace:
  "entered (snd (start_wrappers env ws)) = []" "left (snd (start_wrappers env ws)) = []"
  "Serve \<notin> set (snd (start_wrappers env ws))"
  by (induction ws) (auto split: option.splits prod.splits)

lemma stop_wrappers_trace:
  "entered (snd (stop_wrappers env ws)) = []" "left (snd (stop_wrappers env ws)) = []"
  "Serve \<notin> set (snd (stop_wrappers env ws))"
  by (induction ws) (auto split: option.splits prod.splits)

lemma enter_context_trace:
  assumes "enter_context env ws r = (x, ev)"
  shows "entered ev = (if x = None then [r] else []) \<and> left ev = [] \<and> Serve \<notin> set ev"
  using assms start_wrappers_trace [of env ws]
  by (auto simp: enter_context_def split: if_splits option.splits prod.splits dest!: sym [of "Some _"])

lemma exit_context_trace:
  assumes "exit_context env ws r = (x, ev)"
  shows "entered ev = [] \<and> left ev = [r] \<and> Serve \<notin> set ev"
  using assms stop_wrappers_trace [of env ws]
  by (auto simp: exit_context_def split: if_splits prod.splits)

lemma unwind_trace:
  "unwind env ws rs p = (q, ev) \<Longrightarrow> entered ev = [] \<and> left ev = rs \<and> Serve \<notin> set ev \<and> (q = None \<longrightarrow> p = None)"
proof (induction rs arbitrary: p q ev)
  case (Cons r rs)
  obtain x ev1 where x: "exit_context env ws r = (x, ev1)" by fastforce
  obtain ev2 where u: "unwind env ws rs (case x of Some e \<Rightarrow> Some e | None \<Rightarrow> p) = (q, ev2)" and "ev = ev1 @ ev2"
    using Cons.prems by (auto simp: x split: prod.splits)
  with Cons.IH [OF u] exit_context_trace [OF x] show ?case by (cases x) auto
qed simp

lemma run_stack_trace:
  "run_stack env ws rs stack = (q, ev) \<Longrightarrow>
     \<exists>n \<le> length rs. entered ev = take n rs \<and> left ev = rev (take n rs) @ stack \<and>
       (Serve \<in> set ev \<longleftrightarrow> n = length rs) \<and> (q = None \<longrightarrow> n = length rs)"
proof (induction rs arbitrary: stack q ev)
  case Nil
  then obtain ev' where u: "unwind env ws stack (le_serve env) = (q, ev')" and "ev = Serve # ev'"
    by (auto split: prod.splits)
  with unwind_trace [OF u] show ?case by simp
next
  case (Cons r rs)
  obtain x ev1 where x: "enter_context env ws r = (x, ev1)" by fastforce
  note trace = enter_context_trace [OF x]
  show ?case
  proof (cases x)
    case (Some e)
    then obtain ev2 where u: "unwind env ws stack (Some e) = (q, ev2)" and "ev = ev1 @ ev2"
      using Cons.prems by (auto simp: x split: prod.splits)
    with unwind_trace [OF u] trace Some show ?thesis by (intro exI [of _ 0]) auto
  next
    case None
    then obtain ev2 where u: "run_stack env ws rs (r # stack) = (q, ev2)" and ev: "ev = ev1 @ ev2"
      using Cons.prems by (auto simp: x split: prod.splits)
    from Cons.IH [OF u] obtain n where "n \<le> length rs" "entered ev2 = take n rs"
      "left ev2 = rev (take n rs) @ r # stack" "Serve \<in> set ev2 \<longleftrightarrow> n = length rs" "q = None \<longrightarrow> n = length rs"
      by blast
    with trace None ev show ?thesis by (intro exI [of _ "Suc n"]) auto
  qed
qed

lemma start_all: "fst (start_wrappers env ws) = None \<Longrightarrow> snd (start_wrappers env ws) = map Start ws"
  by (induction ws) (auto split: option.splits prod.splits)

text \<open>
  A run leaves what it entered. Whatever raises, the contexts entered are the first few
  in their order, each is left once, in the reverse order, and requests are served exactly
  when all were entered; a run that did not serve ends with an exception.
\<close>

theorem run_leaves_what_it_entered:
  "\<exists>n \<le> length contexts. entered (snd (controller_run env ws)) = take n contexts \<and>
     left (snd (controller_run env ws)) = rev (take n contexts) \<and>
     (Serve \<in> set (snd (controller_run env ws)) \<longleftrightarrow> n = length contexts) \<and>
     (n = length contexts \<or> (\<exists>e. fst (controller_run env ws) = Some e))"
proof -
  obtain q ev where "controller_run env ws = (q, ev)" by fastforce
  moreover from this [unfolded controller_run_def] obtain n where "n \<le> length contexts"
    "entered ev = take n contexts" "left ev = rev (take n contexts)" "Serve \<in> set ev \<longleftrightarrow> n = length contexts"
    "q = None \<longrightarrow> n = length contexts"
    using run_stack_trace by fastforce
  ultimately show ?thesis by (intro exI [of _ n]) auto
qed

text \<open>
  The thread manager is the exception: when a thread cannot be started the ones started
  before it are not stopped, since the context was not entered.
\<close>

lemma failed_start_strands_threads:
  assumes "\<forall>u \<in> set us. le_start env u = None" and "le_start env w = Some e"
  shows "controller_run env (us @ w # vs) = (Some e, map Start us)"
proof -
  have "start_wrappers env (us @ w # vs) = (Some e, map Start us)"
    using assms by (induction us) simp_all
  then show ?thesis by (simp add: controller_run_def contexts_def enter_context_def)
qed

section \<open>Stopping\<close>











section \<open>The asyncio thread (asyncio\_.py)\<close>

datatype loop_thread = Unstarted | Alive | Finished

definition aio_start :: "loop_thread \<Rightarrow> exn + loop_thread" where
  "aio_start t =
     (case t of
        Alive \<Rightarrow> Inl (RuntimeError ''CoreAsyncio thread is already started'')
      | Finished \<Rightarrow> Inl (RuntimeError ''threads can only be started once'')
      | Unstarted \<Rightarrow> Inr Alive)"

definition aio_stop :: "loop_thread \<Rightarrow> exn + loop_thread" where
  "aio_stop t = (if t = Alive then Inr Finished else Inl (RuntimeError ''CoreAsyncio thread is not currently running''))"

lemma aio_lives_once: "aio_start t = Inr u \<Longrightarrow> aio_stop u = Inr v \<Longrightarrow> isl (aio_start v) \<and> isl (aio_stop v)"
  by (auto simp: aio_start_def aio_stop_def split: loop_thread.splits if_splits)

section \<open>The master tenant (auth.py)\<close>

definition init_master_tenant :: "uuid \<Rightarrow> uuid option \<Rightarrow> uuid option" where
  "init_master_tenant token_tenant _ = Some token_tenant"

definition get_master_tenant_uuid :: "uuid option \<Rightarrow> exn + uuid" where
  "get_master_tenant_uuid m = (case m of None \<Rightarrow> Inl NotInitializedException | Some t \<Rightarrow>
     if t = [] then Inl NotInitializedException else Inr t)"

text \<open>
  The controller takes the tenant of the first token only when none is configured, and the
  subscription is for the next token only: \<open>tokens\<close> lists the tenants of the tokens renewed.
\<close>

definition master_tenant_after :: "uuid option \<Rightarrow> uuid list \<Rightarrow> uuid option" where
  "master_tenant_after configured tokens =
     (if configured \<noteq> None \<and> configured \<noteq> Some [] then configured
      else case tokens of [] \<Rightarrow> configured | t # _ \<Rightarrow> init_master_tenant t configured)"

lemma master_tenant_stable:
  "get_master_tenant_uuid (master_tenant_after configured tokens) = Inr t \<Longrightarrow>
     get_master_tenant_uuid (master_tenant_after configured (tokens @ later)) = Inr t"
  by (auto simp: master_tenant_after_def get_master_tenant_uuid_def init_master_tenant_def split: list.splits
      option.splits if_splits)

definition master_tenant_status :: "uuid option \<Rightarrow> bool" where
  "master_tenant_status m \<longleftrightarrow> m \<noteq> None \<and> m \<noteq> Some []"

lemma master_tenant_status_iff: "master_tenant_status m \<longleftrightarrow> \<not> isl (get_master_tenant_uuid m)"
  by (auto simp: master_tenant_status_def get_master_tenant_uuid_def split: option.splits)

section \<open>Subscriptions (bus.py)\<close>

record 'h bus_consumer =
  bu_decorators :: "('h \<Rightarrow> 'h) list"
  bu_handlers :: "(string \<times> 'h) list"

definition bus_subscribe :: "string \<Rightarrow> 'h \<Rightarrow> 'h bus_consumer \<Rightarrow> 'h bus_consumer" where
  "bus_subscribe event handler b =
     b\<lparr>bu_handlers := bu_handlers b @ [(event, foldl (\<lambda>h d. d h) handler (bu_decorators b))]\<rparr>"

text \<open>
  The presences plugin sets the decorator that delays messages during an initialisation: it holds
  for whatever is subscribed afterwards, by any plugin, and for nothing subscribed before.
\<close>

lemma decorated_from_then_on:
  "bu_handlers (bus_subscribe e2 h2 ((bus_subscribe e1 h1 b)\<lparr>bu_decorators := [postpone]\<rparr>)) =
     bu_handlers b @ [(e1, foldl (\<lambda>h d. d h) h1 (bu_decorators b)), (e2, postpone h2)]"
  by (simp add: bus_subscribe_def)

end
