(* ===== verification/Database.thy ===== *)
theory Database
  imports Errors
begin

text \<open>
  How the service reaches PostgreSQL: the translation of the configured URI for asyncpg
  (\<open>database/async_helpers.py\<close>), with the query string as the list of its decoded pairs, and the
  script that creates the database (\<open>init_db.py\<close>).
\<close>

section \<open>The URI of the asynchronous engine\<close>

record database_uri =
  du_scheme :: string
  du_netloc :: string
  du_path :: string
  du_query :: "(string \<times> string) list"
  du_fragment :: string

type_synonym query_params = "(string, string list) dict"

text \<open>\<open>parse_qs\<close> groups the values of a key and drops blank ones; \<open>urlencode(..., doseq=True)\<close>.\<close>

definition add_param :: "query_params \<Rightarrow> string \<times> string \<Rightarrow> query_params" where
  "add_param d p =
     (if snd p = [] then d
      else dict_set (fst p) ((case dict_get d (fst p) of None \<Rightarrow> [] | Some vs \<Rightarrow> vs) @ [snd p]) d)"

definition parse_qs :: "(string \<times> string) list \<Rightarrow> query_params" where
  "parse_qs q = foldl add_param [] q"

definition urlencode :: "query_params \<Rightarrow> (string \<times> string) list" where
  "urlencode d = concat (map (\<lambda>(k, vs). map (Pair k) vs) d)"

definition POSTGRES_SERVER_SETTINGS_PARAMS :: "string list" where
  "POSTGRES_SERVER_SETTINGS_PARAMS = [''application_name'', ''search_path'', ''options'', ''statement_timeout'',
     ''lock_timeout'', ''idle_in_transaction_session_timeout'']"

record connect_args =
  ca_ssl :: bool
  ca_server_settings :: "(string, string) dict option"

definition collect_settings :: "query_params \<Rightarrow> (string, string) dict" where
  "collect_settings params =
     List.map_filter (\<lambda>k. map_option (\<lambda>vs. (k, hd vs)) (dict_get params k)) POSTGRES_SERVER_SETTINGS_PARAMS"

definition build_asyncpg_connect_args :: "database_uri \<Rightarrow> database_uri \<times> connect_args" where
  "build_asyncpg_connect_args parsed =
     (let params = parse_qs (du_query parsed);
          sslmode = (case dict_get params ''sslmode'' of None \<Rightarrow> ''disable'' | Some vs \<Rightarrow> hd vs);
          params1 = dict_pop ''sslmode'' params;
          server_settings = collect_settings params1;
          params2 = fold dict_pop POSTGRES_SERVER_SETTINGS_PARAMS params1
      in (parsed\<lparr>du_scheme := takeWhile (\<lambda>c. c \<noteq> CHR ''+'') (du_scheme parsed), du_query := urlencode params2\<rparr>,
          \<lparr>ca_ssl = sslmode \<notin> {''disable'', ''allow''},
           ca_server_settings = (if server_settings = [] then None else Some server_settings)\<rparr>))"

text \<open>\<open>init_async_db\<close>: the engine's URI and connection arguments; the pool has five connections.\<close>

definition init_async_db :: "database_uri \<Rightarrow> database_uri \<times> connect_args" where
  "init_async_db uri =
     (case build_asyncpg_connect_args uri of
        (driver_uri, args) \<Rightarrow> (driver_uri\<lparr>du_scheme := ''postgresql+asyncpg''\<rparr>, args))"

section \<open>Nothing of the query is lost\<close>

definition values_of :: "string \<Rightarrow> (string \<times> string) list \<Rightarrow> string list" where
  "values_of k q = map snd (filter (\<lambda>p. fst p = k) q)"

lemma values_of_simps [simp]:
  "values_of k [] = []" "values_of k (q @ q') = values_of k q @ values_of k q'"
  "values_of k (p # q) = (if fst p = k then [snd p] else []) @ values_of k q"
  by (simp_all add: values_of_def)

text \<open>A well-formed parameter dictionary is one \<open>parse_qs\<close> can answer.\<close>

definition params_ok :: "query_params \<Rightarrow> bool" where
  "params_ok d \<longleftrightarrow> dict_wf d \<and> (\<forall>(k, vs) \<in> set d. vs \<noteq> [] \<and> [] \<notin> set vs)"

lemma parse_qs_snoc: "parse_qs (q @ [p]) = add_param (parse_qs q) p"
  by (simp add: parse_qs_def)

lemma set_dict_set: "dict_wf d \<Longrightarrow> (k', x) \<in> set (dict_set k v d) \<longleftrightarrow> (if k' = k then x = v else (k', x) \<in> set d)"
  by (auto simp: dict_items_iff dict_wf_set)

lemma parse_qs_ok: "params_ok (parse_qs q)"
proof (induction q rule: rev_induct)
  case (snoc p q)
  then have wf: "dict_wf (parse_qs q)" by (simp add: params_ok_def)
  show ?case
  proof (cases "snd p = []")
    case False
    moreover have "\<forall>vs. dict_get (parse_qs q) (fst p) = Some vs \<longrightarrow> [] \<notin> set vs"
      using snoc by (auto simp: params_ok_def dest: map_of_SomeD)
    ultimately show ?thesis
      using snoc wf by (auto simp: parse_qs_snoc add_param_def params_ok_def dict_wf_set set_dict_set
          split: option.split if_splits)
  qed (use snoc in \<open>simp add: parse_qs_snoc add_param_def\<close>)
qed (simp add: parse_qs_def params_ok_def)

definition param_values :: "query_params \<Rightarrow> string \<Rightarrow> string list" where
  "param_values d k = (case dict_get d k of None \<Rightarrow> [] | Some vs \<Rightarrow> vs)"

lemma parse_qs_values: "param_values (parse_qs q) k = filter (\<lambda>v. v \<noteq> []) (values_of k q)"
proof (induction q rule: rev_induct)
  case (snoc p q)
  then show ?case by (auto simp: parse_qs_snoc add_param_def param_values_def split: option.splits)
qed (simp add: parse_qs_def param_values_def)


lemma add_params_key:
  "k \<notin> fst ` set acc \<Longrightarrow> [] \<notin> set vs \<Longrightarrow> us \<noteq> [] \<Longrightarrow>
     foldl add_param (acc @ [(k, us)]) (map (Pair k) vs) = acc @ [(k, us @ vs)]"
proof (induction vs arbitrary: us)
  case (Cons v vs)
  then have "dict_get acc k = None" by (simp add: map_of_eq_None_iff)
  then have "dict_get (acc @ [(k, us)]) k = Some us" by (simp add: map_add_def)
  moreover have "dict_set k (us @ [v]) (acc @ [(k, us)]) = acc @ [(k, us @ [v])]"
    using Cons.prems(1) by (induction acc) auto
  moreover have "v \<noteq> []" using Cons.prems(2) by auto
  ultimately have "add_param (acc @ [(k, us)]) (k, v) = acc @ [(k, us @ [v])]" by (simp add: add_param_def)
  with Cons.IH [of "us @ [v]"] Cons.prems show ?case by simp
qed simp

lemma parse_urlencode: "params_ok d \<Longrightarrow> parse_qs (urlencode d) = d"
proof -
  have "foldl add_param acc (urlencode d) = acc @ d"
    if "params_ok d" and "fst ` set acc \<inter> fst ` set d = {}" for acc
    using that
  proof (induction d arbitrary: acc)
    case (Cons p d)
    obtain k v vs where p: "p = (k, v # vs)" "v \<noteq> []" "[] \<notin> set vs"
      using Cons.prems(1) by (cases p; cases "snd p") (auto simp: params_ok_def)
    have k: "k \<notin> fst ` set acc" "k \<notin> fst ` set d" using Cons.prems by (auto simp: p params_ok_def dict_wf_def)
    have "dict_get acc k = None" using k by (simp add: map_of_eq_None_iff)
    then have new: "add_param acc (k, v) = acc @ [(k, [v])]"
      using p(2) k by (simp add: add_param_def dict_set_new)
    have "foldl add_param (acc @ [(k, v # vs)]) (urlencode d) = (acc @ [(k, v # vs)]) @ d"
      using Cons.prems k by (intro Cons.IH) (auto simp: params_ok_def dict_wf_def)
    moreover have "foldl add_param (acc @ [(k, [v])]) (map (Pair k) vs) = acc @ [(k, v # vs)]"
      using add_params_key [OF k(1) p(3), of "[v]"] by simp
    ultimately show ?case by (simp add: p urlencode_def new)
  qed (simp add: urlencode_def)
  then show "params_ok d \<Longrightarrow> parse_qs (urlencode d) = d" by (simp add: parse_qs_def)
qed

lemma get_fold_pop: "dict_get (fold dict_pop ks d) k = (if k \<in> set ks then None else dict_get d k)"
  by (induction ks arbitrary: d) auto

lemma params_ok_pop: "params_ok d \<Longrightarrow> params_ok (dict_pop k d)"
  by (auto simp: params_ok_def AList.delete_eq dict_wf_def distinct_map_filter)

lemma params_ok_fold_pop: "params_ok d \<Longrightarrow> params_ok (fold dict_pop ks d)"
  by (induction ks arbitrary: d) (simp_all add: params_ok_pop)

definition routed_keys :: "string set" where
  "routed_keys = insert ''sslmode'' (set POSTGRES_SERVER_SETTINGS_PARAMS)"

definition driver_params :: "database_uri \<Rightarrow> query_params" where
  "driver_params u = fold dict_pop POSTGRES_SERVER_SETTINGS_PARAMS (dict_pop ''sslmode'' (parse_qs (du_query u)))"

lemma driver_params_ok: "params_ok (driver_params u)"
  by (simp add: driver_params_def params_ok_fold_pop params_ok_pop parse_qs_ok)

lemma driver_params_get:
  "dict_get (driver_params u) k = (if k \<in> routed_keys then None else dict_get (parse_qs (du_query u)) k)"
  by (auto simp: driver_params_def get_fold_pop routed_keys_def)

lemma driver_query: "du_query (fst (build_asyncpg_connect_args u)) = urlencode (driver_params u)"
  by (simp add: build_asyncpg_connect_args_def Let_def driver_params_def)

lemma takeWhile_twice: "takeWhile P (takeWhile P xs) = takeWhile P xs"
  by (induction xs) (auto dest: set_takeWhileD)

lemma pop_absent: "dict_get d k = None \<Longrightarrow> dict_pop k d = d"
  by (induction d) (auto split: if_splits)

lemma driver_uri_stable:
  "build_asyncpg_connect_args (fst (build_asyncpg_connect_args u)) =
     (fst (build_asyncpg_connect_args u), \<lparr>ca_ssl = False, ca_server_settings = None\<rparr>)"
proof -
  let ?d = "fst (build_asyncpg_connect_args u)"
  have parsed: "parse_qs (du_query ?d) = driver_params u"
    by (simp add: driver_query parse_urlencode driver_params_ok)
  have none: "dict_get (driver_params u) k = None" if "k \<in> routed_keys" for k
    using that by (simp add: driver_params_get)
  have ssl: "dict_get (driver_params u) ''sslmode'' = None" by (rule none) (simp add: routed_keys_def)
  have "\<forall>k \<in> set POSTGRES_SERVER_SETTINGS_PARAMS. dict_get (driver_params u) k = None"
    using none by (simp add: routed_keys_def)
  then have "collect_settings (driver_params u) = []" and
    "fold dict_pop POSTGRES_SERVER_SETTINGS_PARAMS (driver_params u) = driver_params u"
    by (simp_all add: collect_settings_def List.map_filter_def filter_empty_conv POSTGRES_SERVER_SETTINGS_PARAMS_def
        pop_absent)
  moreover have "urlencode (driver_params u) = du_query ?d" by (simp add: driver_query)
  moreover have "takeWhile (\<lambda>c. c \<noteq> CHR ''+'') (du_scheme ?d) = du_scheme ?d"
    by (simp add: build_asyncpg_connect_args_def Let_def takeWhile_twice)
  ultimately show ?thesis
    using ssl by (subst build_asyncpg_connect_args_def) (simp add: parsed Let_def pop_absent)
qed


text \<open>The URI of the engine translates back to the one the listener connects with.\<close>

lemma engine_uri_is_driver_uri:
  assumes "du_scheme (fst (build_asyncpg_connect_args u)) = ''postgresql''"
  shows "fst (build_asyncpg_connect_args (fst (init_async_db u))) = fst (build_asyncpg_connect_args u)"
proof -
  let ?d = "fst (build_asyncpg_connect_args u)"
  have "parse_qs (du_query ?d) = driver_params u"
    by (simp add: driver_query parse_urlencode driver_params_ok)
  moreover have "fst (build_asyncpg_connect_args ?d) = ?d"
    by (simp add: driver_uri_stable)
  ultimately show ?thesis
    using assms by (simp add: init_async_db_def case_prod_beta build_asyncpg_connect_args_def Let_def)
qed

lemma sslmode_values:
  "ca_ssl (snd (build_asyncpg_connect_args u)) \<longleftrightarrow>
     (case filter (\<lambda>v. v \<noteq> []) (values_of ''sslmode'' (du_query u)) of
        [] \<Rightarrow> False | mode # _ \<Rightarrow> mode \<noteq> ''disable'' \<and> mode \<noteq> ''allow'')"
proof -
  have "\<forall>vs. dict_get (parse_qs (du_query u)) ''sslmode'' = Some vs \<longrightarrow> vs \<noteq> []"
    using parse_qs_ok [of "du_query u"] by (auto simp: params_ok_def dest: map_of_SomeD)
  then show ?thesis
    unfolding parse_qs_values [symmetric]
    by (auto simp: build_asyncpg_connect_args_def Let_def param_values_def split: option.splits list.splits)
qed

section \<open>Creating the database (init\_db.py)\<close>

record server =
  sr_users :: "(string \<times> string) list"          \<comment> \<open>with their passwords\<close>
  sr_databases :: "(string \<times> string) list"      \<comment> \<open>with their owners\<close>
  sr_extensions :: "(string \<times> string) list"     \<comment> \<open>per database\<close>

record init_args =
  ia_db :: string
  ia_owner :: string
  ia_password :: string

text \<open>
  \<open>connect\<close> tells whether each attempt to connect succeeds; the result is the number of
  quarter seconds slept, or None when the script exits with an error.
\<close>

fun connect_attempts :: "bool list \<Rightarrow> nat \<Rightarrow> nat option" where
  "connect_attempts [] slept = None"
| "connect_attempts (True # _) slept = Some slept"
| "connect_attempts (False # rest) slept = connect_attempts rest (Suc slept)"

definition create_database :: "init_args \<Rightarrow> server \<Rightarrow> server" where
  "create_database args s =
     (let s1 = (if dict_get (sr_users s) (ia_owner args) \<noteq> None then s
                else s\<lparr>sr_users := sr_users s @ [(ia_owner args, ia_password args)]\<rparr>);
          s2 = (if dict_get (sr_databases s1) (ia_db args) \<noteq> None then s1
                else s1\<lparr>sr_databases := sr_databases s1 @ [(ia_db args, ia_owner args)]\<rparr>)
      in s2)"

definition create_db_extensions :: "string \<Rightarrow> string list \<Rightarrow> server \<Rightarrow> server" where
  "create_db_extensions db names s =
     s\<lparr>sr_extensions := sr_extensions s @ filter (\<lambda>e. e \<notin> set (sr_extensions s)) (map (Pair db) names)\<rparr>"

text \<open>\<open>chatd_db\<close> is the database of \<open>--chatd_db_uri\<close>.\<close>

definition init_db_main :: "init_args \<Rightarrow> string \<Rightarrow> bool list \<Rightarrow> server \<Rightarrow> server option" where
  "init_db_main args chatd_db connect s =
     (case connect_attempts (take 40 connect) 0 of
        None \<Rightarrow> None
      | Some _ \<Rightarrow> Some (create_db_extensions chatd_db [''uuid-ossp'', ''unaccent''] (create_database args s)))"

lemma connect_attempts_bound: "connect_attempts ts n = Some m \<Longrightarrow> m < n + length ts"
  by (induction ts n rule: connect_attempts.induct) auto

lemma created:
  "dict_get (sr_users (create_database args s)) (ia_owner args) \<noteq> None"
  "dict_get (sr_databases (create_database args s)) (ia_db args) \<noteq> None"
  by (simp_all add: create_database_def Let_def map_add_def split: option.split)

lemma nothing_to_create:
  "dict_get (sr_users s) (ia_owner args) \<noteq> None \<Longrightarrow> dict_get (sr_databases s) (ia_db args) \<noteq> None \<Longrightarrow>
     create_database args s = s"
  by (simp add: create_database_def)

lemma extensions_frame:
  "sr_users (create_db_extensions db names s) = sr_users s"
  "sr_databases (create_db_extensions db names s) = sr_databases s"
  "create_db_extensions db names (create_db_extensions db names s) = create_db_extensions db names s"
  by (auto simp: create_db_extensions_def filter_empty_conv)

lemma init_db_idempotent:
  assumes "init_db_main args db connect s = Some s'" and "True \<in> set (take 40 connect')"
  shows "init_db_main args db connect' s' = Some s' \<and> dict_get (sr_users s') (ia_owner args) \<noteq> None \<and>
     dict_get (sr_databases s') (ia_db args) \<noteq> None"
proof -
  have "connect_attempts ts n \<noteq> None" if "True \<in> set ts" for ts n
    using that by (induction ts n rule: connect_attempts.induct) auto
  then obtain m where m: "connect_attempts (take 40 connect') 0 = Some m" using assms(2) by fastforce
  have s': "s' = create_db_extensions db [''uuid-ossp'', ''unaccent''] (create_database args s)"
    using assms(1) by (simp add: init_db_main_def split: option.splits)
  then have there: "dict_get (sr_users s') (ia_owner args) \<noteq> None" "dict_get (sr_databases s') (ia_db args) \<noteq> None"
    using created [where s = s and args = args] by (simp_all only: extensions_frame not_False_eq_True)
  then have "create_database args s' = s'" by (rule nothing_to_create)
  then have "init_db_main args db connect' s' = Some s'"
    unfolding init_db_main_def m by (simp only: option.case) (simp only: s' extensions_frame)
  with there show ?thesis by blast
qed

end
