(* ===== verification/Spec2Isabelle.thy ===== *)
theory Spec2Isabelle
  imports Hooks PresenceBus Rooms Teams RoomCreation RunnerLife Listen History Schema TestConnector
    Config Application Database
begin

text \<open>
  wazo-chatd keeps, for the users of a telephony platform, their presence (state, sessions, lines
  and calls) and their conversations (rooms and messages). Messages travel inside the platform, or
  leave and enter it through connectors (SMS providers and the like). This development models the
  service in \<open>src/wazo_chatd\<close> and states what makes each part correct. Paths below are relative
  to that directory.

  \<^bold>\<open>The parts and how they interact.\<close> Every HTTP request and every bus message runs in a database
  session over the tables of \<open>database/models.py\<close>; the data access objects of
  \<open>database/queries\<close> are the only code that touches them. Three groups of components sit on top.

  \<^item> \<^bold>\<open>Presence\<close> (\<open>plugins/presences\<close>): an initiator thread copies users, lines, sessions,
    tokens and channels from the other daemons into the tables; bus handlers keep them up to date,
    delaying what arrives during an initialisation; HTTP resources read and write presences. The
    Teams plugin (\<open>plugins/teams_presence\<close>) keeps a subscription per connected user and writes
    presences when Microsoft notifies it.
  \<^item> \<^bold>\<open>Rooms\<close> (\<open>plugins/rooms\<close>): HTTP resources over a service with three hook points, which the
    connectors plugin fills: resolving participants, checking that a room can be reached, turning a
    message with a sender identity into a pending delivery.
  \<^item> \<^bold>\<open>Connectors\<close> (\<open>plugins/connectors\<close>): the registry of installed backends, the store of
    configured instances, the router (webhooks, hooks, connector lists), the identity service and
    its HTTP resources, and the delivery loop: a runner thread that listens for new deliveries,
    queues inbound events, polls connectors, and runs one executor session per attempt.

  \<^bold>\<open>Which theory models what.\<close>

  \<^item> \<open>Prelude\<close>: Python dictionaries as association lists, tables as lists of rows with a key,
    runs of a step relation (\<open>reaches\<close>) and the locale \<open>invariant_system\<close>, which every machine
    below instantiates. \<open>Errors\<close>: all exceptions as one datatype, with status and error id.
  \<^item> \<open>Models\<close>: the tables and enumerations of \<open>database/models.py\<close> and
    \<open>database/delivery.py\<close>. \<open>Integrity\<close>: keys, unique constraints, foreign keys and participants as
    the invariants \<open>presence_ok\<close>, \<open>chat_ok\<close> and \<open>log_ok\<close>, and the cascades of a delete.
    \<open>Schema\<close>: the declared columns and constraints as data, the Alembic scripts of
    \<open>src/alembic/versions\<close> as statements run on a schema in a database with given extensions,
    and what the constraints mean; its lemmas compare the models with what the scripts build and
    with \<open>Integrity\<close>.
  \<^item> \<open>RoomQueries\<close>, \<open>IdentityQueries\<close>, \<open>PresenceQueries\<close>, \<open>PresenceIntegrity\<close>: the data
    access objects, one definition per method, and that they keep the constraints.
  \<^item> \<open>Helpers\<close>, \<open>ConnectorTypes\<close>, \<open>Registry\<close>, \<open>Cadence\<close>, \<open>Store\<close> and \<open>Hooks\<close>,
    \<open>MessageQueue\<close>, \<open>AsyncLock\<close>: \<open>helpers.py\<close>, \<open>types.py\<close> with \<open>connector.py\<close>,
    \<open>registry.py\<close>, \<open>cadence.py\<close>, \<open>store.py\<close> of the connectors plugin, and
    \<open>hooks.py\<close>, \<open>queue.py\<close>, \<open>async_lock.py\<close> of \<open>plugin_helpers\<close>. The store, the queue and
    the lock are also machines whose threads or tasks interleave at every step the code can be
    preempted at.
  \<^item> \<open>Notifier\<close>: the payloads and events of both notifiers; a notifier is the list of events it
    publishes.
  \<^item> \<open>Executor\<close> and \<open>Inbound\<close>: \<open>executor.py\<close>. A session is a state of the uncommitted
    tables, the tables at its start, the events published so far and the connector store; operations
    transform it and \<open>session_scope\<close> commits or rolls back. \<open>Inbound\<close> holds the guarantees of
    one session after another, \<open>History\<close> the invariant of any sequence of sessions, posted messages
    and removed tenants: the schema, and the records of every delivery against its retry count. \<open>RoomCreation\<close> takes the search for a room apart into the steps
    that concurrent sessions interleave.
  \<^item> \<open>Runner\<close> and \<open>Pollers\<close>: \<open>runner.py\<close>, the task table with its semaphore, timers,
    notifications, recovery and restarts, and the pollers with one definition per turn.
    \<open>Owed\<close> says which deliveries the tables still owe an attempt and what every session does to
    them; \<open>Listen\<close> interleaves the LISTEN connection, its monitor and its recovery scans with
    commits, notifications and attempts; \<open>RunnerLife\<close> is the thread that runs the loop, with
    its restarts and its shutdown, and the start and stop of both runners.
  \<^item> \<open>ConnectorSchemas\<close>, \<open>Services\<close>, \<open>Router\<close>, \<open>ConnectorApi\<close>: \<open>schemas.py\<close>,
    \<open>services.py\<close>, \<open>router.py\<close>, \<open>http.py\<close> and \<open>bus_consume.py\<close>, with the commit or
    rollback Flask runs after a request (\<open>http_server.py\<close>). A request is a function from the
    request state to a result or exception and the new state. \<open>Rooms\<close>: the room service, its
    hooks and its HTTP resources, in the same style.
  \<^item> \<open>Initiator\<close>, \<open>InitiatorSpec\<close>, \<open>Presence\<close>, \<open>PresenceBus\<close>: \<open>initiator.py\<close>, the
    abstract specification of an initialisation (the tables a consistent set of answers describes)
    with its refinement proof, the presence schemas, service and resources, and the bus handlers
    with the initiator thread.
  \<^item> \<open>TeamsSubscriptions\<close> and \<open>Teams\<close>: \<open>subscriptions.py\<close> as a coroutine cut at its awaits,
    and \<open>services.py\<close>, \<open>bus_consume.py\<close>, \<open>http.py\<close> of the Teams plugin as runs over lists
    of inputs.
  \<^item> \<open>Config\<close>: \<open>config.py\<close>, \<open>plugins/config\<close> and what the pool and the delivery runner
    take from a configuration. \<open>Application\<close>: \<open>controller.py\<close> with the thread manager, the
    asyncio thread, the master tenant and the bus subscriptions. \<open>Database\<close>: the URI asyncpg
    connects with (\<open>database/async_helpers.py\<close>) and \<open>init_db.py\<close>.
  \<^item> \<open>TestConnector\<close>: the connector of the integration suite, an instance of the locale of
    what the other theories assume of a connector.

  \<^bold>\<open>What is shown.\<close> Each component has its invariant and that every operation keeps it: the
  constraints of the tables under the executor, the bus and the initialisation; the coherence of
  registry, store, queue, lock, runner and Teams machines. Besides: an initialisation refines its
  specification; a capability lookup is memoised without ever being stale; inbound messages are
  stored once, in the right tenant, and DELIVERED is final for reports; a failing delivery ends after four
  attempts, its records agree with its retry count, and no delivery is forgotten, neither by the
  runner nor by the listening connection; a shutdown ends a runner; waits, intervals, retries, concurrency and renewals stay in
  their bounds; a webhook is verified before it is queued; what the identity list offers, and what
  a message with such an identity does; what an accepted presence or identity reads back as. Some
  theorems state behaviour that is not what the code means to do; they are named in the findings of
  the manifest. They include the room two concurrent inbound messages create twice, the delivery a recovery
  scan sends again, the sent message whose record is refused, the rejected
  identity update that is committed, the initialisation a moved user blocks, and the Teams user who
  stays connected without a subscription.

  \<^bold>\<open>Conventions.\<close> Strings are character lists compared for equality, message bodies lists of code
  points, times seconds (reals where the code has floats). A dictionary keeps its insertion order. A
  fallible operation returns a sum, \<open>Inl\<close> the exception. What the program gets from outside (the
  clock, new UUIDs, random numbers, SHA-256, collations and LIKE, JSON and UUID parsing, answers of
  wazo-auth, confd, amid, calld, Microsoft and of connectors) is an argument or a field of an
  environment record; theorems hold for every value of it unless a hypothesis says otherwise.

  \<^bold>\<open>Loops and bounds.\<close> All definitions but one are total and none has fuel: loops are structural
  recursion over the rows, attempts or inputs. The monitor of the listening connection may run forever
  and is a partial function whose value is None then; that it ends is proved where it does. Paging through a remote collection terminates because every
  page read shrinks what is missing of the reported total; the retry loop of a delivery recurses over
  the attempts that are made, and the theorem about it says that four suffice. Machines have no bound on the number of steps,
  threads or tasks. PostgreSQL is modelled at the level of statements: a statement either applies or
  raises the error of the first constraint it breaks; sequences never repeat an id; concurrent
  sessions are modelled where the code relies on them (row locks of deliveries, room creation).

  \<^bold>\<open>Not modelled.\<close> The main program (\<open>main.py\<close>): library calls in a row. The \<open>load\<close> of each plugin, but for the hooks the
  connectors register, the threads that are managed and the decorated subscriptions: it builds
  objects and registers URLs. Token and ACL checks and visible tenants (\<open>http.py\<close>,
  \<open>plugin_helpers/tenant.py\<close>): wrappers around xivo, so the user and the tenants of a token are
  arguments. The \<open>api\<close> and \<open>status\<close> plugins answer what yaml and the aggregator of xivo
  say. WSGI, ORM, AMQP and asyncio themselves: their documented behaviour is in the machines. Human
  readable messages and logging. Connectors other than the test connector: they are
  installed separately, and are records of functions here. The integration tests and mock servers.
\<close>

end
